(* ===== verification/Prelude.thy ===== *)
theory Prelude
  imports Main "HOL-Library.Multiset" "HOL-Library.Word" "HOL-Library.Char_ord"
    "HOL-Library.List_Lexorder"
begin

text \<open>
  What the components share: the pieces of Go's standard library that the code calls
  (\<open>strings\<close>, \<open>strconv\<close>, \<open>time\<close>, \<open>errors\<close>, \<open>sort.Slice\<close>), each as an executable
  definition, and the lemmas and simplification rules about them.

  Strings are byte lists, as in Go. \<open>strings.TrimSpace\<close> is modelled with the UTF-8
  encodings of every Unicode white space character; \<open>strings.ToLower\<close> maps the ASCII
  letters and leaves bytes from 0x80 on alone (the code lowers only host names, state
  names, action types and error texts).
  A \<open>time.Time\<close> is the number of nanoseconds since Go's zero time, so \<open>IsZero\<close> is
  \<open>t = 0\<close>, and \<open>UTC()\<close>, which changes the location and not the instant, is the identity.
  A \<open>time.Duration\<close> is its number of nanoseconds.
\<close>

named_theorems go_simps "definitions of the small Go library functions"
named_theorems trim_simps "facts about strings.TrimSpace"

section \<open>Byte strings\<close>

type_synonym gostr = "char list"

definition has_prefix :: "gostr \<Rightarrow> gostr \<Rightarrow> bool" where
  "has_prefix s p \<longleftrightarrow> take (length p) s = p"

definition has_suffix :: "gostr \<Rightarrow> gostr \<Rightarrow> bool" where
  "has_suffix s p \<longleftrightarrow> length p \<le> length s \<and> drop (length s - length p) s = p"

definition trim_prefix :: "gostr \<Rightarrow> gostr \<Rightarrow> gostr" where
  "trim_prefix s p = (if has_prefix s p then drop (length p) s else s)"

definition trim_suffix :: "gostr \<Rightarrow> gostr \<Rightarrow> gostr" where
  "trim_suffix s p = (if has_suffix s p then take (length s - length p) s else s)"

primrec contains :: "gostr \<Rightarrow> gostr \<Rightarrow> bool" where
  "contains [] sub = (sub = [])"
| "contains (c # s) sub = (has_prefix (c # s) sub \<or> contains s sub)"

primrec index_of :: "gostr \<Rightarrow> gostr \<Rightarrow> nat option" where
  "index_of [] sub = (if sub = [] then Some 0 else None)"
| "index_of (c # s) sub =
     (if has_prefix (c # s) sub then Some 0 else map_option Suc (index_of s sub))"

fun join :: "gostr list \<Rightarrow> gostr \<Rightarrow> gostr" where
  "join [] sep = []"
| "join [s] sep = s"
| "join (s # t # ss) sep = s @ sep @ join (t # ss) sep"

lemma has_prefix_iff: "has_prefix s p \<longleftrightarrow> (\<exists>t. s = p @ t)"
  by (metis append_eq_conv_conj append_take_drop_id has_prefix_def)

lemma has_suffix_iff: "has_suffix s p \<longleftrightarrow> (\<exists>t. s = t @ p)"
proof
  assume "has_suffix s p"
  then have "s = take (length s - length p) s @ p"
    unfolding has_suffix_def by (metis append_take_drop_id)
  then show "\<exists>t. s = t @ p" ..
qed (auto simp: has_suffix_def)

lemma has_prefix_Nil [simp]: "has_prefix s []"
  by (simp add: has_prefix_def)

lemma has_prefix_append [simp]: "has_prefix (p @ t) p"
  by (simp add: has_prefix_def)

lemma contains_iff: "contains s sub \<longleftrightarrow> (\<exists>a b. s = a @ sub @ b)"
proof (induction s)
  case Nil
  then show ?case by simp
next
  case (Cons c s)
  show ?case
  proof
    assume "contains (c # s) sub"
    then consider "has_prefix (c # s) sub" | "contains s sub" by auto
    then show "\<exists>a b. c # s = a @ sub @ b"
    proof cases
      case 1
      then obtain t where "c # s = [] @ sub @ t" by (auto simp: has_prefix_iff)
      then show ?thesis by blast
    next
      case 2
      with Cons.IH obtain a b where "c # s = (c # a) @ sub @ b" by auto
      then show ?thesis by blast
    qed
  next
    assume "\<exists>a b. c # s = a @ sub @ b"
    then obtain a b where ab: "c # s = a @ sub @ b" by blast
    show "contains (c # s) sub"
    proof (cases a)
      case Nil
      with ab have "has_prefix (c # s) sub" by (simp add: has_prefix_iff)
      then show ?thesis by simp
    next
      case (Cons d a')
      with ab have "s = a' @ sub @ b" by simp
      with Cons.IH show ?thesis by auto
    qed
  qed
qed

lemma index_of_Some: "index_of s sub = Some i \<Longrightarrow> i + length sub \<le> length s \<and> has_prefix (drop i s) sub"
proof (induction s arbitrary: i)
  case Nil
  then show ?case by (simp split: if_splits)
next
  case (Cons c s)
  show ?case
  proof (cases "has_prefix (c # s) sub")
    case True
    then have "length sub \<le> length (c # s)"
      by (metis has_prefix_iff length_append le_add1)
    with True Cons.prems show ?thesis by simp
  next
    case False
    with Cons.prems obtain j where "index_of s sub = Some j" "i = Suc j" by auto
    with Cons.IH [of j] show ?thesis by simp
  qed
qed


text \<open>\<open>strings.Split\<close> with a non-empty separator \<open>c # cs\<close> (the code never splits at the
  empty one), and \<open>strings.ReplaceAll\<close>, which is a join of the parts.\<close>

function split_at :: "gostr \<Rightarrow> char \<Rightarrow> gostr \<Rightarrow> gostr list" where
  "split_at s c cs =
     (case index_of s (c # cs) of
        None \<Rightarrow> [s]
      | Some i \<Rightarrow> take i s # split_at (drop (i + length (c # cs)) s) c cs)"
  by pat_completeness auto
termination
  by (relation "measure (\<lambda>(s, c, cs). length s)") (auto dest: index_of_Some)

declare split_at.simps [simp del]

definition replace_all :: "gostr \<Rightarrow> char \<Rightarrow> gostr \<Rightarrow> gostr \<Rightarrow> gostr" where
  "replace_all s c cs new = join (split_at s c cs) new"

lemma split_at_nonempty: "split_at s c cs \<noteq> []"
  by (subst split_at.simps) (simp split: option.split)

subsection \<open>TrimSpace\<close>

definition space_encodings :: "gostr list" where
  "space_encodings =
     [[CHR 0x09], [CHR 0x0A], [CHR 0x0B], [CHR 0x0C], [CHR 0x0D], [CHR 0x20],
      [CHR 0xC2, CHR 0x85], [CHR 0xC2, CHR 0xA0], [CHR 0xE1, CHR 0x9A, CHR 0x80]] @
     map (\<lambda>c. [CHR 0xE2, CHR 0x80, c])
       [CHR 0x80, CHR 0x81, CHR 0x82, CHR 0x83, CHR 0x84, CHR 0x85, CHR 0x86, CHR 0x87,
        CHR 0x88, CHR 0x89, CHR 0x8A, CHR 0xA8, CHR 0xA9, CHR 0xAF] @
     [[CHR 0xE2, CHR 0x81, CHR 0x9F], [CHR 0xE3, CHR 0x80, CHR 0x80]]"

function trim_by :: "gostr list \<Rightarrow> gostr \<Rightarrow> gostr" where
  "trim_by encs s =
     (case find (\<lambda>e. e \<noteq> [] \<and> has_prefix s e) encs of
        None \<Rightarrow> s
      | Some e \<Rightarrow> trim_by encs (drop (length e) s))"
  by pat_completeness auto
termination
proof (relation "measure (\<lambda>(encs, s). length s)", goal_cases)
  case (2 encs s e)
  then have "e \<noteq> []" "has_prefix s e" by (auto simp: find_Some_iff)
  then show ?case by (auto simp: has_prefix_iff)
qed simp

declare trim_by.simps [simp del]

definition trim_left :: "gostr \<Rightarrow> gostr" where
  "trim_left s = trim_by space_encodings s"

definition trim_right :: "gostr \<Rightarrow> gostr" where
  "trim_right s = rev (trim_by (map rev space_encodings) (rev s))"

definition trim_space :: "gostr \<Rightarrow> gostr" where
  "trim_space s = trim_right (trim_left s)"

abbreviation blank :: "gostr \<Rightarrow> bool" where
  "blank s \<equiv> trim_space s = []"

lemma trim_nil [simp]: "trim_space [] = []"
  by code_simp

definition no_lead :: "gostr list \<Rightarrow> gostr \<Rightarrow> bool" where
  "no_lead encs s \<longleftrightarrow> (\<forall>e\<in>set encs. e \<noteq> [] \<longrightarrow> \<not> has_prefix s e)"

definition trimmed :: "gostr \<Rightarrow> bool" where
  "trimmed s \<longleftrightarrow> no_lead space_encodings s \<and> no_lead (map rev space_encodings) (rev s)"

lemma trim_by_no_lead: "no_lead encs (trim_by encs s)"
proof (induction encs s rule: trim_by.induct)
  case (1 encs s)
  show ?case
  proof (cases "find (\<lambda>e. e \<noteq> [] \<and> has_prefix s e) encs")
    case None
    then have "trim_by encs s = s" by (subst trim_by.simps) simp
    with None show ?thesis by (auto simp: find_None_iff no_lead_def)
  next
    case (Some e)
    with 1 show ?thesis by (subst trim_by.simps) simp
  qed
qed

lemma trim_by_suffix: "\<exists>p. s = p @ trim_by encs s"
proof (induction encs s rule: trim_by.induct)
  case (1 encs s)
  show ?case
  proof (cases "find (\<lambda>e. e \<noteq> [] \<and> has_prefix s e) encs")
    case None
    then show ?thesis by (subst trim_by.simps) simp
  next
    case (Some e)
    with 1 obtain p where "drop (length e) s = p @ trim_by encs (drop (length e) s)" by blast
    moreover have "trim_by encs s = trim_by encs (drop (length e) s)"
      using Some by (subst trim_by.simps) simp
    ultimately have "s = (take (length e) s @ p) @ trim_by encs s"
      by (metis append.assoc append_take_drop_id)
    then show ?thesis by blast
  qed
qed

lemma trim_by_id: "no_lead encs s \<Longrightarrow> trim_by encs s = s"
  by (subst trim_by.simps) (auto simp: no_lead_def find_Some_iff split: option.split)

lemma no_lead_prefix: "no_lead encs (s @ t) \<Longrightarrow> no_lead encs s"
  by (auto simp: no_lead_def has_prefix_iff)

lemma trimmed_trim_space [trim_simps, simp]: "trimmed (trim_space s)"
proof -
  let ?l = "trim_left s"
  obtain p where "rev ?l = p @ trim_by (map rev space_encodings) (rev ?l)"
    using trim_by_suffix by blast
  then have "?l = trim_space s @ rev p"
    by (metis rev_append rev_rev_ident trim_right_def trim_space_def)
  moreover have "no_lead space_encodings ?l"
    by (simp add: trim_left_def trim_by_no_lead)
  ultimately have "no_lead space_encodings (trim_space s)"
    by (metis no_lead_prefix)
  moreover have "no_lead (map rev space_encodings) (rev (trim_space s))"
    by (simp add: trim_space_def trim_right_def trim_by_no_lead)
  ultimately show ?thesis by (simp add: trimmed_def)
qed

lemma trim_space_trimmed: "trimmed s \<Longrightarrow> trim_space s = s"
  by (simp add: trimmed_def trim_space_def trim_left_def trim_right_def trim_by_id)

lemma trim_space_idem [trim_simps, simp]: "trim_space (trim_space s) = trim_space s"
  by (rule trim_space_trimmed) simp

definition plain_char :: "char \<Rightarrow> bool" where
  "plain_char c \<longleftrightarrow> 32 < (of_char c :: nat) \<and> (of_char c :: nat) < 128"

definition plain_ends :: "gostr \<Rightarrow> bool" where
  "plain_ends s \<longleftrightarrow> (case s of [] \<Rightarrow> True | c # _ \<Rightarrow> plain_char c \<and> plain_char (last s))"

lemma space_encodings_hd: "e \<in> set space_encodings \<Longrightarrow> \<not> plain_char (hd e) \<and> \<not> plain_char (last e) \<and> e \<noteq> []"
  by (auto simp: space_encodings_def plain_char_def)

lemma plain_ends_trimmed: "plain_ends s \<Longrightarrow> trimmed s"
proof -
  assume p: "plain_ends s"
  have "\<not> has_prefix s e" if "e \<in> set space_encodings" for e
    using space_encodings_hd [OF that] p
    by (cases e) (auto simp: has_prefix_iff plain_ends_def split: list.splits)
  moreover have "\<not> has_suffix s e" if e: "e \<in> set space_encodings" for e
  proof
    assume "has_suffix s e"
    then obtain t where t: "s = t @ e" by (auto simp: has_suffix_iff)
    with space_encodings_hd [OF e] have "last s = last e" and "s \<noteq> []" by simp_all
    with p have "plain_char (last e)" by (auto simp: plain_ends_def split: list.splits)
    with space_encodings_hd [OF e] show False by simp
  qed
  then have "\<not> has_prefix (rev s) (rev e)" if "e \<in> set space_encodings" for e
    using that by (metis has_prefix_iff has_suffix_iff rev_append rev_rev_ident)
  ultimately show ?thesis by (auto simp: trimmed_def no_lead_def)
qed

lemma trim_space_plain [trim_simps, simp]: "plain_ends s \<Longrightarrow> trim_space s = s"
  by (rule trim_space_trimmed) (rule plain_ends_trimmed)


subsection \<open>ToLower\<close>

definition lower_char :: "char \<Rightarrow> char" where
  "lower_char c =
     (let n = (of_char c :: nat) in if 65 \<le> n \<and> n \<le> 90 then char_of (n + 32) else c)"

definition to_lower :: "gostr \<Rightarrow> gostr" where
  "to_lower s = map lower_char s"

definition is_lower_letter :: "char \<Rightarrow> bool" where
  "is_lower_letter c \<longleftrightarrow> 97 \<le> (of_char c :: nat) \<and> (of_char c :: nat) \<le> 122"

lemma lower_char_cases: "lower_char c = c \<or> is_lower_letter (lower_char c)"
  by (auto simp: lower_char_def is_lower_letter_def Let_def of_char_of)

lemma lower_char_idem [simp]: "lower_char (lower_char c) = lower_char c"
  by (auto simp: lower_char_def Let_def of_char_of)

lemma to_lower_idem [simp]: "to_lower (to_lower s) = to_lower s"
  by (simp add: to_lower_def)

lemma to_lower_Nil [simp]: "to_lower s = [] \<longleftrightarrow> s = []" "to_lower [] = []"
  by (simp_all add: to_lower_def)

lemma space_encodings_not_lower: "e \<in> set space_encodings \<Longrightarrow> c \<in> set e \<Longrightarrow> \<not> is_lower_letter c"
  by (auto simp: space_encodings_def is_lower_letter_def)

lemma has_prefix_lower:
  "\<forall>c\<in>set e. \<not> is_lower_letter c \<Longrightarrow> has_prefix (to_lower s) e \<Longrightarrow> has_prefix s e"
proof (induction e arbitrary: s)
  case Nil
  then show ?case by simp
next
  case (Cons c e)
  from Cons.prems(2) obtain d s' where s: "s = d # s'" and "lower_char d = c" "has_prefix (to_lower s') e"
    by (cases s) (auto simp: has_prefix_def to_lower_def)
  moreover from this Cons.prems(1) have "d = c" using lower_char_cases [of d] by auto
  moreover have "has_prefix s' e"
    using Cons.IH Cons.prems(1) \<open>has_prefix (to_lower s') e\<close> by simp
  ultimately show ?case by (simp add: has_prefix_def)
qed

lemma trimmed_to_lower: "trimmed s \<Longrightarrow> trimmed (to_lower s)"
proof -
  assume t: "trimmed s"
  have r: "rev (to_lower s) = to_lower (rev s)" by (simp add: to_lower_def rev_map)
  have "no_lead encs (to_lower u)"
    if "no_lead encs u" "\<forall>e\<in>set encs. \<forall>c\<in>set e. \<not> is_lower_letter c" for encs u
    using that has_prefix_lower by (fastforce simp: no_lead_def)
  with t show ?thesis
    using space_encodings_not_lower by (fastforce simp: trimmed_def r)
qed

lemma trim_lower_trim [trim_simps, simp]:
  "trim_space (to_lower (trim_space s)) = to_lower (trim_space s)"
  by (simp add: trim_space_trimmed trimmed_to_lower)

section \<open>Numbers as text\<close>

definition digit_char :: "nat \<Rightarrow> char" where
  "digit_char n = char_of (48 + n)"

fun digits :: "nat \<Rightarrow> gostr" where
  "digits n = (if n < 10 then [digit_char n] else digits (n div 10) @ [digit_char (n mod 10)])"

declare digits.simps [simp del]

definition digit_value :: "char \<Rightarrow> nat" where
  "digit_value c = of_char c - 48"

definition is_digit :: "char \<Rightarrow> bool" where
  "is_digit c \<longleftrightarrow> 48 \<le> (of_char c :: nat) \<and> (of_char c :: nat) \<le> 57"

definition undigits :: "gostr \<Rightarrow> nat" where
  "undigits s = foldl (\<lambda>a c. 10 * a + digit_value c) 0 s"

text \<open>\<open>%d\<close>, and \<open>%0wd\<close> of a number that is not negative (the code pads only counters).\<close>

definition fmt_d :: "int \<Rightarrow> gostr" where
  "fmt_d i = (if i < 0 then ''-'' @ digits (nat (- i)) else digits (nat i))"

definition fmt_0d :: "nat \<Rightarrow> nat \<Rightarrow> gostr" where
  "fmt_0d w n = replicate (w - length (digits n)) (CHR ''0'') @ digits n"

lemma digit_value_char [simp]: "n < 10 \<Longrightarrow> digit_value (digit_char n) = n"
  by (simp add: digit_value_def digit_char_def of_char_of)

lemma undigits_append: "undigits (s @ [c]) = 10 * undigits s + digit_value c"
  by (simp add: undigits_def)

lemma undigits_digits [simp]: "undigits (digits n) = n"
proof (induction n rule: digits.induct)
  case (1 n)
  show ?case
  proof (cases "n < 10")
    case True
    then show ?thesis by (subst digits.simps) (simp add: undigits_def)
  next
    case False
    with 1 show ?thesis by (subst digits.simps) (simp add: undigits_append)
  qed
qed

lemma undigits_zeros: "undigits (replicate k (CHR ''0'') @ s) = undigits s"
  by (induction k) (simp_all add: undigits_def digit_value_def)

lemma digits_inject [simp]: "digits m = digits n \<longleftrightarrow> m = n"
  by (metis undigits_digits)

lemma fmt_0d_inject [simp]: "fmt_0d w m = fmt_0d w n \<longleftrightarrow> m = n"
  by (metis fmt_0d_def undigits_digits undigits_zeros)

text \<open>\<open>strconv.Atoi\<close>: an optional sign, at least one digit, and a value of 64 bits; \<open>None\<close> is
  the error.\<close>

definition atoi :: "gostr \<Rightarrow> int option" where
  "atoi s =
     (let neg = has_prefix s ''-'';
          ds = (if neg \<or> has_prefix s ''+'' then tl s else s);
          v = (if neg then - int (undigits ds) else int (undigits ds))
      in if ds = [] \<or> \<not> list_all is_digit ds \<or> v < - (2 ^ 63) \<or> 2 ^ 63 \<le> v then None else Some v)"

lemma digits_all_digit: "list_all is_digit (digits n)"
proof (induction n rule: digits.induct)
  case (1 n)
  have d: "is_digit (digit_char k)" if "k < 10" for k
    using that by (simp add: is_digit_def digit_char_def of_char_of)
  show ?case
  proof (cases "n < 10")
    case True
    with d show ?thesis by (subst digits.simps) simp
  next
    case False
    with 1 d show ?thesis by (subst digits.simps) simp
  qed
qed

lemma digits_not_Nil [simp]: "digits n \<noteq> []"
  by (subst digits.simps) simp

lemma digits_no_sign: "\<not> has_prefix (digits n) ''-'' \<and> \<not> has_prefix (digits n) ''+''"
  using digits_all_digit [of n] by (cases "digits n") (auto simp: has_prefix_def is_digit_def)

lemma atoi_fmt_d: "- (2 ^ 63) \<le> i \<Longrightarrow> i < 2 ^ 63 \<Longrightarrow> atoi (fmt_d i) = Some i"
  using digits_all_digit [of "nat i"] digits_all_digit [of "nat (- i)"]
    digits_no_sign [of "nat i"]
  by (auto simp: atoi_def fmt_d_def Let_def has_prefix_def)


lemma digits_plain: "digits n \<noteq> [] \<and> list_all plain_char (digits n)"
proof -
  have "is_digit c \<Longrightarrow> plain_char c" for c by (auto simp: is_digit_def plain_char_def)
  then show ?thesis using digits_all_digit [of n] by (auto simp: list_all_iff)
qed

lemma all_plain_ends: "list_all plain_char s \<Longrightarrow> plain_ends s"
  using last_in_set [of s] by (cases s) (auto simp: plain_ends_def list_all_iff)

lemma fmt_d_trimmed [simp]: "trim_space (fmt_d n) = fmt_d n"
proof -
  have "list_all plain_char (fmt_d n)"
    using digits_plain [of "nat n"] digits_plain [of "nat (- n)"] by (simp add: fmt_d_def plain_char_def)
  then have "plain_ends (fmt_d n)" by (rule all_plain_ends)
  then show ?thesis by simp
qed

lemma fmt_d_nonempty [simp]: "fmt_d n \<noteq> []"
  by (simp add: fmt_d_def)

text \<open>The range of a Go \<open>int\<close>.\<close>

definition int64 :: "int \<Rightarrow> bool" where
  "int64 n \<longleftrightarrow> - (2 ^ 63) \<le> n \<and> n < 2 ^ 63"

section \<open>Time\<close>

type_synonym go_time = int
type_synonym duration = int

abbreviation (input) zero_time :: go_time where "zero_time \<equiv> 0"
abbreviation (input) millisecond :: duration where "millisecond \<equiv> 1000000"
abbreviation (input) second :: duration where "second \<equiv> 1000000000"

text \<open>\<open>Time.Sub\<close> saturates at the limits of a 64-bit duration.\<close>

definition max_duration :: duration where "max_duration = 9223372036854775807"
definition min_duration :: duration where "min_duration = -9223372036854775808"

definition time_sub :: "go_time \<Rightarrow> go_time \<Rightarrow> duration" where
  "time_sub t u = max min_duration (min max_duration (t - u))"

lemma time_sub_gt: "0 \<le> d \<Longrightarrow> d < max_duration \<Longrightarrow> d < time_sub t u \<longleftrightarrow> d < t - u"
  by (auto simp: time_sub_def max_duration_def min_duration_def)

text \<open>\<open>Time.Truncate\<close> rounds down to a multiple of the duration since the zero time.\<close>

definition time_truncate :: "go_time \<Rightarrow> duration \<Rightarrow> go_time" where
  "time_truncate t d = (if d \<le> 0 then t else t - t mod d)"

lemma time_truncate_bounds: "0 < d \<Longrightarrow> time_truncate t d \<le> t \<and> t < time_truncate t d + d"
  by (simp add: time_truncate_def)

section \<open>Errors\<close>

text \<open>
  An \<open>error\<close> value is its text and whether \<open>errors.Is\<close> finds \<open>context.Canceled\<close> or
  \<open>context.DeadlineExceeded\<close> in its chain. \<open>fmt.Errorf("...: %w", err)\<close> prefixes the text
  and keeps the chain.
\<close>

record go_error =
  err_text :: gostr
  err_canceled :: bool
  err_deadline :: bool

definition new_error :: "gostr \<Rightarrow> go_error" where
  "new_error s = \<lparr>err_text = s, err_canceled = False, err_deadline = False\<rparr>"

definition wrap_error :: "gostr \<Rightarrow> go_error \<Rightarrow> go_error" where
  "wrap_error pre e = e\<lparr>err_text := pre @ err_text e\<rparr>"

definition ctx_canceled :: go_error where
  "ctx_canceled = \<lparr>err_text = ''context canceled'', err_canceled = True, err_deadline = False\<rparr>"

definition ctx_deadline_exceeded :: go_error where
  "ctx_deadline_exceeded =
     \<lparr>err_text = ''context deadline exceeded'', err_canceled = False, err_deadline = True\<rparr>"

lemma wrap_error_fields [simp]:
  "err_text (wrap_error pre e) = pre @ err_text e"
  "err_canceled (wrap_error pre e) = err_canceled e"
  "err_deadline (wrap_error pre e) = err_deadline e"
  by (simp_all add: wrap_error_def)

section \<open>sort.Slice\<close>

text \<open>
  \<open>sort.Slice\<close> sorts by a \<open>less\<close> function and may order ties in any way. The model is the
  stable sort; applied to every enumeration of the same elements it gives every result
  \<open>sort.Slice\<close> may give, so the enumeration of a map is a parameter of the operations
  that range over one (\<open>listed\<close> below).
\<close>

primrec insert_by :: "('a \<Rightarrow> 'a \<Rightarrow> bool) \<Rightarrow> 'a \<Rightarrow> 'a list \<Rightarrow> 'a list" where
  "insert_by lt x [] = [x]"
| "insert_by lt x (y # ys) =
     (if lt y x then y # insert_by lt x ys else x # y # ys)"

primrec sort_by :: "('a \<Rightarrow> 'a \<Rightarrow> bool) \<Rightarrow> 'a list \<Rightarrow> 'a list" where
  "sort_by lt [] = []"
| "sort_by lt (x # xs) = insert_by lt x (sort_by lt xs)"

lemma mset_insert_by [simp]: "mset (insert_by lt x ys) = add_mset x (mset ys)"
  by (induction ys) auto

lemma mset_sort_by [simp]: "mset (sort_by lt xs) = mset xs"
  by (induction xs) auto

lemma set_insert_by [simp]: "set (insert_by lt x ys) = insert x (set ys)"
  by (induction ys) auto

lemma set_sort_by [simp]: "set (sort_by lt xs) = set xs"
  by (induction xs) auto

lemma length_sort_by [simp]: "length (sort_by lt xs) = length xs"
  by (metis mset_sort_by size_mset)

lemma distinct_sort_by [simp]: "distinct (sort_by lt xs) = distinct xs"
  by (metis distinct_count_atmost_1 mset_sort_by set_sort_by)

locale strict_weak =
  fixes lt :: "'a \<Rightarrow> 'a \<Rightarrow> bool"
  assumes less_asym: "lt x y \<Longrightarrow> \<not> lt y x"
    and less_cotrans: "lt x z \<Longrightarrow> lt x y \<or> lt y z"
begin

lemma not_less_trans: "\<not> lt y x \<Longrightarrow> \<not> lt z y \<Longrightarrow> \<not> lt z x"
  using less_cotrans by blast

lemma less_not_less_trans: "lt x y \<Longrightarrow> \<not> lt z y \<Longrightarrow> lt x z"
  using less_cotrans by blast

lemma sorted_insert_by:
  "sorted_wrt (\<lambda>x y. \<not> lt y x) ys \<Longrightarrow> sorted_wrt (\<lambda>x y. \<not> lt y x) (insert_by lt x ys)"
proof (induction ys)
  case Nil
  then show ?case by simp
next
  case (Cons y ys)
  show ?case
  proof (cases "lt y x")
    case True
    with Cons less_asym show ?thesis by auto
  next
    case False
    with Cons.prems not_less_trans show ?thesis by auto
  qed
qed

lemma sorted_sort_by: "sorted_wrt (\<lambda>x y. \<not> lt y x) (sort_by lt xs)"
  by (induction xs) (simp_all add: sorted_insert_by)

text \<open>What comes first in a sorted list is never preceded by a later element.\<close>

lemma sort_by_take_drop:
  "x \<in> set (take k (sort_by lt xs)) \<Longrightarrow> y \<in> set (drop k (sort_by lt xs)) \<Longrightarrow> \<not> lt y x"
proof -
  assume x: "x \<in> set (take k (sort_by lt xs))" and y: "y \<in> set (drop k (sort_by lt xs))"
  have "sorted_wrt (\<lambda>x y. \<not> lt y x) (take k (sort_by lt xs) @ drop k (sort_by lt xs))"
    using sorted_sort_by by simp
  with x y show ?thesis by (simp only: sorted_wrt_append) blast
qed

text \<open>A comparator that separates different elements leaves one sorted order only.\<close>

lemma sort_by_unique:
  assumes "\<And>x y. x \<in> set xs \<Longrightarrow> y \<in> set xs \<Longrightarrow> \<not> lt x y \<Longrightarrow> \<not> lt y x \<Longrightarrow> x = y"
    and "mset xs = mset ys"
  shows "sort_by lt xs = sort_by lt ys"
proof -
  have "xs' = ys'" if "sorted_wrt (\<lambda>x y. \<not> lt y x) xs'" "sorted_wrt (\<lambda>x y. \<not> lt y x) ys'"
    "mset xs' = mset ys'" "set xs' \<subseteq> set xs" for xs' ys'
    using that
  proof (induction xs' arbitrary: ys')
    case Nil
    then show ?case by simp
  next
    case (Cons x xs')
    then obtain y ys'' where ys': "ys' = y # ys''" by (cases ys') auto
    have sets: "set (x # xs') = set ys'" using Cons.prems(3) by (metis set_mset_mset)
    have "x = y"
    proof (rule ccontr)
      assume "x \<noteq> y"
      with sets ys' have "y \<in> set xs'" "x \<in> set ys''" by auto
      with Cons.prems(1,2) ys' have "\<not> lt y x" "\<not> lt x y" by auto
      with assms(1) [of x y] Cons.prems(4) \<open>y \<in> set xs'\<close> \<open>x \<noteq> y\<close> show False by auto
    qed
    with Cons ys' show ?case by auto
  qed
  from this [OF sorted_sort_by sorted_sort_by] assms(2) show ?thesis by simp
qed

end

text \<open>Comparators made of a numeric key.\<close>

definition less_key :: "('a \<Rightarrow> int) \<Rightarrow> 'a \<Rightarrow> 'a \<Rightarrow> bool" where
  "less_key f x y \<longleftrightarrow> f x < f y"

interpretation key_order: strict_weak "less_key f" for f
  by unfold_locales (auto simp: less_key_def)

section \<open>Lists without repetition\<close>

text \<open>The first occurrence of every element, in order.\<close>

primrec nub :: "'a list \<Rightarrow> 'a list" where
  "nub [] = []"
| "nub (x # xs) = x # filter (\<lambda>y. y \<noteq> x) (nub xs)"

lemma set_nub [simp]: "set (nub xs) = set xs"
  by (induction xs) auto

lemma distinct_nub [simp]: "distinct (nub xs)"
  by (induction xs) auto

lemma filter_nub_Cons:
  "filter P (nub (x # xs)) =
     (if P x then x # filter (\<lambda>y. P y \<and> y \<noteq> x) (nub xs) else filter P (nub xs))"
  by (auto intro: filter_cong)

section \<open>Maps and their enumerations\<close>

text \<open>
  \<open>for k, v := range m\<close> visits the entries of a map in an order the program does not
  choose: it is a list \<open>ks\<close> of its keys, each once.
\<close>

definition enumerates :: "'k list \<Rightarrow> ('k \<rightharpoonup> 'v) \<Rightarrow> bool" where
  "enumerates ks m \<longleftrightarrow> distinct ks \<and> set ks = dom m"

definition listed :: "('k \<rightharpoonup> 'v) \<Rightarrow> 'k list \<Rightarrow> 'v list" where
  "listed m ks = List.map_filter m ks"

lemma listed_simps [simp]:
  "listed m [] = []"
  "listed m (k # ks) = (case m k of None \<Rightarrow> listed m ks | Some v \<Rightarrow> v # listed m ks)"
  by (simp_all add: listed_def List.map_filter_simps split: option.split)

lemma set_listed: "set ks = dom m \<Longrightarrow> set (listed m ks) = ran m"
  by (auto simp: listed_def List.map_filter_def ran_def dom_def image_iff) force+

lemma in_listed: "enumerates ks m \<Longrightarrow> v \<in> set (listed m ks) \<longleftrightarrow> (\<exists>k. m k = Some v)"
  by (auto simp: enumerates_def set_listed ran_def)

lemma length_listed: "enumerates ks m \<Longrightarrow> length (listed m ks) = card (dom m)"
proof -
  have "length (listed m ks) = length ks" if "set ks \<subseteq> dom m" for ks
    using that by (induction ks) auto
  then show "enumerates ks m \<Longrightarrow> length (listed m ks) = card (dom m)"
    by (simp add: enumerates_def distinct_card [symmetric])
qed

lemma mset_listed:
  assumes "enumerates ks m" "enumerates ks' m"
  shows "mset (listed m ks) = mset (listed m ks')"
proof -
  have "mset ks = mset ks'"
    using assms set_eq_iff_mset_eq_distinct by (fastforce simp: enumerates_def)
  moreover have "mset (listed m ks) = image_mset (the \<circ> m) (filter_mset (\<lambda>k. m k \<noteq> None) (mset ks))" for ks
    by (simp add: listed_def List.map_filter_def)
  ultimately show ?thesis by simp
qed

end
