(* ===== verification/Lease.thy ===== *)
theory Lease
  imports Prelude
begin

text \<open>
  Node leases, \<open>internal/lease\<close>: the in-memory manager with its three operations, each atomic
  under the manager's mutex, and the contract \<open>lease.Manager\<close> promises its client, the task
  runner, as the locale \<open>lease_manager\<close>. The clock reading \<open>time.Now()\<close> of an operation
  is its first argument. Tokens are Go's \<open>uint64\<close>, so the counter wraps at \<open>2 ^ 64\<close>.
\<close>

section \<open>The in-memory manager\<close>

record lease =
  lease_token :: "64 word"
  lease_expires :: go_time

record lease_entry =
  le_owner :: gostr
  le_token :: "64 word"
  le_expires :: go_time

record lease_state =
  ls_seq :: "64 word"
  ls_entries :: "gostr \<rightharpoonup> lease_entry"

definition new_lease_manager :: lease_state where
  "new_lease_manager = \<lparr>ls_seq = 0, ls_entries = Map.empty\<rparr>"

definition default_lease_ttl :: "duration \<Rightarrow> duration" where
  "default_lease_ttl ttl = (if ttl \<le> 0 then 90 * second else ttl)"

definition lease_acquire ::
  "go_time \<Rightarrow> gostr \<Rightarrow> gostr \<Rightarrow> duration \<Rightarrow> lease_state \<Rightarrow> (go_error + lease option) \<times> lease_state" where
  "lease_acquire now res own ttl s =
     (let resource = trim_space res; owner = trim_space own in
      if resource = [] then (Inl (new_error ''resource is required''), s)
      else if owner = [] then (Inl (new_error ''owner is required''), s)
      else if (case ls_entries s resource of
                 Some existing \<Rightarrow> now < le_expires existing | None \<Rightarrow> False)
      then (Inr None, s)
      else
        let token = ls_seq s + 1;
            expires = now + default_lease_ttl ttl
        in (Inr (Some \<lparr>lease_token = token, lease_expires = expires\<rparr>),
            \<lparr>ls_seq = token,
             ls_entries = (ls_entries s)(resource \<mapsto>
               \<lparr>le_owner = owner, le_token = token, le_expires = expires\<rparr>)\<rparr>))"

definition lease_release ::
  "gostr \<Rightarrow> gostr \<Rightarrow> 64 word \<Rightarrow> lease_state \<Rightarrow> (go_error + unit) \<times> lease_state" where
  "lease_release res own token s =
     (let resource = trim_space res; owner = trim_space own in
      if resource = [] then (Inl (new_error ''resource is required''), s)
      else if owner = [] then (Inl (new_error ''owner is required''), s)
      else if token = 0 then (Inl (new_error ''token is required''), s)
      else case ls_entries s resource of
          None \<Rightarrow> (Inr (), s)
        | Some existing \<Rightarrow>
            if le_owner existing \<noteq> owner \<or> le_token existing \<noteq> token then (Inr (), s)
            else (Inr (), s\<lparr>ls_entries := (ls_entries s)(resource := None)\<rparr>))"

definition lease_renew ::
  "go_time \<Rightarrow> gostr \<Rightarrow> gostr \<Rightarrow> 64 word \<Rightarrow> duration \<Rightarrow> lease_state \<Rightarrow>
     (go_error + lease option) \<times> lease_state" where
  "lease_renew now res own token ttl s =
     (let resource = trim_space res; owner = trim_space own in
      if resource = [] then (Inl (new_error ''resource is required''), s)
      else if owner = [] then (Inl (new_error ''owner is required''), s)
      else if token = 0 then (Inl (new_error ''token is required''), s)
      else case ls_entries s resource of
          None \<Rightarrow> (Inr None, s)
        | Some existing \<Rightarrow>
            if le_expires existing < now
            then (Inr None, s\<lparr>ls_entries := (ls_entries s)(resource := None)\<rparr>)
            else if le_owner existing \<noteq> owner \<or> le_token existing \<noteq> token then (Inr None, s)
            else
              let nxt = now + default_lease_ttl ttl
              in (Inr (Some \<lparr>lease_token = token, lease_expires = nxt\<rparr>),
                  s\<lparr>ls_entries := (ls_entries s)(resource \<mapsto> existing\<lparr>le_expires := nxt\<rparr>)\<rparr>))"

section \<open>The contract of a lease manager\<close>

text \<open>
  \<open>entry s r\<close> is the registered holder of a resource: owner, token and the time until which it
  excludes others. Resources and owners are identified up to surrounding white space.
\<close>

type_synonym holder = "gostr \<times> 64 word \<times> go_time"

datatype lease_op =
    Acquire go_time gostr gostr duration
  | Renew go_time gostr gostr "64 word" duration
  | Release gostr gostr "64 word"

fun lease_step where
  "lease_step acquire renew release (Acquire now r ow ttl) s = snd (acquire now r ow ttl s)"
| "lease_step acquire renew release (Renew now r ow k ttl) s = snd (renew now r ow k ttl s)"
| "lease_step acquire renew release (Release r ow k) s = snd (release r ow k s)"

definition lease_run where
  "lease_run acquire renew release ops s = fold (lease_step acquire renew release) ops s"

text \<open>
  What others do while \<open>ow\<close> holds \<open>r\<close> with token \<open>k\<close> until \<open>e\<close>: any operation at a time
  up to \<open>T\<close>, but the holder neither releases its lease nor renews it to an earlier expiry;
  \<open>extended\<close> is the expiry that a renewal sets.
\<close>

fun undisturbed_by ::
  "(go_time \<Rightarrow> duration \<Rightarrow> go_time) \<Rightarrow> gostr \<Rightarrow> gostr \<Rightarrow> 64 word \<Rightarrow> go_time \<Rightarrow> go_time \<Rightarrow> lease_op \<Rightarrow> bool" where
  "undisturbed_by extended r ow k e T (Acquire now r' ow' ttl) \<longleftrightarrow> now \<le> T"
| "undisturbed_by extended r ow k e T (Renew now r' ow' k' ttl) \<longleftrightarrow>
     now \<le> T \<and> (trim_space r' = r \<and> trim_space ow' = ow \<and> k' = k \<longrightarrow> e \<le> extended now ttl)"
| "undisturbed_by extended r ow k e T (Release r' ow' k') \<longleftrightarrow>
     \<not> (trim_space r' = r \<and> trim_space ow' = ow \<and> k' = k)"

definition exact_until :: "go_time \<Rightarrow> duration \<Rightarrow> go_time" where
  "exact_until now ttl = now + default_lease_ttl ttl"

abbreviation undisturbed :: "gostr \<Rightarrow> gostr \<Rightarrow> 64 word \<Rightarrow> go_time \<Rightarrow> go_time \<Rightarrow> lease_op \<Rightarrow> bool" where
  "undisturbed \<equiv> undisturbed_by exact_until"

text \<open>What holds even of a manager whose operations may fail half-way: \<open>until\<close> is the expiry that a
  grant sets. An operation that answers an error may or may not have been carried out.\<close>

locale lease_safety =
  fixes acquire :: "go_time \<Rightarrow> gostr \<Rightarrow> gostr \<Rightarrow> duration \<Rightarrow> 'l \<Rightarrow> (go_error + lease option) \<times> 'l"
    and renew :: "go_time \<Rightarrow> gostr \<Rightarrow> gostr \<Rightarrow> 64 word \<Rightarrow> duration \<Rightarrow> 'l \<Rightarrow> (go_error + lease option) \<times> 'l"
    and release :: "gostr \<Rightarrow> gostr \<Rightarrow> 64 word \<Rightarrow> 'l \<Rightarrow> (go_error + unit) \<times> 'l"
    and entry :: "'l \<Rightarrow> gostr \<Rightarrow> holder option"
    and until :: "go_time \<Rightarrow> duration \<Rightarrow> go_time"
    and extended :: "go_time \<Rightarrow> duration \<Rightarrow> go_time"
  assumes acquire_granted:
      "acquire now r ow ttl s = (Inr (Some l), s') \<Longrightarrow>
         entry s' = (entry s)(trim_space r \<mapsto> (trim_space ow, lease_token l, until now ttl))
         \<and> (\<forall>ow' k e. entry s (trim_space r) = Some (ow', k, e) \<longrightarrow> e \<le> now)
         \<and> trim_space r \<noteq> [] \<and> trim_space ow \<noteq> []"
    and acquire_refused: "acquire now r ow ttl s = (Inr None, s') \<Longrightarrow> entry s' = entry s"
    and acquire_failed: "acquire now r ow ttl s = (Inl err, s') \<Longrightarrow>
         entry s' = entry s \<or>
         (\<forall>ow' k e. entry s (trim_space r) = Some (ow', k, e) \<longrightarrow> e \<le> now) \<and>
         (\<exists>h. entry s' = (entry s)(trim_space r := h))"
    and renew_granted: "renew now r ow k ttl s = (Inr (Some l), s') \<Longrightarrow>
         (\<exists>e. entry s (trim_space r) = Some (trim_space ow, k, e))
         \<and> (entry s' = (entry s)(trim_space r \<mapsto> (trim_space ow, k, extended now ttl))
            \<or> extended now ttl \<le> now \<and> entry s' = (entry s)(trim_space r := None))
         \<and> lease_token l = k \<and> k \<noteq> 0"
    and renew_denied: "renew now r ow k ttl s = (res, s') \<Longrightarrow> \<forall>l. res \<noteq> Inr (Some l) \<Longrightarrow>
         entry s' = entry s \<or>
         (\<exists>ow' k' e. entry s (trim_space r) = Some (ow', k', e) \<and> e < now \<and>
            entry s' = (entry s)(trim_space r := None)) \<or>
         (\<exists>e err. entry s (trim_space r) = Some (trim_space ow, k, e) \<and> res = Inl err \<and>
            (entry s' = (entry s)(trim_space r \<mapsto> (trim_space ow, k, extended now ttl))
             \<or> extended now ttl \<le> now \<and> entry s' = (entry s)(trim_space r := None)))"
    and release_entry: "release r ow k s = (q, s') \<Longrightarrow>
         entry s' = entry s \<or>
         (\<exists>e. entry s (trim_space r) = Some (trim_space ow, k, e) \<and>
            entry s' = (entry s)(trim_space r := None))"
begin

lemma step_keeps_holder:
  assumes "entry s r = Some (ow, k, e')" "e \<le> e'" "T < e" "undisturbed_by extended r ow k e T oper"
  shows "\<exists>e''. e \<le> e'' \<and> entry (lease_step acquire renew release oper s) r = Some (ow, k, e'')"
proof (cases oper)
  case (Acquire now r' ow' ttl)
  obtain res s' where q: "acquire now r' ow' ttl s = (res, s')" by (cases "acquire now r' ow' ttl s")
  show ?thesis
  proof (cases res)
    case (Inl err)
    from acquire_failed [OF q [unfolded Inl]] assms Acquire q show ?thesis
      by (cases "trim_space r' = r") auto
  next
    case (Inr x)
    show ?thesis
    proof (cases x)
      case None
      with acquire_refused Inr q assms Acquire show ?thesis by auto
    next
      case (Some l)
      from acquire_granted [OF q [unfolded Inr Some]] assms Acquire q show ?thesis
        by (cases "trim_space r' = r") auto
    qed
  qed
next
  case (Renew now r' ow' k' ttl)
  obtain res s' where q: "renew now r' ow' k' ttl s = (res, s')" by (cases "renew now r' ow' k' ttl s")
  show ?thesis
  proof (cases "\<exists>l. res = Inr (Some l)")
    case True
    then obtain l where "renew now r' ow' k' ttl s = (Inr (Some l), s')" using q by auto
    from renew_granted [OF this] assms Renew q show ?thesis
      by (cases "trim_space r' = r") auto
  next
    case False
    with renew_denied [OF q] assms Renew q show ?thesis
      by (cases "trim_space r' = r") auto
  qed
next
  case (Release r' ow' k')
  obtain res s' where q: "release r' ow' k' s = (res, s')" by (cases "release r' ow' k' s")
  from release_entry [OF q] assms Release q show ?thesis
    by (cases "trim_space r' = r") auto
qed

lemma run_keeps_holder:
  assumes "entry s r = Some (ow, k, e')" "e \<le> e'" "T < e"
    "\<forall>oper\<in>set ops. undisturbed_by extended r ow k e T oper"
  shows "\<exists>e''. e \<le> e'' \<and> entry (lease_run acquire renew release ops s) r = Some (ow, k, e'')"
  using assms
proof (induction ops arbitrary: s e')
  case Nil
  then show ?case by (auto simp: lease_run_def)
next
  case (Cons oper ops)
  from step_keeps_holder [of s r ow k e' e T oper] Cons.prems
  obtain e1 where "e \<le> e1" "entry (lease_step acquire renew release oper s) r = Some (ow, k, e1)"
    by auto
  with Cons.IH Cons.prems show ?case by (simp add: lease_run_def)
qed

lemma acquire_busy:
  assumes "entry s (trim_space r) = Some (ow, k, e)" "now < e"
    and "acquire now r' ow' ttl s = (res, s')" "trim_space r' = trim_space r"
  shows "\<forall>l. res \<noteq> Inr (Some l)"
  using acquire_granted [of now r' ow' ttl s _ s'] assms by fastforce

text \<open>Two grants of one resource never overlap.\<close>

lemma exclusive:
  assumes "acquire t r ow ttl s = (Inr (Some l), s1)"
    and "\<forall>oper\<in>set ops. undisturbed_by extended (trim_space r) (trim_space ow) (lease_token l) (until t ttl) T oper"
    and "T < until t ttl" "now < until t ttl"
    and "acquire now r' ow' ttl' (lease_run acquire renew release ops s1) = (res, s2)"
    and "trim_space r' = trim_space r"
  shows "\<forall>l'. res \<noteq> Inr (Some l')"
proof -
  from acquire_granted [OF assms(1)]
  have "entry s1 (trim_space r) = Some (trim_space ow, lease_token l, until t ttl)" by simp
  from run_keeps_holder [OF this order_refl assms(3,2)] obtain e where
    "until t ttl \<le> e"
    "entry (lease_run acquire renew release ops s1) (trim_space r) = Some (trim_space ow, lease_token l, e)"
    by blast
  with acquire_busy [OF this(2) _ assms(5,6)] assms(4) show ?thesis by simp
qed

end

text \<open>Fencing: \<open>issued s r\<close> are the tokens handed out for a resource, \<open>exhausted s r\<close> that its counter
  is about to wrap.\<close>

locale lease_fencing = lease_safety acquire renew release entry until extended
  for acquire :: "go_time \<Rightarrow> gostr \<Rightarrow> gostr \<Rightarrow> duration \<Rightarrow> 'l \<Rightarrow> (go_error + lease option) \<times> 'l"
    and renew release entry until extended +
  fixes issued :: "'l \<Rightarrow> gostr \<Rightarrow> 64 word set"
    and exhausted :: "'l \<Rightarrow> gostr \<Rightarrow> bool"
  assumes acquire_fresh: "\<not> exhausted s (trim_space r) \<Longrightarrow>
         acquire now r ow ttl s = (Inr (Some l), s') \<Longrightarrow>
         lease_token l \<notin> issued s (trim_space r) \<and> lease_token l \<noteq> 0 \<and> lease_token l \<in> issued s' (trim_space r)"
    and acquire_issued: "\<not> exhausted s (trim_space r) \<Longrightarrow> issued s r' \<subseteq> issued (snd (acquire now r ow ttl s)) r'"
    and renew_issued: "issued (snd (renew now r ow k ttl s)) = issued s"
    and release_issued: "issued (snd (release r ow k s)) = issued s"
begin

text \<open>A token of an earlier grant neither frees nor extends a later one.\<close>

lemma stale_token_powerless:
  assumes "\<not> exhausted s (trim_space r)" "k \<in> issued s (trim_space r)"
    and "acquire t r ow ttl s = (Inr (Some l), s1)"
    and "entry s2 (trim_space r) = Some (ow2, lease_token l, e2)" "now \<le> e2"
  shows "entry (snd (release r ow' k s2)) = entry s2"
    and "entry (snd (renew now r ow' k ttl' s2)) = entry s2"
    and "\<forall>l'. fst (renew now r ow' k ttl' s2) \<noteq> Inr (Some l')"
proof -
  from acquire_fresh [OF assms(1,3)] assms(2) have k: "k \<noteq> lease_token l" by auto
  obtain res s3 where q: "release r ow' k s2 = (res, s3)" by (cases "release r ow' k s2")
  from release_entry [OF q] assms(4) k q show "entry (snd (release r ow' k s2)) = entry s2" by auto
  obtain res' s4 where q': "renew now r ow' k ttl' s2 = (res', s4)" by (cases "renew now r ow' k ttl' s2")
  have d: "\<forall>l'. res' \<noteq> Inr (Some l')"
    using renew_granted [of now r ow' k ttl' s2 _ s4] assms(4) k q' by fastforce
  with q' show "\<forall>l'. fst (renew now r ow' k ttl' s2) \<noteq> Inr (Some l')" by simp
  from renew_denied [OF q' d] assms(4,5) k q' show "entry (snd (renew now r ow' k ttl' s2)) = entry s2"
    by auto
qed

end

text \<open>A manager that never fails: the expiry of a lease is exact, and what is free is granted.\<close>

locale lease_manager = lease_fencing acquire renew release entry exact_until exact_until issued exhausted
  for acquire :: "go_time \<Rightarrow> gostr \<Rightarrow> gostr \<Rightarrow> duration \<Rightarrow> 'l \<Rightarrow> (go_error + lease option) \<times> 'l"
    and renew release entry issued exhausted +
  assumes acquire_expires: "acquire now r ow ttl s = (Inr (Some l), s') \<Longrightarrow> lease_expires l = exact_until now ttl"
    and renew_expires: "renew now r ow k ttl s = (Inr (Some l), s') \<Longrightarrow> lease_expires l = exact_until now ttl"
    and renew_live: "renew now r ow k ttl s = (Inr (Some l), s') \<Longrightarrow>
         \<exists>e. entry s (trim_space r) = Some (trim_space ow, k, e) \<and> now \<le> e"
    and acquire_free: "trim_space r \<noteq> [] \<Longrightarrow> trim_space ow \<noteq> [] \<Longrightarrow>
         (\<forall>ow' k e. entry s (trim_space r) = Some (ow', k, e) \<longrightarrow> e \<le> now) \<Longrightarrow>
         \<exists>l s'. acquire now r ow ttl s = (Inr (Some l), s')"
    and release_frees: "entry s (trim_space r) = Some (trim_space ow, k, e) \<Longrightarrow>
         trim_space r \<noteq> [] \<Longrightarrow> trim_space ow \<noteq> [] \<Longrightarrow> k \<noteq> 0 \<Longrightarrow>
         entry (snd (release r ow k s)) = (entry s)(trim_space r := None)"
    and acquire_no_error: "acquire now r ow ttl s = (Inl err, s') \<Longrightarrow> s' = s"

section \<open>The in-memory manager keeps the contract\<close>

definition lease_entry_of :: "lease_state \<Rightarrow> gostr \<Rightarrow> holder option" where
  "lease_entry_of s r = map_option (\<lambda>x. (le_owner x, le_token x, le_expires x)) (ls_entries s r)"

definition lease_issued :: "lease_state \<Rightarrow> gostr \<Rightarrow> 64 word set" where
  "lease_issued s r = {k. 0 < k \<and> k \<le> ls_seq s}"

definition lease_exhausted :: "lease_state \<Rightarrow> gostr \<Rightarrow> bool" where
  "lease_exhausted s r \<longleftrightarrow> ls_seq s = - 1"

lemmas lease_op_defs = lease_acquire_def lease_renew_def lease_release_def

lemma unat_succ: "k \<noteq> - 1 \<Longrightarrow> unat (k + 1) = Suc (unat k)" for k :: "64 word"
proof -
  assume "k \<noteq> - 1"
  then have "unat (k + 1) \<noteq> 0" by (simp add: unat_eq_0 eq_neg_iff_add_eq_0)
  moreover have "unat (k + 1) = Suc (unat k) mod 2 ^ 64" by (simp add: unat_word_ariths)
  moreover have "unat k < 2 ^ 64" using unsigned_less [of k] by simp
  ultimately show ?thesis by (cases "Suc (unat k) = 2 ^ 64") auto
qed

lemma seq_step: "k \<noteq> - 1 \<Longrightarrow> k < k + 1 \<and> {j. 0 < j \<and> j \<le> k + 1} = insert (k + 1) {j. 0 < j \<and> j \<le> k}"
  for k :: "64 word"
  using unat_succ [of k]
  by (auto simp: word_le_nat_alt word_less_nat_alt le_Suc_eq word_unat_eq_iff)

interpretation mem_lease: lease_manager lease_acquire lease_renew lease_release
    lease_entry_of lease_issued lease_exhausted
proof (unfold_locales, goal_cases)
  case (1 now r ow ttl s l s')
  then show ?case
    by (auto simp: lease_acquire_def Let_def lease_entry_of_def exact_until_def fun_eq_iff split: if_splits option.splits)
next
  case (2 now r ow ttl s s')
  then show ?case by (auto simp: lease_acquire_def Let_def split: if_splits)
next
  case (3 now r ow ttl s err s')
  then show ?case by (auto simp: lease_acquire_def Let_def split: if_splits)
next
  case (4 now r ow k ttl s l s')
  then show ?case
    by (auto simp: lease_renew_def Let_def lease_entry_of_def exact_until_def fun_eq_iff split: if_splits option.splits)
next
  case (5 now r ow k ttl s res s')
  then show ?case
    by (auto simp: lease_renew_def Let_def lease_entry_of_def fun_eq_iff split: if_splits option.splits)
next
  case (6 r ow k s q s')
  then show ?case
    by (auto simp: lease_release_def Let_def lease_entry_of_def fun_eq_iff split: if_splits option.splits)
next
  case (7 s r now ow ttl l s')
  then have q: "ls_seq s \<noteq> - 1" "lease_token l = ls_seq s + 1" "ls_seq s' = ls_seq s + 1"
    by (auto simp: lease_exhausted_def lease_acquire_def Let_def split: if_splits)
  have less: "ls_seq s < ls_seq s + 1"
    and set_eq: "lease_issued s' (trim_space r) = insert (lease_token l) (lease_issued s (trim_space r))"
    using seq_step [OF q(1)] by (simp_all add: lease_issued_def q(2,3))
  from less have "lease_token l \<notin> lease_issued s (trim_space r)" by (simp add: lease_issued_def q(2) not_le)
  moreover from less have "lease_token l \<noteq> 0" by (metis q(2) leD word_zero_le)
  ultimately show ?case using set_eq by simp
next
  case (8 s r r' now ow ttl)
  with seq_step [of "ls_seq s"] show ?case
    by (auto simp: lease_acquire_def lease_exhausted_def lease_issued_def Let_def split: if_splits)
next
  case (9 now r ow k ttl s)
  then show ?case by (auto simp: lease_renew_def Let_def lease_issued_def split: option.splits)
next
  case (10 r ow k s)
  then show ?case by (auto simp: lease_release_def Let_def lease_issued_def split: option.splits)
next
  case (11 now r ow ttl s l s')
  then show ?case by (auto simp: lease_acquire_def exact_until_def Let_def split: if_splits)
next
  case (12 now r ow k ttl s l s')
  then show ?case by (auto simp: lease_renew_def exact_until_def Let_def split: if_splits option.splits)
next
  case (13 now r ow k ttl s l s')
  then show ?case by (auto simp: lease_renew_def lease_entry_of_def Let_def split: if_splits option.splits)
next
  case (14 r ow s now ttl)
  then show ?case
    by (auto simp: lease_acquire_def Let_def lease_entry_of_def split: option.splits)
next
  case (15 s r ow k e)
  then show ?case
    by (auto simp: lease_release_def Let_def lease_entry_of_def fun_eq_iff split: option.splits)
next
  case (16 now r ow ttl s err s')
  then show ?case by (auto simp: lease_acquire_def Let_def split: if_splits)
qed


section \<open>Properties\<close>

lemma plain_ends_Cons [simp]: "plain_ends (c # cs) \<longleftrightarrow> plain_char c \<and> plain_char (last (c # cs))"
  by (simp add: plain_ends_def)

lemmas lease_eval = lease_op_defs Let_def default_lease_ttl_def new_lease_manager_def
  lease_run_def plain_char_def exact_until_def

text \<open>C3: mutual exclusion. Once a lease on a resource is granted, no acquisition of it
  succeeds before the granted expiry, by any owner, whatever acquisitions, renewals and
  releases happen in between (at clock readings before the expiry), as long as the holder
  itself does not release it or renew it to an earlier expiry.\<close>

theorem lease_exclusive:
  assumes "lease_acquire t r ow ttl s = (Inr (Some l), s1)"
    and "\<forall>oper\<in>set ops. undisturbed (trim_space r) (trim_space ow) (lease_token l) (lease_expires l) T oper"
    and "T < lease_expires l" "now < lease_expires l" "trim_space r' = trim_space r"
  shows "\<forall>l'. fst (lease_acquire now r' ow' ttl'
           (lease_run lease_acquire lease_renew lease_release ops s1)) \<noteq> Inr (Some l')"
proof -
  have u: "lease_expires l = exact_until t ttl" by (rule mem_lease.acquire_expires [OF assms(1)])
  show ?thesis using mem_lease.exclusive [OF assms(1-4) [unfolded u] _ assms(5)] by (metis prod.collapse)
qed

theorem lease_exclusive_witness:
  "\<forall>l'. fst (lease_acquire 6 ''node:1'' ''b'' 10
      (lease_run lease_acquire lease_renew lease_release
        [Acquire 3 ''node:1'' ''b'' 10, Release ''node:1'' ''b'' 1, Renew 4 ''node:1'' ''a'' 1 10]
        (snd (lease_acquire 0 ''node:1'' ''a'' 10 new_lease_manager)))) \<noteq> Inr (Some l')"
  by (rule lease_exclusive
      [where t = 0 and r = "''node:1''" and ow = "''a''" and ttl = 10 and s = new_lease_manager
        and l = "\<lparr>lease_token = 1, lease_expires = 10\<rparr>" and T = 5])
     (simp_all add: lease_eval)

text \<open>Fencing. A token issued before a grant (a holder whose lease ran out) can neither
  release nor extend the lease of the later holder, even of the same owner, as long as the
  later holder's entry stands and is live; this holds until the 64-bit token counter wraps.\<close>

lemma lease_stale_token:
  assumes "\<not> lease_exhausted s (trim_space r)" "k \<in> lease_issued s (trim_space r)"
    and "lease_acquire t r ow ttl s = (Inr (Some l), s1)"
    and "lease_entry_of s2 (trim_space r) = Some (ow2, lease_token l, e2)" "now \<le> e2"
  shows "lease_entry_of (snd (lease_release r ow' k s2)) = lease_entry_of s2
    \<and> lease_entry_of (snd (lease_renew now r ow' k ttl' s2)) = lease_entry_of s2
    \<and> (\<forall>l'. fst (lease_renew now r ow' k ttl' s2) \<noteq> Inr (Some l'))"
  using mem_lease.stale_token_powerless [OF assms] by blast

lemma lease_stale_token_at_work:
  "let s = \<lparr>ls_seq = 1, ls_entries = Map.empty\<rparr>;
       s2 = snd (lease_acquire 20 ''node:1'' ''a'' 10 s)
   in lease_entry_of (snd (lease_release ''node:1'' ''a'' 1 s2)) = lease_entry_of s2
    \<and> lease_entry_of (snd (lease_renew 25 ''node:1'' ''a'' 1 10 s2)) = lease_entry_of s2
    \<and> (\<forall>l'. fst (lease_renew 25 ''node:1'' ''a'' 1 10 s2) \<noteq> Inr (Some l'))"
  unfolding Let_def
  by (rule lease_stale_token
      [where t = 20 and ow = "''a''" and ttl = 10 and s = "\<lparr>ls_seq = 1, ls_entries = Map.empty\<rparr>"
        and l = "\<lparr>lease_token = 2, lease_expires = 30\<rparr>" and ?ow2.0 = "''a''" and ?e2.0 = 30])
     (simp_all add: lease_eval lease_exhausted_def lease_issued_def lease_entry_of_def)

text \<open>A released resource is free at once: after the holder releases it with its token,
  any valid acquisition of it succeeds, at any clock reading.\<close>

lemma lease_release_then_acquire:
  assumes "lease_acquire t r ow ttl s = (Inr (Some l), s1)" "lease_token l \<noteq> 0"
    and "trim_space r' = trim_space r" "\<not> blank ow'"
  shows "\<exists>l' s2. lease_acquire now r' ow' ttl' (snd (lease_release r ow (lease_token l) s1))
           = (Inr (Some l'), s2)"
proof (rule mem_lease.acquire_free)
  have g: "lease_entry_of s1 (trim_space r) = Some (trim_space ow, lease_token l, lease_expires l)"
    "\<not> blank r" "\<not> blank ow"
    using mem_lease.acquire_granted [OF assms(1)] mem_lease.acquire_expires [OF assms(1)] by simp_all
  show "\<not> blank r'" "\<not> blank ow'" using g(2) assms(3,4) by simp_all
  show "\<forall>ow' k e. lease_entry_of (snd (lease_release r ow (lease_token l) s1)) (trim_space r') =
      Some (ow', k, e) \<longrightarrow> e \<le> now"
    using mem_lease.release_frees [OF g assms(2)] assms(3) by simp
qed

lemma lease_release_then_acquire_at_work:
  "\<exists>l' s2. lease_acquire 1 ''node:1'' ''b'' 10
      (snd (lease_release ''node:1'' ''a'' 1 (snd (lease_acquire 0 ''node:1'' ''a'' 10 new_lease_manager))))
    = (Inr (Some l'), s2)"
  using lease_release_then_acquire
      [of 0 "''node:1''" "''a''" 10 new_lease_manager "\<lparr>lease_token = 1, lease_expires = 10\<rparr>"
        _ "''node:1''" "''b''" 1 10]
  by (simp add: lease_eval)

end
