(* ===== verification/Connection.thy ===== *)
theory Connection
  imports Prelude
begin

text \<open>
  A connection to a server that keeps the data, as the Redis and the Postgres clients have one:
  a request may not reach the server, or its answer may be lost.
\<close>

text \<open>What happens to the commands to come: one is answered, does not reach the server, or is carried
  out and its answer is lost. After the listed ones every command is answered.\<close>

datatype fault = Fine | NotSent go_error | NotHeard go_error

record 'd connection =
  cn_db :: 'd
  cn_faults :: "fault list"

definition send :: "('d \<Rightarrow> 'r \<times> 'd) \<Rightarrow> 'd connection \<Rightarrow> (go_error + 'r) \<times> 'd connection" where
  "send f c =
     (let (r, d) = f (cn_db c); rest = tl (cn_faults c); done = c\<lparr>cn_db := d, cn_faults := rest\<rparr> in
      case cn_faults c of
        [] \<Rightarrow> (Inr r, done)
      | Fine # _ \<Rightarrow> (Inr r, done)
      | NotSent e # _ \<Rightarrow> (Inl e, c\<lparr>cn_faults := rest\<rparr>)
      | NotHeard e # _ \<Rightarrow> (Inl e, done))"

lemma send_heard: "send f c = (Inr r, c') \<Longrightarrow> f (cn_db c) = (r, cn_db c')"
  by (auto simp: send_def Let_def split: prod.splits list.splits fault.splits)

lemma send_lost: "send f c = (Inl e, c') \<Longrightarrow> cn_db c' = cn_db c \<or> cn_db c' = snd (f (cn_db c))"
  by (auto simp: send_def Let_def split: prod.splits list.splits fault.splits)

lemma send_read: "send (\<lambda>d. (f d, d)) c = (r, c') \<Longrightarrow> cn_db c' = cn_db c"
  by (auto simp: send_def Let_def split: list.splits fault.splits)

lemma send_quiet: "cn_faults c = [] \<Longrightarrow> send f c = (Inr (fst (f (cn_db c))), c\<lparr>cn_db := snd (f (cn_db c))\<rparr>)"
  by (simp add: send_def Let_def split: prod.splits)

end
