(* ===== verification/Redis.thy ===== *)
theory Redis
  imports Connection
begin

text \<open>
  The Redis server as \<open>internal/lease/redis.go\<close> and \<open>internal/idempotency/redis.go\<close> use it: the commands
  they send, directly or from their Lua scripts, are a parameter, and what Redis and its Go client
  document of them is the locale \<open>redis_server\<close>. They go over a connection that may lose a
  request or its answer.
\<close>

section \<open>The commands\<close>

text \<open>Each command gets the server's clock in milliseconds. An expiry is given to the Go client as a
  duration; \<open>PEXPIRE\<close>, which the script sends itself, gets milliseconds.\<close>

record 'd redis =
  rd_get :: "int \<Rightarrow> gostr \<Rightarrow> 'd \<Rightarrow> gostr option"
  rd_set :: "int \<Rightarrow> gostr \<Rightarrow> gostr \<Rightarrow> duration \<Rightarrow> 'd \<Rightarrow> unit \<times> 'd"
  rd_set_nx :: "int \<Rightarrow> gostr \<Rightarrow> gostr \<Rightarrow> duration \<Rightarrow> 'd \<Rightarrow> bool \<times> 'd"
  rd_incr :: "int \<Rightarrow> gostr \<Rightarrow> 'd \<Rightarrow> (go_error + int) \<times> 'd"
  rd_del :: "int \<Rightarrow> gostr \<Rightarrow> 'd \<Rightarrow> int \<times> 'd"
  rd_pexpire :: "int \<Rightarrow> gostr \<Rightarrow> int \<Rightarrow> 'd \<Rightarrow> int \<times> 'd"

definition server_clock :: "go_time \<Rightarrow> int" where
  "server_clock now = now div millisecond"

text \<open>A key with its value and its expiry, if it has one; a key past its expiry is not there.\<close>

type_synonym redis_entry = "gostr \<times> int option"

definition live :: "int \<Rightarrow> redis_entry option \<Rightarrow> redis_entry option" where
  "live t c = (case c of
     None \<Rightarrow> None
   | Some (v, None) \<Rightarrow> Some (v, None)
   | Some (v, Some x) \<Rightarrow> if x < t then None else Some (v, Some x))"

text \<open>The Go client sends whole milliseconds, at least one.\<close>

definition whole_ms :: "duration \<Rightarrow> int" where
  "whole_ms ttl = max 1 (ttl div millisecond)"

text \<open>A key that expires at the millisecond \<open>x\<close> is seen until the end of that millisecond.\<close>

definition end_of_ms :: "int \<Rightarrow> go_time" where
  "end_of_ms x = (x + 1) * millisecond"

lemma seen_until: "x < server_clock now \<longleftrightarrow> end_of_ms x \<le> now"
proof -
  have "x < now div m \<longleftrightarrow> (x + 1) * m \<le> now" if m: "0 < m" for m :: int
  proof
    assume "x < now div m"
    then have "(x + 1) * m \<le> now div m * m" using m by (simp add: mult_right_mono)
    also have "\<dots> \<le> now" using m pos_mod_sign [of m now] by (simp add: minus_mod_eq_div_mult [symmetric])
    finally show "(x + 1) * m \<le> now" .
  next
    assume "(x + 1) * m \<le> now"
    from zdiv_mono1 [OF this m] m show "x < now div m" by simp
  qed
  then show ?thesis by (simp add: server_clock_def end_of_ms_def)
qed

lemma whole_ms_until:
  assumes "ttl mod millisecond = 0"
  shows "now + ttl < end_of_ms (server_clock now + whole_ms ttl)"
proof -
  have "t + d < (t div m + max 1 (d div m) + 1) * m" if "0 < m" "d mod m = 0" for t m d :: int
  proof -
    have "t < (t div m + 1) * m"
      using pos_mod_bound [OF that(1), of t] div_mult_mod_eq [of t m] by (simp only: distrib_right mult_1)
    moreover have "d = d div m * m" using div_mult_mod_eq [of d m] that(2) by simp
    moreover have "d div m * m \<le> max 1 (d div m) * m" using that(1) by (simp add: mult_right_mono)
    ultimately show ?thesis by (simp add: algebra_simps)
  qed
  from this [of millisecond ttl now] assms show ?thesis
    by (simp add: end_of_ms_def server_clock_def whole_ms_def)
qed

locale redis_server =
  fixes R :: "'d redis" and content :: "'d \<Rightarrow> gostr \<Rightarrow> redis_entry option"
  assumes get: "rd_get R t k d = map_option fst (live t (content d k))"
    and set: "0 < ttl \<Longrightarrow> content (snd (rd_set R t k v ttl d)) = (content d)(k \<mapsto> (v, Some (t + whole_ms ttl)))"
    and set_nx: "0 < ttl \<Longrightarrow> rd_set_nx R t k v ttl d = (b, d') \<Longrightarrow>
      b = (live t (content d k) = None)
      \<and> content d' = (if b then (content d)(k \<mapsto> (v, Some (t + whole_ms ttl))) else content d)"
    and incr_error: "rd_incr R t k d = (Inl e, d') \<Longrightarrow> content d' = content d"
    and incr: "rd_incr R t k d = (Inr n, d') \<Longrightarrow> n < 2 ^ 63 \<and>
      (case live t (content d k) of
         None \<Rightarrow> n = 1 \<and> content d' = (content d)(k \<mapsto> (fmt_d 1, None))
       | Some (v, x) \<Rightarrow> atoi v = Some (n - 1) \<and> content d' = (content d)(k \<mapsto> (fmt_d n, x)))"
    and del: "rd_del R t k d = (n, d') \<Longrightarrow> content d' = (content d)(k := None)"
    and pexpire: "rd_pexpire R t k ms d = (n, d') \<Longrightarrow>
      (case live t (content d k) of
         None \<Rightarrow> n = 0 \<and> content d' = content d
       | Some (v, x) \<Rightarrow> n = 1 \<and> content d' = (content d)(k := if ms \<le> 0 then None else Some (v, Some (t + ms))))"

section \<open>The scripts\<close>

text \<open>\<open>releaseLeaseScript\<close> and \<open>releaseLockScript\<close>, which are the same text, and \<open>renewLeaseScript\<close>.\<close>

definition release_script :: "'d redis \<Rightarrow> int \<Rightarrow> gostr \<Rightarrow> gostr \<Rightarrow> 'd \<Rightarrow> int \<times> 'd" where
  "release_script R t key v d =
     (case rd_get R t key d of
        None \<Rightarrow> (0, d)
      | Some existing \<Rightarrow> if existing = v then rd_del R t key d else (0, d))"

definition renew_script :: "'d redis \<Rightarrow> int \<Rightarrow> gostr \<Rightarrow> gostr \<Rightarrow> int \<Rightarrow> 'd \<Rightarrow> int \<times> 'd" where
  "renew_script R t key v ms d =
     (case rd_get R t key d of
        None \<Rightarrow> (0, d)
      | Some existing \<Rightarrow> if existing = v then rd_pexpire R t key ms d else (0, d))"

context redis_server
begin

lemma release_script_content:
  "content (snd (release_script R t k v d)) =
     (if map_option fst (live t (content d k)) = Some v then (content d)(k := None) else content d)"
  using del [of t k d] by (auto simp: release_script_def get split: option.splits prod.splits) (metis prod.collapse)

lemma renew_script_content:
  "renew_script R t k v ms d = (n, d') \<Longrightarrow>
     (case live t (content d k) of
        None \<Rightarrow> n = 0 \<and> content d' = content d
      | Some (w, x) \<Rightarrow>
          if w = v then n = 1 \<and> content d' = (content d)(k := if ms \<le> 0 then None else Some (v, Some (t + ms)))
          else n = 0 \<and> content d' = content d)"
  using pexpire [of t k ms d n d'] by (auto simp: renew_script_def get split: option.splits if_splits)

end

section \<open>A server\<close>

text \<open>A server that does what the laws say; it shows that they can hold, and the examples run on it.\<close>

definition mem_redis :: "(gostr \<Rightarrow> redis_entry option) redis" where
  "mem_redis = \<lparr>
     rd_get = (\<lambda>t k d. map_option fst (live t (d k))),
     rd_set = (\<lambda>t k v ttl d. ((), d(k \<mapsto> (v, Some (t + whole_ms ttl))))),
     rd_set_nx = (\<lambda>t k v ttl d.
       if live t (d k) = None then (True, d(k \<mapsto> (v, Some (t + whole_ms ttl)))) else (False, d)),
     rd_incr = (\<lambda>t k d. case live t (d k) of
         None \<Rightarrow> (Inr 1, d(k \<mapsto> (fmt_d 1, None)))
       | Some (v, x) \<Rightarrow> (case atoi v of
             None \<Rightarrow> (Inl (new_error ''ERR value is not an integer or out of range''), d)
           | Some n \<Rightarrow> if 2 ^ 63 \<le> n + 1 then (Inl (new_error ''ERR increment or decrement would overflow''), d)
                       else (Inr (n + 1), d(k \<mapsto> (fmt_d (n + 1), x))))),
     rd_del = (\<lambda>t k d. ((case live t (d k) of None \<Rightarrow> 0 | Some _ \<Rightarrow> 1), d(k := None))),
     rd_pexpire = (\<lambda>t k ms d. case live t (d k) of
         None \<Rightarrow> (0, d)
       | Some (v, x) \<Rightarrow> (1, d(k := if ms \<le> 0 then None else Some (v, Some (t + ms)))))\<rparr>"

interpretation mem: redis_server mem_redis "\<lambda>d. d"
  by unfold_locales (auto simp: mem_redis_def split: if_splits option.splits prod.splits)

end
