(* ===== verification/Tasks.thy ===== *)
theory Tasks
  imports Prelude
begin

text \<open>
  Tasks, \<open>internal/task/service.go\<close>: the task record, the in-memory service with every
  operation, the derivation of the extracted outputs, and the contract the service promises
  its clients (the runner and the HTTP API) as the locale \<open>task_service\<close>. A pointer
  \<open>*time.Time\<close> is an option. \<open>time.Now()\<close> is the argument \<open>now\<close>.
\<close>

section \<open>Data\<close>

datatype task_status = Queued | Running | Completed | Failed | Canceled

datatype task_error =
    SessionIdRequired | UrlRequired | GoalRequired | NegativeMaxRetries
  | TaskNotFound | TaskNotQueued | TaskNotCancelable

fun task_error_text :: "task_error \<Rightarrow> gostr" where
  "task_error_text SessionIdRequired = ''session_id is required''"
| "task_error_text UrlRequired = ''url is required''"
| "task_error_text GoalRequired = ''goal is required when actions are empty''"
| "task_error_text NegativeMaxRetries = ''max_retries cannot be negative''"
| "task_error_text TaskNotFound = ''task not found''"
| "task_error_text TaskNotQueued = ''task is not queued''"
| "task_error_text TaskNotCancelable = ''task is not cancelable''"

record action =
  ac_type :: gostr
  ac_selector :: gostr
  ac_text :: gostr
  ac_pixels :: int
  ac_timeout_ms :: int
  ac_delay_ms :: int

record planner_meta =
  pm_mode :: gostr
  pm_round :: int
  pm_failure_count :: int
  pm_stop_reason :: gostr

record step_trace =
  st_index :: int
  st_action :: action
  st_status :: gostr
  st_error :: gostr
  st_output_text :: gostr
  st_started_at :: "go_time option"
  st_completed_at :: "go_time option"
  st_duration_ms :: int
  st_screenshot :: gostr
  st_artifact_url :: gostr
  st_planner :: "planner_meta option"

record task =
  tk_id :: gostr
  tk_source :: gostr
  tk_session :: gostr
  tk_url :: gostr
  tk_goal :: gostr
  tk_actions :: "action list"
  tk_trace :: "step_trace list"
  tk_outputs :: "gostr list"
  tk_status :: task_status
  tk_attempt :: int
  tk_max_retries :: int
  tk_next_retry :: "go_time option"
  tk_node :: gostr
  tk_page_title :: gostr
  tk_final_url :: gostr
  tk_screenshot :: gostr
  tk_artifact_url :: gostr
  tk_blocker_type :: gostr
  tk_blocker_message :: gostr
  tk_error :: gostr
  tk_created :: go_time
  tk_started :: "go_time option"
  tk_completed :: "go_time option"

record create_input =
  ci_source :: gostr
  ci_session :: gostr
  ci_url :: gostr
  ci_goal :: gostr
  ci_actions :: "action list"
  ci_max_retries :: int

record start_input =
  si_task :: gostr
  si_node :: gostr
  si_started :: go_time

record retry_input =
  ri_task :: gostr
  ri_retry_at :: go_time
  ri_last_error :: gostr

record complete_input =
  co_task :: gostr
  co_node :: gostr
  co_completed :: go_time
  co_page_title :: gostr
  co_final_url :: gostr
  co_screenshot :: gostr
  co_artifact_url :: gostr
  co_trace :: "step_trace list"

record fail_input =
  fi_task :: gostr
  fi_node :: gostr
  fi_completed :: go_time
  fi_error :: gostr
  fi_page_title :: gostr
  fi_final_url :: gostr
  fi_screenshot :: gostr
  fi_artifact_url :: gostr
  fi_blocker_type :: gostr
  fi_blocker_message :: gostr
  fi_trace :: "step_trace list"

record cancel_input =
  ca_task :: gostr
  ca_reason :: gostr
  ca_completed :: go_time
  ca_by :: gostr

record task_state =
  ts_counter :: nat
  ts_items :: "gostr \<rightharpoonup> task"

section \<open>Operations\<close>

definition new_tasks :: task_state where
  "new_tasks = \<lparr>ts_counter = 0, ts_items = Map.empty\<rparr>"

definition normalize_time :: "go_time \<Rightarrow> go_time \<Rightarrow> go_time" where
  "normalize_time now t = (if t = zero_time then now else t)"

text \<open>The loop of \<open>deriveExtractedOutputs\<close>: \<open>outs\<close> is also the set \<open>seen\<close>.\<close>

primrec derive_loop :: "step_trace list \<Rightarrow> gostr list \<Rightarrow> gostr list" where
  "derive_loop [] outs = outs"
| "derive_loop (step # steps) outs =
     (let v = trim_space (st_output_text step) in
      if v = [] \<or> v \<in> set outs then derive_loop steps outs
      else let outs' = outs @ [v] in
           if 20 \<le> length outs' then outs' else derive_loop steps outs')"

definition derive_extracted_outputs :: "step_trace list \<Rightarrow> gostr list" where
  "derive_extracted_outputs trace = derive_loop trace []"

definition task_id_of :: "nat \<Rightarrow> gostr" where
  "task_id_of n = ''task_'' @ fmt_0d 6 n"

definition task_create ::
  "go_time \<Rightarrow> create_input \<Rightarrow> task_state \<Rightarrow> (task_error + task) \<times> task_state" where
  "task_create now inp s =
     (if ci_session inp = [] then (Inl SessionIdRequired, s)
      else if ci_url inp = [] then (Inl UrlRequired, s)
      else if ci_goal inp = [] \<and> ci_actions inp = [] then (Inl GoalRequired, s)
      else if ci_max_retries inp < 0 then (Inl NegativeMaxRetries, s)
      else
        let n = Suc (ts_counter s);
            created = \<lparr>tk_id = task_id_of n, tk_source = ci_source inp, tk_session = ci_session inp,
              tk_url = ci_url inp, tk_goal = ci_goal inp, tk_actions = ci_actions inp,
              tk_trace = [], tk_outputs = [], tk_status = Queued, tk_attempt = 0,
              tk_max_retries = ci_max_retries inp, tk_next_retry = None, tk_node = [],
              tk_page_title = [], tk_final_url = [], tk_screenshot = [], tk_artifact_url = [],
              tk_blocker_type = [], tk_blocker_message = [], tk_error = [], tk_created = now,
              tk_started = None, tk_completed = None\<rparr>
        in (Inr created, \<lparr>ts_counter = n, ts_items = (ts_items s)(tk_id created \<mapsto> created)\<rparr>))"

text \<open>The five operations that change a task load it, check its status and store the changed
  record; they differ in the check and the change.\<close>

definition start_task :: "go_time \<Rightarrow> start_input \<Rightarrow> task \<Rightarrow> task" where
  "start_task now inp t =
     t\<lparr>tk_status := Running, tk_attempt := tk_attempt t + 1, tk_node := si_node inp,
       tk_started := Some (normalize_time now (si_started inp)), tk_next_retry := None,
       tk_error := [], tk_blocker_type := [], tk_blocker_message := [], tk_trace := [],
       tk_outputs := []\<rparr>"

definition retry_task :: "go_time \<Rightarrow> retry_input \<Rightarrow> task \<Rightarrow> task" where
  "retry_task now inp t =
     t\<lparr>tk_status := Queued, tk_node := [],
       tk_next_retry := Some (normalize_time now (ri_retry_at inp)),
       tk_error := ri_last_error inp, tk_blocker_type := [], tk_blocker_message := [],
       tk_trace := [], tk_outputs := []\<rparr>"

definition complete_task :: "go_time \<Rightarrow> complete_input \<Rightarrow> task \<Rightarrow> task" where
  "complete_task now inp t =
     t\<lparr>tk_status := Completed, tk_node := co_node inp, tk_page_title := co_page_title inp,
       tk_final_url := co_final_url inp, tk_screenshot := co_screenshot inp,
       tk_artifact_url := co_artifact_url inp, tk_blocker_type := [], tk_blocker_message := [],
       tk_error := [], tk_next_retry := None, tk_trace := co_trace inp,
       tk_outputs := derive_extracted_outputs (co_trace inp),
       tk_completed := Some (normalize_time now (co_completed inp))\<rparr>"

definition fail_task :: "go_time \<Rightarrow> fail_input \<Rightarrow> task \<Rightarrow> task" where
  "fail_task now inp t =
     t\<lparr>tk_status := Failed, tk_node := fi_node inp, tk_page_title := fi_page_title inp,
       tk_final_url := fi_final_url inp, tk_screenshot := fi_screenshot inp,
       tk_artifact_url := fi_artifact_url inp, tk_blocker_type := fi_blocker_type inp,
       tk_blocker_message := fi_blocker_message inp, tk_error := fi_error inp,
       tk_next_retry := None, tk_trace := fi_trace inp,
       tk_outputs := derive_extracted_outputs (fi_trace inp),
       tk_completed := Some (normalize_time now (fi_completed inp))\<rparr>"

definition cancel_reason :: "gostr \<Rightarrow> gostr" where
  "cancel_reason r = (if blank r then ''task canceled'' else trim_space r)"

definition cancel_task :: "go_time \<Rightarrow> cancel_input \<Rightarrow> task \<Rightarrow> task" where
  "cancel_task now inp t =
     t\<lparr>tk_status := Canceled, tk_node := [], tk_next_retry := None,
       tk_error := cancel_reason (ca_reason inp), tk_blocker_type := [],
       tk_blocker_message := [],
       tk_completed := Some (normalize_time now (ca_completed inp))\<rparr>"

definition task_update ::
  "gostr \<Rightarrow> (task \<Rightarrow> task_error option) \<Rightarrow> (task \<Rightarrow> task) \<Rightarrow> task_state \<Rightarrow>
     (task_error + task) \<times> task_state" where
  "task_update tid refuse change s =
     (case ts_items s tid of
        None \<Rightarrow> (Inl TaskNotFound, s)
      | Some t \<Rightarrow>
          (case refuse t of
             Some e \<Rightarrow> (Inl e, s)
           | None \<Rightarrow> (Inr (change t), s\<lparr>ts_items := (ts_items s)(tid \<mapsto> change t)\<rparr>)))"

definition unless_status :: "(task_status \<Rightarrow> bool) \<Rightarrow> task_error \<Rightarrow> task \<Rightarrow> task_error option" where
  "unless_status ok e t = (if ok (tk_status t) then None else Some e)"

definition task_start where
  "task_start now inp s =
     task_update (si_task inp) (unless_status (\<lambda>q. q = Queued) TaskNotQueued) (start_task now inp) s"

definition task_retry where
  "task_retry now inp s =
     task_update (ri_task inp) (unless_status (\<lambda>q. q \<noteq> Canceled) TaskNotCancelable) (retry_task now inp) s"

definition task_complete where
  "task_complete now inp s =
     task_update (co_task inp) (unless_status (\<lambda>q. q \<noteq> Canceled) TaskNotCancelable) (complete_task now inp) s"

definition task_fail where
  "task_fail now inp s =
     task_update (fi_task inp) (unless_status (\<lambda>q. q \<noteq> Canceled) TaskNotCancelable) (fail_task now inp) s"

definition task_cancel where
  "task_cancel now inp s =
     task_update (ca_task inp)
       (unless_status (\<lambda>q. q \<noteq> Completed \<and> q \<noteq> Failed \<and> q \<noteq> Canceled) TaskNotCancelable)
       (cancel_task now inp) s"

definition task_get :: "gostr \<Rightarrow> task_state \<Rightarrow> task_error + task" where
  "task_get tid s = (case ts_items s tid of None \<Rightarrow> Inl TaskNotFound | Some t \<Rightarrow> Inr t)"

text \<open>The list operations range over the map in the order \<open>ks\<close>.\<close>

definition recent_less :: "task \<Rightarrow> task \<Rightarrow> bool" where
  "recent_less a b \<longleftrightarrow>
     (if tk_created a = tk_created b then tk_id a > tk_id b else tk_created a > tk_created b)"

definition queued_less :: "task \<Rightarrow> task \<Rightarrow> bool" where
  "queued_less a b \<longleftrightarrow>
     (case (tk_next_retry a, tk_next_retry b) of
        (Some x, Some y) \<Rightarrow> x < y
      | (Some x, None) \<Rightarrow> True
      | (None, Some y) \<Rightarrow> False
      | (None, None) \<Rightarrow> tk_created a < tk_created b)"

definition limit_or :: "int \<Rightarrow> int \<Rightarrow> nat" where
  "limit_or d limit = nat (if limit \<le> 0 then d else limit)"

definition task_list_recent :: "gostr list \<Rightarrow> int \<Rightarrow> task_state \<Rightarrow> task list" where
  "task_list_recent ks limit s =
     take (limit_or 50 limit) (sort_by recent_less (listed (ts_items s) ks))"

definition task_list_by_source :: "gostr list \<Rightarrow> gostr \<Rightarrow> int \<Rightarrow> task_state \<Rightarrow> task list" where
  "task_list_by_source ks source limit s =
     (let src = trim_space source in
      if src = [] then []
      else take (limit_or 50 limit)
             (sort_by recent_less (filter (\<lambda>t. tk_source t = src) (listed (ts_items s) ks))))"

definition due :: "go_time \<Rightarrow> task \<Rightarrow> bool" where
  "due now t \<longleftrightarrow> tk_status t = Queued \<and>
     (case tk_next_retry t of Some at \<Rightarrow> \<not> now < at | None \<Rightarrow> True)"

definition task_list_queued :: "gostr list \<Rightarrow> go_time \<Rightarrow> int \<Rightarrow> task_state \<Rightarrow> task list" where
  "task_list_queued ks now limit s =
     take (limit_or 100 limit) (sort_by queued_less (filter (due now) (listed (ts_items s) ks)))"


section \<open>The contract of a task service\<close>

text \<open>
  \<open>view s\<close> is the map of tasks a client sees. An operation on a task looks it up, refuses by
  its status or moves it to one target status, and leaves every other task alone; what a
  client asked for (session, url, goal, actions, retries) never changes.
\<close>

definition same_request :: "task \<Rightarrow> task \<Rightarrow> bool" where
  "same_request t u \<longleftrightarrow> tk_id u = tk_id t \<and> tk_source u = tk_source t \<and> tk_session u = tk_session t
     \<and> tk_url u = tk_url t \<and> tk_goal u = tk_goal t \<and> tk_actions u = tk_actions t
     \<and> tk_max_retries u = tk_max_retries t \<and> tk_created u = tk_created t"

definition moves ::
  "(task_status \<Rightarrow> bool) \<Rightarrow> task_error \<Rightarrow> task_status \<Rightarrow> int \<Rightarrow> gostr \<Rightarrow>
     (gostr \<rightharpoonup> task) \<Rightarrow> task_error + task \<Rightarrow> (gostr \<rightharpoonup> task) \<Rightarrow> bool" where
  "moves ok err target inc tid m res m' \<longleftrightarrow>
     (case m tid of
        None \<Rightarrow> res = Inl TaskNotFound \<and> m' = m
      | Some t \<Rightarrow>
          if ok (tk_status t)
          then \<exists>u. res = Inr u \<and> m' = m(tid \<mapsto> u) \<and> tk_status u = target \<and>
                 tk_attempt u = tk_attempt t + inc \<and> same_request t u
          else res = Inl err \<and> m' = m)"

datatype task_op =
    OpCreate create_input | OpStart start_input | OpRetry retry_input
  | OpComplete complete_input | OpFail fail_input | OpCancel cancel_input

fun task_op_step where
  "task_op_step create start retry complete fail cancel (now, OpCreate i) s = snd (create now i s)"
| "task_op_step create start retry complete fail cancel (now, OpStart i) s = snd (start now i s)"
| "task_op_step create start retry complete fail cancel (now, OpRetry i) s = snd (retry now i s)"
| "task_op_step create start retry complete fail cancel (now, OpComplete i) s = snd (complete now i s)"
| "task_op_step create start retry complete fail cancel (now, OpFail i) s = snd (fail now i s)"
| "task_op_step create start retry complete fail cancel (now, OpCancel i) s = snd (cancel now i s)"

fun task_op_run where
  "task_op_run create start retry complete fail cancel (now, OpCreate i) s = create now i s"
| "task_op_run create start retry complete fail cancel (now, OpStart i) s = start now i s"
| "task_op_run create start retry complete fail cancel (now, OpRetry i) s = retry now i s"
| "task_op_run create start retry complete fail cancel (now, OpComplete i) s = complete now i s"
| "task_op_run create start retry complete fail cancel (now, OpFail i) s = fail now i s"
| "task_op_run create start retry complete fail cancel (now, OpCancel i) s = cancel now i s"

lemma task_op_step_run:
  "task_op_step create start retry complete fail cancel nop s = snd (task_op_run create start retry complete fail cancel nop s)"
  by (cases nop; cases "snd nop") simp_all

fun requeues :: "gostr \<Rightarrow> task_op \<Rightarrow> bool" where
  "requeues tid (OpRetry i) \<longleftrightarrow> ri_task i = tid"
| "requeues tid _ \<longleftrightarrow> False"

text \<open>What still holds of a service whose server may fail: a refused call has changed nothing, or it
  was carried out and only its answer was lost.\<close>

definition moved ::
  "(task_status \<Rightarrow> bool) \<Rightarrow> task_status \<Rightarrow> int \<Rightarrow> gostr \<Rightarrow> (gostr \<rightharpoonup> task) \<Rightarrow> task \<Rightarrow> (gostr \<rightharpoonup> task) \<Rightarrow> bool" where
  "moved ok target inc tid m u m' \<longleftrightarrow>
     (\<exists>t. m tid = Some t \<and> ok (tk_status t) \<and> m' = m(tid \<mapsto> u) \<and> tk_status u = target
        \<and> tk_attempt u = tk_attempt t + inc \<and> same_request t u)"

definition safely_moves ::
  "(task_status \<Rightarrow> bool) \<Rightarrow> task_status \<Rightarrow> int \<Rightarrow> gostr \<Rightarrow> (gostr \<rightharpoonup> task) \<Rightarrow> 'e + task \<Rightarrow> (gostr \<rightharpoonup> task) \<Rightarrow> bool" where
  "safely_moves ok target inc tid m res m' \<longleftrightarrow>
     (case res of
        Inr u \<Rightarrow> moved ok target inc tid m u m'
      | Inl _ \<Rightarrow> m' = m \<or> (\<exists>u. moved ok target inc tid m u m'))"

lemma moves_safely: "moves ok err target inc tid m res m' \<Longrightarrow> safely_moves ok target inc tid m res m'"
  by (auto simp: moves_def safely_moves_def moved_def split: option.splits if_splits sum.splits)

lemma safely_movesD: "safely_moves ok target inc tid m res m' \<Longrightarrow> m' = m \<or> (\<exists>u. moved ok target inc tid m u m')"
  by (auto simp: safely_moves_def split: sum.splits)

text \<open>\<open>'n\<close> is what a call gets from its surroundings: the clock, and a new id where one is drawn.\<close>

locale task_safety =
  fixes create :: "'n \<Rightarrow> create_input \<Rightarrow> 's \<Rightarrow> ('e + task) \<times> 's"
    and start :: "'n \<Rightarrow> start_input \<Rightarrow> 's \<Rightarrow> ('e + task) \<times> 's"
    and retry :: "'n \<Rightarrow> retry_input \<Rightarrow> 's \<Rightarrow> ('e + task) \<times> 's"
    and complete :: "'n \<Rightarrow> complete_input \<Rightarrow> 's \<Rightarrow> ('e + task) \<times> 's"
    and fail :: "'n \<Rightarrow> fail_input \<Rightarrow> 's \<Rightarrow> ('e + task) \<times> 's"
    and cancel :: "'n \<Rightarrow> cancel_input \<Rightarrow> 's \<Rightarrow> ('e + task) \<times> 's"
    and view :: "'s \<Rightarrow> gostr \<rightharpoonup> task"
    and tinv :: "'s \<Rightarrow> bool"
  assumes create_safe: "tinv s \<Longrightarrow> create now ci s = (res, s') \<Longrightarrow>
      view s' = view s \<or> (\<exists>t. view s (tk_id t) = None \<and> view s' = (view s)(tk_id t \<mapsto> t)
        \<and> tk_status t = Queued \<and> tk_attempt t = 0)"
    and start_safe: "tinv s \<Longrightarrow> start now si s = (res, s') \<Longrightarrow>
      safely_moves (\<lambda>q. q = Queued) Running 1 (si_task si) (view s) res (view s')"
    and retry_safe: "tinv s \<Longrightarrow> retry now ri s = (res, s') \<Longrightarrow>
      safely_moves (\<lambda>q. q \<noteq> Canceled) Queued 0 (ri_task ri) (view s) res (view s')"
    and complete_safe: "tinv s \<Longrightarrow> complete now co s = (res, s') \<Longrightarrow>
      safely_moves (\<lambda>q. q \<noteq> Canceled) Completed 0 (co_task co) (view s) res (view s')"
    and fail_safe: "tinv s \<Longrightarrow> fail now fi s = (res, s') \<Longrightarrow>
      safely_moves (\<lambda>q. q \<noteq> Canceled) Failed 0 (fi_task fi) (view s) res (view s')"
    and cancel_safe: "tinv s \<Longrightarrow> cancel now ca s = (res, s') \<Longrightarrow>
      safely_moves (\<lambda>q. q = Queued \<or> q = Running) Canceled 0 (ca_task ca) (view s) res (view s')"
    and tinv_step: "tinv s \<Longrightarrow> tinv (task_op_step create start retry complete fail cancel nop s)"
begin

abbreviation "exec \<equiv> task_op_step create start retry complete fail cancel"

text \<open>How one operation changes one task.\<close>

lemma exec_view:
  assumes "tinv s" "view s tid = Some t"
  shows "\<exists>u. view (exec nop s) tid = Some u \<and> same_request t u \<and>
      (tk_status t = Canceled \<longrightarrow> u = t) \<and>
      (tk_attempt u = tk_attempt t \<or>
       tk_attempt u = tk_attempt t + 1 \<and> tk_status t = Queued \<and> tk_status u = Running) \<and>
      (tk_status t \<noteq> Queued \<and> \<not> requeues tid (snd nop) \<longrightarrow> tk_status u \<noteq> Queued)"
proof -
  have refl: "same_request t t" by (simp add: same_request_def)
  obtain now oper where nop: "nop = (now, oper)" by (cases nop)
  have m: ?thesis
    if "safely_moves ok target inc tid' (view s) res (view s')" "exec nop s = s'" "\<not> ok Canceled"
      "inc = 0 \<or> inc = 1 \<and> target = Running \<and> ok = (\<lambda>q. q = Queued)"
      "target = Queued \<longrightarrow> tid' \<noteq> tid \<or> requeues tid (snd nop)"
    for ok target inc tid' res s'
    using safely_movesD [OF that(1)] that(2-) assms(2) refl
    by (cases "tid' = tid") (auto simp: moved_def)
  show ?thesis
  proof (cases oper)
    case (OpCreate i)
    obtain res s' where q: "create now i s = (res, s')" by (cases "create now i s")
    from create_safe [OF assms(1) q] assms(2) refl q nop OpCreate show ?thesis by auto
  next
    case (OpStart i)
    obtain res s' where "start now i s = (res, s')" by (cases "start now i s")
    with m [OF start_safe [OF assms(1) this]] nop OpStart show ?thesis by simp
  next
    case (OpRetry i)
    obtain res s' where "retry now i s = (res, s')" by (cases "retry now i s")
    with m [OF retry_safe [OF assms(1) this]] nop OpRetry show ?thesis by simp
  next
    case (OpComplete i)
    obtain res s' where "complete now i s = (res, s')" by (cases "complete now i s")
    with m [OF complete_safe [OF assms(1) this]] nop OpComplete show ?thesis by simp
  next
    case (OpFail i)
    obtain res s' where "fail now i s = (res, s')" by (cases "fail now i s")
    with m [OF fail_safe [OF assms(1) this]] nop OpFail show ?thesis by simp
  next
    case (OpCancel i)
    obtain res s' where "cancel now i s = (res, s')" by (cases "cancel now i s")
    with m [OF cancel_safe [OF assms(1) this]] nop OpCancel show ?thesis by simp
  qed
qed

text \<open>A canceled task is never changed again, whatever is called in whatever order.\<close>

lemma same_request_trans: "same_request t u \<Longrightarrow> same_request u v \<Longrightarrow> same_request t v"
  by (simp add: same_request_def)

lemma run_view:
  assumes "tinv s" "view s tid = Some t"
  shows "\<exists>u. view (fold exec ops s) tid = Some u \<and> same_request t u
    \<and> (tk_status t = Canceled \<longrightarrow> u = t) \<and> tk_attempt t \<le> tk_attempt u"
  using assms
proof (induction ops arbitrary: s t)
  case Nil
  then show ?case by (simp add: same_request_def)
next
  case (Cons nop ops)
  from exec_view [OF Cons.prems, of nop] obtain u where
    u: "view (exec nop s) tid = Some u" "same_request t u"
      "tk_status t = Canceled \<longrightarrow> u = t" "tk_attempt t \<le> tk_attempt u" by auto
  from Cons.IH [OF tinv_step [OF Cons.prems(1)] u(1)] obtain v where
    v: "view (fold exec ops (exec nop s)) tid = Some v" "same_request u v"
      "tk_status u = Canceled \<longrightarrow> v = u" "tk_attempt u \<le> tk_attempt v" by blast
  have "same_request t v" by (rule same_request_trans [OF u(2) v(2)])
  moreover have "tk_status t = Canceled \<longrightarrow> v = t" using u(3) v(3) by metis
  moreover have "tk_attempt t \<le> tk_attempt v" using u(4) v(4) by (rule order_trans)
  ultimately show ?case using v(1) by simp
qed

text \<open>Without a retry, a task that left the queue does not come back to it.\<close>

lemma run_not_queued:
  assumes "tinv s" "view s tid = Some t" "tk_status t \<noteq> Queued"
    and "\<forall>nop\<in>set ops. \<not> requeues tid (snd nop)"
  shows "\<exists>u. view (fold exec ops s) tid = Some u \<and> tk_status u \<noteq> Queued"
  using assms
proof (induction ops arbitrary: s t)
  case Nil
  then show ?case by simp
next
  case (Cons nop ops)
  from exec_view [OF Cons.prems(1,2), of nop] Cons.prems(3,4) obtain u where
    "view (exec nop s) tid = Some u" "tk_status u \<noteq> Queued" by auto
  from Cons.IH [OF tinv_step [OF Cons.prems(1)] this] Cons.prems(4) show ?case by simp
qed

lemma run_tinv: "tinv s \<Longrightarrow> tinv (fold exec ops s)"
  by (induction ops arbitrary: s) (simp_all add: tinv_step)

text \<open>After a start that was answered, no other start of the task is granted.\<close>

lemma started_not_queued:
  assumes "tinv s" "start now si s = (Inr t, s1)"
    and "\<forall>nop\<in>set ops. \<not> requeues (si_task si) (snd nop)"
  shows "tinv (fold exec ops s1)
    \<and> (\<exists>u. view (fold exec ops s1) (si_task si) = Some u \<and> tk_status u \<noteq> Queued)"
proof -
  have s1: "view s1 (si_task si) = Some t \<and> tk_status t = Running"
    using start_safe [OF assms(1,2)] by (auto simp: safely_moves_def moved_def)
  have "tinv s1" using tinv_step [OF assms(1), of "(now, OpStart si)"] assms(2) by simp
  with run_not_queued [OF this _ _ assms(3)] run_tinv [OF this] s1 show ?thesis by auto
qed

lemma started_once:
  assumes "tinv s" "start now si s = (Inr t, s1)"
    and "\<forall>nop\<in>set ops. \<not> requeues (si_task si) (snd nop)" "si_task si' = si_task si"
  shows "\<nexists>u s'. start now' si' (fold exec ops s1) = (Inr u, s')"
  using started_not_queued [OF assms(1-3)] start_safe [of "fold exec ops s1" now' si'] assms(4)
  by (fastforce simp: safely_moves_def moved_def)

end

text \<open>A service that always answers says which error it is.\<close>

locale task_service = task_safety create start retry complete fail cancel view tinv
  for create :: "'n \<Rightarrow> create_input \<Rightarrow> 's \<Rightarrow> (task_error + task) \<times> 's"
    and start :: "'n \<Rightarrow> start_input \<Rightarrow> 's \<Rightarrow> (task_error + task) \<times> 's"
    and retry :: "'n \<Rightarrow> retry_input \<Rightarrow> 's \<Rightarrow> (task_error + task) \<times> 's"
    and complete :: "'n \<Rightarrow> complete_input \<Rightarrow> 's \<Rightarrow> (task_error + task) \<times> 's"
    and fail :: "'n \<Rightarrow> fail_input \<Rightarrow> 's \<Rightarrow> (task_error + task) \<times> 's"
    and cancel :: "'n \<Rightarrow> cancel_input \<Rightarrow> 's \<Rightarrow> (task_error + task) \<times> 's"
    and view :: "'s \<Rightarrow> gostr \<rightharpoonup> task"
    and tinv :: "'s \<Rightarrow> bool" +
  fixes get :: "gostr \<Rightarrow> 's \<Rightarrow> task_error + task"
  assumes get_view:
      "get tid s = (case view s tid of None \<Rightarrow> Inl TaskNotFound | Some t \<Rightarrow> Inr t)"
    and create_ok: "tinv s \<Longrightarrow> create now ci s = (Inr t, s') \<Longrightarrow>
      view s (tk_id t) = None \<and> view s' = (view s)(tk_id t \<mapsto> t) \<and> tk_status t = Queued
      \<and> tk_attempt t = 0"
    and create_refused: "create now ci s = (Inl e, s') \<Longrightarrow> view s' = view s"
    and start_moves: "start now si s = (res, s') \<Longrightarrow>
      moves (\<lambda>q. q = Queued) TaskNotQueued Running 1 (si_task si) (view s) res (view s')"
    and retry_moves: "retry now ri s = (res, s') \<Longrightarrow>
      moves (\<lambda>q. q \<noteq> Canceled) TaskNotCancelable Queued 0 (ri_task ri) (view s) res (view s')"
    and complete_moves: "complete now co s = (res, s') \<Longrightarrow>
      moves (\<lambda>q. q \<noteq> Canceled) TaskNotCancelable Completed 0 (co_task co) (view s) res (view s')"
    and fail_moves: "fail now fi s = (res, s') \<Longrightarrow>
      moves (\<lambda>q. q \<noteq> Canceled) TaskNotCancelable Failed 0 (fi_task fi) (view s) res (view s')"
    and cancel_moves: "cancel now ca s = (res, s') \<Longrightarrow>
      moves (\<lambda>q. q = Queued \<or> q = Running) TaskNotCancelable Canceled 0 (ca_task ca) (view s) res (view s')"
begin

lemma start_twice:
  assumes "tinv s" "start now si s = (Inr t, s1)"
    and "\<forall>nop\<in>set ops. \<not> requeues (si_task si) (snd nop)" "si_task si' = si_task si"
  shows "fst (start now' si' (fold exec ops s1)) = Inl TaskNotQueued"
proof -
  obtain res s2 where q: "start now' si' (fold exec ops s1) = (res, s2)"
    by (cases "start now' si' (fold exec ops s1)")
  from start_moves [OF q] started_not_queued [OF assms(1-3)] assms(4) q show ?thesis
    by (auto simp: moves_def)
qed

end

section \<open>The in-memory service keeps the contract\<close>

definition tasks_inv :: "task_state \<Rightarrow> bool" where
  "tasks_inv s \<longleftrightarrow> (\<forall>tid t. ts_items s tid = Some t \<longrightarrow>
     tk_id t = tid \<and> (\<exists>n. 0 < n \<and> n \<le> ts_counter s \<and> tid = task_id_of n))"

lemmas task_change_defs =
  start_task_def retry_task_def complete_task_def fail_task_def cancel_task_def

lemmas task_op_defs = task_start_def task_retry_def task_complete_def task_fail_def task_cancel_def

abbreviation mem_task_step where
  "mem_task_step \<equiv> task_op_step task_create task_start task_retry task_complete task_fail task_cancel"

lemma task_id_inject [simp]: "task_id_of m = task_id_of n \<longleftrightarrow> m = n"
  by (simp add: task_id_of_def)

lemma task_update_moves:
  assumes "task_update tid (unless_status ok err) change s = (res, s')"
    and "\<And>t. tk_status (change t) = target \<and> tk_attempt (change t) = tk_attempt t + inc \<and>
           same_request t (change t)"
  shows "moves ok err target inc tid (ts_items s) res (ts_items s')"
  using assms by (auto simp: task_update_def unless_status_def moves_def split: option.splits if_splits)

lemma task_update_inv:
  assumes "tasks_inv s" "\<And>t. tk_id (change t) = tk_id t"
  shows "tasks_inv (snd (task_update tid refuse change s))"
  using assms by (auto simp: task_update_def tasks_inv_def split: option.splits)

lemma tasks_inv_create: "tasks_inv s \<Longrightarrow> tasks_inv (snd (task_create now inp s))"
  by (auto simp: tasks_inv_def task_create_def Let_def) fastforce+

lemma task_id_unused: "tasks_inv s \<Longrightarrow> ts_items s (task_id_of (Suc (ts_counter s))) = None"
proof (rule ccontr)
  assume "tasks_inv s" "ts_items s (task_id_of (Suc (ts_counter s))) \<noteq> None"
  then obtain n where "n \<le> ts_counter s" "task_id_of (Suc (ts_counter s)) = task_id_of n"
    unfolding tasks_inv_def by blast
  then show False by simp
qed

lemma change_id [simp]:
  "tk_id (start_task now si t) = tk_id t" "tk_id (retry_task now ri t) = tk_id t"
  "tk_id (complete_task now co t) = tk_id t" "tk_id (fail_task now fi t) = tk_id t"
  "tk_id (cancel_task now ca t) = tk_id t"
  by (simp_all add: task_change_defs)

lemma tasks_inv_step: "tasks_inv s \<Longrightarrow> tasks_inv (mem_task_step nop s)"
proof -
  assume "tasks_inv s"
  moreover obtain now oper where "nop = (now, oper)" by (cases nop)
  ultimately show ?thesis
    by (cases oper) (simp_all add: tasks_inv_create task_op_defs task_update_inv)
qed

lemma mem_start_moves: "task_start now si s = (res, s') \<Longrightarrow>
    moves (\<lambda>q. q = Queued) TaskNotQueued Running 1 (si_task si) (ts_items s) res (ts_items s')"
  by (auto simp: task_start_def start_task_def same_request_def intro: task_update_moves)

lemma mem_retry_moves: "task_retry now ri s = (res, s') \<Longrightarrow>
    moves (\<lambda>q. q \<noteq> Canceled) TaskNotCancelable Queued 0 (ri_task ri) (ts_items s) res (ts_items s')"
  by (auto simp: task_retry_def retry_task_def same_request_def intro: task_update_moves)

lemma mem_complete_moves: "task_complete now co s = (res, s') \<Longrightarrow>
    moves (\<lambda>q. q \<noteq> Canceled) TaskNotCancelable Completed 0 (co_task co) (ts_items s) res (ts_items s')"
  by (auto simp: task_complete_def complete_task_def same_request_def intro: task_update_moves)

lemma mem_fail_moves: "task_fail now fi s = (res, s') \<Longrightarrow>
    moves (\<lambda>q. q \<noteq> Canceled) TaskNotCancelable Failed 0 (fi_task fi) (ts_items s) res (ts_items s')"
  by (auto simp: task_fail_def fail_task_def same_request_def intro: task_update_moves)

lemma mem_cancel_moves: "task_cancel now ca s = (res, s') \<Longrightarrow>
    moves (\<lambda>q. q = Queued \<or> q = Running) TaskNotCancelable Canceled 0 (ca_task ca) (ts_items s) res (ts_items s')"
proof -
  have eq: "(\<lambda>q. q = Queued \<or> q = Running) = (\<lambda>q. q \<noteq> Completed \<and> q \<noteq> Failed \<and> q \<noteq> Canceled)"
    by (rule ext) (case_tac q; simp)
  show "task_cancel now ca s = (res, s') \<Longrightarrow> ?thesis" unfolding eq
    by (auto simp: task_cancel_def cancel_task_def same_request_def intro: task_update_moves)
qed

lemma mem_create_ok: "tasks_inv s \<Longrightarrow> task_create now ci s = (Inr t, s') \<Longrightarrow>
    ts_items s (tk_id t) = None \<and> ts_items s' = (ts_items s)(tk_id t \<mapsto> t) \<and> tk_status t = Queued \<and> tk_attempt t = 0"
  using task_id_unused [of s] by (auto simp: task_create_def Let_def split: if_splits)

lemma mem_create_refused: "task_create now ci s = (Inl e, s') \<Longrightarrow> ts_items s' = ts_items s"
  by (auto simp: task_create_def Let_def split: if_splits)

lemmas mem_task_moves = mem_start_moves mem_retry_moves mem_complete_moves mem_fail_moves mem_cancel_moves

interpretation mem_tasks: task_service task_create task_start task_retry task_complete task_fail
    task_cancel ts_items tasks_inv task_get
proof (unfold_locales, goal_cases)
  case (1 s now ci res s')
  then show ?case using mem_create_ok [of s now ci _ s'] mem_create_refused [of now ci s _ s'] by (cases res) auto
qed (auto intro: tasks_inv_step mem_task_moves [THEN moves_safely] mem_task_moves mem_create_refused
    simp: task_get_def dest: mem_create_ok)

section \<open>Extracted outputs\<close>

definition step_outputs :: "step_trace list \<Rightarrow> gostr list" where
  "step_outputs trace = filter (\<lambda>v. v \<noteq> []) (map (\<lambda>st. trim_space (st_output_text st)) trace)"

lemma derive_loop_eq:
  "length outs < 20 \<Longrightarrow>
     derive_loop trace outs = take 20 (outs @ filter (\<lambda>v. v \<notin> set outs) (nub (step_outputs trace)))"
proof (induction trace arbitrary: outs)
  case Nil
  then show ?case by (simp add: step_outputs_def)
next
  case (Cons step trace)
  let ?v = "trim_space (st_output_text step)"
  show ?case
  proof (cases "?v = [] \<or> ?v \<in> set outs")
    case True
    then have "filter (\<lambda>v. v \<notin> set outs) (nub (step_outputs (step # trace))) =
        filter (\<lambda>v. v \<notin> set outs) (nub (step_outputs trace))"
      by (auto simp: step_outputs_def simp del: nub.simps(2) simp add: filter_nub_Cons)
    with True Cons show ?thesis by (simp add: Let_def)
  next
    case False
    then have f: "filter (\<lambda>v. v \<notin> set outs) (nub (step_outputs (step # trace))) =
        ?v # filter (\<lambda>v. v \<notin> set (outs @ [?v])) (nub (step_outputs trace))"
      by (auto simp: step_outputs_def simp del: nub.simps(2) simp add: filter_nub_Cons intro: filter_cong)
    show ?thesis
    proof (cases "20 \<le> length (outs @ [?v])")
      case True
      with Cons.prems have "length (outs @ [?v]) = 20" by simp
      with False f show ?thesis by (simp add: Let_def)
    next
      case *: False
      with Cons.IH [of "outs @ [?v]"] False f show ?thesis by (simp add: Let_def)
    qed
  qed
qed

section \<open>Well-formed tasks\<close>

text \<open>What every stored task satisfies: the request is complete, a retry time belongs to a
  queued task, a finished task has its completion time, a running one its start time and no
  leftovers of an earlier attempt, and the outputs are those of the trace.\<close>

definition wf_task :: "task \<Rightarrow> bool" where
  "wf_task t \<longleftrightarrow>
     tk_session t \<noteq> [] \<and> tk_url t \<noteq> [] \<and> (tk_goal t \<noteq> [] \<or> tk_actions t \<noteq> [])
     \<and> 0 \<le> tk_max_retries t \<and> 0 \<le> tk_attempt t
     \<and> (tk_next_retry t \<noteq> None \<longrightarrow> tk_status t = Queued)
     \<and> (tk_status t \<in> {Completed, Failed, Canceled} \<longrightarrow> tk_completed t \<noteq> None)
     \<and> (tk_status t = Running \<longrightarrow> tk_started t \<noteq> None \<and> 0 < tk_attempt t \<and> tk_error t = []
          \<and> tk_blocker_type t = [] \<and> tk_blocker_message t = [])
     \<and> (tk_status t \<in> {Queued, Running} \<longrightarrow> tk_trace t = [])
     \<and> tk_outputs t = derive_extracted_outputs (tk_trace t)"

definition all_wf :: "task_state \<Rightarrow> bool" where
  "all_wf s \<longleftrightarrow> (\<forall>tid t. ts_items s tid = Some t \<longrightarrow> wf_task t)"

lemma derive_Nil [simp]: "derive_extracted_outputs [] = []"
  by (simp add: derive_extracted_outputs_def)

lemma all_wf_update:
  assumes "all_wf s" "\<And>t. wf_task t \<Longrightarrow> refuse t = None \<Longrightarrow> wf_task (change t)"
  shows "all_wf (snd (task_update tid refuse change s))"
  using assms by (auto simp: task_update_def all_wf_def split: option.splits)

lemma all_wf_create: "all_wf s \<Longrightarrow> all_wf (snd (task_create now inp s))"
  by (auto simp: all_wf_def task_create_def Let_def wf_task_def)

lemma all_wf_step: "all_wf s \<Longrightarrow> all_wf (mem_task_step nop s)"
proof -
  assume wf: "all_wf s"
  obtain now oper where nop: "nop = (now, oper)" by (cases nop)
  show ?thesis
  proof (cases oper)
    case (OpCreate i)
    with wf nop all_wf_create show ?thesis by simp
  next
    case (OpStart i)
    with wf nop show ?thesis
      by (auto simp: task_start_def intro!: all_wf_update) (simp add: wf_task_def start_task_def)
  next
    case (OpRetry i)
    with wf nop show ?thesis
      by (auto simp: task_retry_def intro!: all_wf_update) (simp add: wf_task_def retry_task_def)
  next
    case (OpComplete i)
    with wf nop show ?thesis
      by (auto simp: task_complete_def intro!: all_wf_update) (simp add: wf_task_def complete_task_def)
  next
    case (OpFail i)
    with wf nop show ?thesis
      by (auto simp: task_fail_def intro!: all_wf_update) (simp add: wf_task_def fail_task_def)
  next
    case (OpCancel i)
    with wf nop show ?thesis
      by (auto simp: task_cancel_def intro!: all_wf_update) (auto simp: wf_task_def cancel_task_def)
  qed
qed

lemma run_invs:
  "all_wf s \<Longrightarrow> tasks_inv s \<Longrightarrow> all_wf (fold mem_task_step ops s) \<and> tasks_inv (fold mem_task_step ops s)"
  by (induction ops arbitrary: s) (simp_all add: all_wf_step tasks_inv_step)

lemma new_tasks_invs: "all_wf new_tasks" "tasks_inv new_tasks"
  by (simp_all add: all_wf_def tasks_inv_def new_tasks_def)

section \<open>Listing\<close>

interpretation recent_order: strict_weak recent_less
  by unfold_locales (auto simp: recent_less_def split: if_splits)

interpretation queued_order: strict_weak queued_less
  by unfold_locales (auto simp: queued_less_def split: option.splits)


section \<open>Properties\<close>

definition demo_input :: create_input where
  "demo_input = \<lparr>ci_source = [], ci_session = ''s1'', ci_url = ''http://a'', ci_goal = ''g'',
     ci_actions = [], ci_max_retries = 2\<rparr>"

definition demo_task :: task where
  "demo_task = \<lparr>tk_id = ''task_000001'', tk_source = [], tk_session = ''s1'', tk_url = ''http://a'',
     tk_goal = ''g'', tk_actions = [], tk_trace = [], tk_outputs = [], tk_status = Queued,
     tk_attempt = 0, tk_max_retries = 2, tk_next_retry = None, tk_node = [], tk_page_title = [],
     tk_final_url = [], tk_screenshot = [], tk_artifact_url = [], tk_blocker_type = [],
     tk_blocker_message = [], tk_error = [], tk_created = 7, tk_started = None, tk_completed = None\<rparr>"

definition demo_tasks :: task_state where
  "demo_tasks = \<lparr>ts_counter = 1, ts_items = [''task_000001'' \<mapsto> demo_task]\<rparr>"

lemma demo_created: "task_create 7 demo_input new_tasks = (Inr demo_task, demo_tasks)"
proof -
  have "task_id_of (Suc 0) = ''task_000001''" by code_simp
  then show ?thesis
    by (simp add: task_create_def demo_input_def demo_task_def demo_tasks_def new_tasks_def Let_def)
qed

lemma demo_tasks_inv: "tasks_inv demo_tasks"
  using tasks_inv_create [OF new_tasks_invs(2), of 7 demo_input] by (simp add: demo_created)

text \<open>C5: cancellation is final. Once a task is canceled, no sequence of service calls changes
  it: the stored record stays the same, and a later start, retry, completion or failure of it is
  refused with the error the code documents, so a worker that finishes late cannot revive it.\<close>

theorem canceled_is_final:
  assumes "tasks_inv s" "ts_items s tid = Some t" "tk_status t = Canceled"
  shows "ts_items (fold mem_task_step ops s) tid = Some t
    \<and> (\<forall>now co. co_task co = tid \<longrightarrow>
         fst (task_complete now co (fold mem_task_step ops s)) = Inl TaskNotCancelable)
    \<and> (\<forall>now fi. fi_task fi = tid \<longrightarrow>
         fst (task_fail now fi (fold mem_task_step ops s)) = Inl TaskNotCancelable)
    \<and> (\<forall>now ri. ri_task ri = tid \<longrightarrow>
         fst (task_retry now ri (fold mem_task_step ops s)) = Inl TaskNotCancelable)
    \<and> (\<forall>now si. si_task si = tid \<longrightarrow>
         fst (task_start now si (fold mem_task_step ops s)) = Inl TaskNotQueued)"
proof -
  have "ts_items (fold mem_task_step ops s) tid = Some t"
    using mem_tasks.run_view [OF assms(1,2)] assms(3) by auto
  then show ?thesis
    using assms(3) by (simp add: task_op_defs task_update_def unless_status_def)
qed

theorem canceled_is_final_witness:
  "let ca = \<lparr>ca_task = ''task_000001'', ca_reason = [], ca_completed = 9, ca_by = ''api''\<rparr>;
       s = snd (task_cancel 9 ca demo_tasks);
       fi = \<lparr>fi_task = ''task_000001'', fi_node = [], fi_completed = 11, fi_error = ''late'',
         fi_page_title = [], fi_final_url = [], fi_screenshot = [], fi_artifact_url = [],
         fi_blocker_type = [], fi_blocker_message = [], fi_trace = []\<rparr>
   in ts_items (fold mem_task_step [(11, OpFail fi)] s) ''task_000001'' = Some (cancel_task 9 ca demo_task)"
  using canceled_is_final [of
      "snd (task_cancel 9 \<lparr>ca_task = ''task_000001'', ca_reason = [], ca_completed = 9, ca_by = ''api''\<rparr> demo_tasks)"
      "''task_000001''"
      "cancel_task 9 \<lparr>ca_task = ''task_000001'', ca_reason = [], ca_completed = 9, ca_by = ''api''\<rparr> demo_task"
      "[(11, OpFail \<lparr>fi_task = ''task_000001'', fi_node = [], fi_completed = 11, fi_error = ''late'',
         fi_page_title = [], fi_final_url = [], fi_screenshot = [], fi_artifact_url = [],
         fi_blocker_type = [], fi_blocker_message = [], fi_trace = []\<rparr>)]"]
    tasks_inv_step [OF demo_tasks_inv,
      of "(9, OpCancel \<lparr>ca_task = ''task_000001'', ca_reason = [], ca_completed = 9, ca_by = ''api''\<rparr>)"]
  by (simp add: task_cancel_def task_update_def unless_status_def cancel_task_def demo_tasks_def demo_task_def)

text \<open>C19: one start per queueing. After a worker has started a task, every other start of the
  same task is refused, whatever the services are asked in between, unless the task was put
  back into the queue by a retry.\<close>

theorem start_is_exclusive:
  assumes "tasks_inv s" "task_start now si s = (Inr t, s1)"
    and "\<forall>nop\<in>set ops. \<not> requeues (si_task si) (snd nop)" "si_task si' = si_task si"
  shows "fst (task_start now' si' (fold mem_task_step ops s1)) = Inl TaskNotQueued"
  by (rule mem_tasks.start_twice [OF assms])

theorem start_is_exclusive_witness:
  "let si = \<lparr>si_task = ''task_000001'', si_node = [], si_started = 8\<rparr>
   in fst (task_start 9 si (fold mem_task_step [(9, OpStart si)] (snd (task_start 8 si demo_tasks))))
      = Inl TaskNotQueued"
  unfolding Let_def
  by (rule start_is_exclusive [OF demo_tasks_inv,
        where t = "start_task 8 \<lparr>si_task = ''task_000001'', si_node = [], si_started = 8\<rparr> demo_task"
          and now = 8 and si = "\<lparr>si_task = ''task_000001'', si_node = [], si_started = 8\<rparr>"])
     (simp_all add: task_start_def task_update_def unless_status_def demo_tasks_def demo_task_def)

text \<open>C18: every task the service ever stores is well formed: it sits under its own identifier,
  its request is complete, a retry time belongs to a queued task, a finished task has its
  completion time, a running one has a start time, a positive attempt and no leftovers of an
  earlier attempt, and its extracted outputs are those derived from its trace.\<close>

theorem stored_tasks_wf:
  assumes "ts_items (fold mem_task_step ops new_tasks) tid = Some t"
  shows "wf_task t \<and> tk_id t = tid"
  using run_invs [OF new_tasks_invs, of ops] assms by (auto simp: all_wf_def tasks_inv_def)

theorem stored_tasks_wf_witness: "wf_task demo_task \<and> tk_id demo_task = ''task_000001''"
  by (rule stored_tasks_wf [where ops = "[(7, OpCreate demo_input)]"])
     (simp add: demo_created, simp add: demo_tasks_def)

text \<open>The extracted outputs are the first twenty different non-blank outputs of the trace,
  trimmed, in the order of the steps: the loop with its set of seen values and its early exit
  computes exactly this.\<close>

lemma extracted_outputs_spec:
  "derive_extracted_outputs trace = take 20 (nub (step_outputs trace))"
  by (simp add: derive_extracted_outputs_def derive_loop_eq)

text \<open>The recent tasks do not depend on the order in which the map is visited. The result is
  newest first, ties by descending identifier, and holds the limit or all tasks if there are
  fewer.\<close>

lemma list_recent_deterministic:
  assumes "tasks_inv s" "enumerates ks (ts_items s)" "enumerates ks' (ts_items s)"
  shows "task_list_recent ks limit s = task_list_recent ks' limit s
    \<and> sorted_wrt (\<lambda>a b. \<not> recent_less b a) (task_list_recent ks limit s)
    \<and> length (task_list_recent ks limit s) = min (limit_or 50 limit) (card (dom (ts_items s)))"
proof -
  have id: "x = y" if "x \<in> set (listed (ts_items s) ks)" "y \<in> set (listed (ts_items s) ks)"
    "\<not> recent_less x y" "\<not> recent_less y x" for x y
  proof -
    from that(3,4) have "tk_id x = tk_id y" by (auto simp: recent_less_def split: if_splits)
    with that(1,2) assms(1,2) show ?thesis
      by (auto simp: in_listed tasks_inv_def)
  qed
  have "sort_by recent_less (listed (ts_items s) ks) = sort_by recent_less (listed (ts_items s) ks')"
    by (rule recent_order.sort_by_unique [OF id mset_listed [OF assms(2,3)]])
  moreover have "sorted_wrt (\<lambda>a b. \<not> recent_less b a) (task_list_recent ks limit s)"
    unfolding task_list_recent_def by (rule sorted_wrt_take [OF recent_order.sorted_sort_by])
  ultimately show ?thesis
    using length_listed [OF assms(2)] length_listed [OF assms(3)]
    by (simp add: task_list_recent_def min.commute)
qed

lemma list_recent_deterministic_at_work:
  "task_list_recent [''task_000001''] 5 demo_tasks = task_list_recent [''task_000001''] 5 demo_tasks
   \<and> sorted_wrt (\<lambda>a b. \<not> recent_less b a) (task_list_recent [''task_000001''] 5 demo_tasks)
   \<and> length (task_list_recent [''task_000001''] 5 demo_tasks) =
       min (limit_or 50 5) (card (dom (ts_items demo_tasks)))"
  by (rule list_recent_deterministic [OF demo_tasks_inv])
     (simp_all add: enumerates_def demo_tasks_def)

text \<open>The dispatcher's queue listing. It holds only queued tasks whose retry time has come,
  and a due task is left out only when the limit is reached by tasks none of which comes after
  it.\<close>

lemma list_queued_spec:
  assumes "enumerates ks (ts_items s)"
  shows "(\<forall>t\<in>set (task_list_queued ks now limit s). due now t \<and> (\<exists>tid. ts_items s tid = Some t))
    \<and> (\<forall>tid t. ts_items s tid = Some t \<and> due now t \<and> t \<notin> set (task_list_queued ks now limit s) \<longrightarrow>
         length (task_list_queued ks now limit s) = limit_or 100 limit \<and>
         (\<forall>u\<in>set (task_list_queued ks now limit s). \<not> queued_less t u))"
proof -
  let ?l = "sort_by queued_less (filter (due now) (listed (ts_items s) ks))"
  let ?k = "limit_or 100 limit"
  have res: "task_list_queued ks now limit s = take ?k ?l" by (simp add: task_list_queued_def)
  have l: "set ?l = {t. due now t \<and> (\<exists>tid. ts_items s tid = Some t)}"
    using assms by (auto simp: in_listed)
  show ?thesis
  proof (intro conjI ballI allI impI)
    fix t assume "t \<in> set (task_list_queued ks now limit s)"
    then have "t \<in> set ?l" unfolding res by (rule in_set_takeD)
    with l show "due now t" "\<exists>tid. ts_items s tid = Some t" by auto
  next
    fix tid t
    assume t: "ts_items s tid = Some t \<and> due now t \<and> t \<notin> set (task_list_queued ks now limit s)"
    then have "t \<in> set ?l" using l by blast
    then have "t \<in> set (take ?k ?l) \<union> set (drop ?k ?l)"
      by (metis append_take_drop_id set_append)
    with t res have d: "t \<in> set (drop ?k ?l)" by auto
    then have "?k < length ?l" by (metis drop_all empty_iff empty_set not_le)
    then show "length (task_list_queued ks now limit s) = ?k" by (simp add: res)
    fix u assume "u \<in> set (task_list_queued ks now limit s)"
    with d show "\<not> queued_less t u" unfolding res by (blast dest: queued_order.sort_by_take_drop)
  qed
qed

lemma list_queued_spec_at_work:
  "list_all (due 9) (task_list_queued [''task_000001''] 9 5 demo_tasks)"
  using list_queued_spec [of "[''task_000001'']" demo_tasks 9 5]
  by (simp add: enumerates_def demo_tasks_def list_all_iff)

text \<open>A run of the in-memory service that ends with a running task which still carries the
  completion time of its earlier, failed run: \<open>Start\<close> resets the trace and the errors but not
  \<open>CompletedAt\<close> (the PostgreSQL service sets \<open>completed_at = NULL\<close> there).\<close>

lemma running_with_old_completion:
  "let fi = \<lparr>fi_task = ''task_000001'', fi_node = [], fi_completed = 11, fi_error = ''e'',
         fi_page_title = [], fi_final_url = [], fi_screenshot = [], fi_artifact_url = [],
         fi_blocker_type = [], fi_blocker_message = [], fi_trace = []\<rparr>;
       ri = \<lparr>ri_task = ''task_000001'', ri_retry_at = 12, ri_last_error = ''e''\<rparr>;
       si = \<lparr>si_task = ''task_000001'', si_node = [], si_started = 13\<rparr>
   in \<exists>t. ts_items (fold mem_task_step [(11, OpFail fi), (12, OpRetry ri), (13, OpStart si)] demo_tasks)
         ''task_000001'' = Some t \<and> tk_status t = Running \<and> tk_completed t = Some 11"
  by (simp add: task_op_defs task_update_def unless_status_def task_change_defs demo_tasks_def
      demo_task_def normalize_time_def Let_def)

end
