(* ===== verification/Registry.thy ===== *)
theory Registry
  imports Prelude
begin

text \<open>
  The node registry, \<open>internal/pool/registry.go\<close> and \<open>internal/pool/types.go\<close>: the in-memory
  registry of browser nodes and the contract \<open>pool.Registry\<close> (with \<open>SetState\<close>, which the API
  server finds by a type assertion) gives its clients, as the locale \<open>node_registry\<close>.
  A \<open>NodeState\<close> is a string in Go; the values the package declares are the constructors of
  \<open>node_state\<close>, the empty string, which means "ready", is \<open>None\<close>, and \<open>ParseNodeState\<close>
  lets no other text in.
\<close>

datatype node_state = NodeWarming | NodeReady | NodeLeased | NodeDraining | NodeDead

fun node_state_text :: "node_state \<Rightarrow> gostr" where
  "node_state_text NodeWarming = ''warming''"
| "node_state_text NodeReady = ''ready''"
| "node_state_text NodeLeased = ''leased''"
| "node_state_text NodeDraining = ''draining''"
| "node_state_text NodeDead = ''dead''"

datatype registry_error = NodeIDRequired | AddressRequired | NodeNotFound

fun registry_error_text :: "registry_error \<Rightarrow> gostr" where
  "registry_error_text NodeIDRequired = ''node_id is required''"
| "registry_error_text AddressRequired = ''address is required''"
| "registry_error_text NodeNotFound = ''node not found''"

record node =
  nd_id :: gostr
  nd_address :: gostr
  nd_version :: gostr
  nd_state :: node_state
  nd_booted :: go_time
  nd_heartbeat :: go_time
  nd_leased_until :: go_time
  nd_created :: go_time
  nd_updated :: go_time

record register_input =
  rg_node :: gostr
  rg_address :: gostr
  rg_version :: gostr
  rg_booted :: go_time

record heartbeat_input =
  hb_node :: gostr
  hb_state :: "node_state option"
  hb_at :: go_time
  hb_leased_until :: go_time

type_synonym registry_state = "gostr \<rightharpoonup> node"

definition new_registry :: registry_state where
  "new_registry = Map.empty"

definition or_now :: "go_time \<Rightarrow> go_time \<Rightarrow> go_time" where
  "or_now now t = (if t = zero_time then now else t)"

definition registry_register ::
  "go_time \<Rightarrow> register_input \<Rightarrow> registry_state \<Rightarrow> (registry_error + node) \<times> registry_state" where
  "registry_register now inp r =
     (let node_id = trim_space (rg_node inp); address = trim_space (rg_address inp) in
      if node_id = [] then (Inl NodeIDRequired, r)
      else if address = [] then (Inl AddressRequired, r)
      else
        let created = (case r node_id of None \<Rightarrow> now | Some existing \<Rightarrow> nd_created existing);
            n = \<lparr>nd_id = node_id, nd_address = address, nd_version = trim_space (rg_version inp),
                 nd_state = NodeReady, nd_booted = or_now now (rg_booted inp), nd_heartbeat = now,
                 nd_leased_until = zero_time, nd_created = created, nd_updated = now\<rparr>
        in (Inr n, r(node_id \<mapsto> n)))"

text \<open>The state a heartbeat leaves: \<open>ready\<close> does not bring a draining or dead node back.\<close>

definition heartbeat_state :: "node_state \<Rightarrow> node_state \<Rightarrow> node_state" where
  "heartbeat_state old st =
     (let st1 = (if old = NodeDraining \<and> st = NodeReady then NodeDraining else st)
      in if old = NodeDead \<and> st1 = NodeReady then NodeDead else st1)"

definition or_ready :: "node_state option \<Rightarrow> node_state" where
  "or_ready st = (case st of None \<Rightarrow> NodeReady | Some x \<Rightarrow> x)"

definition registry_heartbeat ::
  "go_time \<Rightarrow> heartbeat_input \<Rightarrow> registry_state \<Rightarrow> (registry_error + node) \<times> registry_state" where
  "registry_heartbeat now inp r =
     (let node_id = trim_space (hb_node inp); at = or_now now (hb_at inp) in
      if node_id = [] then (Inl NodeIDRequired, r)
      else case r node_id of
          None \<Rightarrow> (Inl NodeNotFound, r)
        | Some existing \<Rightarrow>
            let st = heartbeat_state (nd_state existing) (or_ready (hb_state inp));
                n = existing\<lparr>nd_state := st, nd_heartbeat := at,
                      nd_leased_until :=
                        (if st = NodeLeased
                         then if hb_leased_until inp \<noteq> zero_time then hb_leased_until inp
                              else nd_leased_until existing
                         else zero_time),
                      nd_updated := at\<rparr>
            in (Inr n, r(node_id \<mapsto> n)))"

definition registry_set_state ::
  "go_time \<Rightarrow> gostr \<Rightarrow> node_state option \<Rightarrow> go_time \<Rightarrow> registry_state \<Rightarrow>
     (registry_error + node) \<times> registry_state" where
  "registry_set_state now nid state t r =
     (let node_id = trim_space nid; next_state = or_ready state; at = or_now now t in
      if node_id = [] then (Inl NodeIDRequired, r)
      else case r node_id of
          None \<Rightarrow> (Inl NodeNotFound, r)
        | Some existing \<Rightarrow>
            let n = existing\<lparr>nd_state := next_state, nd_heartbeat := at,
                      nd_leased_until :=
                        (if next_state \<noteq> NodeLeased then zero_time else nd_leased_until existing),
                      nd_updated := at\<rparr>
            in (Inr n, r(node_id \<mapsto> n)))"

definition node_created_less :: "node \<Rightarrow> node \<Rightarrow> bool" where
  "node_created_less a b \<longleftrightarrow> nd_created a < nd_created b"

text \<open>\<open>ks\<close> is the order in which the range loop visits the map.\<close>

definition registry_list :: "gostr list \<Rightarrow> registry_state \<Rightarrow> node list" where
  "registry_list ks r = sort_by node_created_less (listed r ks)"

definition parse_node_state :: "gostr \<Rightarrow> go_error + node_state" where
  "parse_node_state value =
     (let raw = trim_space (to_lower value) in
      if raw = [] then Inr NodeReady
      else case find (\<lambda>s. node_state_text s = raw)
          [NodeWarming, NodeReady, NodeLeased, NodeDraining, NodeDead] of
          Some s \<Rightarrow> Inr s
        | None \<Rightarrow> Inl (new_error ''invalid node state''))"

section \<open>The contract of a registry\<close>

datatype registry_op =
    OpRegister go_time register_input
  | OpHeartbeat go_time heartbeat_input
  | OpSetState go_time gostr "node_state option" go_time

fun registry_step where
  "registry_step reg hb st (OpRegister now i) s = snd (reg now i s)"
| "registry_step reg hb st (OpHeartbeat now i) s = snd (hb now i s)"
| "registry_step reg hb st (OpSetState now n x t) s = snd (st now n x t s)"

definition registry_run where
  "registry_run reg hb st ops s = foldl (\<lambda>s op. registry_step reg hb st op s) s ops"

text \<open>The operations that put a node that was taken out of service back: an explicit
  registration, an explicit change of its state, and a heartbeat of another state than
  ready and the node's own.\<close>

fun revives :: "gostr \<Rightarrow> node_state \<Rightarrow> registry_op \<Rightarrow> bool" where
  "revives nid st (OpRegister now i) \<longleftrightarrow> trim_space (rg_node i) = nid"
| "revives nid st (OpHeartbeat now i) \<longleftrightarrow>
     trim_space (hb_node i) = nid \<and> or_ready (hb_state i) \<noteq> NodeReady \<and> or_ready (hb_state i) \<noteq> st"
| "revives nid st (OpSetState now n x t) \<longleftrightarrow> trim_space n = nid \<and> or_ready x \<noteq> st"

locale node_registry =
  fixes reg :: "go_time \<Rightarrow> register_input \<Rightarrow> 'r \<Rightarrow> (registry_error + node) \<times> 'r"
    and hb :: "go_time \<Rightarrow> heartbeat_input \<Rightarrow> 'r \<Rightarrow> (registry_error + node) \<times> 'r"
    and st :: "go_time \<Rightarrow> gostr \<Rightarrow> node_state option \<Rightarrow> go_time \<Rightarrow> 'r \<Rightarrow> (registry_error + node) \<times> 'r"
    and nodes :: "'r \<Rightarrow> gostr \<rightharpoonup> node"
  assumes reg_error: "reg now i s = (Inl e, s') \<Longrightarrow> s' = s"
    and reg_ok: "reg now i s = (Inr n, s') \<Longrightarrow>
      nodes s' = (nodes s)(trim_space (rg_node i) \<mapsto> n) \<and> nd_state n = NodeReady
      \<and> nd_id n = trim_space (rg_node i)"
    and hb_error: "hb now h s = (Inl e, s') \<Longrightarrow> s' = s"
    and hb_ok: "hb now h s = (Inr n, s') \<Longrightarrow>
      \<exists>old. nodes s (trim_space (hb_node h)) = Some old \<and> nodes s' = (nodes s)(trim_space (hb_node h) \<mapsto> n)
        \<and> nd_state n = heartbeat_state (nd_state old) (or_ready (hb_state h))
        \<and> nd_id n = nd_id old \<and> nd_booted n = nd_booted old"
    and hb_found: "\<not> blank (hb_node h) \<Longrightarrow> nodes s (trim_space (hb_node h)) = Some old \<Longrightarrow>
      \<exists>n s'. hb now h s = (Inr n, s')"
    and st_error: "st now nid x t s = (Inl e, s') \<Longrightarrow> s' = s"
    and st_ok: "st now nid x t s = (Inr n, s') \<Longrightarrow>
      nodes s' = (nodes s)(trim_space nid \<mapsto> n) \<and> nd_state n = or_ready x"
begin

abbreviation "run \<equiv> registry_run reg hb st"

lemma run_Cons: "run (op # ops) s = run ops (registry_step reg hb st op s)"
  by (simp add: registry_run_def)

lemma hb_other: "x \<noteq> trim_space (hb_node h) \<Longrightarrow> nodes (snd (hb now h s)) x = nodes s x"
proof (cases "hb now h s")
  case (Pair r s')
  then show "x \<noteq> trim_space (hb_node h) \<Longrightarrow> ?thesis"
    by (cases r) (auto dest!: hb_error hb_ok)
qed

lemma step_keeps:
  assumes "nodes s nid = Some n" "nd_state n = x" "x = NodeDraining \<or> x = NodeDead" "\<not> revives nid x op"
  shows "\<exists>n'. nodes (registry_step reg hb st op s) nid = Some n' \<and> nd_state n' = x"
proof (cases op)
  case (OpRegister now i)
  obtain r s' where r: "reg now i s = (r, s')" by (cases "reg now i s")
  from assms OpRegister r show ?thesis
    by (cases r) (auto dest!: reg_error reg_ok)
next
  case (OpHeartbeat now h)
  obtain r s' where r: "hb now h s = (r, s')" by (cases "hb now h s")
  show ?thesis
  proof (cases r)
    case (Inl e)
    with assms OpHeartbeat r show ?thesis by (auto dest!: hb_error)
  next
    case (Inr m)
    with hb_ok r obtain old where "nodes s (trim_space (hb_node h)) = Some old"
      "nodes s' = (nodes s)(trim_space (hb_node h) \<mapsto> m)"
      "nd_state m = heartbeat_state (nd_state old) (or_ready (hb_state h))" by blast
    with assms OpHeartbeat r show ?thesis
      by (cases "trim_space (hb_node h) = nid") (auto simp: heartbeat_state_def Let_def)
  qed
next
  case (OpSetState now n' y t)
  obtain r s' where r: "st now n' y t s = (r, s')" by (cases "st now n' y t s")
  from assms OpSetState r show ?thesis
    by (cases r) (auto dest!: st_error st_ok)
qed

lemma out_of_service_stays:
  assumes "nodes s nid = Some n" "nd_state n = x" "x = NodeDraining \<or> x = NodeDead"
    and "\<forall>op\<in>set ops. \<not> revives nid x op"
  shows "\<exists>n'. nodes (run ops s) nid = Some n' \<and> nd_state n' = x"
  using assms
proof (induction ops arbitrary: s n)
  case Nil
  then show ?case by (simp add: registry_run_def)
next
  case (Cons op ops)
  have "\<not> revives nid x op" using Cons.prems(4) by simp
  with step_keeps [OF Cons.prems(1-3)] obtain n'
    where "nodes (registry_step reg hb st op s) nid = Some n'" "nd_state n' = x" by blast
  with Cons.IH Cons.prems(3,4) show ?case by (simp add: run_Cons)
qed

end

interpretation mem_registry: node_registry registry_register registry_heartbeat registry_set_state id
  by unfold_locales
     (auto simp: registry_register_def registry_heartbeat_def registry_set_state_def Let_def
       split: if_splits option.splits)

section \<open>The stored nodes\<close>

definition wf_node :: "gostr \<Rightarrow> node \<Rightarrow> bool" where
  "wf_node nid n \<longleftrightarrow> nd_id n = nid \<and> nid \<noteq> [] \<and> trim_space nid = nid \<and> nd_address n \<noteq> []
     \<and> (nd_leased_until n \<noteq> zero_time \<longrightarrow> nd_state n = NodeLeased)"

definition registry_inv :: "registry_state \<Rightarrow> bool" where
  "registry_inv r \<longleftrightarrow> (\<forall>nid n. r nid = Some n \<longrightarrow> wf_node nid n)"

lemma registry_inv_step:
  assumes "registry_inv r"
  shows "registry_inv (registry_step registry_register registry_heartbeat registry_set_state op r)"
proof (cases op)
  case (OpRegister now i)
  with assms show ?thesis by (auto simp: registry_inv_def wf_node_def registry_register_def Let_def)
next
  case (OpHeartbeat now h)
  with assms show ?thesis
    by (auto simp: registry_inv_def wf_node_def registry_heartbeat_def Let_def split: option.splits)
next
  case (OpSetState now n y t)
  with assms show ?thesis
    by (auto simp: registry_inv_def wf_node_def registry_set_state_def Let_def split: option.splits)
qed

lemma registry_inv_run:
  "registry_inv r \<Longrightarrow>
   registry_inv (registry_run registry_register registry_heartbeat registry_set_state ops r)"
  by (induction ops arbitrary: r) (simp_all add: mem_registry.run_Cons registry_inv_step, simp add: registry_run_def)

interpretation created_order: strict_weak node_created_less
  by unfold_locales (auto simp: node_created_less_def)

definition demo_node :: "gostr \<Rightarrow> go_time \<Rightarrow> node_state \<Rightarrow> node" where
  "demo_node nid t s = \<lparr>nd_id = nid, nd_address = ''10.0.0.1:8091'', nd_version = ''v1'',
     nd_state = s, nd_booted = t, nd_heartbeat = t, nd_leased_until = zero_time,
     nd_created = t, nd_updated = t\<rparr>"

section \<open>Properties\<close>

text \<open>A node that an operator drains (or that is marked dead) stays out of service however
  many ready heartbeats it sends, until it registers anew, an operator sets its state, or a
  heartbeat of a third state arrives for it.\<close>

lemma drained_node_stays_drained:
  assumes "r nid = Some n" "nd_state n = x" "x = NodeDraining \<or> x = NodeDead"
    and "\<forall>op\<in>set ops. \<not> revives nid x op"
  shows "\<exists>n'. registry_run registry_register registry_heartbeat registry_set_state ops r nid = Some n'
    \<and> nd_state n' = x"
  using mem_registry.out_of_service_stays [of r nid n x ops] assms by simp

lemma drained_node_stays_drained_at_work:
  "\<exists>n'. registry_run registry_register registry_heartbeat registry_set_state
      [OpHeartbeat 9 \<lparr>hb_node = ''n1'', hb_state = None, hb_at = 0, hb_leased_until = 0\<rparr>,
       OpHeartbeat 10 \<lparr>hb_node = ''n1'', hb_state = Some NodeReady, hb_at = 10, hb_leased_until = 0\<rparr>]
      [''n1'' \<mapsto> demo_node ''n1'' 5 NodeDraining] ''n1'' = Some n' \<and> nd_state n' = NodeDraining"
  by (rule drained_node_stays_drained [where n = "demo_node ''n1'' 5 NodeDraining"])
     (auto simp: demo_node_def or_ready_def)

text \<open>What the registry stores is well formed after every sequence of operations from the
  empty registry: each node under its own trimmed, non-empty identifier, with an address,
  and a lease end only on a leased node.\<close>

lemma registry_nodes_wf:
  assumes "registry_run registry_register registry_heartbeat registry_set_state ops new_registry nid = Some n"
  shows "nd_id n = nid \<and> trim_space nid = nid \<and> nid \<noteq> [] \<and> nd_address n \<noteq> []
    \<and> (nd_state n \<noteq> NodeLeased \<longrightarrow> nd_leased_until n = zero_time)"
proof -
  have "registry_inv new_registry" by (simp add: registry_inv_def new_registry_def)
  from registry_inv_run [OF this, of ops] assms show ?thesis
    by (auto simp: registry_inv_def wf_node_def)
qed

lemma registry_nodes_wf_at_work:
  "nd_address (the (registry_run registry_register registry_heartbeat registry_set_state
      [OpRegister 5 \<lparr>rg_node = ''n1'', rg_address = ''a:1'', rg_version = [], rg_booted = 0\<rparr>]
      new_registry ''n1'')) \<noteq> []"
proof -
  have "registry_run registry_register registry_heartbeat registry_set_state
      [OpRegister 5 \<lparr>rg_node = ''n1'', rg_address = ''a:1'', rg_version = [], rg_booted = 0\<rparr>]
      new_registry ''n1'' = Some \<lparr>nd_id = ''n1'', nd_address = ''a:1'', nd_version = [],
        nd_state = NodeReady, nd_booted = 5, nd_heartbeat = 5, nd_leased_until = 0,
        nd_created = 5, nd_updated = 5\<rparr>"
    by (simp add: registry_run_def registry_register_def Let_def plain_ends_def plain_char_def
        new_registry_def or_now_def)
  from registry_nodes_wf [OF this] this show ?thesis by simp
qed

text \<open>The list of nodes is each stored node once, oldest first, whatever order the map is
  visited in.\<close>

lemma registry_list_spec:
  assumes "enumerates ks r"
  shows "sorted_wrt (\<lambda>a b. nd_created a \<le> nd_created b) (registry_list ks r)
    \<and> set (registry_list ks r) = ran r \<and> length (registry_list ks r) = card (dom r)"
proof -
  have "sorted_wrt (\<lambda>a b. nd_created a \<le> nd_created b) (registry_list ks r)"
    using created_order.sorted_sort_by [of "listed r ks"]
    by (simp add: registry_list_def node_created_less_def not_less)
  then show ?thesis
    using assms length_listed [OF assms]
    by (simp add: registry_list_def set_listed enumerates_def)
qed

lemma registry_list_spec_at_work:
  "length (registry_list [''n2'', ''n1''] [''n1'' \<mapsto> demo_node ''n1'' 5 NodeReady, ''n2'' \<mapsto> demo_node ''n2'' 3 NodeReady]) = 2"
proof -
  let ?r = "[''n1'' \<mapsto> demo_node ''n1'' 5 NodeReady, ''n2'' \<mapsto> demo_node ''n2'' 3 NodeReady]"
  have d: "dom ?r = {''n1'', ''n2''}" by (simp add: insert_commute)
  then have "enumerates [''n2'', ''n1''] ?r" by (simp add: enumerates_def insert_commute)
  from registry_list_spec [OF this] have "length (registry_list [''n2'', ''n1''] ?r) = card (dom ?r)" by blast
  also have "\<dots> = 2" unfolding d by simp
  finally show ?thesis .
qed

text \<open>Round trip of the state names, and the way out of draining that a heartbeat leaves open:
  one of state leased makes a draining node leased, and the next one of state ready makes
  it ready.\<close>

lemma parse_node_state_text: "parse_node_state (node_state_text s) = Inr s"
proof -
  have "to_lower (node_state_text s) = node_state_text s"
    by (cases s) (simp_all add: to_lower_def lower_char_def)
  moreover have "trim_space (node_state_text s) = node_state_text s"
    by (cases s) (simp_all add: plain_ends_def plain_char_def)
  ultimately show ?thesis by (cases s) (simp_all add: parse_node_state_def)
qed

lemma draining_lost_by_leased_heartbeat:
  "heartbeat_state (heartbeat_state NodeDraining NodeLeased) NodeReady = NodeReady"
  by (simp add: heartbeat_state_def)

end
