(* ===== verification/NodeClient.thy ===== *)
theory NodeClient
  imports Prelude
begin

text \<open>
  The client the orchestrator executes tasks with, \<open>internal/nodeclient\<close>: its data types and
  the gRPC client. gRPC itself (dial, the generated stubs) and the JSON text of the actions
  and of the metadata (\<open>encoding/json\<close> with the generated field tags) are arguments.
\<close>

record node_action =
  na_type :: gostr
  na_selector :: gostr
  na_text :: gostr
  na_pixels :: int
  na_timeout_ms :: int
  na_delay_ms :: int

record node_planner_meta =
  np_mode :: gostr
  np_round :: int
  np_failure_count :: int
  np_stop_reason :: gostr

record node_step =
  ns_index :: int
  ns_action :: node_action
  ns_status :: gostr
  ns_error :: gostr
  ns_output_text :: gostr
  ns_started_at :: go_time
  ns_completed_at :: go_time
  ns_duration_ms :: int
  ns_screenshot :: gostr
  ns_artifact_url :: gostr
  ns_planner :: "node_planner_meta option"

record execute_input =
  xi_task :: gostr
  xi_trace_id :: gostr
  xi_url :: gostr
  xi_goal :: gostr
  xi_actions :: "node_action list"

record execute_output =
  xo_page_title :: gostr
  xo_final_url :: gostr
  xo_screenshot :: gostr
  xo_blocker_type :: gostr
  xo_blocker_message :: gostr
  xo_trace :: "node_step list"

text \<open>An error of \<open>Execute\<close>, and the output it carries when \<open>errors.As\<close> finds an
  \<open>ExecutionError\<close> in it.\<close>

record exec_failure =
  xf_error :: go_error
  xf_output :: "execute_output option"

definition execution_error_text :: "gostr \<Rightarrow> gostr" where
  "execution_error_text msg = (if \<not> blank msg then msg else ''node execution failed'')"

definition execution_error :: "gostr \<Rightarrow> execute_output \<Rightarrow> exec_failure" where
  "execution_error msg out = \<lparr>xf_error = new_error (execution_error_text msg), xf_output = Some out\<rparr>"

definition plain_failure :: "go_error \<Rightarrow> exec_failure" where
  "plain_failure e = \<lparr>xf_error = e, xf_output = None\<rparr>"

definition empty_output :: execute_output where
  "empty_output = \<lparr>xo_page_title = [], xo_final_url = [], xo_screenshot = [], xo_blocker_type = [],
     xo_blocker_message = [], xo_trace = []\<rparr>"

definition normalize_address :: "gostr \<Rightarrow> gostr" where
  "normalize_address addr =
     (let t = trim_space addr in
      if has_prefix t ''http://'' \<or> has_prefix t ''https://'' then t else ''http://'' @ t)"

definition normalize_grpc_target :: "gostr \<Rightarrow> gostr" where
  "normalize_grpc_target addr =
     trim_space (trim_prefix (trim_prefix (trim_prefix (trim_space addr) ''http://'') ''https://'') ''grpc://'')"

text \<open>\<open>NoopClient\<close>, which calls no node.\<close>

definition noop_execute :: "execute_input \<Rightarrow> exec_failure + execute_output" where
  "noop_execute inp = Inr (empty_output\<lparr>xo_page_title := ''noop'', xo_final_url := xi_url inp\<rparr>)"

definition grpc_client_timeout :: "duration \<Rightarrow> duration" where
  "grpc_client_timeout t = (if t \<le> 0 then 45 * second else t)"

definition http_client_timeout :: "duration \<Rightarrow> duration" where
  "http_client_timeout t = (if t \<le> 0 then 30 * second else t)"

text \<open>The HTTP client: \<open>post\<close> sends the encoded input to the URL and answers the status code
  and the body (already limited to 5 MB), \<open>encode_input\<close> and \<open>decode_output\<close> are the JSON
  functions.\<close>

definition http_execute ::
  "(gostr \<Rightarrow> gostr \<Rightarrow> go_error + int \<times> gostr) \<Rightarrow> (execute_input \<Rightarrow> go_error + gostr) \<Rightarrow>
   (gostr \<Rightarrow> go_error + execute_output) \<Rightarrow> gostr \<Rightarrow> execute_input \<Rightarrow> exec_failure + execute_output" where
  "http_execute post encode_input decode_output addr inp =
     (if blank addr then Inl (plain_failure (new_error ''node address is required''))
      else case encode_input inp of
          Inl e \<Rightarrow> Inl (plain_failure (wrap_error ''marshal execute input: '' e))
        | Inr raw \<Rightarrow>
            (case post (normalize_address addr @ ''/v1/execute'') raw of
               Inl e \<Rightarrow> Inl (plain_failure (wrap_error ''execute request failed: '' e))
             | Inr (code, body) \<Rightarrow>
                 if code < 200 \<or> 300 \<le> code
                 then Inl (plain_failure (new_error
                        (''execute request returned '' @ fmt_d code @ '': '' @ trim_space body)))
                 else (case decode_output body of
                     Inl e \<Rightarrow> Inl (plain_failure (wrap_error ''decode execute response: '' e))
                   | Inr out \<Rightarrow> Inr out)))"

record act_request =
  aq_session :: gostr
  aq_action :: gostr
  aq_params :: "(gostr \<times> gostr) list"

record act_response =
  ar_ok :: bool
  ar_error :: gostr
  ar_metadata :: gostr

text \<open>The gRPC client: \<open>dial\<close>, \<open>act\<close> and \<open>snapshot\<close> are the connection and the two remote
  calls (the image as base64 text, empty when there is none).\<close>

definition grpc_execute ::
  "(gostr \<Rightarrow> go_error option) \<Rightarrow> (act_request \<Rightarrow> go_error + act_response) \<Rightarrow>
   (gostr \<Rightarrow> go_error + gostr) \<Rightarrow> (node_action list \<Rightarrow> go_error + gostr) \<Rightarrow>
   (gostr \<Rightarrow> go_error + execute_output) \<Rightarrow> gostr \<Rightarrow> execute_input \<Rightarrow> exec_failure + execute_output" where
  "grpc_execute dial act snapshot encode_actions decode_output addr inp =
     (let target = normalize_grpc_target addr in
      if target = [] then Inl (plain_failure (new_error ''node address is required''))
      else case dial target of
          Some e \<Rightarrow> Inl (plain_failure (wrap_error (''dial node grpc '' @ target @ '': '') e))
        | None \<Rightarrow>
            (case (if xi_actions inp = [] then Inr ''[]'' else encode_actions (xi_actions inp)) of
               Inl e \<Rightarrow> Inl (plain_failure (wrap_error ''marshal actions: '' e))
             | Inr actions_json \<Rightarrow>
                 (case act \<lparr>aq_session = xi_task inp, aq_action = ''execute_flow'',
                        aq_params = [(''url'', xi_url inp), (''goal'', xi_goal inp),
                          (''actions_json'', actions_json)]\<rparr> of
                    Inl e \<Rightarrow> Inl (plain_failure (wrap_error ''grpc execute_flow failed: '' e))
                  | Inr resp \<Rightarrow>
                      (case (if blank (ar_metadata resp) then Inr empty_output
                             else decode_output (trim_space (ar_metadata resp))) of
                         Inl e \<Rightarrow> Inl (plain_failure (wrap_error ''decode execute metadata: '' e))
                       | Inr out \<Rightarrow>
                           if \<not> ar_ok resp
                           then Inl (execution_error
                                  (if blank (ar_error resp) then ''node execution failed''
                                   else trim_space (ar_error resp)) out)
                           else if blank (xo_screenshot out)
                           then (case snapshot (xi_task inp) of
                               Inl e \<Rightarrow> Inr out
                             | Inr img \<Rightarrow> Inr (if img = [] then out else out\<lparr>xo_screenshot := img\<rparr>))
                           else Inr out))))"

text \<open>A node that reports a failed execution is never taken for a success, and its evidence
  is kept: when the node answers not ok, Execute gives an error with a text that is not
  blank, carrying the page, the blocker and the trace the node sent.\<close>

lemma grpc_failure_keeps_evidence:
  assumes "normalize_grpc_target addr \<noteq> []" "dial (normalize_grpc_target addr) = None"
    and "xi_actions inp = []" "\<And>q. act q = Inr resp" "\<not> ar_ok resp"
    and "\<not> blank (ar_metadata resp)" "decode (trim_space (ar_metadata resp)) = Inr out"
  shows "\<exists>f. grpc_execute dial act snapshot encode decode addr inp = Inl f
    \<and> xf_output f = Some out \<and> \<not> blank (err_text (xf_error f))"
proof -
  have "\<not> blank ''node execution failed''" by (simp add: plain_ends_def plain_char_def)
  with assms show ?thesis
    by (simp add: grpc_execute_def execution_error_def execution_error_text_def new_error_def)
qed

lemma grpc_failure_keeps_evidence_at_work:
  "\<exists>f. grpc_execute (\<lambda>_. None) (\<lambda>_. Inr \<lparr>ar_ok = False, ar_error = '''', ar_metadata = ''{}''\<rparr>)
      (\<lambda>_. Inr []) (\<lambda>_. Inr []) (\<lambda>_. Inr (empty_output\<lparr>xo_blocker_type := ''bot_blocked''\<rparr>)) ''grpc://n:1''
      \<lparr>xi_task = ''t'', xi_trace_id = [], xi_url = ''u'', xi_goal = [], xi_actions = []\<rparr> = Inl f
    \<and> xf_output f = Some (empty_output\<lparr>xo_blocker_type := ''bot_blocked''\<rparr>) \<and> \<not> blank (err_text (xf_error f))"
proof -
  have "normalize_grpc_target ''grpc://n:1'' = ''n:1''"
    by (simp add: normalize_grpc_target_def trim_prefix_def has_prefix_def plain_ends_def plain_char_def)
  then show ?thesis
    by (intro grpc_failure_keeps_evidence [where resp = "\<lparr>ar_ok = False, ar_error = '''', ar_metadata = ''{}''\<rparr>"])
       (simp_all add: plain_ends_def plain_char_def)
qed

end
