(* ===== verification/TaskRunner.thy ===== *)
theory TaskRunner
  imports Lease Tasks Registry NodeClient
begin

text \<open>
  The task runner, \<open>internal/taskrunner/runner.go\<close>: the queue of task identifiers, the workers
  that take a task from it, lease a node, execute the task there and record the outcome, the
  retries and the domain cooldown. The tasks and the nodes are the in-memory services; the lease
  manager is any provider of the contract \<open>lease_manager\<close>, given as its three operations in a
  \<open>leaser\<close>.

  A worker is one sequential program; what other goroutines do to the shared state meanwhile is
  a state transformer at each point where the worker waits: before every poll for a node, before
  every keepalive tick and until \<open>Execute\<close> returns. Clock readings, the answers of \<open>Execute\<close> and
  the orders of map visits are part of the \<open>attempt\<close>. Outside the model are \<open>url.Parse\<close> (the
  host name of a URL, \<open>None\<close> where it fails), the RFC 3339 text of a time, the artifact store
  (\<open>None\<close> where none is configured) and the log.
\<close>

section \<open>State and configuration\<close>

record runner_config =
  rc_queue_size :: int
  rc_workers :: int
  rc_node_wait :: duration
  rc_poll :: duration
  rc_retry_base :: duration
  rc_retry_max :: duration
  rc_cooldown :: duration
  rc_lease_ttl :: duration
  rc_owner :: gostr

definition or_default :: "int \<Rightarrow> int \<Rightarrow> int" where
  "or_default d x = (if x \<le> 0 then d else x)"

text \<open>\<open>New\<close>: \<open>fresh\<close> is the random identifier taken when the instance has no name.\<close>

definition normalize_runner_config :: "gostr \<Rightarrow> runner_config \<Rightarrow> runner_config" where
  "normalize_runner_config fresh c =
     (let base = or_default (1 * second) (rc_retry_base c);
          max1 = or_default (20 * second) (rc_retry_max c)
      in \<lparr>rc_queue_size = or_default 256 (rc_queue_size c),
          rc_workers = or_default 1 (rc_workers c),
          rc_node_wait = or_default (30 * second) (rc_node_wait c),
          rc_poll = or_default (250 * millisecond) (rc_poll c),
          rc_retry_base = base,
          rc_retry_max = (if max1 < base then base else max1),
          rc_cooldown = or_default (180 * second) (rc_cooldown c),
          rc_lease_ttl = or_default (90 * second) (rc_lease_ttl c),
          rc_owner = (if blank (rc_owner c) then ''runner-'' @ fresh else trim_space (rc_owner c))\<rparr>)"

record 'l runner =
  ru_tasks :: task_state
  ru_nodes :: registry_state
  ru_leases :: 'l
  ru_queue :: "gostr list"
  ru_enqueued :: "gostr set"
  ru_running :: "gostr set"
  ru_stopped :: "gostr set"
  ru_blocked :: "gostr \<rightharpoonup> go_time"
  ru_delayed :: "(gostr \<times> duration) list"

text \<open>\<open>ru_running\<close> are the tasks with a registered cancel function, \<open>ru_stopped\<close> those whose
  function was called; \<open>ru_delayed\<close> are the goroutines started to enqueue a task after a
  delay.\<close>

record 'l leaser =
  lz_acquire :: "go_time \<Rightarrow> gostr \<Rightarrow> gostr \<Rightarrow> duration \<Rightarrow> 'l \<Rightarrow> (go_error + lease option) \<times> 'l"
  lz_renew :: "go_time \<Rightarrow> gostr \<Rightarrow> gostr \<Rightarrow> 64 word \<Rightarrow> duration \<Rightarrow> 'l \<Rightarrow> (go_error + lease option) \<times> 'l"
  lz_release :: "gostr \<Rightarrow> gostr \<Rightarrow> 64 word \<Rightarrow> 'l \<Rightarrow> (go_error + unit) \<times> 'l"

record runner_libs =
  lb_hostname :: "gostr \<Rightarrow> gostr option"
  lb_format_time :: "go_time \<Rightarrow> gostr"
  lb_save :: "(gostr \<Rightarrow> gostr \<Rightarrow> go_error + gostr) option"

section \<open>Texts, hosts and the cooldown\<close>

definition trace_id_for :: "gostr \<Rightarrow> gostr" where
  "trace_id_for tid = (if blank tid then [] else ''trc_'' @ trim_space tid)"

fun first_non_empty :: "gostr list \<Rightarrow> gostr" where
  "first_non_empty [] = []"
| "first_non_empty (v # vs) = (if \<not> blank v then trim_space v else first_non_empty vs)"

definition normalized_host :: "(gostr \<Rightarrow> gostr option) \<Rightarrow> gostr \<Rightarrow> gostr" where
  "normalized_host hostname raw =
     (if blank raw then []
      else case hostname (trim_space raw) of
          None \<Rightarrow> []
        | Some h \<Rightarrow> trim_space (to_lower h))"

definition is_domain_blocked ::
  "(gostr \<Rightarrow> gostr option) \<Rightarrow> gostr \<Rightarrow> go_time \<Rightarrow> (gostr \<rightharpoonup> go_time) \<Rightarrow>
     (gostr \<times> go_time) option \<times> (gostr \<rightharpoonup> go_time)" where
  "is_domain_blocked hostname raw now blocked =
     (let host = normalized_host hostname raw in
      if host = [] then (None, blocked)
      else case blocked host of
          None \<Rightarrow> (None, blocked)
        | Some til \<Rightarrow>
            if til < now then (None, blocked(host := None)) else (Some (host, til), blocked))"

definition mark_domain_blocked ::
  "(gostr \<Rightarrow> gostr option) \<Rightarrow> duration \<Rightarrow> gostr \<Rightarrow> gostr \<Rightarrow> go_time \<Rightarrow>
     (gostr \<rightharpoonup> go_time) \<Rightarrow> gostr \<rightharpoonup> go_time" where
  "mark_domain_blocked hostname cooldown raw blocker_type now blocked =
     (let blocker = trim_space (to_lower blocker_type);
          host = normalized_host hostname raw
      in if blocker \<noteq> ''human_verification_required'' \<and> blocker \<noteq> ''bot_blocked'' then blocked
         else if host = [] then blocked
         else
           let til = now + cooldown in
           if (case blocked host of None \<Rightarrow> True | Some existing \<Rightarrow> existing < til)
           then blocked(host \<mapsto> til) else blocked)"

section \<open>Retries\<close>

definition non_retriable_signals :: "gostr list" where
  "non_retriable_signals =
     [''captcha'', ''verify you are human'', ''human verification required'',
      ''confirm this search was made by a human'', ''please fill out this field'',
      ''timeout waiting for url to contain'', ''timeout waiting for selector'',
      ''unsupported action type'', ''selector is required'', ''url is required'',
      ''invalid selector syntax'', ''click failed: not_found'', ''type failed: not_found'',
      ''extract_text failed: not_found'', ''press_enter failed: not_found'']"

definition retriable_signals :: "gostr list" where
  "retriable_signals =
     [''timeout'', ''temporarily'', ''connection refused'', ''connection reset'', ''no such host'',
      ''dial tcp'', ''no node available'', ''bad gateway'', ''eof'', ''unexpected status 5'',
      ''lease ownership lost'']"

definition is_retriable_error :: "go_error \<Rightarrow> bool" where
  "is_retriable_error e =
     (if err_canceled e then False
      else if err_deadline e then True
      else
        let msg = to_lower (err_text e) in
        if list_ex (contains msg) non_retriable_signals then False
        else list_ex (contains msg) retriable_signals)"

definition should_retry :: "task \<Rightarrow> go_error \<Rightarrow> bool" where
  "should_retry t e =
     (if tk_max_retries t \<le> 0 then False
      else if tk_attempt t > tk_max_retries t then False
      else is_retriable_error e)"

text \<open>The code computes the delay in 64-bit floats. Multiplying by a power of two is exact there
  and so are both durations when they are below \<open>2 ^ 53\<close> ns (104 days), so the integer
  computation gives the same value; an exponent beyond the float range gives infinity, which
  the bound replaces like every other large value.\<close>

definition retry_delay :: "runner_config \<Rightarrow> int \<Rightarrow> duration" where
  "retry_delay cfg attempt =
     (let delay = rc_retry_base cfg * 2 ^ nat (max 0 (attempt - 1))
      in if delay > rc_retry_max cfg then rc_retry_max cfg else delay)"

section \<open>Evidence and traces\<close>

record failure_evidence =
  fe_page_title :: gostr
  fe_final_url :: gostr
  fe_screenshot :: gostr
  fe_artifact_url :: gostr
  fe_blocker_type :: gostr
  fe_blocker_message :: gostr
  fe_trace :: "step_trace list"

definition no_evidence :: failure_evidence where
  "no_evidence = \<lparr>fe_page_title = [], fe_final_url = [], fe_screenshot = [], fe_artifact_url = [],
     fe_blocker_type = [], fe_blocker_message = [], fe_trace = []\<rparr>"

definition persist_screenshot ::
  "(gostr \<Rightarrow> gostr \<Rightarrow> go_error + gostr) option \<Rightarrow> gostr \<Rightarrow> gostr \<Rightarrow> gostr \<times> gostr" where
  "persist_screenshot save tid raw =
     (let shot = trim_space raw in
      case save of
        None \<Rightarrow> (shot, [])
      | Some f \<Rightarrow>
          if shot = [] then (shot, [])
          else case f tid shot of Inl e \<Rightarrow> (shot, []) | Inr url \<Rightarrow> ([], url))"

definition map_node_actions :: "action list \<Rightarrow> node_action list" where
  "map_node_actions actions = map (\<lambda>a. \<lparr>na_type = ac_type a, na_selector = ac_selector a,
     na_text = ac_text a, na_pixels = ac_pixels a, na_timeout_ms = ac_timeout_ms a,
     na_delay_ms = ac_delay_ms a\<rparr>) actions"

definition map_planner_meta :: "node_planner_meta option \<Rightarrow> planner_meta option" where
  "map_planner_meta m = map_option (\<lambda>m. \<lparr>pm_mode = trim_space (np_mode m), pm_round = np_round m,
     pm_failure_count = np_failure_count m, pm_stop_reason = trim_space (np_stop_reason m)\<rparr>) m"

definition utc_time_ptr :: "go_time \<Rightarrow> go_time option" where
  "utc_time_ptr t = (if t = zero_time then None else Some t)"

text \<open>\<open>%03d\<close> of the step number, which is at least 1.\<close>

definition step_artifact_id :: "gostr \<Rightarrow> int \<Rightarrow> int \<Rightarrow> gostr" where
  "step_artifact_id tid index done_steps =
     trim_space tid @ ''-step-'' @ fmt_0d 3 (nat (max index (done_steps + 1)))"

definition map_step ::
  "(gostr \<Rightarrow> gostr \<Rightarrow> go_error + gostr) option \<Rightarrow> gostr \<Rightarrow> int \<Rightarrow> node_step \<Rightarrow> step_trace" where
  "map_step save tid done_steps step =
     (let shot = trim_space (ns_screenshot step);
          url = trim_space (ns_artifact_url step);
          (shot, url) =
            (case save of
               None \<Rightarrow> (shot, url)
             | Some f \<Rightarrow>
                 if shot \<noteq> [] \<and> url = []
                 then (case f (step_artifact_id tid (ns_index step) done_steps) shot of
                     Inl e \<Rightarrow> (shot, url) | Inr u \<Rightarrow> ([], u))
                 else (shot, url))
      in \<lparr>st_index = ns_index step,
          st_action = \<lparr>ac_type = na_type (ns_action step), ac_selector = na_selector (ns_action step),
            ac_text = na_text (ns_action step), ac_pixels = na_pixels (ns_action step),
            ac_timeout_ms = na_timeout_ms (ns_action step), ac_delay_ms = na_delay_ms (ns_action step)\<rparr>,
          st_status = ns_status step, st_error = ns_error step,
          st_output_text = ns_output_text step,
          st_started_at = utc_time_ptr (ns_started_at step),
          st_completed_at = utc_time_ptr (ns_completed_at step),
          st_duration_ms = ns_duration_ms step, st_screenshot = shot, st_artifact_url = url,
          st_planner = map_planner_meta (ns_planner step)\<rparr>)"

primrec map_task_trace_from ::
  "(gostr \<Rightarrow> gostr \<Rightarrow> go_error + gostr) option \<Rightarrow> gostr \<Rightarrow> node_step list \<Rightarrow> step_trace list \<Rightarrow>
     step_trace list" where
  "map_task_trace_from save tid [] mapped = mapped"
| "map_task_trace_from save tid (step # steps) mapped =
     map_task_trace_from save tid steps (mapped @ [map_step save tid (int (length mapped)) step])"

definition map_task_trace ::
  "(gostr \<Rightarrow> gostr \<Rightarrow> go_error + gostr) option \<Rightarrow> gostr \<Rightarrow> node_step list \<Rightarrow> step_trace list" where
  "map_task_trace save tid trace = map_task_trace_from save tid trace []"

section \<open>The outcome of a failed execution\<close>

definition fail_task_with_evidence ::
  "go_time \<Rightarrow> gostr \<Rightarrow> gostr \<Rightarrow> go_error \<Rightarrow> failure_evidence \<Rightarrow> 'l runner \<Rightarrow> 'l runner" where
  "fail_task_with_evidence now tid nid e ev s =
     s\<lparr>ru_tasks := snd (task_fail now
        \<lparr>fi_task = tid, fi_node = nid, fi_completed = now, fi_error = err_text e,
         fi_page_title = fe_page_title ev, fi_final_url = fe_final_url ev,
         fi_screenshot = fe_screenshot ev, fi_artifact_url = fe_artifact_url ev,
         fi_blocker_type = fe_blocker_type ev, fi_blocker_message = fe_blocker_message ev,
         fi_trace = fe_trace ev\<rparr> (ru_tasks s))\<rparr>"

definition fail_plain :: "go_time \<Rightarrow> gostr \<Rightarrow> gostr \<Rightarrow> go_error \<Rightarrow> 'l runner \<Rightarrow> 'l runner" where
  "fail_plain now tid nid e s = fail_task_with_evidence now tid nid e no_evidence s"

definition blocker_message_or :: "gostr \<Rightarrow> gostr" where
  "blocker_message_or m = (if blank m then ''blocking challenge detected'' else trim_space m)"

definition blocked_error :: "gostr \<Rightarrow> gostr \<Rightarrow> go_error" where
  "blocked_error bt msg = new_error (''blocked ('' @ bt @ ''): '' @ msg)"

definition handle_failure_with_evidence ::
  "runner_config \<Rightarrow> runner_libs \<Rightarrow> go_time \<Rightarrow> task \<Rightarrow> gostr \<Rightarrow> go_error \<Rightarrow> failure_evidence \<Rightarrow>
     'l runner \<Rightarrow> 'l runner" where
  "handle_failure_with_evidence cfg lib now t nid e ev s =
     (if \<not> blank (fe_blocker_type ev)
      then
        let s1 = s\<lparr>ru_blocked := mark_domain_blocked (lb_hostname lib) (rc_cooldown cfg)
              (first_non_empty [fe_final_url ev, tk_url t]) (fe_blocker_type ev) now (ru_blocked s)\<rparr>
        in fail_task_with_evidence now (tk_id t) nid
             (blocked_error (fe_blocker_type ev) (blocker_message_or (fe_blocker_message ev))) ev s1
      else if should_retry t e
      then
        let delay = retry_delay cfg (tk_attempt t) in
        case task_retry now
            \<lparr>ri_task = tk_id t, ri_retry_at = now + delay, ri_last_error = err_text e\<rparr> (ru_tasks s) of
          (Inl x, ts) \<Rightarrow>
            fail_plain now (tk_id t) nid
              (new_error (''retry scheduling failed: '' @ task_error_text x)) (s\<lparr>ru_tasks := ts\<rparr>)
        | (Inr _, ts) \<Rightarrow>
            s\<lparr>ru_tasks := ts, ru_delayed := ru_delayed s @ [(tk_id t, delay)]\<rparr>
      else fail_task_with_evidence now (tk_id t) nid e ev s)"

end
