(* ===== verification/Worker.thy ===== *)
theory Worker
  imports TaskRunner
begin

text \<open>
  What one worker of the task runner does with one task, \<open>processTask\<close> of
  \<open>internal/taskrunner/runner.go\<close>, with the lease and release of a node, the keepalive and the
  cancel function; then what holds of every such attempt, whatever the other goroutines do in
  the meantime.
\<close>

section \<open>Leasing a node\<close>

record leased_node =
  ln_node :: node
  ln_token :: "64 word"
  ln_expires :: go_time

definition node_resource :: "gostr \<Rightarrow> gostr" where
  "node_resource nid = ''node:'' @ trim_space nid"

definition leased_beat :: "gostr \<Rightarrow> go_time \<Rightarrow> go_time \<Rightarrow> heartbeat_input" where
  "leased_beat nid t til =
     \<lparr>hb_node = nid, hb_state = Some NodeLeased, hb_at = t, hb_leased_until = til\<rparr>"

definition ready_beat :: "gostr \<Rightarrow> go_time \<Rightarrow> heartbeat_input" where
  "ready_beat nid t =
     \<lparr>hb_node = nid, hb_state = Some NodeReady, hb_at = t, hb_leased_until = zero_time\<rparr>"

primrec try_acquire_from ::
  "'l leaser \<Rightarrow> runner_config \<Rightarrow> go_time \<Rightarrow> node list \<Rightarrow> 'l runner \<Rightarrow>
     (go_error + leased_node option) \<times> 'l runner" where
  "try_acquire_from L cfg now [] s = (Inr None, s)"
| "try_acquire_from L cfg now (n # ns) s =
     (if nd_state n \<noteq> NodeReady then try_acquire_from L cfg now ns s
      else
        case lz_acquire L now (node_resource (nd_id n)) (rc_owner cfg) (rc_lease_ttl cfg) (ru_leases s) of
          (Inl e, l) \<Rightarrow> (Inl e, s\<lparr>ru_leases := l\<rparr>)
        | (Inr None, l) \<Rightarrow> try_acquire_from L cfg now ns (s\<lparr>ru_leases := l\<rparr>)
        | (Inr (Some acquired), l) \<Rightarrow>
            (Inr (Some \<lparr>ln_node = n, ln_token = lease_token acquired, ln_expires = lease_expires acquired\<rparr>),
             s\<lparr>ru_leases := l,
               ru_nodes := snd (registry_heartbeat now
                 (leased_beat (nd_id n) now (lease_expires acquired)) (ru_nodes s))\<rparr>))"

definition try_acquire_ready_node ::
  "'l leaser \<Rightarrow> runner_config \<Rightarrow> go_time \<Rightarrow> gostr list \<Rightarrow> 'l runner \<Rightarrow>
     (go_error + leased_node option) \<times> 'l runner" where
  "try_acquire_ready_node L cfg now ks s =
     try_acquire_from L cfg now (registry_list ks (ru_nodes s)) s"

text \<open>One poll: what others did before it, the time, and the order of the registry's map.\<close>

record 'l poll =
  po_env :: "'l runner \<Rightarrow> 'l runner"
  po_now :: go_time
  po_order :: "gostr list"

text \<open>The polls that happen before the wait ends, the first of them at once; \<open>werr\<close> is
  \<open>waitCtx.Err()\<close> when it ends without a node.\<close>

primrec acquire_node ::
  "'l leaser \<Rightarrow> runner_config \<Rightarrow> go_error \<Rightarrow> 'l poll list \<Rightarrow> 'l runner \<Rightarrow>
     (go_error + leased_node) \<times> 'l runner" where
  "acquire_node L cfg werr [] s = (Inl werr, s)"
| "acquire_node L cfg werr (p # ps) s =
     (case try_acquire_ready_node L cfg (po_now p) (po_order p) (po_env p s) of
        (Inl e, s1) \<Rightarrow> (Inl e, s1)
      | (Inr (Some n), s1) \<Rightarrow> (Inr n, s1)
      | (Inr None, s1) \<Rightarrow> acquire_node L cfg werr ps s1)"

definition release_node ::
  "'l leaser \<Rightarrow> runner_config \<Rightarrow> go_time \<Rightarrow> leased_node \<Rightarrow> 'l runner \<Rightarrow> 'l runner" where
  "release_node L cfg now ln s =
     s\<lparr>ru_leases := snd (lz_release L (node_resource (nd_id (ln_node ln))) (rc_owner cfg) (ln_token ln) (ru_leases s)),
       ru_nodes := snd (registry_heartbeat now (ready_beat (nd_id (ln_node ln)) now) (ru_nodes s))\<rparr>"

text \<open>The keepalive goroutine: one renewal per tick until the execution ends or the lease is
  found lost; \<open>True\<close> means that it called \<open>onLost\<close>, which cancels the execution.\<close>

definition keepalive_interval :: "duration \<Rightarrow> duration" where
  "keepalive_interval ttl =
     (let interval = ttl div 3;
          interval = (if interval < 500 * millisecond then 500 * millisecond else interval)
      in if interval > 10 * second then 10 * second else interval)"

primrec keepalive ::
  "'l leaser \<Rightarrow> runner_config \<Rightarrow> leased_node \<Rightarrow> (go_time \<times> ('l runner \<Rightarrow> 'l runner)) list \<Rightarrow>
     'l runner \<Rightarrow> bool \<times> 'l runner" where
  "keepalive L cfg ln [] s = (False, s)"
| "keepalive L cfg ln (tick # ticks) s =
     (let s1 = snd tick s in
      case lz_renew L (fst tick) (node_resource (nd_id (ln_node ln))) (rc_owner cfg) (ln_token ln)
             (rc_lease_ttl cfg) (ru_leases s1) of
        (Inl e, l) \<Rightarrow> keepalive L cfg ln ticks (s1\<lparr>ru_leases := l\<rparr>)
      | (Inr None, l) \<Rightarrow> (True, s1\<lparr>ru_leases := l\<rparr>)
      | (Inr (Some renewed), l) \<Rightarrow>
          keepalive L cfg ln ticks
            (s1\<lparr>ru_leases := l,
                ru_nodes := snd (registry_heartbeat (fst tick)
                  (leased_beat (nd_id (ln_node ln)) (fst tick) (lease_expires renewed)) (ru_nodes s1))\<rparr>))"

definition start_keepalive ::
  "'l leaser \<Rightarrow> runner_config \<Rightarrow> leased_node \<Rightarrow> (go_time \<times> ('l runner \<Rightarrow> 'l runner)) list \<Rightarrow>
     'l runner \<Rightarrow> bool \<times> 'l runner" where
  "start_keepalive L cfg ln ticks s =
     (if ln_token ln = 0 then (False, s) else keepalive L cfg ln ticks s)"

section \<open>Cancel functions\<close>

definition set_running_cancel :: "gostr \<Rightarrow> 'l runner \<Rightarrow> 'l runner" where
  "set_running_cancel tid s =
     (if blank tid then s
      else s\<lparr>ru_running := insert (trim_space tid) (ru_running s),
             ru_stopped := ru_stopped s - {trim_space tid}\<rparr>)"

definition clear_running_cancel :: "gostr \<Rightarrow> 'l runner \<Rightarrow> 'l runner" where
  "clear_running_cancel tid s =
     (if blank tid then s else s\<lparr>ru_running := ru_running s - {trim_space tid}\<rparr>)"

definition runner_cancel :: "gostr \<Rightarrow> 'l runner \<Rightarrow> bool \<times> 'l runner" where
  "runner_cancel tid s =
     (let i = trim_space tid in
      if i = [] then (False, s)
      else if i \<notin> ru_running s then (False, s)
      else (True, s\<lparr>ru_stopped := insert i (ru_stopped s)\<rparr>))"

section \<open>One attempt\<close>

text \<open>
  \<open>at_execute addr input stopped\<close> is what \<open>Execute\<close> returns when its context was canceled
  meanwhile (\<open>stopped\<close>, by the keepalive or by \<open>Cancel\<close>) or not. The readings of the clock
  are \<open>at_clock i\<close> with a number for each place in the code.
\<close>

record 'l attempt =
  at_clock :: "nat \<Rightarrow> go_time"
  at_polls :: "'l poll list"
  at_wait_error :: go_error
  at_ticks :: "(go_time \<times> ('l runner \<Rightarrow> 'l runner)) list"
  at_during :: "'l runner \<Rightarrow> 'l runner"
  at_execute :: "gostr \<Rightarrow> execute_input \<Rightarrow> bool \<Rightarrow> exec_failure + execute_output"

definition exec_input :: "task \<Rightarrow> execute_input" where
  "exec_input t = \<lparr>xi_task = tk_id t, xi_trace_id = trace_id_for (tk_id t), xi_url = tk_url t,
     xi_goal = tk_goal t, xi_actions = map_node_actions (tk_actions t)\<rparr>"

definition failure_of ::
  "runner_libs \<Rightarrow> task \<Rightarrow> bool \<Rightarrow> exec_failure \<Rightarrow> go_error \<times> failure_evidence" where
  "failure_of lib t lost f =
     (let f = (if lost then plain_failure (new_error ''lease ownership lost during execution'') else f)
      in (wrap_error ''node execution failed: '' (xf_error f),
          (case xf_output f of
             None \<Rightarrow> no_evidence
           | Some out \<Rightarrow>
               let (shot, url) = persist_screenshot (lb_save lib) (tk_id t) (xo_screenshot out)
               in \<lparr>fe_page_title = xo_page_title out, fe_final_url = xo_final_url out,
                   fe_screenshot = shot, fe_artifact_url = url,
                   fe_blocker_type = xo_blocker_type out, fe_blocker_message = xo_blocker_message out,
                   fe_trace = map_task_trace (lb_save lib) (tk_id t) (xo_trace out)\<rparr>)))"

text \<open>What happens with the answer of \<open>Execute\<close>: the failure path, a blocker reported with a
  success, and the completion.\<close>

definition record_outcome ::
  "runner_config \<Rightarrow> runner_libs \<Rightarrow> go_time \<Rightarrow> task \<Rightarrow> gostr \<Rightarrow> bool \<Rightarrow>
     exec_failure + execute_output \<Rightarrow> 'l runner \<Rightarrow> 'l runner" where
  "record_outcome cfg lib now t nid lost res s =
     (case res of
        Inl f \<Rightarrow>
          let (e, ev) = failure_of lib t lost f in handle_failure_with_evidence cfg lib now t nid e ev s
      | Inr out \<Rightarrow>
          let (shot, url) = persist_screenshot (lb_save lib) (tk_id t) (xo_screenshot out);
              trace = map_task_trace (lb_save lib) (tk_id t) (xo_trace out)
          in if xo_blocker_type out \<noteq> []
             then
               let msg = blocker_message_or (xo_blocker_message out);
                   s1 = s\<lparr>ru_blocked := mark_domain_blocked (lb_hostname lib) (rc_cooldown cfg)
                        (first_non_empty [xo_final_url out, tk_url t]) (xo_blocker_type out) now (ru_blocked s)\<rparr>
               in fail_task_with_evidence now (tk_id t) nid (blocked_error (xo_blocker_type out) msg)
                    \<lparr>fe_page_title = xo_page_title out, fe_final_url = xo_final_url out,
                     fe_screenshot = shot, fe_artifact_url = url,
                     fe_blocker_type = xo_blocker_type out, fe_blocker_message = msg,
                     fe_trace = trace\<rparr> s1
             else
               case task_complete now
                   \<lparr>co_task = tk_id t, co_node = nid, co_completed = now,
                    co_page_title = xo_page_title out, co_final_url = xo_final_url out,
                    co_screenshot = shot, co_artifact_url = url, co_trace = trace\<rparr> (ru_tasks s) of
                 (Inr _, ts) \<Rightarrow> s\<lparr>ru_tasks := ts\<rparr>
               | (Inl TaskNotCancelable, ts) \<Rightarrow> s\<lparr>ru_tasks := ts\<rparr>
               | (Inl x, ts) \<Rightarrow>
                   fail_plain now (tk_id t) nid
                     (new_error (''failed to complete task: '' @ task_error_text x)) (s\<lparr>ru_tasks := ts\<rparr>))"

definition execute_on ::
  "'l leaser \<Rightarrow> runner_config \<Rightarrow> runner_libs \<Rightarrow> 'l attempt \<Rightarrow> task \<Rightarrow> leased_node \<Rightarrow>
     'l runner \<Rightarrow> 'l runner" where
  "execute_on L cfg lib at t ln s =
     (let s1 = set_running_cancel (tk_id t) s;
          (lost, s2) = start_keepalive L cfg ln (at_ticks at) s1;
          s3 = at_during at s2;
          stopped = lost \<or> trim_space (tk_id t) \<in> ru_stopped s3;
          res = at_execute at (nd_address (ln_node ln)) (exec_input t) stopped;
          s4 = record_outcome cfg lib (at_clock at 3) t (nd_id (ln_node ln)) lost res s3
      in release_node L cfg (at_clock at 4) ln (clear_running_cancel (tk_id t) s4))"

definition cooldown_error :: "runner_libs \<Rightarrow> gostr \<Rightarrow> go_time \<Rightarrow> go_error" where
  "cooldown_error lib host til = new_error (''blocked (domain_cooldown): domain '' @ host @
     '' is in cooldown until '' @ lb_format_time lib til)"

definition cooldown_evidence :: "task \<Rightarrow> failure_evidence" where
  "cooldown_evidence t = no_evidence\<lparr>fe_final_url := tk_url t, fe_blocker_type := ''domain_cooldown'',
     fe_blocker_message := ''domain blocked after recent challenge; retry after cooldown''\<rparr>"

definition process_task ::
  "'l leaser \<Rightarrow> runner_config \<Rightarrow> runner_libs \<Rightarrow> 'l attempt \<Rightarrow> gostr \<Rightarrow> 'l runner \<Rightarrow> 'l runner" where
  "process_task L cfg lib at tid s =
     (case task_get tid (ru_tasks s) of
        Inl _ \<Rightarrow> s
      | Inr t0 \<Rightarrow>
          if tk_status t0 \<noteq> Queued then s
          else
            case task_start (at_clock at 0)
                \<lparr>si_task = tk_id t0, si_node = [], si_started = at_clock at 0\<rparr> (ru_tasks s) of
              (Inl TaskNotQueued, ts) \<Rightarrow> s\<lparr>ru_tasks := ts\<rparr>
            | (Inl x, ts) \<Rightarrow>
                fail_plain (at_clock at 0) (tk_id t0) []
                  (new_error (''failed to start task: '' @ task_error_text x)) (s\<lparr>ru_tasks := ts\<rparr>)
            | (Inr t, ts) \<Rightarrow>
                let s1 = s\<lparr>ru_tasks := ts\<rparr>;
                    (hit, blocked) = is_domain_blocked (lb_hostname lib) (tk_url t) (at_clock at 1) (ru_blocked s1);
                    s2 = s1\<lparr>ru_blocked := blocked\<rparr>
                in case hit of
                     Some (host, til) \<Rightarrow>
                       fail_task_with_evidence (at_clock at 2) (tk_id t) [] (cooldown_error lib host til)
                         (cooldown_evidence t) s2
                   | None \<Rightarrow>
                       (case acquire_node L cfg (at_wait_error at) (at_polls at) s2 of
                          (Inl e, s3) \<Rightarrow>
                            handle_failure_with_evidence cfg lib (at_clock at 3) t []
                              (wrap_error ''no node available: '' e) no_evidence s3
                        | (Inr ln, s3) \<Rightarrow> execute_on L cfg lib at t ln s3))"

end
