(* ===== verification/Attempts.thy ===== *)
theory Attempts
  imports Worker
begin

text \<open>
  What holds of every attempt of a worker (theory Worker): the task is never left running, the
  number of attempts is bounded, a node is given back, a canceled task stays canceled, a domain
  in cooldown is left alone. The lemmas about leases are proved from the contract
  \<open>lease_manager\<close>; the properties instantiate them with the in-memory manager.
\<close>

section \<open>What others may do meanwhile\<close>

abbreviation stored :: "'l runner \<Rightarrow> gostr \<Rightarrow> task option" where
  "stored s \<equiv> ts_items (ru_tasks s)"

definition attempts_ok :: "task_state \<Rightarrow> bool" where
  "attempts_ok ts \<longleftrightarrow> (\<forall>tid t. ts_items ts tid = Some t \<longrightarrow>
     tk_attempt t \<le> tk_max_retries t + 1 \<and> (tk_status t = Queued \<longrightarrow> tk_attempt t \<le> tk_max_retries t))"

text \<open>\<open>carries tid t s\<close>: the task is still there with the request and the attempt of \<open>t\<close>, and no
  task has had too many attempts. What others do is \<open>calm\<close> when it keeps that; canceling this
  task is calm, and so is any operation on another task that keeps the bound.\<close>

definition carries :: "gostr \<Rightarrow> task \<Rightarrow> 'l runner \<Rightarrow> bool" where
  "carries tid t s \<longleftrightarrow> attempts_ok (ru_tasks s) \<and>
     (\<exists>u. stored s tid = Some u \<and> tk_id u = tid \<and> tk_attempt u = tk_attempt t \<and> tk_max_retries u = tk_max_retries t)"

definition calm :: "gostr \<Rightarrow> ('l runner \<Rightarrow> 'l runner) \<Rightarrow> bool" where
  "calm tid f \<longleftrightarrow> (\<forall>t s. carries tid t s \<longrightarrow> carries tid t (f s))"

definition calm_attempt :: "gostr \<Rightarrow> 'l attempt \<Rightarrow> bool" where
  "calm_attempt tid at \<longleftrightarrow> (\<forall>p\<in>set (at_polls at). calm tid (po_env p))
     \<and> (\<forall>x\<in>set (at_ticks at). calm tid (snd x)) \<and> calm tid (at_during at)"

definition settled :: "gostr \<Rightarrow> task \<Rightarrow> 'l runner \<Rightarrow> bool" where
  "settled tid t s \<longleftrightarrow> attempts_ok (ru_tasks s) \<and> (\<exists>u. stored s tid = Some u \<and> tk_id u = tid
     \<and> tk_attempt u = tk_attempt t \<and> tk_max_retries u = tk_max_retries t \<and>
     (tk_status u \<in> {Completed, Failed, Canceled}
      \<or> tk_status u = Queued \<and> tk_next_retry u \<noteq> None \<and> tid \<in> fst ` set (ru_delayed s)))"

lemma attempts_ok_update:
  "attempts_ok ts \<Longrightarrow> tk_attempt u \<le> tk_max_retries u + 1 \<Longrightarrow>
   (tk_status u = Queued \<Longrightarrow> tk_attempt u \<le> tk_max_retries u) \<Longrightarrow>
   attempts_ok (ts\<lparr>ts_items := (ts_items ts)(tid \<mapsto> u)\<rparr>)"
  by (simp add: attempts_ok_def)

lemma carriesE:
  assumes "carries tid t s"
  obtains u where "stored s tid = Some u" "tk_attempt u = tk_attempt t" "tk_max_retries u = tk_max_retries t"
    "tk_attempt t \<le> tk_max_retries t + 1" "attempts_ok (ru_tasks s)" "tk_id u = tid"
proof -
  from assms obtain u where "stored s tid = Some u" "tk_attempt u = tk_attempt t"
    "tk_max_retries u = tk_max_retries t" "attempts_ok (ru_tasks s)" "tk_id u = tid" by (auto simp: carries_def)
  moreover from this have "tk_attempt t \<le> tk_max_retries t + 1"
    unfolding attempts_ok_def by metis
  ultimately show thesis using that by blast
qed

lemma calm_cancel:
  "calm tid (\<lambda>s. s\<lparr>ru_tasks := snd (task_cancel now ca (ru_tasks s))\<rparr>)"
  unfolding calm_def
proof (intro allI impI)
  fix t and s :: "'a runner"
  assume c: "carries tid t s"
  then have ok: "attempts_ok (ru_tasks s)" by (simp add: carries_def)
  show "carries tid t (s\<lparr>ru_tasks := snd (task_cancel now ca (ru_tasks s))\<rparr>)"
  proof (cases "stored s (ca_task ca)")
    case None
    with c show ?thesis by (simp add: task_cancel_def task_update_def)
  next
    case (Some v)
    then have "tk_attempt v \<le> tk_max_retries v + 1" using ok by (simp add: attempts_ok_def)
    then have "attempts_ok ((ru_tasks s)\<lparr>ts_items := (stored s)(ca_task ca \<mapsto> cancel_task now ca v)\<rparr>)"
      by (intro attempts_ok_update [OF ok]) (simp_all add: cancel_task_def)
    with Some c show ?thesis
      by (auto simp: carries_def task_cancel_def task_update_def unless_status_def cancel_task_def)
  qed
qed

lemma calm_id: "calm tid (\<lambda>s. s)"
  by (simp add: calm_def)

section \<open>The steps of an attempt\<close>

lemma carries_cong: "ru_tasks s' = ru_tasks s \<Longrightarrow> carries tid t s' = carries tid t s"
  by (simp add: carries_def)

lemma settled_cong: "ru_tasks s' = ru_tasks s \<Longrightarrow> ru_delayed s' = ru_delayed s \<Longrightarrow> settled tid t s' = settled tid t s"
  by (simp add: settled_def)

lemma try_acquire_tasks [simp]: "ru_tasks (snd (try_acquire_from L cfg now ns s)) = ru_tasks s"
proof (induction ns arbitrary: s)
  case (Cons n ns)
  then show ?case by (auto split: sum.split option.split prod.split)
qed simp

lemma acquire_node_carries:
  "carries tid t s \<Longrightarrow> \<forall>p\<in>set ps. calm tid (po_env p) \<Longrightarrow> carries tid t (snd (acquire_node L cfg werr ps s))"
proof (induction ps arbitrary: s)
  case (Cons p ps)
  obtain r s1 where q: "try_acquire_ready_node L cfg (po_now p) (po_order p) (po_env p s) = (r, s1)"
    by (cases "try_acquire_ready_node L cfg (po_now p) (po_order p) (po_env p s)")
  then have "ru_tasks s1 = ru_tasks (po_env p s)"
    by (metis snd_conv try_acquire_ready_node_def try_acquire_tasks)
  moreover have "carries tid t (po_env p s)" using Cons.prems by (simp add: calm_def)
  ultimately have s1: "carries tid t s1" using carries_cong by blast
  show ?case
  proof (cases r)
    case (Inl e)
    with q s1 show ?thesis by simp
  next
    case (Inr x)
    with q s1 Cons show ?thesis by (cases x) simp_all
  qed
qed simp

lemma keepalive_carries:
  "carries tid t s \<Longrightarrow> \<forall>x\<in>set ticks. calm tid (snd x) \<Longrightarrow> carries tid t (snd (keepalive L cfg ln ticks s))"
proof (induction ticks arbitrary: s)
  case (Cons x ticks)
  then have c: "carries tid t (snd x s)" by (simp add: calm_def)
  obtain r l where q: "lz_renew L (fst x) (node_resource (nd_id (ln_node ln))) (rc_owner cfg) (ln_token ln)
      (rc_lease_ttl cfg) (ru_leases (snd x s)) = (r, l)" by (rule prod.exhaust)
  have u: "carries tid t (snd x s\<lparr>ru_leases := l\<rparr>)"
    "carries tid t (snd x s\<lparr>ru_leases := l, ru_nodes := ns\<rparr>)" for ns
    using c by (simp_all add: carries_def)
  show ?case
  proof (cases r)
    case (Inl e)
    with q u Cons show ?thesis by simp
  next
    case (Inr y)
    with q u Cons show ?thesis by (cases y) (simp_all add: Let_def)
  qed
qed simp

lemma fail_settles:
  assumes "carries tid t s"
  shows "settled tid t (fail_task_with_evidence now tid nid e ev s)"
  using assms
proof (rule carriesE)
  fix u assume u: "stored s tid = Some u" "tk_attempt u = tk_attempt t" "tk_max_retries u = tk_max_retries t"
    "tk_attempt t \<le> tk_max_retries t + 1" "attempts_ok (ru_tasks s)" "tk_id u = tid"
  show ?thesis
  proof (cases "tk_status u = Canceled")
    case True
    with u show ?thesis
      by (auto simp: settled_def fail_task_with_evidence_def task_fail_def task_update_def unless_status_def)
  next
    case False
    have "attempts_ok ((ru_tasks s)\<lparr>ts_items := (stored s)(tid \<mapsto> fail_task now fi u)\<rparr>)" for fi
      using u by (intro attempts_ok_update) (simp_all add: fail_task_def)
    with False u show ?thesis
      by (simp add: settled_def fail_task_with_evidence_def task_fail_def task_update_def unless_status_def)
         (simp add: fail_task_def)
  qed
qed

lemma carries_blocked [simp]: "carries tid t (s\<lparr>ru_blocked := b\<rparr>) = carries tid t s"
  by (simp add: carries_def)

lemma retry_settles:
  assumes "carries tid t s" "tk_attempt t \<le> tk_max_retries t" "ri_task ri = tid"
  shows "case task_retry now ri (ru_tasks s) of
      (Inl x, ts) \<Rightarrow> carries tid t (s\<lparr>ru_tasks := ts\<rparr>)
    | (Inr _, ts) \<Rightarrow> settled tid t (s\<lparr>ru_tasks := ts, ru_delayed := ru_delayed s @ [(tid, d)]\<rparr>)"
  using assms(1)
proof (rule carriesE)
  fix u assume u: "stored s tid = Some u" "tk_attempt u = tk_attempt t" "tk_max_retries u = tk_max_retries t"
    "tk_attempt t \<le> tk_max_retries t + 1" "attempts_ok (ru_tasks s)" "tk_id u = tid"
  have "attempts_ok ((ru_tasks s)\<lparr>ts_items := (stored s)(tid \<mapsto> retry_task now ri u)\<rparr>)"
    using u assms(2) by (intro attempts_ok_update) (simp_all add: retry_task_def)
  with u assms show ?thesis
    by (cases "tk_status u = Canceled")
       (simp_all add: settled_def task_retry_def task_update_def unless_status_def retry_task_def)
qed

lemma handle_failure_settles:
  assumes "carries (tk_id t) t s"
  shows "settled (tk_id t) t (handle_failure_with_evidence cfg lib now t nid e ev s)"
proof (cases "\<not> blank (fe_blocker_type ev)")
  case True
  with assms show ?thesis by (simp add: handle_failure_with_evidence_def fail_settles Let_def)
next
  case False
  show ?thesis
  proof (cases "should_retry t e")
    case True
    let ?ri = "\<lparr>ri_task = tk_id t, ri_retry_at = now + retry_delay cfg (tk_attempt t), ri_last_error = err_text e\<rparr>"
    obtain r ts where q: "task_retry now ?ri (ru_tasks s) = (r, ts)" by (rule prod.exhaust)
    have "tk_attempt t \<le> tk_max_retries t" using True by (simp add: should_retry_def split: if_splits)
    from retry_settles [OF assms this, where ri = ?ri and now = now and d = "retry_delay cfg (tk_attempt t)"] False True q show ?thesis
      by (cases r) (simp_all add: handle_failure_with_evidence_def fail_plain_def fail_settles Let_def)
  next
    case f: False
    with False assms show ?thesis by (simp add: handle_failure_with_evidence_def fail_settles)
  qed
qed

lemma complete_settles:
  assumes "carries tid t s" "co_task co = tid"
  shows "case task_complete now co (ru_tasks s) of
      (Inr _, ts) \<Rightarrow> settled tid t (s\<lparr>ru_tasks := ts\<rparr>)
    | (Inl TaskNotCancelable, ts) \<Rightarrow> settled tid t (s\<lparr>ru_tasks := ts\<rparr>)
    | (Inl x, ts) \<Rightarrow> carries tid t (s\<lparr>ru_tasks := ts\<rparr>)"
  using assms(1)
proof (rule carriesE)
  fix u assume u: "stored s tid = Some u" "tk_attempt u = tk_attempt t" "tk_max_retries u = tk_max_retries t"
    "tk_attempt t \<le> tk_max_retries t + 1" "attempts_ok (ru_tasks s)" "tk_id u = tid"
  have "attempts_ok ((ru_tasks s)\<lparr>ts_items := (stored s)(tid \<mapsto> complete_task now co u)\<rparr>)"
    using u by (intro attempts_ok_update) (simp_all add: complete_task_def)
  with u assms show ?thesis
    by (cases "tk_status u = Canceled")
       (simp_all add: settled_def task_complete_def task_update_def unless_status_def complete_task_def)
qed

lemma record_outcome_settles:
  assumes "carries (tk_id t) t s"
  shows "settled (tk_id t) t (record_outcome cfg lib now t nid lost res s)"
proof (cases res)
  case (Inl f)
  with assms show ?thesis
    by (simp add: record_outcome_def handle_failure_settles split: prod.split)
next
  case (Inr out)
  obtain shot url where p: "persist_screenshot (lb_save lib) (tk_id t) (xo_screenshot out) = (shot, url)"
    by (rule prod.exhaust)
  show ?thesis
  proof (cases "xo_blocker_type out = []")
    case False
    with Inr assms p show ?thesis by (simp add: record_outcome_def fail_settles Let_def)
  next
    case True
    let ?co = "\<lparr>co_task = tk_id t, co_node = nid, co_completed = now,
      co_page_title = xo_page_title out, co_final_url = xo_final_url out,
      co_screenshot = shot, co_artifact_url = url,
      co_trace = map_task_trace (lb_save lib) (tk_id t) (xo_trace out)\<rparr>"
    obtain r ts where q: "task_complete now ?co (ru_tasks s) = (r, ts)" by (rule prod.exhaust)
    from complete_settles [OF assms, of ?co now] True Inr p q show ?thesis
      by (auto simp: record_outcome_def fail_plain_def fail_settles Let_def
          split: sum.splits task_error.splits)
  qed
qed

lemma release_settled [simp]:
  "settled tid t (release_node L cfg now ln s) = settled tid t s"
  by (rule settled_cong) (simp_all add: release_node_def)

lemma clear_settled [simp]: "settled tid t (clear_running_cancel tid' s) = settled tid t s"
  by (rule settled_cong) (simp_all add: clear_running_cancel_def)

lemma execute_on_settles:
  assumes "carries (tk_id t) t s" "calm_attempt (tk_id t) at"
  shows "settled (tk_id t) t (execute_on L cfg lib at t ln s)"
proof -
  let ?s1 = "set_running_cancel (tk_id t) s"
  have "carries (tk_id t) t ?s1" using assms(1) by (simp add: carries_def set_running_cancel_def)
  then have "carries (tk_id t) t (snd (start_keepalive L cfg ln (at_ticks at) ?s1))"
    using assms(2) by (simp add: start_keepalive_def keepalive_carries calm_attempt_def)
  then have "carries (tk_id t) t (at_during at (snd (start_keepalive L cfg ln (at_ticks at) ?s1)))"
    using assms(2) by (simp add: calm_attempt_def calm_def)
  moreover obtain lost s2 where "start_keepalive L cfg ln (at_ticks at) ?s1 = (lost, s2)"
    by (rule prod.exhaust)
  ultimately show ?thesis
    by (simp add: execute_on_def Let_def record_outcome_settles)
qed

text \<open>The start of an attempt: the started task is the stored one, running, one attempt on.\<close>

lemma start_carries:
  assumes "stored s tid = Some t0" "tk_status t0 = Queued" "tk_id t0 = tid" "attempts_ok (ru_tasks s)"
    and "t = start_task now \<lparr>si_task = tid, si_node = [], si_started = now\<rparr> t0"
  shows "task_start now \<lparr>si_task = tid, si_node = [], si_started = now\<rparr> (ru_tasks s)
      = (Inr t, (ru_tasks s)\<lparr>ts_items := (stored s)(tid \<mapsto> t)\<rparr>)"
    and "carries tid t (s\<lparr>ru_tasks := (ru_tasks s)\<lparr>ts_items := (stored s)(tid \<mapsto> t)\<rparr>\<rparr>)"
    and "tk_id t = tid" "tk_url t = tk_url t0"
  using assms
  by (auto simp: task_start_def task_update_def unless_status_def carries_def attempts_ok_def start_task_def)

text \<open>An attempt on a queued task, unfolded.\<close>

lemma process_task_queued:
  assumes "stored s tid = Some t0" "tk_status t0 = Queued" "tk_id t0 = tid" "attempts_ok (ru_tasks s)"
    and "t = start_task (at_clock at 0) \<lparr>si_task = tid, si_node = [], si_started = at_clock at 0\<rparr> t0"
    and "s1 = s\<lparr>ru_tasks := (ru_tasks s)\<lparr>ts_items := (stored s)(tid \<mapsto> t)\<rparr>\<rparr>"
    and "is_domain_blocked (lb_hostname lib) (tk_url t0) (at_clock at 1) (ru_blocked s) = (hit, b)"
  shows "process_task L cfg lib at tid s =
    (case hit of
       Some (host, til) \<Rightarrow>
         fail_task_with_evidence (at_clock at 2) tid [] (cooldown_error lib host til)
           (cooldown_evidence t) (s1\<lparr>ru_blocked := b\<rparr>)
     | None \<Rightarrow>
         (case acquire_node L cfg (at_wait_error at) (at_polls at) (s1\<lparr>ru_blocked := b\<rparr>) of
            (Inl e, s3) \<Rightarrow> handle_failure_with_evidence cfg lib (at_clock at 3) t []
                (wrap_error ''no node available: '' e) no_evidence s3
          | (Inr ln, s3) \<Rightarrow> execute_on L cfg lib at t ln s3))"
  using assms(1,2,3,6,7) start_carries [OF assms(1-5)]
  by (simp add: process_task_def task_get_def Let_def split: option.split)

lemma process_task_settles:
  assumes "stored s tid = Some t0" "tk_status t0 = Queued" "tk_id t0 = tid" "attempts_ok (ru_tasks s)"
    and "calm_attempt tid at"
  shows "settled tid (t0\<lparr>tk_attempt := tk_attempt t0 + 1\<rparr>) (process_task L cfg lib at tid s)"
proof -
  define t where "t = start_task (at_clock at 0) \<lparr>si_task = tid, si_node = [], si_started = at_clock at 0\<rparr> t0"
  define s1 where "s1 = s\<lparr>ru_tasks := (ru_tasks s)\<lparr>ts_items := (stored s)(tid \<mapsto> t)\<rparr>\<rparr>"
  obtain hit b where q: "is_domain_blocked (lb_hostname lib) (tk_url t0) (at_clock at 1) (ru_blocked s) = (hit, b)"
    by (rule prod.exhaust)
  note st = start_carries [OF assms(1-4) t_def]
  have c: "carries tid t (s1\<lparr>ru_blocked := b\<rparr>)" using st(2) by (simp add: s1_def)
  note p = process_task_queued [OF assms(1-4) t_def s1_def q, of L cfg]
  have "settled tid t (process_task L cfg lib at tid s)"
  proof (cases hit)
    case (Some x)
    with c p show ?thesis by (cases x) (simp add: fail_settles)
  next
    case None
    obtain r s3 where a: "acquire_node L cfg (at_wait_error at) (at_polls at) (s1\<lparr>ru_blocked := b\<rparr>) = (r, s3)"
      by (rule prod.exhaust)
    then have c3: "carries (tk_id t) t s3"
      using acquire_node_carries [OF c, of "at_polls at" L cfg "at_wait_error at"] assms(5) st(3)
      by (simp add: calm_attempt_def)
    show ?thesis
    proof (cases r)
      case (Inl e)
      with None a p handle_failure_settles [OF c3] st(3) show ?thesis by simp
    next
      case (Inr ln)
      with None a p execute_on_settles [OF c3] assms(5) st(3) show ?thesis by simp
    qed
  qed
  moreover have "tk_attempt t = tk_attempt t0 + 1" "tk_max_retries t = tk_max_retries t0"
    by (simp_all add: t_def start_task_def)
  ultimately show ?thesis by (simp add: settled_def)
qed

section \<open>Leases\<close>

context lease_safety
begin

text \<open>A node that is handed out was ready and not held by anyone, and is held now.\<close>

lemma try_acquire_grants:
  assumes "lz_acquire L = acquire" "try_acquire_from L cfg now ns s = (Inr (Some ln), s')"
  shows "ln_node ln \<in> set ns \<and> nd_state (ln_node ln) = NodeReady
    \<and> entry (ru_leases s') (trim_space (node_resource (nd_id (ln_node ln)))) =
        Some (trim_space (rc_owner cfg), ln_token ln, until now (rc_lease_ttl cfg))
    \<and> (\<forall>ow k e. entry (ru_leases s) (trim_space (node_resource (nd_id (ln_node ln)))) = Some (ow, k, e) \<longrightarrow> e \<le> now)"
  using assms(2)
proof (induction ns arbitrary: s)
  case Nil
  then show ?case by simp
next
  case (Cons n ns)
  show ?case
  proof (cases "nd_state n = NodeReady")
    case False
    with Cons show ?thesis by simp
  next
    case True
    obtain r l where q: "acquire now (node_resource (nd_id n)) (rc_owner cfg) (rc_lease_ttl cfg) (ru_leases s) = (r, l)"
      by (rule prod.exhaust)
    show ?thesis
    proof (cases r)
      case (Inl e)
      with True q Cons.prems assms(1) show ?thesis by simp
    next
      case (Inr x)
      show ?thesis
      proof (cases x)
        case None
        with Inr q have "entry l = entry (ru_leases s)" using acquire_refused by simp
        moreover have "try_acquire_from L cfg now ns (s\<lparr>ru_leases := l\<rparr>) = (Inr (Some ln), s')"
          using Cons.prems True q Inr None assms(1) by simp
        ultimately show ?thesis using Cons.IH [of "s\<lparr>ru_leases := l\<rparr>"] by simp
      next
        case (Some a)
        with Inr q have "acquire now (node_resource (nd_id n)) (rc_owner cfg) (rc_lease_ttl cfg) (ru_leases s) = (Inr (Some a), l)"
          by simp
        from acquire_granted [OF this] Cons.prems True q Inr Some assms(1) show ?thesis by auto
      qed
    qed
  qed
qed

text \<open>A node whose lease is held and has not expired is not handed out.\<close>

lemma try_acquire_not_held:
  assumes "lz_acquire L = acquire" "try_acquire_from L cfg now ns s = (Inr (Some ln), s')"
    and "entry (ru_leases s) (trim_space (node_resource nid)) = Some (ow, k, e)" "now < e"
  shows "trim_space (nd_id (ln_node ln)) \<noteq> trim_space nid"
proof
  assume "trim_space (nd_id (ln_node ln)) = trim_space nid"
  then have "node_resource (nd_id (ln_node ln)) = node_resource nid" by (simp add: node_resource_def)
  with try_acquire_grants [OF assms(1,2)] assms(3,4) show False by auto
qed

end

context lease_manager
begin

lemma release_node_frees:
  assumes "lz_release L = release" "ln_token ln \<noteq> 0" "\<not> blank (node_resource (nd_id (ln_node ln)))"
    "\<not> blank (rc_owner cfg)"
  shows "entry (ru_leases (release_node L cfg now ln s)) (trim_space (node_resource (nd_id (ln_node ln))))
    \<noteq> Some (trim_space (rc_owner cfg), ln_token ln, e)"
proof -
  let ?r = "node_resource (nd_id (ln_node ln))"
  obtain q l where q: "release ?r (rc_owner cfg) (ln_token ln) (ru_leases s) = (q, l)" by (rule prod.exhaust)
  have l: "ru_leases (release_node L cfg now ln s) = l" using q assms(1) by (simp add: release_node_def)
  show ?thesis
  proof (cases "\<exists>e. entry (ru_leases s) (trim_space ?r) = Some (trim_space (rc_owner cfg), ln_token ln, e)")
    case True
    with release_frees [of "ru_leases s" ?r "rc_owner cfg" "ln_token ln"] assms(2-4) q l show ?thesis by auto
  next
    case False
    with release_entry [OF q] l show ?thesis by auto
  qed
qed

end

lemma node_resource_not_blank: "\<not> blank (node_resource nid)"
proof
  have l: "trim_left (node_resource nid) = node_resource nid"
    unfolding trim_left_def
  proof (rule trim_by_id)
    have "\<not> has_prefix (node_resource nid) e" if "e \<in> set space_encodings" for e
      using space_encodings_hd [OF that]
      by (cases e) (auto simp: node_resource_def has_prefix_iff plain_char_def)
    then show "no_lead space_encodings (node_resource nid)" by (simp add: no_lead_def)
  qed
  assume "blank (node_resource nid)"
  then have b: "trim_by (map rev space_encodings) (rev (node_resource nid)) = []"
    by (simp add: trim_space_def trim_right_def l)
  have "CHR ''n'' \<in> set (trim_by (map rev space_encodings) x)" if "CHR ''n'' \<in> set x" for x
    using that
  proof (induction "map rev space_encodings" x rule: trim_by.induct)
    case (1 s)
    show ?case
    proof (cases "find (\<lambda>e. e \<noteq> [] \<and> has_prefix s e) (map rev space_encodings)")
      case None
      with 1(2) show ?thesis by (subst trim_by.simps) simp
    next
      case (Some e)
      then have e: "e \<in> set (map rev space_encodings)" "has_prefix s e" by (auto simp: find_Some_iff)
      then obtain t where t: "s = e @ t" by (auto simp: has_prefix_iff)
      have "CHR ''n'' \<notin> set e" using e(1) by (auto simp: space_encodings_def)
      with 1(2) t have "CHR ''n'' \<in> set (drop (length e) s)" by simp
      with 1(1) [OF Some] show ?thesis using Some by (subst trim_by.simps) simp
    qed
  qed
  from this [of "rev (node_resource nid)"] b show False by (simp add: node_resource_def)
qed

definition mem_leaser :: "lease_state leaser" where
  "mem_leaser = \<lparr>lz_acquire = lease_acquire, lz_renew = lease_renew, lz_release = lease_release\<rparr>"

lemma mem_leaser_fields [simp]:
  "lz_acquire mem_leaser = lease_acquire" "lz_renew mem_leaser = lease_renew"
  "lz_release mem_leaser = lease_release"
  by (simp_all add: mem_leaser_def)


section \<open>A canceled task\<close>

lemma fail_canceled:
  assumes "stored s tid = Some u" "tk_status u = Canceled"
  shows "ru_tasks (fail_task_with_evidence now tid nid e ev s) = ru_tasks s"
  using assms by (simp add: fail_task_with_evidence_def task_fail_def task_update_def unless_status_def)

lemma record_outcome_canceled:
  assumes "stored s (tk_id t) = Some u" "tk_status u = Canceled"
  shows "ru_tasks (record_outcome cfg lib now t nid lost res s) = ru_tasks s"
proof -
  have f: "ru_tasks (fail_task_with_evidence now (tk_id t) nid e ev (s\<lparr>ru_blocked := b\<rparr>)) = ru_tasks s" for e ev b
    using fail_canceled [of "s\<lparr>ru_blocked := b\<rparr>" "tk_id t" u] assms by simp
  have c: "task_complete now co (ru_tasks s) = (Inl TaskNotCancelable, ru_tasks s)" if "co_task co = tk_id t" for co
    using assms that by (simp add: task_complete_def task_update_def unless_status_def)
  have r: "task_retry now ri (ru_tasks s) = (Inl TaskNotCancelable, ru_tasks s)" if "ri_task ri = tk_id t" for ri
    using assms that by (simp add: task_retry_def task_update_def unless_status_def)
  note f' = fail_canceled [OF assms]
  show ?thesis
    by (cases res)
       (simp_all add: record_outcome_def handle_failure_with_evidence_def fail_plain_def Let_def f f' c r
         split: prod.split)
qed

section \<open>Properties\<close>

definition demo_runner_config :: runner_config where
  "demo_runner_config = \<lparr>rc_queue_size = 8, rc_workers = 1, rc_node_wait = 30 * second,
     rc_poll = 250 * millisecond, rc_retry_base = second, rc_retry_max = 20 * second,
     rc_cooldown = 180 * second, rc_lease_ttl = 90 * second, rc_owner = ''r1''\<rparr>"

definition demo_lib :: runner_libs where
  "demo_lib = \<lparr>lb_hostname = (\<lambda>u. Some ''a''), lb_format_time = (\<lambda>t. fmt_d t), lb_save = None\<rparr>"

definition demo_runner :: "lease_state runner" where
  "demo_runner = \<lparr>ru_tasks = demo_tasks, ru_nodes = [''n1'' \<mapsto> demo_node ''n1'' 5 NodeReady],
     ru_leases = new_lease_manager, ru_queue = [], ru_enqueued = {}, ru_running = {}, ru_stopped = {},
     ru_blocked = Map.empty, ru_delayed = []\<rparr>"

definition demo_cancel :: cancel_input where
  "demo_cancel = \<lparr>ca_task = ''task_000001'', ca_reason = [], ca_completed = 9, ca_by = ''api''\<rparr>"

text \<open>An attempt that gets the node at its first poll; meanwhile the task is canceled; then
  \<open>Execute\<close> succeeds.\<close>

definition demo_attempt :: "lease_state attempt" where
  "demo_attempt = \<lparr>at_clock = (\<lambda>i. 8 + int i),
     at_polls = [\<lparr>po_env = (\<lambda>s. s), po_now = 9, po_order = [''n1'']\<rparr>],
     at_wait_error = ctx_deadline_exceeded, at_ticks = [],
     at_during = (\<lambda>s. s\<lparr>ru_tasks := snd (task_cancel 9 demo_cancel (ru_tasks s))\<rparr>),
     at_execute = (\<lambda>_ _ _. Inr empty_output)\<rparr>"

lemma demo_attempt_calm: "calm_attempt tid demo_attempt"
  using calm_cancel [where ca = demo_cancel] by (simp add: calm_attempt_def demo_attempt_def calm_id)

lemma demo_runner_task:
  "stored demo_runner ''task_000001'' = Some demo_task" "tk_status demo_task = Queued"
  "tk_id demo_task = ''task_000001''" "attempts_ok (ru_tasks demo_runner)"
  by (simp_all add: demo_runner_def demo_tasks_def demo_task_def attempts_ok_def)

text \<open>The attempts on a task one after the other, and what others do before each. Others are \<open>patient\<close> when
  they leave the attempts to the workers of this task: they may cancel it, but neither start it nor bring
  a finished one back.\<close>

primrec run_attempts ::
  "'l leaser \<Rightarrow> runner_config \<Rightarrow> runner_libs \<Rightarrow> gostr \<Rightarrow> (('l runner \<Rightarrow> 'l runner) \<times> 'l attempt) list \<Rightarrow> 'l runner \<Rightarrow> 'l runner" where
  "run_attempts L cfg lib tid [] s = s"
| "run_attempts L cfg lib tid (x # xs) s = run_attempts L cfg lib tid xs (process_task L cfg lib (snd x) tid (fst x s))"

abbreviation final :: "task_status \<Rightarrow> bool" where
  "final q \<equiv> q \<in> {Completed, Failed, Canceled}"

definition patient :: "gostr \<Rightarrow> ('l runner \<Rightarrow> 'l runner) \<Rightarrow> bool" where
  "patient tid f \<longleftrightarrow> calm tid f \<and> (\<forall>s u v. stored s tid = Some u \<longrightarrow> stored (f s) tid = Some v \<longrightarrow>
     (final (tk_status u) \<longrightarrow> final (tk_status v)) \<and> (tk_status u = Queued \<longrightarrow> tk_status v = Queued \<or> final (tk_status v)))"

text \<open>The task is finished, or queued with at least \<open>n\<close> attempts made.\<close>

definition progressed :: "gostr \<Rightarrow> int \<Rightarrow> int \<Rightarrow> 'l runner \<Rightarrow> bool" where
  "progressed tid m n s \<longleftrightarrow> attempts_ok (ru_tasks s) \<and> (\<exists>u. stored s tid = Some u \<and> tk_id u = tid \<and> tk_max_retries u = m
     \<and> (final (tk_status u) \<or> tk_status u = Queued \<and> n \<le> tk_attempt u))"

lemma progressed_others:
  assumes "progressed tid m n s" "patient tid f" shows "progressed tid m n (f s)"
proof -
  from assms(1) obtain u where u: "stored s tid = Some u" "tk_id u = tid" "tk_max_retries u = m" "attempts_ok (ru_tasks s)"
    "final (tk_status u) \<or> tk_status u = Queued \<and> n \<le> tk_attempt u" by (auto simp: progressed_def)
  then have "carries tid u s" by (simp add: carries_def)
  then have "carries tid u (f s)" using assms(2) by (simp add: patient_def calm_def)
  then obtain v where v: "stored (f s) tid = Some v" "tk_id v = tid" "tk_attempt v = tk_attempt u" "tk_max_retries v = m"
    "attempts_ok (ru_tasks (f s))" using u(3) by (auto simp: carries_def)
  with u assms(2) have "final (tk_status v) \<or> tk_status v = Queued \<and> n \<le> tk_attempt v" unfolding patient_def by metis
  with v show ?thesis unfolding progressed_def by blast
qed

lemma process_task_not_queued:
  "stored s tid = Some u \<Longrightarrow> tk_status u \<noteq> Queued \<Longrightarrow> process_task L cfg lib at tid s = s"
  by (simp add: process_task_def task_get_def)

lemma progressed_attempt:
  assumes "progressed tid m n s" "calm_attempt tid at" shows "progressed tid m (n + 1) (process_task L cfg lib at tid s)"
proof -
  from assms(1) obtain u where u: "stored s tid = Some u" "tk_id u = tid" "tk_max_retries u = m" "attempts_ok (ru_tasks s)"
    "final (tk_status u) \<or> tk_status u = Queued \<and> n \<le> tk_attempt u" by (auto simp: progressed_def)
  show ?thesis
  proof (cases "tk_status u = Queued")
    case True
    with u(5) have "n \<le> tk_attempt u" by auto
    with process_task_settles [OF u(1) True u(2,4) assms(2), of L cfg lib] u(3) show ?thesis
      by (auto simp: settled_def progressed_def)
  next
    case False
    with process_task_not_queued [OF u(1)] u show ?thesis by (auto simp: progressed_def)
  qed
qed

lemma progressed_run:
  "progressed tid m n s \<Longrightarrow> \<forall>x\<in>set xs. patient tid (fst x) \<and> calm_attempt tid (snd x) \<Longrightarrow>
   progressed tid m (n + int (length xs)) (run_attempts L cfg lib tid xs s)"
proof (induction xs arbitrary: n s)
  case (Cons x xs)
  then have "progressed tid m (n + 1) (process_task L cfg lib (snd x) tid (fst x s))"
    by (simp add: progressed_others progressed_attempt)
  from Cons.IH [OF this] Cons.prems(2) show ?case by (simp add: add.assoc)
qed simp

text \<open>C2: every task finishes. After as many attempts as a queued task has left it is completed, failed or
  canceled, whatever its nodes answer, whatever the lease manager and the registry do and whatever others do
  during the attempts and between them, if they do not start the task themselves or bring it back; and it has
  had at most one attempt more than its retries.\<close>

theorem every_task_finishes:
  assumes "ts_items (ru_tasks s) tid = Some t0" "tk_status t0 = Queued" "tk_id t0 = tid" "attempts_ok (ru_tasks s)"
    and "\<forall>x\<in>set xs. patient tid (fst x) \<and> calm_attempt tid (snd x)" "tk_max_retries t0 - tk_attempt t0 < int (length xs)"
  shows "\<exists>u. ts_items (ru_tasks (run_attempts L cfg lib tid xs s)) tid = Some u
    \<and> tk_status u \<in> {Completed, Failed, Canceled} \<and> tk_attempt u \<le> tk_max_retries u + 1"
proof -
  have "progressed tid (tk_max_retries t0) (tk_attempt t0) s" using assms(1-4) by (simp add: progressed_def)
  from progressed_run [OF this assms(5), of L cfg lib] obtain u where
    u: "stored (run_attempts L cfg lib tid xs s) tid = Some u" "tk_max_retries u = tk_max_retries t0"
    "attempts_ok (ru_tasks (run_attempts L cfg lib tid xs s))"
    "final (tk_status u) \<or> tk_status u = Queued \<and> tk_attempt t0 + int (length xs) \<le> tk_attempt u"
    by (auto simp: progressed_def)
  from u(1,3) have "tk_attempt u \<le> tk_max_retries u + 1 \<and> (tk_status u = Queued \<longrightarrow> tk_attempt u \<le> tk_max_retries u)"
    unfolding attempts_ok_def by blast
  with u assms(6) show ?thesis by auto
qed

theorem every_task_finishes_witness:
  "\<exists>u. ts_items (ru_tasks (run_attempts mem_leaser demo_runner_config demo_lib ''task_000001''
      (replicate (Suc (nat (tk_max_retries demo_task))) (\<lambda>s. s, demo_attempt)) demo_runner)) ''task_000001'' = Some u
    \<and> tk_status u \<in> {Completed, Failed, Canceled}"
proof -
  have "patient tid (\<lambda>s :: lease_state runner. s)" for tid by (simp add: patient_def calm_id)
  then have "\<forall>x\<in>set (replicate (Suc (nat (tk_max_retries demo_task))) (\<lambda>s :: lease_state runner. s, demo_attempt)).
      patient ''task_000001'' (fst x) \<and> calm_attempt ''task_000001'' (snd x)"
    using demo_attempt_calm by simp
  from every_task_finishes [OF demo_runner_task this, of mem_leaser demo_runner_config demo_lib] show ?thesis
    by (auto simp: demo_task_def)
qed

text \<open>C1: no task is left running. Whatever the node answers, whatever the lease manager and the
  registry do and however often others cancel the task meanwhile, when the worker is done with a
  queued task the task is completed, failed or canceled, or it is queued again with a time for the
  retry and a goroutine that will enqueue it; and no task has had more attempts than its retries
  allow.\<close>

theorem attempt_settles:
  assumes "ts_items (ru_tasks s) tid = Some t0" "tk_status t0 = Queued" "tk_id t0 = tid"
    and "attempts_ok (ru_tasks s)" "calm_attempt tid at"
  shows "\<exists>u. ts_items (ru_tasks (process_task L cfg lib at tid s)) tid = Some u
      \<and> (tk_status u \<in> {Completed, Failed, Canceled}
         \<or> tk_status u = Queued \<and> tk_next_retry u \<noteq> None
             \<and> tid \<in> fst ` set (ru_delayed (process_task L cfg lib at tid s)))
      \<and> tk_attempt u \<le> tk_max_retries u + 1"
  using process_task_settles [OF assms, of L cfg lib] unfolding settled_def attempts_ok_def by blast

theorem attempt_settles_witness:
  "\<exists>u. ts_items (ru_tasks (process_task mem_leaser demo_runner_config demo_lib demo_attempt ''task_000001''
      demo_runner)) ''task_000001'' = Some u \<and> tk_status u \<noteq> Running"
  using attempt_settles [OF demo_runner_task demo_attempt_calm, of mem_leaser demo_runner_config demo_lib]
  by auto

text \<open>The retry limit holds. An attempt on a queued task keeps, for every stored task, that it
  was attempted at most once more than its retries allow and that a queued one has an attempt
  left.\<close>

lemma attempts_bounded:
  assumes "ts_items (ru_tasks s) tid = Some t0" "tk_id t0 = tid"
    and "attempts_ok (ru_tasks s)" "calm_attempt tid at"
  shows "attempts_ok (ru_tasks (process_task L cfg lib at tid s))"
proof (cases "tk_status t0 = Queued")
  case True
  with process_task_settles [OF assms(1) True assms(2-4), of L cfg lib] show ?thesis
    by (simp add: settled_def)
next
  case False
  with assms show ?thesis by (simp add: process_task_def task_get_def)
qed

lemma attempts_bounded_at_work:
  "attempts_ok (ru_tasks (process_task mem_leaser demo_runner_config demo_lib demo_attempt ''task_000001'' demo_runner))"
  by (rule attempts_bounded [OF demo_runner_task(1,3,4) demo_attempt_calm])

text \<open>C13: a leased node is always given back. After the execution the lease manager holds no
  lease on the node under the worker's token, and the task has no cancel function registered any
  more, however the execution ended.\<close>

theorem node_given_back:
  assumes "ln_token ln \<noteq> 0" "\<not> blank (rc_owner cfg)"
  shows "lease_entry_of (ru_leases (execute_on mem_leaser cfg lib at t ln s))
      (trim_space (node_resource (nd_id (ln_node ln)))) \<noteq> Some (trim_space (rc_owner cfg), ln_token ln, e)
    \<and> (\<not> blank (tk_id t) \<longrightarrow> trim_space (tk_id t) \<notin> ru_running (execute_on mem_leaser cfg lib at t ln s))"
proof -
  obtain lost s2 where "start_keepalive mem_leaser cfg ln (at_ticks at) (set_running_cancel (tk_id t) s) = (lost, s2)"
    by (rule prod.exhaust)
  then obtain s4 where x: "execute_on mem_leaser cfg lib at t ln s =
      release_node mem_leaser cfg (at_clock at 4) ln (clear_running_cancel (tk_id t) s4)"
    by (auto simp: execute_on_def Let_def)
  show ?thesis
    unfolding x
    using mem_lease.release_node_frees [OF mem_leaser_fields(3) assms(1) node_resource_not_blank assms(2)]
    by (simp add: release_node_def clear_running_cancel_def)
qed

theorem node_given_back_witness:
  "let ln = \<lparr>ln_node = demo_node ''n1'' 5 NodeReady, ln_token = 1, ln_expires = 99\<rparr> in
   lease_entry_of (ru_leases (execute_on mem_leaser demo_runner_config demo_lib demo_attempt demo_task ln demo_runner))
     (trim_space (node_resource (nd_id (ln_node ln)))) \<noteq> Some (trim_space ''r1'', 1, 99)"
  using node_given_back [of "\<lparr>ln_node = demo_node ''n1'' 5 NodeReady, ln_token = 1, ln_expires = 99\<rparr>"
      demo_runner_config demo_lib demo_attempt demo_task demo_runner 99]
  by (simp add: demo_runner_config_def plain_ends_def plain_char_def Let_def)

text \<open>C4: two workers never hold one node at a time. A node whose lease is registered and has not
  expired is not handed out, to any instance and in whatever order the nodes are visited; a node
  that is handed out was ready, and its lease is registered for the worker until the time to live
  is over.\<close>

theorem node_exclusive:
  assumes "try_acquire_ready_node mem_leaser cfg now ks s = (Inr (Some ln), s')"
  shows "nd_state (ln_node ln) = NodeReady
    \<and> lease_entry_of (ru_leases s') (trim_space (node_resource (nd_id (ln_node ln)))) =
        Some (trim_space (rc_owner cfg), ln_token ln, now + default_lease_ttl (rc_lease_ttl cfg))
    \<and> (\<forall>nid ow k e. lease_entry_of (ru_leases s) (trim_space (node_resource nid)) = Some (ow, k, e) \<longrightarrow>
         now < e \<longrightarrow> trim_space (nd_id (ln_node ln)) \<noteq> trim_space nid)"
proof -
  have a: "try_acquire_from mem_leaser cfg now (registry_list ks (ru_nodes s)) s = (Inr (Some ln), s')"
    using assms by (simp add: try_acquire_ready_node_def)
  from mem_lease.try_acquire_grants [OF mem_leaser_fields(1) a]
    mem_lease.try_acquire_not_held [OF mem_leaser_fields(1) a]
  show ?thesis by (auto simp: exact_until_def)
qed

lemma demo_try_acquire:
  "\<exists>ln s'. try_acquire_ready_node mem_leaser demo_runner_config 9 [''n1''] demo_runner = (Inr (Some ln), s')
     \<and> ln_node ln = demo_node ''n1'' 5 NodeReady"
proof -
  have l: "registry_list [''n1''] (ru_nodes demo_runner) = [demo_node ''n1'' 5 NodeReady]"
    by (simp add: registry_list_def demo_runner_def)
  have r: "trim_space (node_resource ''n1'') = ''node:n1''" "trim_space ''r1'' = ''r1''"
    by (simp_all add: node_resource_def plain_ends_def plain_char_def)
  have "fst (lease_acquire 9 (node_resource ''n1'') ''r1'' (90 * second) new_lease_manager) =
      Inr (Some \<lparr>lease_token = 1, lease_expires = 9 + 90 * second\<rparr>)"
    by (simp add: lease_acquire_def r new_lease_manager_def default_lease_ttl_def Let_def)
  then obtain l where "lease_acquire 9 (node_resource ''n1'') ''r1'' (90 * second) new_lease_manager =
      (Inr (Some \<lparr>lease_token = 1, lease_expires = 9 + 90 * second\<rparr>), l)"
    by (metis fst_conv surj_pair)
  then show ?thesis
    by (simp add: try_acquire_ready_node_def l demo_node_def demo_runner_config_def)
       (simp add: demo_runner_def)
qed

theorem node_exclusive_witness:
  "\<exists>ln s'. try_acquire_ready_node mem_leaser demo_runner_config 9 [''n1''] demo_runner = (Inr (Some ln), s')
     \<and> nd_state (ln_node ln) = NodeReady"
proof -
  from demo_try_acquire obtain ln s' where
    q: "try_acquire_ready_node mem_leaser demo_runner_config 9 [''n1''] demo_runner = (Inr (Some ln), s')" by blast
  from node_exclusive [OF q] q show ?thesis by blast
qed


text \<open>A task that is canceled while its node executes it stays canceled: whatever Execute
  returns then, a success, a blocker or an error that would be retried, recording it leaves the
  stored tasks as they are.\<close>

lemma canceled_while_running:
  assumes "ts_items (ru_tasks s) (tk_id t) = Some u" "tk_status u = Canceled"
  shows "ru_tasks (record_outcome cfg lib now t nid lost res s) = ru_tasks s"
  using record_outcome_canceled [OF assms] .

lemma canceled_while_running_at_work:
  "ru_tasks (record_outcome demo_runner_config demo_lib 9 demo_task ''n1'' False (Inr empty_output)
      (at_during demo_attempt demo_runner)) = snd (task_cancel 9 demo_cancel demo_tasks)"
proof -
  have "ts_items (ru_tasks (at_during demo_attempt demo_runner)) (tk_id demo_task) =
      Some (cancel_task 9 demo_cancel demo_task)"
    by (simp add: demo_attempt_def demo_runner_def task_cancel_def task_update_def unless_status_def
        demo_cancel_def demo_tasks_def demo_task_def)
  from canceled_while_running [OF this, of demo_runner_config demo_lib 9 "''n1''" False "Inr empty_output"]
  show ?thesis by (simp add: cancel_task_def) (simp add: demo_attempt_def demo_runner_def)
qed

text \<open>The cooldown protects a domain. A task whose host is in cooldown fails at once with the
  blocker type domain_cooldown: no node is leased, no heartbeat is sent, nothing is executed and
  no retry is scheduled.\<close>

lemma cooldown_skips_execution:
  assumes "ts_items (ru_tasks s) tid = Some t0" "tk_status t0 = Queued" "tk_id t0 = tid"
    and "attempts_ok (ru_tasks s)"
    and "normalized_host (lb_hostname lib) (tk_url t0) = host" "host \<noteq> []"
    and "ru_blocked s host = Some til" "at_clock at 1 \<le> til"
  shows "let s' = process_task L cfg lib at tid s in
    (\<exists>u. ts_items (ru_tasks s') tid = Some u \<and> tk_status u = Failed
       \<and> tk_blocker_type u = ''domain_cooldown'' \<and> tk_node u = [])
    \<and> ru_leases s' = ru_leases s \<and> ru_nodes s' = ru_nodes s \<and> ru_delayed s' = ru_delayed s"
proof -
  have q: "is_domain_blocked (lb_hostname lib) (tk_url t0) (at_clock at 1) (ru_blocked s) =
      (Some (host, til), ru_blocked s)"
    using assms(5-8) by (simp add: is_domain_blocked_def)
  show ?thesis
    unfolding process_task_queued [OF assms(1-4) refl refl q, of L cfg] Let_def
    by (simp add: fail_task_with_evidence_def task_fail_def task_update_def unless_status_def
        start_task_def fail_task_def cooldown_evidence_def)
qed

lemma cooldown_skips_execution_at_work:
  "ru_leases (process_task mem_leaser demo_runner_config demo_lib demo_attempt ''task_000001''
      (demo_runner\<lparr>ru_blocked := [''a'' \<mapsto> 100]\<rparr>)) = new_lease_manager"
proof -
  let ?s = "demo_runner\<lparr>ru_blocked := [''a'' \<mapsto> 100]\<rparr>"
  have h: "normalized_host (lb_hostname demo_lib) (tk_url demo_task) = ''a''"
    by (simp add: normalized_host_def demo_lib_def demo_task_def to_lower_def lower_char_def
        plain_ends_def plain_char_def)
  have "ts_items (ru_tasks ?s) ''task_000001'' = Some demo_task" "attempts_ok (ru_tasks ?s)"
    using demo_runner_task by simp_all
  moreover have "ru_blocked ?s ''a'' = Some 100" "at_clock demo_attempt 1 \<le> 100"
    by (simp_all add: demo_attempt_def)
  ultimately show ?thesis
    using cooldown_skips_execution [of ?s "''task_000001''" demo_task demo_lib "''a''" 100 demo_attempt
        mem_leaser demo_runner_config] demo_runner_task(2,3) h
    by (simp add: Let_def) (simp add: demo_runner_def)
qed

text \<open>The cooldown lasts. After a challenge of a domain, every URL of that host, in any
  spelling of its case, is refused until the cooldown is over, and a later challenge never
  shortens it.\<close>

lemma cooldown_lasts:
  assumes "trim_space (to_lower bt) = ''bot_blocked'' \<or> trim_space (to_lower bt) = ''human_verification_required''"
    and "normalized_host hostname raw = host" "host \<noteq> []" "normalized_host hostname raw' = host"
    and "t \<le> now + cooldown"
  shows "\<exists>til. fst (is_domain_blocked hostname raw' t
        (mark_domain_blocked hostname cooldown raw bt now blocked)) = Some (host, til)
      \<and> now + cooldown \<le> til \<and> (\<forall>old. blocked host = Some old \<longrightarrow> old \<le> til)"
proof -
  let ?b = "mark_domain_blocked hostname cooldown raw bt now blocked"
  obtain til where til: "?b host = Some til" "now + cooldown \<le> til" "\<forall>old. blocked host = Some old \<longrightarrow> old \<le> til"
  proof (cases "blocked host")
    case None
    with assms(1-3) that [of "now + cooldown"] show ?thesis by (auto simp: mark_domain_blocked_def Let_def)
  next
    case (Some old)
    with assms(1-3) that [of "max old (now + cooldown)"] show ?thesis
      by (auto simp: mark_domain_blocked_def Let_def max_def split: if_splits)
  qed
  with assms show ?thesis by (simp add: is_domain_blocked_def)
qed

lemma cooldown_lasts_at_work:
  "fst (is_domain_blocked (\<lambda>u. Some ''Shop.example'') ''http://shop.example/b'' 150
     (mark_domain_blocked (\<lambda>u. Some ''Shop.example'') 100 ''http://Shop.example/a'' ''Bot_Blocked'' 60 Map.empty))
   \<noteq> None"
proof -
  have l: "to_lower ''Shop.example'' = ''shop.example''" "to_lower ''Bot_Blocked'' = ''bot_blocked''"
    by code_simp+
  have h: "normalized_host (\<lambda>u. Some ''Shop.example'') ''http://Shop.example/a'' = ''shop.example''"
    "normalized_host (\<lambda>u. Some ''Shop.example'') ''http://shop.example/b'' = ''shop.example''"
    by (simp_all add: normalized_host_def l plain_ends_def plain_char_def)
  have "trim_space (to_lower ''Bot_Blocked'') = ''bot_blocked''" by (simp add: l plain_ends_def plain_char_def)
  with cooldown_lasts [OF _ h(1) _ h(2), of "''Bot_Blocked''" 150 60 100 Map.empty] show ?thesis by auto
qed

text \<open>The delays between attempts grow from the base to the bound: never below the base,
  never above the bound, never shrinking, doubled at each attempt until the bound is reached.\<close>

lemma retry_delay_bounds:
  assumes "0 < rc_retry_base cfg" "rc_retry_base cfg \<le> rc_retry_max cfg"
  shows "rc_retry_base cfg \<le> retry_delay cfg k \<and> retry_delay cfg k \<le> rc_retry_max cfg
    \<and> retry_delay cfg k \<le> retry_delay cfg (k + 1)
    \<and> (1 \<le> k \<longrightarrow> retry_delay cfg (k + 1) = min (rc_retry_max cfg) (2 * retry_delay cfg k))"
proof -
  define x where "x = rc_retry_base cfg * 2 ^ nat (max 0 (k - 1))"
  define y where "y = rc_retry_base cfg * 2 ^ nat (max 0 (k + 1 - 1))"
  have d: "retry_delay cfg k = min (rc_retry_max cfg) x" "retry_delay cfg (k + 1) = min (rc_retry_max cfg) y"
    by (simp_all add: retry_delay_def min_def Let_def x_def y_def)
  have "rc_retry_base cfg \<le> x" unfolding x_def using assms(1) by (simp add: mult_le_cancel_left1)
  moreover have "x \<le> y" unfolding x_def y_def using assms(1) by (intro mult_left_mono power_increasing) auto
  moreover have "y = 2 * x" if "1 \<le> k"
  proof -
    from that have "nat (max 0 (k + 1 - 1)) = Suc (nat (max 0 (k - 1)))" by (simp add: max_def)
    then show ?thesis unfolding x_def y_def by (simp only: power_Suc mult.left_commute)
  qed
  ultimately show ?thesis using assms unfolding d by (auto simp: min_def)
qed

lemma retry_delay_bounds_at_work: "retry_delay demo_runner_config 3 \<le> 20 * second \<and> retry_delay demo_runner_config 3 = 4 * second"
  using retry_delay_bounds [of demo_runner_config 3]
  by (simp add: demo_runner_config_def retry_delay_def)

section \<open>Traces\<close>

lemma map_task_trace_from_eq:
  "map_task_trace_from save tid steps mapped =
     mapped @ map (\<lambda>i. map_step save tid (int (length mapped + i)) (steps ! i)) [0..<length steps]"
proof (induction steps arbitrary: mapped)
  case (Cons step steps)
  have "[0..<length (step # steps)] = 0 # map Suc [0..<length steps]"
    by (simp add: upt_conv_Cons map_Suc_upt del: upt_Suc)
  with Cons show ?case by (simp del: upt_Suc add: comp_def ac_simps)
qed simp

text \<open>Mapping a trace loses nothing. There is one recorded step for each step the node sent, in
  order, with its index, action, status, error and output; and a screenshot the node sent is kept
  inline or by the URL of its artifact, provided the artifact store never answers an empty URL.\<close>

lemma trace_mapping_faithful:
  assumes "i < length steps" "\<And>f k p url. save = Some f \<Longrightarrow> f k p = Inr url \<Longrightarrow> url \<noteq> []"
  shows "length (map_task_trace save tid steps) = length steps
    \<and> (let a = steps ! i; b = map_task_trace save tid steps ! i in
        st_index b = ns_index a \<and> st_status b = ns_status a \<and> st_error b = ns_error a
        \<and> st_output_text b = ns_output_text a \<and> ac_type (st_action b) = na_type (ns_action a)
        \<and> (\<not> blank (ns_screenshot a) \<longrightarrow> st_screenshot b = trim_space (ns_screenshot a) \<or> st_artifact_url b \<noteq> []))"
proof -
  have n: "map_task_trace save tid steps ! i = map_step save tid (int i) (steps ! i)"
    using assms(1) by (simp add: map_task_trace_def map_task_trace_from_eq)
  have l: "length (map_task_trace save tid steps) = length steps"
    by (simp add: map_task_trace_def map_task_trace_from_eq)
  show ?thesis
    unfolding n Let_def using l assms(2)
    by (auto simp: map_step_def Let_def split: option.split sum.split)
qed

lemma trace_mapping_faithful_at_work:
  "st_artifact_url (map_task_trace (Some (\<lambda>k p. Inr (''/artifacts/'' @ k))) ''t''
     [\<lparr>ns_index = 1, ns_action = \<lparr>na_type = ''click'', na_selector = [], na_text = [], na_pixels = 0,
         na_timeout_ms = 0, na_delay_ms = 0\<rparr>, ns_status = ''ok'', ns_error = [], ns_output_text = [],
       ns_started_at = 0, ns_completed_at = 0, ns_duration_ms = 0, ns_screenshot = ''QQ=='',
       ns_artifact_url = [], ns_planner = None\<rparr>] ! 0) \<noteq> []"
proof -
  let ?step = "\<lparr>ns_index = 1, ns_action = \<lparr>na_type = ''click'', na_selector = [], na_text = [], na_pixels = 0,
         na_timeout_ms = 0, na_delay_ms = 0\<rparr>, ns_status = ''ok'', ns_error = [], ns_output_text = [],
       ns_started_at = 0, ns_completed_at = 0, ns_duration_ms = 0, ns_screenshot = ''QQ=='',
       ns_artifact_url = [], ns_planner = None\<rparr>"
  let ?save = "Some (\<lambda>k p. Inr (''/artifacts/'' @ k)) :: (gostr \<Rightarrow> gostr \<Rightarrow> go_error + gostr) option"
  have t: "trim_space ''QQ=='' = ''QQ==''" "blank []" by (simp_all add: plain_ends_def plain_char_def)
  have "st_screenshot (map_task_trace ?save ''t'' [?step] ! 0) = []"
    by (simp add: map_task_trace_def map_step_def t Let_def)
  moreover have "url \<noteq> []" if "?save = Some f" "f k p = Inr url" for f k p url
    using that by auto
  with trace_mapping_faithful [of 0 "[?step]" ?save "''t''"]
  have "\<not> blank (ns_screenshot ?step) \<longrightarrow>
      st_screenshot (map_task_trace ?save ''t'' [?step] ! 0) = trim_space (ns_screenshot ?step)
      \<or> st_artifact_url (map_task_trace ?save ''t'' [?step] ! 0) \<noteq> []"
    unfolding Let_def by (metis length_greater_0_conv list.distinct(1) nth_Cons_0)
  ultimately show ?thesis by (simp add: t)
qed

end
