(* ===== verification/RedisLease.thy ===== *)
theory RedisLease
  imports Redis Attempts
begin

text \<open>
  The lease manager on Redis, \<open>internal/lease/redis.go\<close>, over any server of the locale
  \<open>redis_server\<close>. The server's clock and the orchestrator's are one, which the manager reads again
  \<open>lag\<close> after the grant. It keeps the contracts \<open>lease_safety\<close> and \<open>lease_fencing\<close> even if requests
  or answers are lost, so a worker that uses it never gets a node that another one holds.
\<close>

section \<open>Keys and values\<close>

definition redis_lease_prefix :: "gostr \<Rightarrow> gostr" where
  "redis_lease_prefix p = (if blank p then ''browseruse:lease'' else trim_space p)"

definition lease_key :: "gostr \<Rightarrow> gostr \<Rightarrow> gostr" where
  "lease_key pre r = pre @ '':hold:'' @ r"

definition seq_key :: "gostr \<Rightarrow> gostr \<Rightarrow> gostr" where
  "seq_key pre r = pre @ '':seq:'' @ r"

definition lease_value :: "gostr \<Rightarrow> 64 word \<Rightarrow> gostr" where
  "lease_value owner token = owner @ ''|'' @ digits (unat token)"

section \<open>Operations\<close>

definition redis_acquire ::
  "'d redis \<Rightarrow> gostr \<Rightarrow> duration \<Rightarrow> go_time \<Rightarrow> gostr \<Rightarrow> gostr \<Rightarrow> duration \<Rightarrow> 'd connection \<Rightarrow>
   (go_error + lease option) \<times> 'd connection" where
  "redis_acquire R pre lag now res own ttl c =
     (let resource = trim_space res; owner = trim_space own; t = server_clock now; d = default_lease_ttl ttl in
      if resource = [] then (Inl (new_error ''resource is required''), c)
      else if owner = [] then (Inl (new_error ''owner is required''), c)
      else case send (rd_incr R t (seq_key pre resource)) c of
        (Inl e, c) \<Rightarrow> (Inl (wrap_error ''lease incr token: '' e), c)
      | (Inr (Inl e), c) \<Rightarrow> (Inl (wrap_error ''lease incr token: '' e), c)
      | (Inr (Inr n), c) \<Rightarrow>
          (case send (rd_set_nx R t (lease_key pre resource) (lease_value owner (of_int n)) d) c of
             (Inl e, c) \<Rightarrow> (Inl (wrap_error ''lease setnx: '' e), c)
           | (Inr False, c) \<Rightarrow> (Inr None, c)
           | (Inr True, c) \<Rightarrow>
               (Inr (Some \<lparr>lease_token = of_int n, lease_expires = now + lag + d\<rparr>), c)))"

definition redis_release ::
  "'d redis \<Rightarrow> gostr \<Rightarrow> go_time \<Rightarrow> gostr \<Rightarrow> gostr \<Rightarrow> 64 word \<Rightarrow> 'd connection \<Rightarrow> (go_error + unit) \<times> 'd connection" where
  "redis_release R pre now res own token c =
     (let resource = trim_space res; owner = trim_space own in
      if resource = [] then (Inl (new_error ''resource is required''), c)
      else if owner = [] then (Inl (new_error ''owner is required''), c)
      else if token = 0 then (Inl (new_error ''token is required''), c)
      else case send (release_script R (server_clock now) (lease_key pre resource) (lease_value owner token)) c of
        (Inl e, c) \<Rightarrow> (Inl (wrap_error ''lease release: '' e), c)
      | (Inr _, c) \<Rightarrow> (Inr (), c))"

definition redis_renew ::
  "'d redis \<Rightarrow> gostr \<Rightarrow> duration \<Rightarrow> go_time \<Rightarrow> gostr \<Rightarrow> gostr \<Rightarrow> 64 word \<Rightarrow> duration \<Rightarrow> 'd connection \<Rightarrow>
   (go_error + lease option) \<times> 'd connection" where
  "redis_renew R pre lag now res own token ttl c =
     (let resource = trim_space res; owner = trim_space own; d = default_lease_ttl ttl in
      if resource = [] then (Inl (new_error ''resource is required''), c)
      else if owner = [] then (Inl (new_error ''owner is required''), c)
      else if token = 0 then (Inl (new_error ''token is required''), c)
      else case send (renew_script R (server_clock now) (lease_key pre resource) (lease_value owner token)
                        (d div millisecond)) c of
        (Inl e, c) \<Rightarrow> (Inl (wrap_error ''lease renew: '' e), c)
      | (Inr n, c) \<Rightarrow>
          if n = 0 then (Inr None, c)
          else (Inr (Some \<lparr>lease_token = token, lease_expires = now + lag + d\<rparr>), c))"

section \<open>Holders\<close>

text \<open>The holder that a value names: the owner is what precedes the last bar.\<close>

definition value_holder :: "gostr \<Rightarrow> gostr \<times> 64 word" where
  "value_holder v =
     (let ds = rev (takeWhile (\<lambda>ch. ch \<noteq> CHR ''|'') (rev v)) in
      (take (length v - length ds - 1) v, of_nat (undigits ds)))"

lemma digits_no_bar: "CHR ''|'' \<notin> set (digits n)"
  using digits_all_digit [of n] by (auto simp: list_all_iff is_digit_def)

lemma value_holder_lease [simp]: "value_holder (lease_value ow k) = (ow, k)"
proof -
  have "takeWhile (\<lambda>ch. ch \<noteq> CHR ''|'') (rev (digits (unat k)) @ CHR ''|'' # rev ow) = rev (digits (unat k))"
    by (rule takeWhile_tail [THEN trans]) (use digits_no_bar [of "unat k"] in \<open>auto simp: takeWhile_eq_all_conv\<close>)
  then show ?thesis by (simp add: value_holder_def lease_value_def)
qed

lemma lease_value_inject [simp]: "lease_value ow k = lease_value ow' k' \<longleftrightarrow> ow = ow' \<and> k = k'"
  by (metis value_holder_lease prod.inject)

lemma keys_differ [simp]: "lease_key pre r \<noteq> seq_key pre r'" "seq_key pre r' \<noteq> lease_key pre r"
  "lease_key pre r = lease_key pre r' \<longleftrightarrow> r = r'" "seq_key pre r = seq_key pre r' \<longleftrightarrow> r = r'"
  by (simp_all add: lease_key_def seq_key_def)

definition holder_of :: "redis_entry option \<Rightarrow> holder option" where
  "holder_of c = (case c of
     None \<Rightarrow> None
   | Some (v, x) \<Rightarrow> Some (fst (value_holder v), snd (value_holder v), case x of None \<Rightarrow> 0 | Some x \<Rightarrow> end_of_ms x))"

definition redis_until :: "go_time \<Rightarrow> duration \<Rightarrow> go_time" where
  "redis_until now ttl = end_of_ms (server_clock now + whole_ms (default_lease_ttl ttl))"

definition redis_extended :: "go_time \<Rightarrow> duration \<Rightarrow> go_time" where
  "redis_extended now ttl =
     (if default_lease_ttl ttl div millisecond \<le> 0 then now
      else end_of_ms (server_clock now + default_lease_ttl ttl div millisecond))"

section \<open>The contract\<close>

definition redis_holder :: "('d \<Rightarrow> gostr \<Rightarrow> redis_entry option) \<Rightarrow> gostr \<Rightarrow> 'd connection \<Rightarrow> gostr \<Rightarrow> holder option" where
  "redis_holder content pre c r = holder_of (content (cn_db c) (lease_key pre r))"

text \<open>The tokens counted so far, as long as the counter of a resource holds nothing but its number.\<close>

definition counted :: "redis_entry option \<Rightarrow> int \<Rightarrow> bool" where
  "counted e n \<longleftrightarrow> e = None \<and> n = 0 \<or> 0 < n \<and> int64 n \<and> e = Some (fmt_d n, None)"

definition redis_issued :: "('d \<Rightarrow> gostr \<Rightarrow> redis_entry option) \<Rightarrow> gostr \<Rightarrow> 'd connection \<Rightarrow> gostr \<Rightarrow> 64 word set" where
  "redis_issued content pre c r =
     {k. \<exists>n j. counted (content (cn_db c) (seq_key pre r)) n \<and> 0 < j \<and> j \<le> n \<and> k = of_int j}"

definition redis_uncounted :: "('d \<Rightarrow> gostr \<Rightarrow> redis_entry option) \<Rightarrow> gostr \<Rightarrow> 'd connection \<Rightarrow> gostr \<Rightarrow> bool" where
  "redis_uncounted content pre c r \<longleftrightarrow> \<not> (\<exists>n. counted (content (cn_db c) (seq_key pre r)) n)"

lemma fmt_d_inject:
  assumes "int64 i" "int64 j" "fmt_d i = fmt_d j"
  shows "i = j"
proof -
  have "atoi (fmt_d i) = Some i" "atoi (fmt_d j) = Some j"
    using assms(1,2) unfolding int64_def by (blast intro: atoi_fmt_d)+
  with assms(3) show ?thesis by (metis option.inject)
qed

lemma int64_zero: "int64 0"
  by (simp add: int64_def)

lemma counted_int64: "counted e n \<Longrightarrow> int64 n \<and> 0 \<le> n"
  unfolding counted_def using int64_zero by fastforce

lemma counted_unique:
  assumes "counted e m" "counted e n"
  shows "m = n"
proof (cases e)
  case None
  with assms show ?thesis by (simp add: counted_def)
next
  case (Some x)
  with assms have "fmt_d m = fmt_d n" by (simp add: counted_def)
  with assms counted_int64 fmt_d_inject show ?thesis by blast
qed

lemma token_inject: "0 \<le> j \<Longrightarrow> int64 j \<Longrightarrow> 0 \<le> n \<Longrightarrow> int64 n \<Longrightarrow> of_int j = (of_int n :: 64 word) \<Longrightarrow> j = n"
proof -
  assume a: "0 \<le> j" "int64 j" "0 \<le> n" "int64 n" "of_int j = (of_int n :: 64 word)"
  have "uint (of_int m :: 64 word) = m" if "0 \<le> m" "int64 m" for m
    using that by (simp add: uint_word_of_int take_bit_int_eq_self int64_def)
  with a show "j = n" by metis
qed

context redis_server
begin

lemma send_script_lost:
  assumes "send f c = (Inl e, c')"
  shows "content (cn_db c') = content (cn_db c) \<or> content (cn_db c') = content (snd (f (cn_db c)))"
  using send_lost [OF assms] by auto

lemma incr_content:
  assumes "rd_incr R t k d = (res, d')"
  shows "k' \<noteq> k \<Longrightarrow> content d' k' = content d k'"
    and "counted (content d k) n \<Longrightarrow> (case res of Inl _ \<Rightarrow> content d' = content d
      | Inr m \<Rightarrow> m = n + 1 \<and> counted (content d' k) (n + 1))"
proof -
  show "k' \<noteq> k \<Longrightarrow> content d' k' = content d k'"
    using assms incr [of t k d _ d'] incr_error [of t k d _ d'] by (cases res) (auto split: option.splits)
  assume c: "counted (content d k) n"
  show "case res of Inl _ \<Rightarrow> content d' = content d | Inr m \<Rightarrow> m = n + 1 \<and> counted (content d' k) (n + 1)"
  proof (cases res)
    case (Inl e)
    with assms incr_error show ?thesis by simp
  next
    case (Inr m)
    from c counted_int64 have n: "int64 n" "0 \<le> n" by blast+
    then have "atoi (fmt_d n) = Some n" by (simp add: atoi_fmt_d int64_def)
    with incr [OF assms [unfolded Inr]] c Inr n show ?thesis
      by (auto simp: counted_def live_def int64_def split: option.splits)
  qed
qed

lemma live_Some: "live t (content d k) = Some (v, x) \<Longrightarrow>
    content d k = Some (v, x) \<and> (\<forall>e. x = Some e \<longrightarrow> t \<le> e)"
  by (auto simp: live_def split: option.splits if_splits)

lemma live_None: "live t (content d k) = None \<Longrightarrow> content d k = None \<or> (\<exists>v e. content d k = Some (v, Some e) \<and> e < t)"
  by (auto simp: live_def split: option.splits if_splits)

text \<open>What an acquisition does.\<close>

lemma acquire_cases:
  assumes "redis_acquire R pre lag now r ow ttl c = (res, c')"
  obtains (unchanged) e where "res = Inl e" "content (cn_db c') = content (cn_db c)"
  | (counted) n d where "\<not> blank r" "\<not> blank ow"
      "rd_incr R (server_clock now) (seq_key pre (trim_space r)) (cn_db c) = (n, d)"
      "content (cn_db c') = content d" "(\<exists>e. res = Inl e) \<or> res = Inr None"
  | (set) n d where "\<not> blank r" "\<not> blank ow"
      "rd_incr R (server_clock now) (seq_key pre (trim_space r)) (cn_db c) = (Inr n, d)"
      "live (server_clock now) (content d (lease_key pre (trim_space r))) = None"
      "content (cn_db c') = (content d)(lease_key pre (trim_space r) \<mapsto>
         (lease_value (trim_space ow) (of_int n), Some (server_clock now + whole_ms (default_lease_ttl ttl))))"
      "(\<exists>e. res = Inl e) \<or> (\<exists>l. res = Inr (Some l) \<and> lease_token l = of_int n
         \<and> lease_expires l = now + lag + default_lease_ttl ttl)"
proof -
  have ttl: "0 < default_lease_ttl ttl" by (simp add: default_lease_ttl_def)
  let ?t = "server_clock now" and ?s = "seq_key pre (trim_space r)" and ?k = "lease_key pre (trim_space r)"
  show ?thesis
  proof (cases "blank r \<or> blank ow")
    case True
    with assms have "content (cn_db c') = content (cn_db c) \<and> (\<exists>e. res = Inl e)"
      by (auto simp: redis_acquire_def Let_def split: if_splits)
    then show ?thesis using unchanged by blast
  next
    case False
    obtain x c1 where i: "send (rd_incr R ?t ?s) c = (x, c1)" by fastforce
    obtain n d where d: "rd_incr R ?t ?s (cn_db c) = (n, d)" by fastforce
    show ?thesis
    proof (cases x)
      case (Inl e)
      from send_lost [OF i [unfolded Inl]] d have "content (cn_db c1) = content (cn_db c) \<or> content (cn_db c1) = content d"
        by auto
      moreover have "c' = c1" "\<exists>e. res = Inl e" using assms False i Inl by (auto simp: redis_acquire_def Let_def)
      ultimately show ?thesis using False d unchanged counted by blast
    next
      case (Inr y)
      from send_heard [OF i [unfolded Inr]] d have y: "y = n" "cn_db c1 = d" by auto
      show ?thesis
      proof (cases y)
        case (Inl e)
        with assms False i Inr have "c' = c1" "\<exists>e. res = Inl e" by (auto simp: redis_acquire_def Let_def)
        with y False d show ?thesis using counted by blast
      next
        case (Inr m)
        let ?v = "lease_value (trim_space ow) (of_int m)"
        obtain z c2 where q: "send (rd_set_nx R ?t ?k ?v (default_lease_ttl ttl)) c1 = (z, c2)" by fastforce
        obtain b d2 where b: "rd_set_nx R ?t ?k ?v (default_lease_ttl ttl) d = (b, d2)" by fastforce
        note law = set_nx [OF ttl b]
        have c': "c' = c2" using assms False i \<open>x = Inr y\<close> Inr q
          by (auto simp: redis_acquire_def Let_def split: sum.splits bool.splits)
        have nm: "n = Inr m" using y(1) Inr by simp
        show ?thesis
        proof (cases z)
          case (Inl e)
          from send_lost [OF q [unfolded Inl]] y(2) b have "content (cn_db c2) = content d \<or> content (cn_db c2) = content d2"
            by auto
          moreover have "\<exists>e. res = Inl e" using assms False i \<open>x = Inr y\<close> Inr q Inl by (auto simp: redis_acquire_def Let_def)
          ultimately show ?thesis using False d nm law c' counted [of n d] set [of m d] by (cases b) auto
        next
          case (Inr b')
          from send_heard [OF q [unfolded Inr]] y(2) b have b': "b' = b" "cn_db c2 = d2" by auto
          show ?thesis
          proof (cases b)
            case True
            with assms False i \<open>x = Inr y\<close> \<open>y = Inr m\<close> q Inr b'(1)
            have "\<exists>l. res = Inr (Some l) \<and> lease_token l = of_int m \<and> lease_expires l = now + lag + default_lease_ttl ttl"
              by (auto simp: redis_acquire_def Let_def)
            with False d nm law c' b' True set [of m d] show ?thesis by auto
          next
            case bF: False
            with assms False i \<open>x = Inr y\<close> \<open>y = Inr m\<close> q Inr b'(1) have "res = Inr None"
              by (auto simp: redis_acquire_def Let_def)
            with False d nm law c' b' bF counted [of n d] show ?thesis by auto
          qed
        qed
      qed
    qed
  qed
qed

lemma not_seen:
  assumes "live (server_clock now) (content d k) = None" "holder_of (content d k) = Some (ow, tok, e)"
  shows "e \<le> now"
proof -
  from live_None [OF assms(1)] assms(2) obtain v x where "content d k = Some (v, Some x)" "x < server_clock now"
    by (auto simp: holder_of_def)
  with assms(2) seen_until show ?thesis by (simp add: holder_of_def)
qed

lemma release_content:
  assumes "redis_release R pre now r ow k c = (q, c')"
  shows "content (cn_db c') = content (cn_db c) \<or>
    (\<exists>x. content (cn_db c) (lease_key pre (trim_space r)) = Some (lease_value (trim_space ow) k, x)
       \<and> content (cn_db c') = (content (cn_db c))(lease_key pre (trim_space r) := None))"
proof -
  let ?f = "release_script R (server_clock now) (lease_key pre (trim_space r)) (lease_value (trim_space ow) k)"
  obtain x c1 where s: "send ?f c = (x, c1)" by fastforce
  have "content (cn_db c1) = content (cn_db c) \<or> content (cn_db c1) = content (snd (?f (cn_db c)))"
  proof (cases x)
    case (Inl e)
    with send_script_lost s show ?thesis by blast
  next
    case (Inr n)
    from send_heard [OF s [unfolded this]] show ?thesis by simp
  qed
  moreover have "c' = c \<or> c' = c1"
    using assms s by (auto simp: redis_release_def Let_def split: sum.splits if_splits)
  ultimately show ?thesis
    using release_script_content [of "server_clock now" "lease_key pre (trim_space r)" "lease_value (trim_space ow) k" "cn_db c"]
      live_Some [of "server_clock now" "cn_db c" "lease_key pre (trim_space r)"]
    by (auto split: if_splits)
qed

lemma renew_cases:
  assumes "redis_renew R pre lag now r ow k ttl c = (res, c')"
  obtains (same) "content (cn_db c') = content (cn_db c)" "(\<exists>e. res = Inl e) \<or> res = Inr None"
  | (renewed) x where "live (server_clock now) (content (cn_db c) (lease_key pre (trim_space r))) =
         Some (lease_value (trim_space ow) k, x)"
      "content (cn_db c') = (content (cn_db c))(lease_key pre (trim_space r) :=
         if default_lease_ttl ttl div millisecond \<le> 0 then None
         else Some (lease_value (trim_space ow) k, Some (server_clock now + default_lease_ttl ttl div millisecond)))"
      "(\<exists>e. res = Inl e) \<or> (\<exists>l. res = Inr (Some l) \<and> lease_token l = k)" "k \<noteq> 0"
proof -
  let ?t = "server_clock now" and ?k = "lease_key pre (trim_space r)" and ?v = "lease_value (trim_space ow) k"
  let ?f = "renew_script R ?t ?k ?v (default_lease_ttl ttl div millisecond)"
  obtain x c1 where s: "send ?f c = (x, c1)" by fastforce
  obtain n d where f: "?f (cn_db c) = (n, d)" by fastforce
  note law = renew_script_content [OF f]
  show ?thesis
  proof (cases "blank r \<or> blank ow \<or> k = 0")
    case True
    with assms have "c' = c" "\<exists>e. res = Inl e" by (auto simp: redis_renew_def Let_def split: if_splits)
    then show ?thesis using same by blast
  next
    case False
    show ?thesis
    proof (cases x)
      case (Inl e)
      with assms False s have "c' = c1" "\<exists>e. res = Inl e" by (auto simp: redis_renew_def Let_def)
      moreover from send_lost [OF s [unfolded Inl]] f have "cn_db c1 = cn_db c \<or> cn_db c1 = d" by simp
      ultimately show ?thesis using law False same renewed by (auto split: option.splits if_splits)
    next
      case (Inr m)
      from send_heard [OF s [unfolded Inr]] f have m: "m = n" "cn_db c1 = d" by auto
      show ?thesis
      proof (cases "n = 0")
        case True
        with assms False s Inr m have "c' = c1" "res = Inr None" by (auto simp: redis_renew_def Let_def)
        with law True m same show ?thesis by (auto split: option.splits if_splits)
      next
        case n: False
        with assms False s Inr m have "c' = c1" "\<exists>l. res = Inr (Some l) \<and> lease_token l = k"
          by (auto simp: redis_renew_def Let_def)
        with law n m False renewed show ?thesis by (auto split: option.splits if_splits)
      qed
    qed
  qed
qed

end

lemma holder_of_value [simp]:
  "holder_of (Some (lease_value ow k, Some x)) = Some (ow, k, end_of_ms x)"
  "holder_of None = None"
  by (simp_all add: holder_of_def)

lemma holder_fun_upd: "(\<lambda>r'. holder_of ((f(lease_key pre r := h)) (lease_key pre r'))) =
    (\<lambda>r'. holder_of (f (lease_key pre r')))(r := holder_of h)"
  by (simp add: fun_eq_iff)

text \<open>\<open>clock c\<close> is the time at which the server gets a release.\<close>

sublocale redis_server \<subseteq> leases: lease_fencing "redis_acquire R pre lag" "redis_renew R pre lag"
    "\<lambda>r ow k c. redis_release R pre (clock c) r ow k c" "redis_holder content pre" redis_until redis_extended
    "redis_issued content pre" "redis_uncounted content pre" for pre lag clock
proof (unfold_locales, goal_cases)
  case (1 now r ow ttl s l s')
  show ?case using 1
  proof (cases rule: acquire_cases)
    case (set n d)
    then have "redis_holder content pre s' = (\<lambda>r'. holder_of (content d (lease_key pre r')))
        (trim_space r \<mapsto> (trim_space ow, lease_token l, redis_until now ttl))"
      by (auto simp: redis_holder_def holder_fun_upd redis_until_def fun_eq_iff)
    moreover have e: "content d (lease_key pre r') = content (cn_db s) (lease_key pre r')" for r'
      using incr_content(1) [OF set(3)] by simp
    ultimately show ?thesis using set not_seen [of now d "lease_key pre (trim_space r)"]
      by (auto simp: redis_holder_def fun_eq_iff)
  qed simp_all
next
  case (2 now r ow ttl s s')
  show ?case using 2
  proof (cases rule: acquire_cases)
    case (counted n d)
    with incr_content(1) [OF counted(3)] show ?thesis by (simp add: redis_holder_def fun_eq_iff)
  qed auto
next
  case (3 now r ow ttl s err s')
  show ?case using 3
  proof (cases rule: acquire_cases)
    case (unchanged e)
    then show ?thesis by (simp add: redis_holder_def fun_eq_iff)
  next
    case (counted n d)
    with incr_content(1) [OF counted(3)] show ?thesis by (simp add: redis_holder_def fun_eq_iff)
  next
    case (set n d)
    have e: "content d (lease_key pre r') = content (cn_db s) (lease_key pre r')" for r'
      using incr_content(1) [OF set(3)] by simp
    with set not_seen [of now d "lease_key pre (trim_space r)"] show ?thesis
      by (intro disjI2) (auto simp: redis_holder_def fun_eq_iff)
  qed
next
  case (4 now r ow k ttl s l s')
  show ?case using 4
  proof (cases rule: renew_cases)
    case (renewed x)
    from live_Some [OF renewed(1)] renewed(2-) show ?thesis
      by (auto simp: redis_holder_def holder_fun_upd redis_extended_def holder_of_def split: if_splits)
  qed simp_all
next
  case (5 now r ow k ttl s res s')
  show ?case using 5(1)
  proof (cases rule: renew_cases)
    case same
    then show ?thesis by (simp add: redis_holder_def fun_eq_iff)
  next
    case (renewed x)
    from live_Some [OF renewed(1)] renewed(2-) 5(2) show ?thesis
      by (intro disjI2) (auto simp: redis_holder_def holder_fun_upd redis_extended_def holder_of_def)
  qed
next
  case (6 r ow k s q s')
  from release_content [OF this] show ?case
    by (auto simp: redis_holder_def holder_fun_upd holder_of_def fun_eq_iff)
next
  case (7 s r now ow ttl l s')
  then obtain n where n: "counted (content (cn_db s) (seq_key pre (trim_space r))) n"
    by (auto simp: redis_uncounted_def)
  show ?case using 7(2)
  proof (cases rule: acquire_cases)
    case (set m d)
    from incr_content(2) [OF set(3) n] have m: "m = n + 1" "counted (content d (seq_key pre (trim_space r))) m"
      by simp_all
    have l: "lease_token l = of_int m" using set by auto
    have b: "int64 m" "0 < m" using counted_int64 [OF m(2)] counted_int64 [OF n] m(1) by auto
    have "of_int m \<noteq> (of_int j :: 64 word)" if "0 \<le> j" "j \<le> n" for j
      using token_inject [of j m] that b m(1) by (auto simp: int64_def)
    note fresh = this
    have "lease_token l \<noteq> 0" using fresh [of 0] l counted_int64 [OF n] by simp
    moreover have "lease_token l \<notin> redis_issued content pre s (trim_space r)"
    proof
      assume "lease_token l \<in> redis_issued content pre s (trim_space r)"
      then obtain n' j where j: "counted (content (cn_db s) (seq_key pre (trim_space r))) n'" "0 < j" "j \<le> n'"
        "lease_token l = of_int j" by (auto simp: redis_issued_def)
      with counted_unique [OF n] have "j \<le> n" by blast
      with fresh [of j] j(2,4) l show False by simp
    qed
    moreover have "lease_token l \<in> redis_issued content pre s' (trim_space r)"
      using set m(2) l b by (auto simp: redis_issued_def)
    ultimately show ?thesis by simp
  qed simp_all
next
  case (8 s r r' now ow ttl)
  then obtain n where n: "counted (content (cn_db s) (seq_key pre (trim_space r))) n"
    by (auto simp: redis_uncounted_def)
  have grows: "redis_issued content pre s r' \<subseteq> redis_issued content pre c r'"
    if "rd_incr R t (seq_key pre (trim_space r)) (cn_db s) = (m, d)"
      "\<And>x. content (cn_db c) (seq_key pre x) = content d (seq_key pre x)" for c t m d
  proof (cases "r' = trim_space r")
    case True
    with incr_content(2) [OF that(1) n] that(2) n counted_unique [OF n] show ?thesis
      by (fastforce simp: redis_issued_def split: sum.splits)
  next
    case False
    with incr_content(1) [OF that(1)] that(2) show ?thesis by (auto simp: redis_issued_def)
  qed
  obtain res c where q: "redis_acquire R pre lag now r ow ttl s = (res, c)" by fastforce
  then show ?case
  proof (cases rule: acquire_cases)
    case (unchanged e)
    with q show ?thesis by (simp add: redis_issued_def)
  next
    case (counted m d)
    with q grows show ?thesis by simp
  next
    case (set m d)
    with q grows [OF set(3)] show ?thesis by simp
  qed
next
  case (9 now r ow k ttl s)
  obtain res s' where q: "redis_renew R pre lag now r ow k ttl s = (res, s')" by fastforce
  then have e: "snd (redis_renew R pre lag now r ow k ttl s) = s'" by simp
  from q show ?case unfolding e by (cases rule: renew_cases) (simp_all add: redis_issued_def fun_eq_iff)
next
  case (10 r ow k s)
  obtain res s' where q: "redis_release R pre (clock s) r ow k s = (res, s')" by fastforce
  from release_content [OF q] q show ?case by (auto simp: redis_issued_def fun_eq_iff)
qed

context redis_server
begin

lemma lease_excludes:
  assumes "redis_acquire R pre lag t r ow ttl c = (Inr (Some l), c1)"
    and "\<forall>oper\<in>set ops. undisturbed_by redis_extended (trim_space r) (trim_space ow) (lease_token l) (redis_until t ttl) T oper"
    and "T < redis_until t ttl" "now < redis_until t ttl" "trim_space r' = trim_space r"
  shows "\<forall>l'. fst (redis_acquire R pre lag now r' ow' ttl'
        (lease_run (redis_acquire R pre lag) (redis_renew R pre lag)
          (\<lambda>r ow k c. redis_release R pre (clock c) r ow k c) ops c1)) \<noteq> Inr (Some l')"
proof -
  obtain res c2 where q: "redis_acquire R pre lag now r' ow' ttl'
        (lease_run (redis_acquire R pre lag) (redis_renew R pre lag)
          (\<lambda>r ow k c. redis_release R pre (clock c) r ow k c) ops c1) = (res, c2)" by fastforce
  from leases.exclusive [OF assms(1-4) q assms(5)] q show ?thesis by simp
qed

lemma lease_told:
  assumes "redis_acquire R pre lag t r ow ttl c = (Inr (Some l), c1)" "default_lease_ttl ttl mod millisecond = 0"
  shows "lease_expires l - lag \<le> redis_until t ttl"
proof -
  have "lease_expires l - lag = t + default_lease_ttl ttl" using assms(1) by (cases rule: acquire_cases) auto
  with whole_ms_until [OF assms(2), of t] show ?thesis by (simp add: redis_until_def)
qed

lemmas lease_fences = leases.stale_token_powerless
lemmas node_granted = leases.try_acquire_grants
lemmas node_not_held = leases.try_acquire_not_held

end

section \<open>Properties\<close>

text \<open>C8: the lease manager on Redis excludes too. On any server that keeps Redis's documented
  behaviour, once a lease is granted no acquisition of its resource succeeds before the key expires,
  by any owner and any instance, whatever operations happen in between and whichever requests and
  answers are lost on the way; and with a time to live in whole milliseconds that is not before the
  expiry the holder is told, but for the delay with which it reads its clock.\<close>

theorem redis_lease_exclusive:
  assumes "redis_server R content"
    and "redis_acquire R pre lag t r ow ttl c = (Inr (Some l), c1)"
    and "\<forall>oper\<in>set ops. undisturbed_by redis_extended (trim_space r) (trim_space ow) (lease_token l) (redis_until t ttl) T oper"
    and "T < redis_until t ttl" "now < redis_until t ttl" "trim_space r' = trim_space r"
  shows "(\<forall>l'. fst (redis_acquire R pre lag now r' ow' ttl'
        (lease_run (redis_acquire R pre lag) (redis_renew R pre lag)
          (\<lambda>r ow k c. redis_release R pre (clock c) r ow k c) ops c1)) \<noteq> Inr (Some l'))
    \<and> (default_lease_ttl ttl mod millisecond = 0 \<longrightarrow> lease_expires l - lag \<le> redis_until t ttl)"
  using redis_server.lease_excludes [OF assms] redis_server.lease_told [OF assms(1,2)] by blast

text \<open>A server without faults: an acquisition, and others between it and its expiry.\<close>

abbreviation fresh_redis :: "(gostr \<Rightarrow> redis_entry option) connection" where
  "fresh_redis \<equiv> \<lparr>cn_db = Map.empty, cn_faults = []\<rparr>"

theorem redis_lease_exclusive_witness:
  "\<forall>l'. fst (redis_acquire mem_redis ''p'' 0 9000000 ''n'' ''b'' (90 * second)
      (lease_run (redis_acquire mem_redis ''p'' 0) (redis_renew mem_redis ''p'' 0)
        (\<lambda>r ow k c. redis_release mem_redis ''p'' 0 r ow k c)
        [Acquire 3 ''n'' ''b'' second, Release ''n'' ''b'' 1]
        (snd (redis_acquire mem_redis ''p'' 0 0 ''n'' ''a'' (90 * second) fresh_redis)))) \<noteq> Inr (Some l')"
proof -
  have a: "redis_acquire mem_redis ''p'' 0 0 ''n'' ''a'' (90 * second) fresh_redis =
      (Inr (Some \<lparr>lease_token = 1, lease_expires = 90 * second\<rparr>),
       snd (redis_acquire mem_redis ''p'' 0 0 ''n'' ''a'' (90 * second) fresh_redis))" (is "?a = (?l, _)")
  proof -
    have "fst ?a = ?l" by code_simp
    then show ?thesis by (metis prod.collapse)
  qed
  have u: "redis_until 0 90000000000 = 90001000000" by code_simp
  have t: "trim_space ''n'' = ''n''" "trim_space ''a'' = ''a''" "trim_space ''b'' = ''b''"
    by (simp_all add: plain_ends_def plain_char_def)
  show ?thesis
    by (rule redis_lease_exclusive [OF mem.redis_server_axioms a, where T = 8, THEN conjunct1]) (simp_all add: u t)
qed

text \<open>A renewal to less than a millisecond is granted and frees the resource: the script sends
  \<open>PEXPIRE\<close> with 0, which deletes the key.\<close>

lemma tiny_renewal_releases:
  "let c1 = snd (redis_acquire mem_redis ''p'' 0 0 ''n'' ''a'' (90 * second) fresh_redis);
       (res, c2) = redis_renew mem_redis ''p'' 0 5 ''n'' ''a'' 1 999999 c1
   in res = Inr (Some \<lparr>lease_token = 1, lease_expires = 1000004\<rparr>) \<and> redis_holder (\<lambda>d. d) ''p'' c2 ''n'' = None"
  by code_simp

end
