(* ===== verification/Idempotency.thy ===== *)
theory Idempotency
  imports Prelude
begin

text \<open>
  Idempotency records, \<open>internal/idempotency\<close>: the in-memory store of responses and claims,
  and the contract \<open>idempotency.Store\<close> gives the HTTP layer as the locale
  \<open>idempotency_store\<close>. The SHA-256 hex digest of a string (\<open>crypto/sha256\<close>,
  \<open>encoding/hex\<close>) is the parameter \<open>digest\<close>. The body of a response, bytes in Go, is of any
  type: the store never looks into it. The copies of bodies and headers
  (\<open>cloneHeaders\<close>) protect the stored value from later mutation; a HOL value needs none.
\<close>

record 'b idem_entry =
  ie_status :: int
  ie_content_type :: gostr
  ie_headers :: "gostr \<rightharpoonup> gostr list"
  ie_body :: 'b

record 'b memory_item =
  mi_entry :: "'b idem_entry"
  mi_expires :: go_time

record claim_item =
  cl_owner :: gostr
  cl_expires :: go_time

record 'b idem_state =
  is_items :: "gostr \<rightharpoonup> 'b memory_item"
  is_claims :: "gostr \<rightharpoonup> claim_item"

definition new_idem_store :: "'b idem_state" where
  "new_idem_store = \<lparr>is_items = Map.empty, is_claims = Map.empty\<rparr>"

definition normalize_compound_key :: "(gostr \<Rightarrow> gostr) \<Rightarrow> gostr \<Rightarrow> gostr \<Rightarrow> go_error + gostr" where
  "normalize_compound_key digest scop ky =
     (let scope = trim_space scop; key = trim_space ky in
      if scope = [] then Inl (new_error ''scope is required'')
      else if key = [] then Inl (new_error ''key is required'')
      else Inr (scope @ '':'' @ digest (scope @ ''|'' @ key)))"

definition idem_get ::
  "(gostr \<Rightarrow> gostr) \<Rightarrow> go_time \<Rightarrow> gostr \<Rightarrow> gostr \<Rightarrow> 'b idem_state \<Rightarrow>
     (go_error + 'b idem_entry option) \<times> 'b idem_state" where
  "idem_get digest now scope key s =
     (case normalize_compound_key digest scope key of
        Inl e \<Rightarrow> (Inl e, s)
      | Inr compound \<Rightarrow>
          (case is_items s compound of
             None \<Rightarrow> (Inr None, s)
           | Some item \<Rightarrow>
               if mi_expires item \<noteq> zero_time \<and> mi_expires item < now
               then (Inr None, s\<lparr>is_items := (is_items s)(compound := None)\<rparr>)
               else (Inr (Some (mi_entry item)), s)))"

definition default_claim_ttl :: "duration \<Rightarrow> duration" where
  "default_claim_ttl ttl = (if ttl \<le> 0 then 30 * second else ttl)"

definition default_save_ttl :: "duration \<Rightarrow> duration" where
  "default_save_ttl ttl = (if ttl \<le> 0 then 24 * 3600 * second else ttl)"

definition idem_claim ::
  "(gostr \<Rightarrow> gostr) \<Rightarrow> go_time \<Rightarrow> gostr \<Rightarrow> gostr \<Rightarrow> gostr \<Rightarrow> duration \<Rightarrow> 'b idem_state \<Rightarrow>
     (go_error + bool) \<times> 'b idem_state" where
  "idem_claim digest now scope key own ttl s =
     (case normalize_compound_key digest scope key of
        Inl e \<Rightarrow> (Inl e, s)
      | Inr compound \<Rightarrow>
          let owner = trim_space own in
          if owner = [] then (Inl (new_error ''owner is required''), s)
          else if (case is_claims s compound of
                     Some existing \<Rightarrow> now < cl_expires existing | None \<Rightarrow> False)
          then (Inr False, s)
          else (Inr True, s\<lparr>is_claims := (is_claims s)(compound \<mapsto>
                  \<lparr>cl_owner = owner, cl_expires = now + default_claim_ttl ttl\<rparr>)\<rparr>))"

definition idem_save ::
  "(gostr \<Rightarrow> gostr) \<Rightarrow> go_time \<Rightarrow> gostr \<Rightarrow> gostr \<Rightarrow> 'b idem_entry \<Rightarrow> duration \<Rightarrow> 'b idem_state \<Rightarrow>
     (go_error + unit) \<times> 'b idem_state" where
  "idem_save digest now scope key entry ttl s =
     (case normalize_compound_key digest scope key of
        Inl e \<Rightarrow> (Inl e, s)
      | Inr compound \<Rightarrow>
          (Inr (), s\<lparr>is_items := (is_items s)(compound \<mapsto>
             \<lparr>mi_entry = entry, mi_expires = now + default_save_ttl ttl\<rparr>)\<rparr>))"

definition idem_release ::
  "(gostr \<Rightarrow> gostr) \<Rightarrow> gostr \<Rightarrow> gostr \<Rightarrow> gostr \<Rightarrow> 'b idem_state \<Rightarrow> (go_error + unit) \<times> 'b idem_state" where
  "idem_release digest scope key own s =
     (case normalize_compound_key digest scope key of
        Inl e \<Rightarrow> (Inl e, s)
      | Inr compound \<Rightarrow>
          let owner = trim_space own in
          if owner = [] then (Inl (new_error ''owner is required''), s)
          else case is_claims s compound of
              None \<Rightarrow> (Inr (), s)
            | Some existing \<Rightarrow>
                if cl_owner existing \<noteq> owner then (Inr (), s)
                else (Inr (), s\<lparr>is_claims := (is_claims s)(compound := None)\<rparr>))"

section \<open>The contract of a store\<close>

text \<open>
  For one scope and key, \<open>saved s\<close> is what reading the stored response gives, with the time until
  which it is served, \<open>claimed s\<close> the owner of the claim with the time until which it excludes others; a store
  may keep durations longer, \<open>exact\<close> are those that it does not cut short. First what keeps claims
  apart, even where an operation that fails may have been carried out.
\<close>

locale claim_safety =
  fixes get :: "go_time \<Rightarrow> gostr \<Rightarrow> gostr \<Rightarrow> 's \<Rightarrow> (go_error + 'b idem_entry option) \<times> 's"
    and claim :: "go_time \<Rightarrow> gostr \<Rightarrow> gostr \<Rightarrow> gostr \<Rightarrow> duration \<Rightarrow> 's \<Rightarrow> (go_error + bool) \<times> 's"
    and save :: "go_time \<Rightarrow> gostr \<Rightarrow> gostr \<Rightarrow> 'b idem_entry \<Rightarrow> duration \<Rightarrow> 's \<Rightarrow> (go_error + unit) \<times> 's"
    and release :: "gostr \<Rightarrow> gostr \<Rightarrow> gostr \<Rightarrow> 's \<Rightarrow> (go_error + unit) \<times> 's"
    and claimed :: "gostr \<Rightarrow> gostr \<Rightarrow> 's \<Rightarrow> (gostr \<times> go_time) option"
    and exact :: "duration \<Rightarrow> bool"
  assumes get_claimed: "claimed sc' ky' (snd (get now sc ky s)) = claimed sc' ky' s"
    and claim_sets: "claim now sc ky ow ttl s = (Inr True, s') \<Longrightarrow> exact (default_claim_ttl ttl) \<Longrightarrow>
      \<exists>x. claimed sc ky s' = Some (trim_space ow, x) \<and> now + default_claim_ttl ttl \<le> x"
    and claim_holds: "claimed sc' ky' s = Some (ow', x) \<Longrightarrow> now < x \<Longrightarrow>
      claimed sc' ky' (snd (claim now sc ky ow ttl s)) = claimed sc' ky' s"
    and save_claimed: "claimed sc' ky' (snd (save now sc ky en ttl s)) = claimed sc' ky' s"
    and release_other: "claimed sc ky s = Some (ow', x) \<Longrightarrow> ow' \<noteq> trim_space ow \<Longrightarrow>
      claimed sc ky (snd (release sc' ky' ow s)) = claimed sc ky s"

text \<open>A store that answers: what is stored is served, what is free can be claimed; a \<open>storable\<close> response
  is read as it was written. In a \<open>sound\<close> state everything stored and claimed has an end.\<close>

locale idempotency_core = claim_safety get claim save release claimed exact
  for get :: "go_time \<Rightarrow> gostr \<Rightarrow> gostr \<Rightarrow> 's \<Rightarrow> (go_error + 'b idem_entry option) \<times> 's"
    and claim save release claimed exact +
  fixes saved :: "gostr \<Rightarrow> gostr \<Rightarrow> 's \<Rightarrow> ((go_error + 'b idem_entry) \<times> go_time) option"
    and storable :: "'b idem_entry \<Rightarrow> bool"
    and sound :: "'s \<Rightarrow> bool"
  assumes get_hit: "\<not> blank sc \<Longrightarrow> \<not> blank ky \<Longrightarrow> saved sc ky s = Some (reading, x) \<Longrightarrow> now \<le> x \<Longrightarrow>
      get now sc ky s = (map_sum id Some reading, s)"
    and get_sound: "sound s \<Longrightarrow> sound (snd (get now sc ky s))"
    and get_miss: "sound s \<Longrightarrow> \<not> blank sc \<Longrightarrow> \<not> blank ky \<Longrightarrow>
      (\<forall>reading x. saved sc ky s = Some (reading, x) \<longrightarrow> x < now \<and> x \<noteq> zero_time) \<Longrightarrow>
      fst (get now sc ky s) = Inr None"
    and get_saved: "saved sc' ky' s = None \<Longrightarrow> saved sc' ky' (snd (get now sc ky s)) = None"
    and claim_free: "sound s \<Longrightarrow> \<not> blank sc \<Longrightarrow> \<not> blank ky \<Longrightarrow> \<not> blank ow \<Longrightarrow>
      (\<forall>ow' x. claimed sc ky s = Some (ow', x) \<longrightarrow> x \<le> now) \<Longrightarrow>
      fst (claim now sc ky ow ttl s) = Inr True"
    and claim_busy: "\<not> blank sc \<Longrightarrow> \<not> blank ky \<Longrightarrow> \<not> blank ow \<Longrightarrow>
      claimed sc ky s = Some (ow', x) \<Longrightarrow> now < x \<Longrightarrow> fst (claim now sc ky ow ttl s) = Inr False"
    and claim_saved: "saved sc' ky' (snd (claim now sc ky ow ttl s)) = saved sc' ky' s"
    and save_sets: "\<not> blank sc \<Longrightarrow> \<not> blank ky \<Longrightarrow> exact (default_save_ttl ttl) \<Longrightarrow> storable en \<Longrightarrow>
      \<exists>x. saved sc ky (snd (save now sc ky en ttl s)) = Some (Inr en, x) \<and> now + default_save_ttl ttl \<le> x"
    and release_saved: "saved sc' ky' (snd (release sc ky ow s)) = saved sc' ky' s"

text \<open>A store whose claims only end by their release or another claim.\<close>

locale idempotency_store = idempotency_core get claim save release claimed "\<lambda>_. True" saved "\<lambda>_. True" "\<lambda>_. True"
  for get :: "go_time \<Rightarrow> gostr \<Rightarrow> gostr \<Rightarrow> 's \<Rightarrow> (go_error + 'b idem_entry option) \<times> 's"
    and claim save release claimed saved +
  assumes release_own: "\<not> blank sc \<Longrightarrow> \<not> blank ky \<Longrightarrow> \<not> blank ow \<Longrightarrow>
      claimed sc ky s = Some (trim_space ow, x) \<Longrightarrow> claimed sc ky (snd (release sc ky ow s)) = None"

definition compound_of :: "(gostr \<Rightarrow> gostr) \<Rightarrow> gostr \<Rightarrow> gostr \<Rightarrow> gostr" where
  "compound_of digest scope key =
     trim_space scope @ '':'' @ digest (trim_space scope @ ''|'' @ trim_space key)"

lemma normalize_valid: "\<not> blank sc \<Longrightarrow> \<not> blank ky \<Longrightarrow>
    normalize_compound_key digest sc ky = Inr (compound_of digest sc ky)"
  by (simp add: normalize_compound_key_def compound_of_def Let_def)

lemma normalize_cases:
  obtains (err) e where "normalize_compound_key digest sc ky = Inl e"
  | (ok) "\<not> blank sc" "\<not> blank ky" "normalize_compound_key digest sc ky = Inr (compound_of digest sc ky)"
  by (cases "blank sc"; cases "blank ky")
     (simp_all add: normalize_compound_key_def compound_of_def Let_def)

definition idem_saved :: "(gostr \<Rightarrow> gostr) \<Rightarrow> gostr \<Rightarrow> gostr \<Rightarrow> 'b idem_state \<Rightarrow>
    ((go_error + 'b idem_entry) \<times> go_time) option" where
  "idem_saved digest sc ky s =
     map_option (\<lambda>i. (Inr (mi_entry i), mi_expires i)) (is_items s (compound_of digest sc ky))"

definition idem_claimed :: "(gostr \<Rightarrow> gostr) \<Rightarrow> gostr \<Rightarrow> gostr \<Rightarrow> 'b idem_state \<Rightarrow> (gostr \<times> go_time) option" where
  "idem_claimed digest sc ky s =
     map_option (\<lambda>c. (cl_owner c, cl_expires c)) (is_claims s (compound_of digest sc ky))"

interpretation mem_idem: idempotency_store "idem_get digest" "idem_claim digest" "idem_save digest"
    "idem_release digest" "idem_claimed digest" "idem_saved digest" for digest
proof (unfold_locales, goal_cases)
  case (1 sc' ky' now sc ky s)
  show ?case by (auto simp: idem_get_def idem_claimed_def split: sum.splits option.splits)
next
  case (2 now sc ky ow ttl s s')
  then show ?case
    by (cases rule: normalize_cases [of digest sc ky])
       (auto simp: idem_claim_def idem_claimed_def Let_def split: if_splits)
next
  case (3 sc' ky' s ow' x now sc ky ow ttl)
  then show ?case
    by (auto simp: idem_claim_def idem_claimed_def Let_def split: sum.splits)
next
  case (4 sc' ky' now sc ky en ttl s)
  show ?case by (auto simp: idem_save_def idem_claimed_def split: sum.splits)
next
  case (5 sc ky s ow' x ow sc' ky')
  then show ?case
    by (cases rule: normalize_cases [of digest sc' ky'])
       (auto simp: idem_release_def idem_claimed_def Let_def split: option.splits)
next
  case (6 sc ky s reading x now)
  then show ?case by (auto simp: idem_get_def normalize_valid idem_saved_def)
next
  case (7 s now sc ky)
  show ?case by simp
next
  case (8 s sc ky now)
  then show ?case by (auto simp: idem_get_def normalize_valid idem_saved_def split: option.splits)
next
  case (9 sc' ky' s now sc ky)
  then show ?case by (auto simp: idem_get_def idem_saved_def split: sum.splits option.splits)
next
  case (10 s sc ky ow now ttl)
  then show ?case by (auto simp: idem_claim_def normalize_valid idem_claimed_def Let_def split: option.splits)
next
  case (11 sc ky ow s ow' x now ttl)
  then show ?case by (auto simp: idem_claim_def normalize_valid idem_claimed_def Let_def)
next
  case (12 sc' ky' now sc ky ow ttl s)
  show ?case by (auto simp: idem_claim_def idem_saved_def Let_def split: sum.splits)
next
  case (13 sc ky ttl en now s)
  then show ?case by (simp add: idem_save_def normalize_valid idem_saved_def)
next
  case (14 sc' ky' sc ky ow s)
  show ?case by (auto simp: idem_release_def idem_saved_def Let_def split: sum.splits option.splits)
next
  case (15 sc ky ow s x)
  then show ?case by (auto simp: idem_release_def normalize_valid idem_claimed_def Let_def)
qed

section \<open>Properties\<close>

text \<open>Keys do not collide. If the digest has a fixed length (as SHA-256 hex has, 64) and does
  not collide on the two digested texts, then two requests share a stored response only when
  scope and key agree up to surrounding white space, although the digested text
  scope|key alone is ambiguous.\<close>

lemma compound_key_injective:
  assumes "\<And>x. length (digest x) = 64"
    and "digest (trim_space sc @ ''|'' @ trim_space ky) = digest (trim_space sc' @ ''|'' @ trim_space ky')
      \<Longrightarrow> trim_space sc @ ''|'' @ trim_space ky = trim_space sc' @ ''|'' @ trim_space ky'"
    and "normalize_compound_key digest sc ky = Inr c" "normalize_compound_key digest sc' ky' = Inr c"
  shows "trim_space sc = trim_space sc' \<and> trim_space ky = trim_space ky'"
proof -
  have "c = compound_of digest sc ky" "c = compound_of digest sc' ky'"
    using assms(3,4) by (auto simp: normalize_compound_key_def compound_of_def Let_def split: if_splits)
  then have c: "trim_space sc @ '':'' @ digest (trim_space sc @ ''|'' @ trim_space ky) =
      trim_space sc' @ '':'' @ digest (trim_space sc' @ ''|'' @ trim_space ky')"
    by (simp add: compound_of_def)
  have l: "length ('':'' @ digest (trim_space sc @ ''|'' @ trim_space ky)) =
      length ('':'' @ digest (trim_space sc' @ ''|'' @ trim_space ky'))"
    by (simp add: assms(1))
  note A = iffD1 [OF append_eq_append_conv [OF disjI2 [OF l]] c]
  have sc: "trim_space sc = trim_space sc'" by (rule conjunct1 [OF A])
  have d: "digest (trim_space sc @ ''|'' @ trim_space ky) = digest (trim_space sc' @ ''|'' @ trim_space ky')"
    using conjunct2 [OF A] by (simp only: append_Cons append_Nil list.inject)
  from assms(2) [OF d] sc show ?thesis by simp
qed

lemma compound_key_injective_at_work:
  "let digest = (\<lambda>x. take 64 (x @ replicate 64 (CHR ''0''))) in
   normalize_compound_key digest '' tasks:create '' ''k'' = normalize_compound_key digest ''tasks:create'' ''k ''
   \<and> trim_space '' tasks:create '' = trim_space ''tasks:create'' \<and> trim_space ''k'' = trim_space ''k ''"
proof -
  let ?digest = "\<lambda>x. take 64 (x @ replicate 64 (CHR ''0''))"
  have t: "trim_space '' tasks:create '' = ''tasks:create''" "trim_space ''k '' = ''k''"
    "trim_space ''tasks:create'' = ''tasks:create''" "trim_space ''k'' = ''k''"
    by code_simp+
  then have n: "normalize_compound_key ?digest '' tasks:create '' ''k'' = Inr (compound_of ?digest ''tasks:create'' ''k'')"
    "normalize_compound_key ?digest ''tasks:create'' ''k '' = Inr (compound_of ?digest ''tasks:create'' ''k'')"
    by (simp_all add: normalize_compound_key_def compound_of_def)
  have "trim_space '' tasks:create '' = trim_space ''tasks:create'' \<and> trim_space ''k'' = trim_space ''k ''"
    by (rule compound_key_injective [OF _ _ n]) (simp_all add: t)
  with n show ?thesis by (simp add: Let_def)
qed

end
