(* ===== verification/Sessions.thy ===== *)
theory Sessions
  imports Prelude
begin

text \<open>
  Sessions, \<open>internal/session/service.go\<close>: the in-memory service. The atomic counter only
  grows, so it is a natural number; an identifier is \<open>sess_\<close> and the counter in at least six
  digits.
\<close>

datatype session_status = SessionReady

datatype session_error = TenantRequired | SessionNotFound

fun session_error_text :: "session_error \<Rightarrow> gostr" where
  "session_error_text TenantRequired = ''tenant_id is required''"
| "session_error_text SessionNotFound = ''session not found''"

record session =
  se_id :: gostr
  se_tenant :: gostr
  se_status :: session_status
  se_created :: go_time

record session_state =
  ss_counter :: nat
  ss_items :: "gostr \<rightharpoonup> session"

definition new_sessions :: session_state where
  "new_sessions = \<lparr>ss_counter = 0, ss_items = Map.empty\<rparr>"

definition session_id_of :: "nat \<Rightarrow> gostr" where
  "session_id_of n = ''sess_'' @ fmt_0d 6 n"

definition session_create ::
  "go_time \<Rightarrow> gostr \<Rightarrow> session_state \<Rightarrow> (session_error + session) \<times> session_state" where
  "session_create now tenant s =
     (if tenant = [] then (Inl TenantRequired, s)
      else
        let n = Suc (ss_counter s);
            created = \<lparr>se_id = session_id_of n, se_tenant = tenant,
                       se_status = SessionReady, se_created = now\<rparr>
        in (Inr created,
            \<lparr>ss_counter = n, ss_items = (ss_items s)(se_id created \<mapsto> created)\<rparr>))"

definition session_delete ::
  "gostr \<Rightarrow> session_state \<Rightarrow> (session_error + unit) \<times> session_state" where
  "session_delete sid s =
     (case ss_items s sid of
        None \<Rightarrow> (Inl SessionNotFound, s)
      | Some _ \<Rightarrow> (Inr (), s\<lparr>ss_items := (ss_items s)(sid := None)\<rparr>))"

definition session_get :: "gostr \<Rightarrow> session_state \<Rightarrow> session_error + session" where
  "session_get sid s =
     (case ss_items s sid of None \<Rightarrow> Inl SessionNotFound | Some x \<Rightarrow> Inr x)"

text \<open>Every stored session sits under its own identifier, made from a counter value already
  used, so the next identifier is new.\<close>

definition sessions_inv :: "session_state \<Rightarrow> bool" where
  "sessions_inv s \<longleftrightarrow> (\<forall>sid x. ss_items s sid = Some x \<longrightarrow>
     se_id x = sid \<and> se_tenant x \<noteq> [] \<and> (\<exists>n. 0 < n \<and> n \<le> ss_counter s \<and> sid = session_id_of n))"

lemma session_id_inject [simp]: "session_id_of m = session_id_of n \<longleftrightarrow> m = n"
  by (simp add: session_id_of_def)

lemma sessions_inv_new: "sessions_inv new_sessions"
  by (simp add: sessions_inv_def new_sessions_def)

lemma sessions_inv_create: "sessions_inv s \<Longrightarrow> sessions_inv (snd (session_create now tenant s))"
  by (auto simp: sessions_inv_def session_create_def Let_def) fastforce+

lemma sessions_inv_delete: "sessions_inv s \<Longrightarrow> sessions_inv (snd (session_delete sid s))"
  by (auto simp: sessions_inv_def session_delete_def split: option.splits if_splits)

text \<open>Creating a session never overwrites one. In every state the service can reach, the
  new identifier is unused, the new session is found under it and every other session is
  still found as before.\<close>

lemma session_create_fresh:
  assumes "sessions_inv s" "session_create now tenant s = (Inr x, s')"
  shows "ss_items s (se_id x) = None \<and> session_get (se_id x) s' = Inr x \<and> sessions_inv s'
    \<and> (\<forall>sid. sid \<noteq> se_id x \<longrightarrow> session_get sid s' = session_get sid s)"
proof -
  from assms(2) have x: "se_id x = session_id_of (Suc (ss_counter s))"
    "ss_items s' = (ss_items s)(se_id x \<mapsto> x)"
    by (auto simp: session_create_def Let_def split: if_splits)
  have "ss_items s (se_id x) = None"
  proof (rule ccontr)
    assume "ss_items s (se_id x) \<noteq> None"
    with assms(1) x obtain n where "n \<le> ss_counter s" "session_id_of (Suc (ss_counter s)) = session_id_of n"
      unfolding sessions_inv_def by fastforce
    then show False by simp
  qed
  moreover have "sessions_inv s'"
    using sessions_inv_create [OF assms(1), of now tenant] assms(2) by simp
  ultimately show ?thesis using x by (simp add: session_get_def)
qed

lemma session_create_fresh_at_work:
  "let (r, s) = session_create 5 ''acme'' new_sessions in
   ss_items new_sessions ''sess_000001'' = None \<and> session_get ''sess_000001'' s = r"
proof -
  have "session_id_of 1 = ''sess_000001''" by code_simp
  then have q: "session_create 5 ''acme'' new_sessions =
    (Inr \<lparr>se_id = ''sess_000001'', se_tenant = ''acme'', se_status = SessionReady, se_created = 5\<rparr>,
     snd (session_create 5 ''acme'' new_sessions))"
    by (simp add: session_create_def Let_def new_sessions_def)
  have "fst (session_create 5 ''acme'' new_sessions) =
    Inr \<lparr>se_id = ''sess_000001'', se_tenant = ''acme'', se_status = SessionReady, se_created = 5\<rparr>"
    by (subst q) simp
  with session_create_fresh [OF sessions_inv_new q] show ?thesis by (simp add: split_beta)
qed

end
