(* ===== verification/Http.thy ===== *)
theory Http
  imports Tasks Sessions Registry
begin

text \<open>
  HTTP as the API server uses it: requests, responses and \<open>pkg/httpx/json.go\<close>. A request is
  its method, path, remote address and the results of \<open>Header.Get\<close> and \<open>URL.Query().Get\<close>;
  its body stays text, which JSON decoders given to the handlers read. A response body is the
  value the handler encodes (\<open>payload\<close>) rather than its bytes, so the properties speak of
  tasks and errors; a file, the listing of a directory and the note of a redirect are named by
  their path. Every handler of the code writes its response once.
\<close>

record request =
  rq_method :: gostr
  rq_path :: gostr
  rq_header :: "gostr \<Rightarrow> gostr"
  rq_query :: "gostr \<Rightarrow> gostr"
  rq_remote :: gostr
  rq_body :: gostr

record task_stats =
  sx_limit :: int
  sx_fetched :: int
  sx_terminal :: int
  sx_blocked :: int
  sx_status_counts :: "gostr \<rightharpoonup> int"
  sx_blocker_counts :: "gostr \<rightharpoonup> int"
  sx_success_rate :: int
  sx_block_rate :: int

datatype payload =
    PEmpty
  | PText gostr
  | PError gostr gostr
  | PStatus gostr
  | PSession session
  | PTask "task option"
  | PTasks "task list"
  | PChain "task list" bool
  | PReplays gostr "task list"
  | PStats task_stats
  | PNode node
  | PNodes "node list"
  | PFile gostr
  | PListing gostr
  | PMoved gostr

record response =
  rs_status :: int
  rs_headers :: "gostr \<rightharpoonup> gostr list"
  rs_body :: payload

definition header_get :: "(gostr \<rightharpoonup> gostr list) \<Rightarrow> gostr \<Rightarrow> gostr" where
  "header_get h k = (case h k of Some (v # vs) \<Rightarrow> v | _ \<Rightarrow> [])"

definition write_json :: "(gostr \<rightharpoonup> gostr list) \<Rightarrow> int \<Rightarrow> payload \<Rightarrow> response" where
  "write_json h status value =
     \<lparr>rs_status = status, rs_headers = h(''Content-Type'' \<mapsto> [''application/json'']), rs_body = value\<rparr>"

definition write_error :: "(gostr \<rightharpoonup> gostr list) \<Rightarrow> int \<Rightarrow> gostr \<Rightarrow> gostr \<Rightarrow> response" where
  "write_error h status code message = write_json h status (PError code message)"

definition method_not_allowed :: response where
  "method_not_allowed = write_error Map.empty 405 ''method_not_allowed'' ''method not allowed''"

text \<open>\<open>http.NotFound\<close> and a bare \<open>WriteHeader\<close>.\<close>

definition http_not_found :: response where
  "http_not_found = \<lparr>rs_status = 404,
     rs_headers = [''Content-Type'' \<mapsto> [''text/plain; charset=utf-8''], ''X-Content-Type-Options'' \<mapsto> [''nosniff'']],
     rs_body = PText ''404 page not found''\<rparr>"

definition no_content :: response where
  "no_content = \<lparr>rs_status = 204, rs_headers = Map.empty, rs_body = PEmpty\<rparr>"

definition json_headers :: "gostr \<rightharpoonup> gostr list" where
  "json_headers = [''Content-Type'' \<mapsto> [''application/json'']]"

lemma response_sel [simp]:
  "rs_status (write_json h st v) = st" "rs_body (write_json h st v) = v"
  "rs_status (write_error h st c m) = st" "rs_body (write_error h st c m) = PError c m"
  "rs_headers (write_json h st v) = h(''Content-Type'' \<mapsto> [''application/json''])"
  by (simp_all add: write_error_def write_json_def)

end
