(* ===== verification/ApiIdempotency.thy ===== *)
theory ApiIdempotency
  imports Idempotency Http
begin

text \<open>
  Idempotent requests, \<open>internal/api/idempotency.go\<close>: a request with an \<open>Idempotency-Key\<close> is
  answered from the stored response, or claims its key, runs, and stores its response. The
  handler is generic in the store (any provider of the contract \<open>idempotency_store\<close>) and in what
  it runs. First the handler as one request sees it, then the steps of several requests that
  interleave on one store.
\<close>

section \<open>The handler\<close>

text \<open>\<open>writeIdempotencyEntry\<close> and \<open>copyResponse\<close>, on the headers set before.\<close>

definition put_headers :: "(gostr \<rightharpoonup> gostr list) \<Rightarrow> (gostr \<rightharpoonup> gostr list) \<Rightarrow> gostr \<rightharpoonup> gostr list" where
  "put_headers h new = (\<lambda>k. case new k of
     None \<Rightarrow> h k | Some vs \<Rightarrow> if vs = [] then None else Some vs)"

definition status_or_ok :: "int \<Rightarrow> int" where
  "status_or_ok st = (if st \<le> 0 then 200 else st)"

definition write_entry :: "(gostr \<rightharpoonup> gostr list) \<Rightarrow> payload idem_entry \<Rightarrow> response" where
  "write_entry h en =
     (let h1 = put_headers h (ie_headers en);
          ct = trim_space (ie_content_type en)
      in \<lparr>rs_status = status_or_ok (ie_status en),
          rs_headers = (if ct \<noteq> [] then h1(''Content-Type'' \<mapsto> [ct]) else h1),
          rs_body = ie_body en\<rparr>)"

definition copy_response :: "(gostr \<rightharpoonup> gostr list) \<Rightarrow> response \<Rightarrow> response" where
  "copy_response h r = \<lparr>rs_status = status_or_ok (rs_status r), rs_headers = put_headers h (rs_headers r),
     rs_body = rs_body r\<rparr>"

definition entry_of_response :: "response \<Rightarrow> payload idem_entry" where
  "entry_of_response r = \<lparr>ie_status = rs_status r,
     ie_content_type = header_get (rs_headers r) ''Content-Type'', ie_headers = rs_headers r,
     ie_body = rs_body r\<rparr>"

definition idempotency_failed :: "go_error \<Rightarrow> response" where
  "idempotency_failed e = write_error Map.empty 500 ''idempotency_failed'' (err_text e)"

definition request_in_progress :: response where
  "request_in_progress = write_error Map.empty 409 ''request_in_progress''
     ''another request with this idempotency key is still in progress''"

text \<open>\<open>waitForIdempotentEntry\<close>: one look per tick (the first at once), each after what others
  did, until the four seconds are over.\<close>

type_synonym 's look = "go_time \<times> ('s \<Rightarrow> 's)"

primrec wait_for_entry ::
  "(go_time \<Rightarrow> gostr \<Rightarrow> gostr \<Rightarrow> 's \<Rightarrow> (go_error + payload idem_entry option) \<times> 's) \<Rightarrow> gostr \<Rightarrow> gostr \<Rightarrow>
     's look list \<Rightarrow> 's \<Rightarrow> (go_error + payload idem_entry) \<times> 's" where
  "wait_for_entry get scope key [] s = (Inl ctx_deadline_exceeded, s)"
| "wait_for_entry get scope key (l # ls) s =
     (case get (fst l) scope key (snd l s) of
        (Inl e, s1) \<Rightarrow> (Inl e, s1)
      | (Inr (Some en), s1) \<Rightarrow> (Inr en, s1)
      | (Inr None, s1) \<Rightarrow> wait_for_entry get scope key ls s1)"

record 's idem_call =
  ic_scope :: gostr
  ic_header :: gostr
  ic_uuid :: gostr
  ic_lock :: duration
  ic_ttl :: duration
  ic_clock :: "nat \<Rightarrow> go_time"
  ic_looks :: "'s look list"
  ic_meanwhile :: "'s \<Rightarrow> 's"

definition idem_owner :: "gostr \<Rightarrow> gostr" where
  "idem_owner uuid = ''idem-'' @ replace_all uuid (CHR ''-'') [] []"

text \<open>\<open>None\<close> is the result \<open>false\<close>: the request has no key and is not handled here. The store
  and the rest of the server's state are separate; while the request runs, others may use the
  store (\<open>ic_meanwhile\<close>).\<close>

definition handle_idempotent ::
  "(go_time \<Rightarrow> gostr \<Rightarrow> gostr \<Rightarrow> 's \<Rightarrow> (go_error + payload idem_entry option) \<times> 's) \<Rightarrow>
   (go_time \<Rightarrow> gostr \<Rightarrow> gostr \<Rightarrow> gostr \<Rightarrow> duration \<Rightarrow> 's \<Rightarrow> (go_error + bool) \<times> 's) \<Rightarrow>
   (go_time \<Rightarrow> gostr \<Rightarrow> gostr \<Rightarrow> payload idem_entry \<Rightarrow> duration \<Rightarrow> 's \<Rightarrow> (go_error + unit) \<times> 's) \<Rightarrow>
   (gostr \<Rightarrow> gostr \<Rightarrow> gostr \<Rightarrow> 's \<Rightarrow> (go_error + unit) \<times> 's) \<Rightarrow>
   's idem_call \<Rightarrow> ('w \<Rightarrow> response \<times> 'w) \<Rightarrow> 's \<times> 'w \<Rightarrow> response option \<times> 's \<times> 'w" where
  "handle_idempotent get claim save release c execute sw =
     (let (s, w) = sw; key = trim_space (ic_header c); scope = ic_scope c in
      if key = [] then (None, s, w)
      else
        case get (ic_clock c 0) scope key s of
          (Inl e, s1) \<Rightarrow> (Some (idempotency_failed e), s1, w)
        | (Inr (Some cached), s1) \<Rightarrow> (Some (write_entry Map.empty cached), s1, w)
        | (Inr None, s1) \<Rightarrow>
            let owner = idem_owner (ic_uuid c) in
            (case claim (ic_clock c 1) scope key owner (ic_lock c) s1 of
               (Inl e, s2) \<Rightarrow> (Some (idempotency_failed e), s2, w)
             | (Inr False, s2) \<Rightarrow>
                 (case wait_for_entry get scope key (ic_looks c) s2 of
                    (Inl e, s3) \<Rightarrow> (Some request_in_progress, s3, w)
                  | (Inr en, s3) \<Rightarrow> (Some (write_entry Map.empty en), s3, w))
             | (Inr True, s2) \<Rightarrow>
                 let (r, w1) = execute w;
                     s3 = ic_meanwhile c s2;
                     s4 = (if rs_status r < 500
                           then snd (save (ic_clock c 2) scope key (entry_of_response r) (ic_ttl c) s3)
                           else s3);
                     s5 = snd (release scope key owner s4)
                 in (Some (copy_response Map.empty r), s5, w1)))"

section \<open>What the contract of the store gives one request\<close>

lemma status_or_ok_pos: "0 < st \<Longrightarrow> status_or_ok st = st"
  by (simp add: status_or_ok_def)

lemma write_entry_of_response:
  "rs_status (write_entry h (entry_of_response r)) = rs_status (copy_response h r)"
  "rs_body (write_entry h (entry_of_response r)) = rs_body (copy_response h r)"
  by (simp_all add: write_entry_def entry_of_response_def copy_response_def Let_def)

text \<open>The store of the server: the contract for responses whose body is a payload.\<close>

locale response_core = idempotency_core get claim save release claimed exact saved storable sound
  for get :: "go_time \<Rightarrow> gostr \<Rightarrow> gostr \<Rightarrow> 's \<Rightarrow> (go_error + payload idem_entry option) \<times> 's"
    and claim save release claimed exact saved storable sound
begin

abbreviation "handle \<equiv> handle_idempotent get claim save release"

text \<open>A stored response is replayed: nothing runs and nothing changes.\<close>

lemma replays:
  assumes "\<not> blank (ic_scope c)" "\<not> blank (ic_header c)"
    and "saved (ic_scope c) (trim_space (ic_header c)) s = Some (Inr en, x)" "ic_clock c 0 \<le> x"
  shows "handle c execute (s, w) = (Some (write_entry Map.empty en), s, w)"
  using assms get_hit [of "ic_scope c" "trim_space (ic_header c)" s "Inr en" x "ic_clock c 0"]
  by (simp add: handle_idempotent_def)

text \<open>The first request of a key runs once and stores its response.\<close>

lemma runs_and_stores:
  assumes "\<not> blank (ic_scope c)" "\<not> blank (ic_header c)" "\<not> blank (idem_owner (ic_uuid c))"
    and "saved (ic_scope c) (trim_space (ic_header c)) s = None"
    and "claimed (ic_scope c) (trim_space (ic_header c)) s = None"
    and "execute w = (r, w1)" "rs_status r < 500"
    and "exact (default_save_ttl (ic_ttl c))" "storable (entry_of_response r)" "sound s"
  shows "fst (handle c execute (s, w)) = Some (copy_response Map.empty r)"
    and "snd (snd (handle c execute (s, w))) = w1"
    and "\<exists>x. saved (ic_scope c) (trim_space (ic_header c)) (fst (snd (handle c execute (s, w)))) =
      Some (Inr (entry_of_response r), x) \<and> ic_clock c 2 + default_save_ttl (ic_ttl c) \<le> x"
proof -
  let ?sc = "ic_scope c" and ?ky = "trim_space (ic_header c)" and ?ow = "idem_owner (ic_uuid c)"
  have k: "\<not> blank ?ky" using assms(2) by simp
  obtain s1 where g: "get (ic_clock c 0) ?sc ?ky s = (Inr None, s1)"
    using get_miss [OF assms(10,1) k, of "ic_clock c 0"] assms(4) by (metis fst_conv option.distinct(1) surj_pair)
  have sound1: "sound s1" using get_sound [OF assms(10), of "ic_clock c 0" ?sc ?ky] g by simp
  have "claimed ?sc ?ky s1 = None" using get_claimed [of ?sc ?ky "ic_clock c 0" ?sc ?ky s] g assms(5) by simp
  then obtain s2 where cl: "claim (ic_clock c 1) ?sc ?ky ?ow (ic_lock c) s1 = (Inr True, s2)"
    using claim_free [OF sound1 assms(1) k assms(3), of "ic_clock c 1" "ic_lock c"]
    by (metis fst_conv option.distinct(1) surj_pair)
  let ?s4 = "snd (save (ic_clock c 2) ?sc ?ky (entry_of_response r) (ic_ttl c) (ic_meanwhile c s2))"
  have h: "handle c execute (s, w) =
      (Some (copy_response Map.empty r), snd (release ?sc ?ky ?ow ?s4), w1)"
    using assms(2,6,7) g cl by (simp add: handle_idempotent_def Let_def)
  show "fst (handle c execute (s, w)) = Some (copy_response Map.empty r)"
    and "snd (snd (handle c execute (s, w))) = w1" by (simp_all add: h)
  show "\<exists>x. saved ?sc ?ky (fst (snd (handle c execute (s, w)))) =
      Some (Inr (entry_of_response r), x) \<and> ic_clock c 2 + default_save_ttl (ic_ttl c) \<le> x"
    using save_sets [OF assms(1) k assms(8,9)] by (simp add: h release_saved)
qed

text \<open>Hence the second request of a key is answered as the first was, and runs nothing.\<close>

lemma second_is_replay:
  assumes "\<not> blank (ic_scope c)" "\<not> blank (ic_header c)" "\<not> blank (idem_owner (ic_uuid c))"
    and "saved (ic_scope c) (trim_space (ic_header c)) s = None"
    and "claimed (ic_scope c) (trim_space (ic_header c)) s = None"
    and "execute w = (r, w1)" "rs_status r < 500"
    and "exact (default_save_ttl (ic_ttl c))" "storable (entry_of_response r)" "sound s"
    and "ic_scope c' = ic_scope c" "trim_space (ic_header c') = trim_space (ic_header c)"
    and "ic_clock c' 0 \<le> ic_clock c 2 + default_save_ttl (ic_ttl c)"
    and "handle c execute (s, w) = (ro, s', w')"
  shows "handle c' execute' (s', w') = (Some (write_entry Map.empty (entry_of_response r)), s', w1)"
proof -
  note first = runs_and_stores [where c = c and execute = execute and w = w, OF assms(1-10)]
  obtain x where "saved (ic_scope c') (trim_space (ic_header c')) s' = Some (Inr (entry_of_response r), x)"
    "ic_clock c 2 + default_save_ttl (ic_ttl c) \<le> x"
    using first(3) assms(11,12,14) by auto
  moreover have "w' = w1" using first(2) assms(14) by simp
  moreover have "\<not> blank (ic_header c')" using assms(2,12) by simp
  ultimately show ?thesis
    using replays [of c' s' "entry_of_response r" x execute' w'] assms(1,11,13) by simp
qed

end

section \<open>Interleaved requests\<close>

text \<open>
  The same handler in the steps between which other requests can act: the look for a stored
  response, the claim, the run, the save and the release. \<open>ir_runs\<close> records, in order, which
  requests have run. A request holds its key from its claim, until \<open>x\<close>, to its release.
\<close>

datatype request_pc = Arrived | Missed | Claimed go_time | Ran go_time response | Saved go_time | Finished

record idem_params =
  ip_scope :: gostr
  ip_key :: gostr
  ip_owner :: gostr
  ip_lock :: duration
  ip_ttl :: duration

record 's idem_run =
  ir_store :: 's
  ir_now :: go_time
  ir_pc :: "nat \<Rightarrow> request_pc"
  ir_runs :: "nat list"

inductive idem_step ::
  "(go_time \<Rightarrow> gostr \<Rightarrow> gostr \<Rightarrow> 's \<Rightarrow> (go_error + payload idem_entry option) \<times> 's) \<Rightarrow>
   (go_time \<Rightarrow> gostr \<Rightarrow> gostr \<Rightarrow> gostr \<Rightarrow> duration \<Rightarrow> 's \<Rightarrow> (go_error + bool) \<times> 's) \<Rightarrow>
   (go_time \<Rightarrow> gostr \<Rightarrow> gostr \<Rightarrow> payload idem_entry \<Rightarrow> duration \<Rightarrow> 's \<Rightarrow> (go_error + unit) \<times> 's) \<Rightarrow>
   (gostr \<Rightarrow> gostr \<Rightarrow> gostr \<Rightarrow> 's \<Rightarrow> (go_error + unit) \<times> 's) \<Rightarrow>
   (nat \<Rightarrow> idem_params) \<Rightarrow> 's idem_run \<Rightarrow> 's idem_run \<Rightarrow> bool"
  for get claim save release q where
  Look: "ir_pc s i = Arrived \<Longrightarrow> get (ir_now s) (ip_scope (q i)) (ip_key (q i)) (ir_store s) = (res, s1) \<Longrightarrow>
    pc = (if res = Inr None then Missed else Finished) \<Longrightarrow>
    idem_step get claim save release q s (s\<lparr>ir_store := s1, ir_pc := (ir_pc s)(i := pc)\<rparr>)"
| Claim: "ir_pc s i = Missed \<Longrightarrow>
    claim (ir_now s) (ip_scope (q i)) (ip_key (q i)) (ip_owner (q i)) (ip_lock (q i)) (ir_store s) = (res, s1) \<Longrightarrow>
    pc = (if res = Inr True then Claimed (ir_now s + default_claim_ttl (ip_lock (q i))) else Finished) \<Longrightarrow>
    idem_step get claim save release q s (s\<lparr>ir_store := s1, ir_pc := (ir_pc s)(i := pc)\<rparr>)"
| Run: "ir_pc s i = Claimed x \<Longrightarrow>
    idem_step get claim save release q s (s\<lparr>ir_pc := (ir_pc s)(i := Ran x r), ir_runs := ir_runs s @ [i]\<rparr>)"
| Save: "ir_pc s i = Ran x r \<Longrightarrow>
    s1 = (if rs_status r < 500
          then snd (save (ir_now s) (ip_scope (q i)) (ip_key (q i)) (entry_of_response r) (ip_ttl (q i)) (ir_store s))
          else ir_store s) \<Longrightarrow>
    idem_step get claim save release q s (s\<lparr>ir_store := s1, ir_pc := (ir_pc s)(i := Saved x)\<rparr>)"
| Release: "ir_pc s i = Saved x \<Longrightarrow>
    release (ip_scope (q i)) (ip_key (q i)) (ip_owner (q i)) (ir_store s) = (res, s1) \<Longrightarrow>
    idem_step get claim save release q s (s\<lparr>ir_store := s1, ir_pc := (ir_pc s)(i := Finished)\<rparr>)"
| Pass: "ir_now s \<le> t \<Longrightarrow> idem_step get claim save release q s (s\<lparr>ir_now := t\<rparr>)"

fun holds_until :: "request_pc \<Rightarrow> go_time option" where
  "holds_until (Claimed x) = Some x"
| "holds_until (Ran x r) = Some x"
| "holds_until (Saved x) = Some x"
| "holds_until _ = None"

definition idem_start :: "'s \<Rightarrow> go_time \<Rightarrow> 's idem_run" where
  "idem_start s t = \<lparr>ir_store = s, ir_now = t, ir_pc = (\<lambda>_. Arrived), ir_runs = []\<rparr>"

locale claim_users = claim_safety get claim save release claimed exact
  for get :: "go_time \<Rightarrow> gostr \<Rightarrow> gostr \<Rightarrow> 's \<Rightarrow> (go_error + payload idem_entry option) \<times> 's"
    and claim save release claimed exact
begin

definition holders_registered :: "(nat \<Rightarrow> idem_params) \<Rightarrow> 's idem_run \<Rightarrow> bool" where
  "holders_registered q s \<longleftrightarrow> (\<forall>i x. holds_until (ir_pc s i) = Some x \<longrightarrow> x \<le> ir_now s \<or>
     (\<exists>e. claimed (ip_scope (q i)) (ip_key (q i)) (ir_store s) = Some (trim_space (ip_owner (q i)), e) \<and> x \<le> e))"

lemma holders_registered_step:
  assumes "idem_step get claim save release q s s'" "holders_registered q s"
    and "\<And>i j. trim_space (ip_owner (q i)) = trim_space (ip_owner (q j)) \<Longrightarrow> i = j"
    and "\<And>i. exact (default_claim_ttl (ip_lock (q i)))"
  shows "holders_registered q s'"
  using assms(1,2)
proof (induction rule: idem_step.induct)
  case (Look s i res s1 pc)
  then show ?case
    using get_claimed [of _ _ "ir_now s" "ip_scope (q i)" "ip_key (q i)" "ir_store s"]
    by (auto simp: holders_registered_def)
next
  case (Claim s i res s1 pc)
  let ?now = "ir_now s"
  have keep: "claimed sc ky s1 = Some (ow, x)" if "claimed sc ky (ir_store s) = Some (ow, x)" "?now < x" for sc ky ow x
    using claim_holds [OF that, of "ip_scope (q i)" "ip_key (q i)" "ip_owner (q i)" "ip_lock (q i)"] Claim(2) that
    by simp
  have own: "\<exists>e. claimed (ip_scope (q i)) (ip_key (q i)) s1 = Some (trim_space (ip_owner (q i)), e)
      \<and> ?now + default_claim_ttl (ip_lock (q i)) \<le> e" if "res = Inr True"
    using claim_sets [OF _ assms(4)] that Claim(2) by blast
  show ?case
    unfolding holders_registered_def
  proof (intro allI impI)
    fix j x
    let ?s = "s\<lparr>ir_store := s1, ir_pc := (ir_pc s)(i := pc)\<rparr>"
    assume j: "holds_until (ir_pc ?s j) = Some x"
    show "x \<le> ir_now ?s \<or>
      (\<exists>e. claimed (ip_scope (q j)) (ip_key (q j)) (ir_store ?s) = Some (trim_space (ip_owner (q j)), e) \<and> x \<le> e)"
    proof (cases "j = i")
      case True
      with j Claim(3) own show ?thesis by (auto split: if_splits)
    next
      case False
      with j have "holds_until (ir_pc s j) = Some x" by simp
      with Claim(4) have "x \<le> ?now \<or> (\<exists>e. claimed (ip_scope (q j)) (ip_key (q j)) (ir_store s) =
          Some (trim_space (ip_owner (q j)), e) \<and> x \<le> e)"
        unfolding holders_registered_def by blast
      with keep show ?thesis by (cases "x \<le> ?now") fastforce+
    qed
  qed
next
  case (Run s i x r)
  then show ?case by (fastforce simp: holders_registered_def)
next
  case (Save s i x r s1)
  then have "claimed sc ky s1 = claimed sc ky (ir_store s)" for sc ky
    using save_claimed by auto
  moreover have "holds_until (ir_pc s i) = Some x" using Save(1) by simp
  ultimately show ?case using Save(3) by (auto simp: holders_registered_def)
next
  case (Release s i x res s1)
  have "claimed (ip_scope (q j)) (ip_key (q j)) s1 = Some (trim_space (ip_owner (q j)), y)"
    if "claimed (ip_scope (q j)) (ip_key (q j)) (ir_store s) = Some (trim_space (ip_owner (q j)), y)" "j \<noteq> i" for j y
    using release_other [OF that(1), of "ip_owner (q i)" "ip_scope (q i)" "ip_key (q i)"] assms(3) [of j i] that Release(2)
    by auto
  with Release(3) show ?case by (fastforce simp: holders_registered_def)
next
  case (Pass s t)
  then show ?case by (fastforce simp: holders_registered_def)
qed

lemma holders_registered_steps:
  assumes "(idem_step get claim save release q)\<^sup>*\<^sup>* s s'" "holders_registered q s"
    and "\<And>i j. trim_space (ip_owner (q i)) = trim_space (ip_owner (q j)) \<Longrightarrow> i = j"
    and "\<And>i. exact (default_claim_ttl (ip_lock (q i)))"
  shows "holders_registered q s'"
  using assms(1,2) by (induction rule: rtranclp_induct) (auto intro: holders_registered_step [OF _ _ assms(3,4)])

lemma one_holder:
  assumes "(idem_step get claim save release q)\<^sup>*\<^sup>* (idem_start s0 t) s"
    and "\<And>i j. trim_space (ip_owner (q i)) = trim_space (ip_owner (q j)) \<Longrightarrow> i = j"
    and "\<And>i. exact (default_claim_ttl (ip_lock (q i)))"
    and "holds_until (ir_pc s i) = Some x" "holds_until (ir_pc s j) = Some y" "i \<noteq> j"
    and "ip_scope (q i) = ip_scope (q j)" "ip_key (q i) = ip_key (q j)"
  shows "x \<le> ir_now s \<or> y \<le> ir_now s"
proof -
  have h: "holders_registered q (idem_start s0 t)" by (simp add: holders_registered_def idem_start_def)
  have "holders_registered q s" by (rule holders_registered_steps [OF assms(1) h assms(2,3)])
  with assms(4,5) assms(2) [of i j] assms(6-8) show ?thesis
    unfolding holders_registered_def by (metis option.inject prod.inject)
qed

end

text \<open>What needs a store whose claims end by their release.\<close>

locale response_store = response_core get claim save release claimed "\<lambda>_. True" saved "\<lambda>_. True" "\<lambda>_. True"
    + idempotency_store get claim save release claimed saved
  for get :: "go_time \<Rightarrow> gostr \<Rightarrow> gostr \<Rightarrow> 's \<Rightarrow> (go_error + payload idem_entry option) \<times> 's"
    and claim save release claimed saved
begin

text \<open>A request that fails with a server error stores nothing and frees its key.\<close>

lemma server_error_not_saved:
  assumes "\<not> blank (ic_scope c)" "\<not> blank (ic_header c)" "\<not> blank (idem_owner (ic_uuid c))"
    and "saved (ic_scope c) (trim_space (ic_header c)) s = None"
    and "claimed (ic_scope c) (trim_space (ic_header c)) s = None"
    and "execute w = (r, w1)" "500 \<le> rs_status r" "ic_meanwhile c = (\<lambda>s. s)"
  shows "handle c execute (s, w) = (ro, s', w') \<Longrightarrow>
    saved (ic_scope c) (trim_space (ic_header c)) s' = None
    \<and> claimed (ic_scope c) (trim_space (ic_header c)) s' = None \<and> w' = w1"
proof -
  let ?sc = "ic_scope c" and ?ky = "trim_space (ic_header c)" and ?ow = "idem_owner (ic_uuid c)"
  have k: "\<not> blank ?ky" using assms(2) by simp
  obtain s1 where g: "get (ic_clock c 0) ?sc ?ky s = (Inr None, s1)"
    using get_miss [OF TrueI assms(1) k, of s "ic_clock c 0"] assms(4) by (metis fst_conv option.distinct(1) surj_pair)
  have c1: "claimed ?sc ?ky s1 = None" using get_claimed [of ?sc ?ky "ic_clock c 0" ?sc ?ky s] g assms(5) by simp
  have s1: "saved ?sc ?ky s1 = None" using get_saved [OF assms(4), of "ic_clock c 0" ?sc ?ky] g by auto
  obtain s2 where cl: "claim (ic_clock c 1) ?sc ?ky ?ow (ic_lock c) s1 = (Inr True, s2)"
    using claim_free [OF TrueI assms(1) k assms(3), of s1 "ic_clock c 1" "ic_lock c"] c1
    by (metis fst_conv option.distinct(1) surj_pair)
  have "saved ?sc ?ky s2 = None" using claim_saved [of ?sc ?ky "ic_clock c 1" ?sc ?ky ?ow "ic_lock c" s1] cl s1 by simp
  moreover have "claimed ?sc ?ky (snd (release ?sc ?ky ?ow s2)) = None"
    using claim_sets [OF cl] release_own [OF assms(1) k assms(3)] by auto
  moreover assume "handle c execute (s, w) = (ro, s', w')"
  ultimately show ?thesis
    using assms(2,6,7,8) g cl by (auto simp: handle_idempotent_def Let_def release_saved)
qed

text \<open>The handler does not look again after its claim: a request that looked before another one
  with its key was done runs a second time, although no claim has expired.\<close>

lemma double_run:
  assumes k: "\<not> blank (ip_scope (q 0))" "\<not> blank (ip_key (q 0))"
    and o: "\<not> blank (ip_owner (q 0))" "\<not> blank (ip_owner (q 1))"
    and e: "ip_scope (q 1) = ip_scope (q 0)" "ip_key (q 1) = ip_key (q 0)"
    and s0: "saved (ip_scope (q 0)) (ip_key (q 0)) s0 = None" "claimed (ip_scope (q 0)) (ip_key (q 0)) s0 = None"
  shows "\<exists>s. (idem_step get claim save release q)\<^sup>*\<^sup>* (idem_start s0 t) s \<and> ir_runs s = [0, 1] \<and> ir_now s = t"
proof -
  let ?sc = "ip_scope (q 0)" and ?ky = "ip_key (q 0)"
  let ?step = "idem_step get claim save release q"
  let ?r = "no_content"
  obtain s1 where g1: "get t ?sc ?ky s0 = (Inr None, s1)"
    using get_miss [OF TrueI k, of s0 t] s0(1) by (metis fst_conv option.distinct(1) surj_pair)
  have s1: "saved ?sc ?ky s1 = None" "claimed ?sc ?ky s1 = None"
    using get_saved [OF s0(1), of t ?sc ?ky] get_claimed [of ?sc ?ky t ?sc ?ky s0] s0(2) g1 by simp_all
  obtain s2 where g2: "get t ?sc ?ky s1 = (Inr None, s2)"
    using get_miss [OF TrueI k, of s1 t] s1(1) by (metis fst_conv option.distinct(1) surj_pair)
  have s2: "claimed ?sc ?ky s2 = None"
    using get_claimed [of ?sc ?ky t ?sc ?ky s1] s1(2) g2 by simp
  obtain s3 where c1: "claim t ?sc ?ky (ip_owner (q 0)) (ip_lock (q 0)) s2 = (Inr True, s3)"
    using claim_free [OF TrueI k o(1), of s2 t "ip_lock (q 0)"] s2 by (metis fst_conv option.distinct(1) surj_pair)
  define s4 where "s4 = snd (save t ?sc ?ky (entry_of_response ?r) (ip_ttl (q 0)) s3)"
  obtain x where "claimed ?sc ?ky s4 = Some (trim_space (ip_owner (q 0)), x)"
    using claim_sets [OF c1] save_claimed by (auto simp: s4_def)
  then have s5: "claimed ?sc ?ky (snd (release ?sc ?ky (ip_owner (q 0)) s4)) = None"
    by (rule release_own [OF k o(1)])
  obtain q5 s5 where r5: "release ?sc ?ky (ip_owner (q 0)) s4 = (q5, s5)" by (rule prod.exhaust)
  obtain s6 where c2: "claim t ?sc ?ky (ip_owner (q 1)) (ip_lock (q 1)) s5 = (Inr True, s6)"
    using claim_free [OF TrueI k o(2), of s5 t "ip_lock (q 1)"] s5 r5 by (metis fst_conv option.distinct(1) snd_conv surj_pair)
  let ?x = "t + default_claim_ttl (ip_lock (q 0))" and ?y = "t + default_claim_ttl (ip_lock (q 1))"
  let ?a = "\<lambda>st p0 p1 runs. \<lparr>ir_store = st, ir_now = t, ir_pc = (\<lambda>_. Arrived)(0 := p0, 1 := p1), ir_runs = runs\<rparr>"
  have st0: "idem_start s0 t = ?a s0 Arrived Arrived []" by (simp add: idem_start_def fun_eq_iff)
  have t1: "?step (?a s0 Arrived Arrived []) (?a s1 Missed Arrived [])"
    using Look [of "?a s0 Arrived Arrived []" 0 get q "Inr None" s1 Missed] g1 by (simp add: fun_upd_twist)
  have t2: "?step (?a s1 Missed Arrived []) (?a s2 Missed Missed [])"
    using Look [of "?a s1 Missed Arrived []" 1 get q "Inr None" s2 Missed] g2 e by simp
  have t3: "?step (?a s2 Missed Missed []) (?a s3 (Claimed ?x) Missed [])"
    using Claim [of "?a s2 Missed Missed []" 0 claim q "Inr True" s3 "Claimed ?x"] c1 by (simp add: fun_upd_twist)
  have t4: "?step (?a s3 (Claimed ?x) Missed []) (?a s3 (Ran ?x ?r) Missed [0])"
    using Run [of "?a s3 (Claimed ?x) Missed []" 0 ?x get claim save release q ?r] by (simp add: fun_upd_twist)
  have t5: "?step (?a s3 (Ran ?x ?r) Missed [0]) (?a s4 (Saved ?x) Missed [0])"
    using Save [of "?a s3 (Ran ?x ?r) Missed [0]" 0 ?x ?r s4 save q] by (simp add: fun_upd_twist s4_def no_content_def)
  have t6: "?step (?a s4 (Saved ?x) Missed [0]) (?a s5 Finished Missed [0])"
    using Release [of "?a s4 (Saved ?x) Missed [0]" 0 ?x release q q5 s5] r5 by (simp add: fun_upd_twist)
  have t7: "?step (?a s5 Finished Missed [0]) (?a s6 Finished (Claimed ?y) [0])"
    using Claim [of "?a s5 Finished Missed [0]" 1 claim q "Inr True" s6 "Claimed ?y"] c2 e by simp
  have t8: "?step (?a s6 Finished (Claimed ?y) [0]) (?a s6 Finished (Ran ?y ?r) [0, 1])"
    using Run [of "?a s6 Finished (Claimed ?y) [0]" 1 ?y get claim save release q ?r] by simp
  have "?step\<^sup>*\<^sup>* (idem_start s0 t) (?a s0 Arrived Arrived [])" by (simp add: st0)
  then have "?step\<^sup>*\<^sup>* (idem_start s0 t) (?a s1 Missed Arrived [])"
    by (rule rtranclp.rtrancl_into_rtrancl) (rule t1)
  then have "?step\<^sup>*\<^sup>* (idem_start s0 t) (?a s2 Missed Missed [])"
    by (rule rtranclp.rtrancl_into_rtrancl) (rule t2)
  then have "?step\<^sup>*\<^sup>* (idem_start s0 t) (?a s3 (Claimed ?x) Missed [])"
    by (rule rtranclp.rtrancl_into_rtrancl) (rule t3)
  then have "?step\<^sup>*\<^sup>* (idem_start s0 t) (?a s3 (Ran ?x ?r) Missed [0])"
    by (rule rtranclp.rtrancl_into_rtrancl) (rule t4)
  then have "?step\<^sup>*\<^sup>* (idem_start s0 t) (?a s4 (Saved ?x) Missed [0])"
    by (rule rtranclp.rtrancl_into_rtrancl) (rule t5)
  then have "?step\<^sup>*\<^sup>* (idem_start s0 t) (?a s5 Finished Missed [0])"
    by (rule rtranclp.rtrancl_into_rtrancl) (rule t6)
  then have "?step\<^sup>*\<^sup>* (idem_start s0 t) (?a s6 Finished (Claimed ?y) [0])"
    by (rule rtranclp.rtrancl_into_rtrancl) (rule t7)
  then have "?step\<^sup>*\<^sup>* (idem_start s0 t) (?a s6 Finished (Ran ?y ?r) [0, 1])"
    by (rule rtranclp.rtrancl_into_rtrancl) (rule t8)
  then show ?thesis by (rule exI [where x = "?a s6 Finished (Ran ?y ?r) [0, 1]", OF conjI]) simp
qed

end

interpretation mem_claims: claim_users "idem_get digest" "idem_claim digest" "idem_save digest"
    "idem_release digest" "idem_claimed digest" "\<lambda>_. True" for digest
  by unfold_locales

interpretation mem_responses: response_store "idem_get digest" "idem_claim digest" "idem_save digest"
    "idem_release digest" "idem_claimed digest" "idem_saved digest" for digest
  by unfold_locales


section \<open>Properties\<close>

definition demo_call :: "gostr \<Rightarrow> go_time \<Rightarrow> payload idem_state idem_call" where
  "demo_call uuid t = \<lparr>ic_scope = ''tasks:create'', ic_header = ''k1'', ic_uuid = uuid, ic_lock = 30 * second,
     ic_ttl = 0, ic_clock = (\<lambda>i. t + int i), ic_looks = [], ic_meanwhile = (\<lambda>s. s)\<rparr>"

definition demo_execute :: "nat \<Rightarrow> response \<times> nat" where
  "demo_execute n = (write_json Map.empty 202 (PStatus ''created''), n + 1)"

lemma demo_call_blank:
  "\<not> blank (ic_scope (demo_call u t))" "\<not> blank (ic_header (demo_call u t))"
  by (simp_all add: demo_call_def plain_ends_def plain_char_def)

lemma demo_owner: "\<not> blank (idem_owner (ic_uuid (demo_call ''1-2'' t)))"
proof -
  have "idem_owner ''1-2'' = ''idem-12''"
    by (simp add: idem_owner_def replace_all_def split_at.simps has_prefix_def)
  then show ?thesis by (simp add: demo_call_def plain_ends_def plain_char_def)
qed

text \<open>C6: a request that is sent again with the same key is not executed again. When the first
  request with a key has run and did not fail with a server error, every later request with the
  same key (up to surrounding white space), until the stored response expires, gets the same
  status and the same body, runs nothing and changes nothing, whatever others did to the store
  while the first one ran.\<close>

theorem repeated_request_replayed:
  assumes "\<not> blank (ic_scope c)" "\<not> blank (ic_header c)" "\<not> blank (idem_owner (ic_uuid c))"
    and "idem_saved digest (ic_scope c) (trim_space (ic_header c)) s = None"
    and "idem_claimed digest (ic_scope c) (trim_space (ic_header c)) s = None"
    and "execute w = (r, w1)" "rs_status r < 500"
    and "ic_scope c' = ic_scope c" "trim_space (ic_header c') = trim_space (ic_header c)"
    and "ic_clock c' 0 \<le> ic_clock c 2 + default_save_ttl (ic_ttl c)"
    and "handle_idempotent (idem_get digest) (idem_claim digest) (idem_save digest) (idem_release digest)
           c execute (s, w) = (ro, s', w')"
  shows "\<exists>r1 r2. ro = Some r1 \<and> w' = w1
    \<and> handle_idempotent (idem_get digest) (idem_claim digest) (idem_save digest) (idem_release digest)
        c' execute' (s', w') = (Some r2, s', w')
    \<and> rs_status r2 = rs_status r1 \<and> rs_body r2 = rs_body r1"
proof -
  note first = mem_responses.runs_and_stores [where c = c and execute = execute and w = w, OF assms(1-7) TrueI TrueI TrueI]
  note second = mem_responses.second_is_replay [where c = c and execute = execute and w = w,
      OF assms(1-7) TrueI TrueI TrueI assms(8-11), of execute']
  from first(1,2) assms(11) have "ro = Some (copy_response Map.empty r)" "w' = w1" by simp_all
  with second show ?thesis by (auto simp: write_entry_of_response)
qed

theorem repeated_request_replayed_witness:
  "let h = handle_idempotent (idem_get (\<lambda>x. x)) (idem_claim (\<lambda>x. x)) (idem_save (\<lambda>x. x)) (idem_release (\<lambda>x. x));
       (ro, s', n') = h (demo_call ''1-2'' 50) demo_execute (new_idem_store, 0)
   in n' = 1 \<and> (\<exists>r. h (demo_call ''3-4'' 70) demo_execute (s', n') = (Some r, s', 1))"
proof -
  let ?h = "handle_idempotent (idem_get (\<lambda>x. x)) (idem_claim (\<lambda>x. x)) (idem_save (\<lambda>x. x)) (idem_release (\<lambda>x. x))"
  obtain ro s' n' where q: "?h (demo_call ''1-2'' 50) demo_execute (new_idem_store, 0) = (ro, s', n')"
    by (metis prod.collapse)
  have e: "demo_execute 0 = (write_json Map.empty 202 (PStatus ''created''), 1)" by (simp add: demo_execute_def)
  have "\<exists>r1 r2. ro = Some r1 \<and> n' = 1 \<and> ?h (demo_call ''3-4'' 70) demo_execute (s', n') = (Some r2, s', n')
      \<and> rs_status r2 = rs_status r1 \<and> rs_body r2 = rs_body r1"
    by (rule repeated_request_replayed [OF demo_call_blank demo_owner _ _ e _ _ _ _ q])
       (simp_all add: new_idem_store_def idem_saved_def idem_claimed_def demo_call_def default_save_ttl_def)
  with q show ?thesis by (auto simp: Let_def)
qed

text \<open>A server error is not remembered. When the request ends with a status of 500 or more,
  nothing is stored under its key and the key is free again, so the client may retry.\<close>

lemma server_error_not_stored:
  assumes "\<not> blank (ic_scope c)" "\<not> blank (ic_header c)" "\<not> blank (idem_owner (ic_uuid c))"
    and "idem_saved digest (ic_scope c) (trim_space (ic_header c)) s = None"
    and "idem_claimed digest (ic_scope c) (trim_space (ic_header c)) s = None"
    and "execute w = (r, w1)" "500 \<le> rs_status r" "ic_meanwhile c = (\<lambda>s. s)"
    and "handle_idempotent (idem_get digest) (idem_claim digest) (idem_save digest) (idem_release digest)
           c execute (s, w) = (ro, s', w')"
  shows "idem_saved digest (ic_scope c) (trim_space (ic_header c)) s' = None
    \<and> idem_claimed digest (ic_scope c) (trim_space (ic_header c)) s' = None \<and> w' = w1"
  by (rule mem_responses.server_error_not_saved [OF assms])

lemma server_error_not_stored_at_work:
  "let (ro, s', n') = handle_idempotent (idem_get (\<lambda>x. x)) (idem_claim (\<lambda>x. x)) (idem_save (\<lambda>x. x))
         (idem_release (\<lambda>x. x)) (demo_call ''1-2'' 50) (\<lambda>n. (write_error Map.empty 503 ''e'' ''m'', n + 1))
         (new_idem_store, 0::nat)
   in idem_saved (\<lambda>x. x) ''tasks:create'' ''k1'' s' = None \<and> n' = 1"
proof -
  obtain ro s' n' where q: "handle_idempotent (idem_get (\<lambda>x. x)) (idem_claim (\<lambda>x. x)) (idem_save (\<lambda>x. x))
      (idem_release (\<lambda>x. x)) (demo_call ''1-2'' 50) (\<lambda>n. (write_error Map.empty 503 ''e'' ''m'', n + 1))
      (new_idem_store, 0::nat) = (ro, s', n')"
    by (metis prod.collapse)
  have k: "trim_space (ic_header (demo_call ''1-2'' 50)) = ''k1''" "ic_scope (demo_call ''1-2'' 50) = ''tasks:create''"
    by (simp_all add: demo_call_def plain_ends_def plain_char_def)
  have "idem_saved (\<lambda>x. x) (ic_scope (demo_call ''1-2'' 50)) (trim_space (ic_header (demo_call ''1-2'' 50))) s' = None
      \<and> idem_claimed (\<lambda>x. x) (ic_scope (demo_call ''1-2'' 50)) (trim_space (ic_header (demo_call ''1-2'' 50))) s' = None
      \<and> n' = 1"
    by (rule server_error_not_stored [OF demo_call_blank demo_owner _ _ _ _ _ q, where r = "write_error Map.empty 503 ''e'' ''m''"])
       (simp_all add: new_idem_store_def idem_saved_def idem_claimed_def demo_call_def)
  with q k show ?thesis by simp
qed

text \<open>C7: at most one request holds a key. However the looks, claims, runs, saves and releases of
  any number of requests with different owners interleave, of two requests with one scope and
  key that are both between claim and release, the claim of one has expired.\<close>

theorem one_request_holds_key:
  assumes "(idem_step (idem_get digest) (idem_claim digest) (idem_save digest) (idem_release digest) q)\<^sup>*\<^sup>*
      (idem_start s0 t) s"
    and "\<And>i j. trim_space (ip_owner (q i)) = trim_space (ip_owner (q j)) \<Longrightarrow> i = j"
    and "holds_until (ir_pc s i) = Some x" "holds_until (ir_pc s j) = Some y" "i \<noteq> j"
    and "ip_scope (q i) = ip_scope (q j)" "ip_key (q i) = ip_key (q j)"
  shows "x \<le> ir_now s \<or> y \<le> ir_now s"
  using mem_claims.one_holder [OF assms(1,2) TrueI assms(3-)] .

definition demo_params :: "nat \<Rightarrow> idem_params" where
  "demo_params i = \<lparr>ip_scope = ''s'', ip_key = ''k'', ip_owner = ''o'' @ digits i, ip_lock = 10, ip_ttl = 0\<rparr>"

lemma demo_owners: "trim_space (ip_owner (demo_params i)) = ''o'' @ digits i"
proof -
  have d: "plain_char c" if "is_digit c" for c using that by (auto simp: is_digit_def plain_char_def)
  have "last (''o'' @ digits i) \<in> set (digits i)" by simp
  then have "plain_char (last (''o'' @ digits i))" using digits_all_digit [of i] d by (auto simp: list_all_iff)
  then have "plain_ends (''o'' @ digits i)" by (simp add: plain_ends_def plain_char_def)
  then show ?thesis by (simp add: demo_params_def)
qed

text \<open>What the code does not exclude: with the same key, request 1 looks before request 0 is done
  and claims after it, and both run.\<close>

lemma request_executed_twice:
  "\<exists>s. (idem_step (idem_get digest) (idem_claim digest) (idem_save digest) (idem_release digest) demo_params)\<^sup>*\<^sup>*
      (idem_start new_idem_store t) s \<and> ir_runs s = [0, 1] \<and> ir_now s = t"
  by (rule mem_responses.double_run)
     (simp_all add: demo_owners, simp_all add: demo_params_def plain_ends_def plain_char_def
       idem_saved_def idem_claimed_def new_idem_store_def)

theorem one_request_holds_key_witness:
  "(\<exists>s0. (idem_step (idem_get (\<lambda>x. x)) (idem_claim (\<lambda>x. x)) (idem_save (\<lambda>x. x)) (idem_release (\<lambda>x. x))
         demo_params)\<^sup>*\<^sup>* (idem_start new_idem_store 5) s0 \<and> holds_until (ir_pc s0 0) = Some 15
         \<and> holds_until (ir_pc s0 1) = Some 30 \<and> (15 \<le> ir_now s0 \<or> 30 \<le> ir_now s0))"
proof -
  let ?d = "\<lambda>x::gostr. x"
  let ?step = "idem_step (idem_get ?d) (idem_claim ?d) (idem_save ?d) (idem_release ?d) demo_params"
  let ?a = "\<lambda>st now p0 p1. \<lparr>ir_store = st, ir_now = now, ir_pc = (\<lambda>_. Arrived)(0 := p0, 1 := p1), ir_runs = []\<rparr>"
  let ?n = "new_idem_store :: payload idem_state"
  have k: "\<not> blank (ip_scope (demo_params i))" "\<not> blank (ip_key (demo_params i))" "\<not> blank (ip_owner (demo_params i))" for i
    by (simp_all add: demo_owners) (simp_all add: demo_params_def plain_ends_def plain_char_def)
  have f: "ip_scope (demo_params i) = ip_scope (demo_params 0)" "ip_key (demo_params i) = ip_key (demo_params 0)"
    "default_claim_ttl (ip_lock (demo_params i)) = 10" for i
    by (simp_all add: demo_params_def default_claim_ttl_def)
  have g: "idem_get ?d now (ip_scope (demo_params i)) (ip_key (demo_params i)) ?n = (Inr None, ?n)" for now i
    using k [of i] by (simp add: idem_get_def normalize_valid new_idem_store_def)
  have c1: "idem_claim ?d 5 (ip_scope (demo_params 0)) (ip_key (demo_params 0)) (ip_owner (demo_params 0))
      (ip_lock (demo_params 0)) ?n = (Inr True, snd (idem_claim ?d 5 (ip_scope (demo_params 0))
        (ip_key (demo_params 0)) (ip_owner (demo_params 0)) (ip_lock (demo_params 0)) ?n))"
    using mem_idem.claim_free [OF TrueI, of "ip_scope (demo_params 0)" "ip_key (demo_params 0)" "ip_owner (demo_params 0)" ?d ?n 5
        "ip_lock (demo_params 0)"] k [of 0]
    by (simp add: prod_eq_iff idem_claimed_def new_idem_store_def)
  then obtain s1 where c1: "idem_claim ?d 5 (ip_scope (demo_params 0)) (ip_key (demo_params 0)) (ip_owner (demo_params 0))
      (ip_lock (demo_params 0)) ?n = (Inr True, s1)" by blast
  have s1: "idem_claimed ?d (ip_scope (demo_params 0)) (ip_key (demo_params 0)) s1 = Some (trim_space (ip_owner (demo_params 0)), 15)"
    using c1 k [of 0] f(3) [of 0]
    by (auto simp: idem_claim_def normalize_valid idem_claimed_def new_idem_store_def Let_def)
  have "\<forall>ow x. idem_claimed ?d (ip_scope (demo_params 1)) (ip_key (demo_params 1)) s1 = Some (ow, x) \<longrightarrow> x \<le> 20"
    unfolding f(1,2) [of 1] s1 by simp
  note free = mem_idem.claim_free [OF TrueI k [of 1] this, of "ip_lock (demo_params 1)"]
  define s2 where "s2 = snd (idem_claim ?d 20 (ip_scope (demo_params 1)) (ip_key (demo_params 1)) (ip_owner (demo_params 1))
      (ip_lock (demo_params 1)) s1)"
  have c2: "idem_claim ?d 20 (ip_scope (demo_params 1)) (ip_key (demo_params 1)) (ip_owner (demo_params 1))
      (ip_lock (demo_params 1)) s1 = (Inr True, s2)"
    unfolding s2_def using free by (simp only: prod_eq_iff fst_conv snd_conv simp_thms)
  have st0: "idem_start ?n 5 = ?a ?n 5 Arrived Arrived" by (simp add: idem_start_def fun_eq_iff)
  have t1: "?step (?a ?n 5 Arrived Arrived) (?a ?n 5 Missed Arrived)"
    using Look [of "?a ?n 5 Arrived Arrived" 0 "idem_get ?d" demo_params "Inr None" ?n Missed] g by (simp add: fun_upd_twist)
  have t2: "?step (?a ?n 5 Missed Arrived) (?a ?n 5 Missed Missed)"
    using Look [of "?a ?n 5 Missed Arrived" 1 "idem_get ?d" demo_params "Inr None" ?n Missed] g by simp
  have t3: "?step (?a ?n 5 Missed Missed) (?a s1 5 (Claimed 15) Missed)"
    using Claim [of "?a ?n 5 Missed Missed" 0 "idem_claim ?d" demo_params "Inr True" s1 "Claimed 15"] c1 f(3) [of 0]
    by (simp add: fun_upd_twist)
  have t4: "?step (?a s1 5 (Claimed 15) Missed) (?a s1 20 (Claimed 15) Missed)"
    using Pass [of "?a s1 5 (Claimed 15) Missed" 20] by simp
  have t5: "?step (?a s1 20 (Claimed 15) Missed) (?a s2 20 (Claimed 15) (Claimed 30))"
    using Claim [of "?a s1 20 (Claimed 15) Missed" 1 "idem_claim ?d" demo_params "Inr True" s2 "Claimed 30"] c2 f(3) [of 1]
    by simp
  have r: "?step\<^sup>*\<^sup>* (idem_start ?n 5) (?a s2 20 (Claimed 15) (Claimed 30))"
    unfolding st0 using t1 t2 t3 t4 t5 by (meson converse_rtranclp_into_rtranclp rtranclp.rtrancl_refl)
  have "15 \<le> ir_now (?a s2 20 (Claimed 15) (Claimed 30)) \<or> 30 \<le> ir_now (?a s2 20 (Claimed 15) (Claimed 30))"
    by (rule one_request_holds_key [OF r, of 0 15 1 30])
       (simp_all add: demo_owners, simp_all add: demo_params_def)
  with r show ?thesis by (intro exI [where x = "?a s2 20 (Claimed 15) (Claimed 30)"]) simp
qed

end
