(* ===== verification/RedisIdem.thy ===== *)
theory RedisIdem
  imports Redis ApiIdempotency
begin

text \<open>
  The idempotency store on Redis, \<open>internal/idempotency/redis.go\<close>, over any server of the locale
  \<open>redis_server\<close>; \<open>encode\<close> and \<open>decode\<close> are \<open>json.Marshal\<close> and \<open>json.Unmarshal\<close> of an entry. Claims
  stay apart even if requests or answers are lost; over a connection that loses nothing the store
  keeps the contract \<open>idempotency_core\<close>, so the handler of idempotent requests may use it.
\<close>

section \<open>Operations\<close>

definition redis_idem_prefix :: "gostr \<Rightarrow> gostr" where
  "redis_idem_prefix p = (if blank p then ''browseruse:idempotency'' else trim_space p)"

definition response_key :: "gostr \<Rightarrow> gostr \<Rightarrow> gostr" where
  "response_key pre compound = pre @ '':resp:'' @ compound"

definition lock_key :: "gostr \<Rightarrow> gostr \<Rightarrow> gostr" where
  "lock_key pre compound = pre @ '':lock:'' @ compound"

definition read_entry :: "(gostr \<Rightarrow> go_error + 'b idem_entry) \<Rightarrow> gostr \<Rightarrow> go_error + 'b idem_entry" where
  "read_entry decode raw =
     (case decode raw of Inl e \<Rightarrow> Inl (wrap_error ''decode idempotency entry: '' e) | Inr en \<Rightarrow> Inr en)"

definition redis_get ::
  "'d redis \<Rightarrow> (gostr \<Rightarrow> go_error + 'b idem_entry) \<Rightarrow> gostr \<Rightarrow> (gostr \<Rightarrow> gostr) \<Rightarrow> go_time \<Rightarrow> gostr \<Rightarrow> gostr \<Rightarrow>
   'd connection \<Rightarrow> (go_error + 'b idem_entry option) \<times> 'd connection" where
  "redis_get R decode pre digest now scope key c =
     (case normalize_compound_key digest scope key of
        Inl e \<Rightarrow> (Inl e, c)
      | Inr compound \<Rightarrow>
          (case send (\<lambda>d. (rd_get R (server_clock now) (response_key pre compound) d, d)) c of
             (Inl e, c) \<Rightarrow> (Inl (wrap_error ''idempotency get: '' e), c)
           | (Inr None, c) \<Rightarrow> (Inr None, c)
           | (Inr (Some raw), c) \<Rightarrow> (map_sum id Some (read_entry decode raw), c)))"

definition redis_claim ::
  "'d redis \<Rightarrow> gostr \<Rightarrow> (gostr \<Rightarrow> gostr) \<Rightarrow> go_time \<Rightarrow> gostr \<Rightarrow> gostr \<Rightarrow> gostr \<Rightarrow> duration \<Rightarrow> 'd connection \<Rightarrow>
   (go_error + bool) \<times> 'd connection" where
  "redis_claim R pre digest now scope key own ttl c =
     (case normalize_compound_key digest scope key of
        Inl e \<Rightarrow> (Inl e, c)
      | Inr compound \<Rightarrow>
          let owner = trim_space own in
          if owner = [] then (Inl (new_error ''owner is required''), c)
          else case send (rd_set_nx R (server_clock now) (lock_key pre compound) owner (default_claim_ttl ttl)) c of
            (Inl e, c) \<Rightarrow> (Inl (wrap_error ''idempotency claim: '' e), c)
          | (Inr b, c) \<Rightarrow> (Inr b, c))"

definition redis_save ::
  "'d redis \<Rightarrow> ('b idem_entry \<Rightarrow> go_error + gostr) \<Rightarrow> gostr \<Rightarrow> (gostr \<Rightarrow> gostr) \<Rightarrow> go_time \<Rightarrow> gostr \<Rightarrow> gostr \<Rightarrow>
   'b idem_entry \<Rightarrow> duration \<Rightarrow> 'd connection \<Rightarrow> (go_error + unit) \<times> 'd connection" where
  "redis_save R encode pre digest now scope key entry ttl c =
     (case normalize_compound_key digest scope key of
        Inl e \<Rightarrow> (Inl e, c)
      | Inr compound \<Rightarrow>
          (case encode entry of
             Inl e \<Rightarrow> (Inl (wrap_error ''encode idempotency entry: '' e), c)
           | Inr raw \<Rightarrow>
               (case send (rd_set R (server_clock now) (response_key pre compound) raw (default_save_ttl ttl)) c of
                  (Inl e, c) \<Rightarrow> (Inl (wrap_error ''idempotency save: '' e), c)
                | (Inr _, c) \<Rightarrow> (Inr (), c))))"

definition redis_idem_release ::
  "'d redis \<Rightarrow> gostr \<Rightarrow> (gostr \<Rightarrow> gostr) \<Rightarrow> go_time \<Rightarrow> gostr \<Rightarrow> gostr \<Rightarrow> gostr \<Rightarrow> 'd connection \<Rightarrow>
   (go_error + unit) \<times> 'd connection" where
  "redis_idem_release R pre digest now scope key own c =
     (case normalize_compound_key digest scope key of
        Inl e \<Rightarrow> (Inl e, c)
      | Inr compound \<Rightarrow>
          let owner = trim_space own in
          if owner = [] then (Inl (new_error ''owner is required''), c)
          else case send (release_script R (server_clock now) (lock_key pre compound) owner) c of
            (Inl e, c) \<Rightarrow> (Inl (wrap_error ''idempotency release: '' e), c)
          | (Inr _, c) \<Rightarrow> (Inr (), c))"

section \<open>The contract\<close>

lemma idem_keys_differ [simp]: "response_key pre x \<noteq> lock_key pre y" "lock_key pre y \<noteq> response_key pre x"
  "response_key pre x = response_key pre y \<longleftrightarrow> x = y" "lock_key pre x = lock_key pre y \<longleftrightarrow> x = y"
  by (simp_all add: response_key_def lock_key_def)

definition seen_to :: "int option \<Rightarrow> go_time" where
  "seen_to x = (case x of None \<Rightarrow> 0 | Some x \<Rightarrow> end_of_ms x)"

lemma live_seen: "now < seen_to x \<Longrightarrow> live (server_clock now) (Some (v, x)) = Some (v, x)"
  using seen_until [of "the x" now] by (cases x) (auto simp: live_def seen_to_def)

definition redis_claimed ::
  "('d \<Rightarrow> gostr \<Rightarrow> redis_entry option) \<Rightarrow> gostr \<Rightarrow> (gostr \<Rightarrow> gostr) \<Rightarrow> gostr \<Rightarrow> gostr \<Rightarrow> 'd connection \<Rightarrow>
   (gostr \<times> go_time) option" where
  "redis_claimed content pre digest sc ky c =
     map_option (\<lambda>(v, x). (v, seen_to x)) (content (cn_db c) (lock_key pre (compound_of digest sc ky)))"

text \<open>Durations in whole milliseconds.\<close>

definition in_ms :: "duration \<Rightarrow> bool" where
  "in_ms ttl \<longleftrightarrow> ttl mod millisecond = 0"

context redis_server
begin

lemma get_content: "cn_db (snd (redis_get R decode pre digest now sc ky c)) = cn_db c"
  by (auto simp: redis_get_def dest: send_read split: sum.splits prod.splits option.splits)

lemma claim_content:
  assumes "redis_claim R pre digest now sc ky ow ttl c = (res, c')"
  shows "content (cn_db c') = content (cn_db c) \<and> res \<noteq> Inr True
    \<or> \<not> blank sc \<and> \<not> blank ky \<and> \<not> blank ow
      \<and> live (server_clock now) (content (cn_db c) (lock_key pre (compound_of digest sc ky))) = None
      \<and> content (cn_db c') = (content (cn_db c))(lock_key pre (compound_of digest sc ky) \<mapsto>
           (trim_space ow, Some (server_clock now + whole_ms (default_claim_ttl ttl))))"
proof (cases rule: normalize_cases [of digest sc ky])
  case (err e)
  with assms show ?thesis by (auto simp: redis_claim_def)
next
  case ok
  let ?t = "server_clock now" and ?k = "lock_key pre (compound_of digest sc ky)"
  let ?f = "rd_set_nx R ?t ?k (trim_space ow) (default_claim_ttl ttl)"
  obtain x c1 where s: "send ?f c = (x, c1)" by fastforce
  obtain b d where b: "?f (cn_db c) = (b, d)" by fastforce
  have ttl: "0 < default_claim_ttl ttl" by (simp add: default_claim_ttl_def)
  note law = set_nx [OF ttl b]
  show ?thesis
  proof (cases "blank ow")
    case True
    with assms ok show ?thesis by (auto simp: redis_claim_def Let_def)
  next
    case False
    show ?thesis
    proof (cases x)
      case (Inl e)
      from assms ok False s Inl have "c' = c1" "res \<noteq> Inr True" by (auto simp: redis_claim_def Let_def)
      with send_lost [OF s [unfolded Inl]] b law ok False show ?thesis by (cases b) auto
    next
      case (Inr b')
      from assms ok False s Inr have "c' = c1" "res = Inr b'" by (auto simp: redis_claim_def Let_def)
      with send_heard [OF s [unfolded Inr]] b law ok False show ?thesis by (cases b) auto
    qed
  qed
qed

lemma save_content:
  assumes "redis_save R encode pre digest now sc ky en ttl c = (res, c')"
  shows "content (cn_db c') = content (cn_db c) \<or>
    (\<exists>raw. content (cn_db c') = (content (cn_db c))(response_key pre (compound_of digest sc ky) \<mapsto>
           (raw, Some (server_clock now + whole_ms (default_save_ttl ttl)))))"
proof (cases rule: normalize_cases [of digest sc ky])
  case (err e)
  with assms show ?thesis by (simp add: redis_save_def)
next
  case ok
  show ?thesis
  proof (cases "encode en")
    case (Inl e)
    with assms ok show ?thesis by (simp add: redis_save_def)
  next
    case (Inr raw)
    let ?f = "rd_set R (server_clock now) (response_key pre (compound_of digest sc ky)) raw (default_save_ttl ttl)"
    obtain x c1 where s: "send ?f c = (x, c1)" by fastforce
    have ttl: "0 < default_save_ttl ttl" by (simp add: default_save_ttl_def)
    have "cn_db c1 = cn_db c \<or> cn_db c1 = snd (?f (cn_db c))"
      using send_lost [of ?f c _ c1] send_heard [of ?f c _ c1] s by (cases x) auto
    moreover have "c' = c1" using assms ok Inr s by (auto simp: redis_save_def split: sum.splits)
    ultimately show ?thesis using set [OF ttl] by metis
  qed
qed

lemma idem_release_content:
  assumes "redis_idem_release R pre digest now sc ky ow c = (res, c')"
  shows "content (cn_db c') = content (cn_db c) \<or>
    (\<exists>x. content (cn_db c) (lock_key pre (compound_of digest sc ky)) = Some (trim_space ow, x)
       \<and> content (cn_db c') = (content (cn_db c))(lock_key pre (compound_of digest sc ky) := None))"
proof (cases rule: normalize_cases [of digest sc ky])
  case (err e)
  with assms show ?thesis by (simp add: redis_idem_release_def)
next
  case ok
  let ?k = "lock_key pre (compound_of digest sc ky)"
  let ?f = "release_script R (server_clock now) ?k (trim_space ow)"
  obtain x c1 where s: "send ?f c = (x, c1)" by fastforce
  have "cn_db c1 = cn_db c \<or> cn_db c1 = snd (?f (cn_db c))"
    using send_lost [of ?f c _ c1] send_heard [of ?f c _ c1] s by (cases x) auto
  moreover have "c' = c \<or> c' = c1"
    using assms ok s by (auto simp: redis_idem_release_def Let_def split: sum.splits if_splits)
  ultimately show ?thesis
    using release_script_content [of "server_clock now" ?k "trim_space ow" "cn_db c"]
    by (auto simp: live_def split: if_splits option.splits)
qed

end

sublocale redis_server \<subseteq> claims: claim_users "redis_get R decode pre digest" "redis_claim R pre digest"
    "redis_save R encode pre digest" "\<lambda>sc ky ow c. redis_idem_release R pre digest (clock c) sc ky ow c"
    "redis_claimed content pre digest" in_ms for decode encode pre digest clock
proof (unfold_locales, goal_cases)
  case (1 sc' ky' now sc ky s)
  show ?case by (simp add: redis_claimed_def get_content)
next
  case (2 now sc ky ow ttl s s')
  from claim_content [OF 2(1)] whole_ms_until [of "default_claim_ttl ttl" now] 2(2) show ?case
    by (auto simp: redis_claimed_def seen_to_def in_ms_def)
next
  case (3 sc' ky' s ow' x now sc ky ow ttl)
  obtain res s' where q: "redis_claim R pre digest now sc ky ow ttl s = (res, s')" by fastforce
  have "live (server_clock now) (content (cn_db s) (lock_key pre (compound_of digest sc' ky'))) \<noteq> None"
    using 3 live_seen by (auto simp: redis_claimed_def)
  with claim_content [OF q] q show ?case by (auto simp: redis_claimed_def)
next
  case (4 sc' ky' now sc ky en ttl s)
  obtain res s' where q: "redis_save R encode pre digest now sc ky en ttl s = (res, s')" by fastforce
  from save_content [OF q] q show ?case by (auto simp: redis_claimed_def)
next
  case (5 sc ky s ow' x ow sc' ky')
  obtain res s' where q: "redis_idem_release R pre digest (clock s) sc' ky' ow s = (res, s')" by fastforce
  from idem_release_content [OF q] q 5 show ?case by (auto simp: redis_claimed_def)
qed

section \<open>Over a connection that loses nothing\<close>

definition quietly :: "('d connection \<Rightarrow> 'r \<times> 'd connection) \<Rightarrow> 'd \<Rightarrow> 'r \<times> 'd" where
  "quietly f d = (let (r, c) = f \<lparr>cn_db = d, cn_faults = []\<rparr> in (r, cn_db c))"

lemma quietly_sel:
  "fst (quietly f d) = fst (f \<lparr>cn_db = d, cn_faults = []\<rparr>)"
  "snd (quietly f d) = cn_db (snd (f \<lparr>cn_db = d, cn_faults = []\<rparr>))"
  by (simp_all add: quietly_def split: prod.splits)

lemma send_open: "send f \<lparr>cn_db = d, cn_faults = []\<rparr> = (Inr (fst (f d)), \<lparr>cn_db = snd (f d), cn_faults = []\<rparr>)"
  by (simp add: send_quiet)

definition redis_saved ::
  "('d \<Rightarrow> gostr \<Rightarrow> redis_entry option) \<Rightarrow> (gostr \<Rightarrow> go_error + 'b idem_entry) \<Rightarrow> gostr \<Rightarrow> (gostr \<Rightarrow> gostr) \<Rightarrow>
   gostr \<Rightarrow> gostr \<Rightarrow> 'd \<Rightarrow> ((go_error + 'b idem_entry) \<times> go_time) option" where
  "redis_saved content decode pre digest sc ky d =
     map_option (\<lambda>(raw, x). (read_entry decode raw, seen_to x - 1))
       (content d (response_key pre (compound_of digest sc ky)))"

definition held_claim ::
  "('d \<Rightarrow> gostr \<Rightarrow> redis_entry option) \<Rightarrow> gostr \<Rightarrow> (gostr \<Rightarrow> gostr) \<Rightarrow> gostr \<Rightarrow> gostr \<Rightarrow> 'd \<Rightarrow> (gostr \<times> go_time) option" where
  "held_claim content pre digest sc ky d = redis_claimed content pre digest sc ky \<lparr>cn_db = d, cn_faults = []\<rparr>"

lemma held_claim_conn: "held_claim content pre digest sc ky (cn_db c) = redis_claimed content pre digest sc ky c"
  by (simp add: held_claim_def redis_claimed_def)

definition read_back :: "('b idem_entry \<Rightarrow> go_error + gostr) \<Rightarrow> (gostr \<Rightarrow> go_error + 'b idem_entry) \<Rightarrow> 'b idem_entry \<Rightarrow> bool" where
  "read_back encode decode en \<longleftrightarrow> (case encode en of Inl _ \<Rightarrow> False | Inr raw \<Rightarrow> decode raw = Inr en)"

definition all_expire :: "('d \<Rightarrow> gostr \<Rightarrow> redis_entry option) \<Rightarrow> gostr \<Rightarrow> 'd \<Rightarrow> bool" where
  "all_expire content pre d \<longleftrightarrow>
     (\<forall>y v. content d (response_key pre y) \<noteq> Some (v, None) \<and> content d (lock_key pre y) \<noteq> Some (v, None))"

lemma not_live:
  assumes "\<And>v. e \<noteq> Some (v, None)" "\<And>v x. e = Some (v, x) \<Longrightarrow> seen_to x \<le> now"
  shows "live (server_clock now) e = None"
proof (cases e)
  case (Some p)
  obtain v x where p: "p = (v, x)" by fastforce
  with Some assms(1) obtain y where "x = Some y" by (cases x) auto
  with Some p assms(2) [of v x] seen_until show ?thesis by (simp add: live_def seen_to_def)
qed (simp add: live_def)

context redis_server
begin

lemma quiet_get:
  assumes "\<not> blank sc" "\<not> blank ky"
  shows "quietly (redis_get R decode pre digest now sc ky) d =
    ((case live (server_clock now) (content d (response_key pre (compound_of digest sc ky))) of
        None \<Rightarrow> Inr None | Some (raw, _) \<Rightarrow> map_sum id Some (read_entry decode raw)), d)"
  using assms by (simp add: quietly_def redis_get_def normalize_valid send_open get split: option.splits prod.splits)

lemma quiet_claim:
  assumes "\<not> blank sc" "\<not> blank ky" "\<not> blank ow"
  shows "fst (quietly (redis_claim R pre digest now sc ky ow ttl) d) =
    Inr (live (server_clock now) (content d (lock_key pre (compound_of digest sc ky))) = None)"
proof -
  obtain b d' where b: "rd_set_nx R (server_clock now) (lock_key pre (compound_of digest sc ky)) (trim_space ow)
      (default_claim_ttl ttl) d = (b, d')" by fastforce
  have "0 < default_claim_ttl ttl" by (simp add: default_claim_ttl_def)
  from set_nx [OF this b] b assms show ?thesis
    by (simp add: quietly_def redis_claim_def normalize_valid send_open Let_def)
qed

end

sublocale redis_server \<subseteq> core: response_core "\<lambda>now sc ky. quietly (redis_get R decode pre digest now sc ky)"
    "\<lambda>now sc ky ow ttl. quietly (redis_claim R pre digest now sc ky ow ttl)"
    "\<lambda>now sc ky en ttl. quietly (redis_save R encode pre digest now sc ky en ttl)"
    "\<lambda>sc ky ow d. quietly (redis_idem_release R pre digest (clock d) sc ky ow) d"
    "held_claim content pre digest" in_ms "redis_saved content decode pre digest" "read_back encode decode"
    "all_expire content pre"
  for decode encode pre digest clock
proof (unfold_locales, goal_cases)
  case (1 sc' ky' now sc ky s)
  show ?case unfolding quietly_sel held_claim_conn by (simp add: claims.get_claimed) (simp add: held_claim_def)
next
  case (2 now sc ky ow ttl s s')
  obtain r c where q: "redis_claim R pre digest now sc ky ow ttl \<lparr>cn_db = s, cn_faults = []\<rparr> = (r, c)" by fastforce
  with 2(1) have r: "r = Inr True" "s' = cn_db c" by (simp_all add: quietly_def)
  from claims.claim_sets [OF q [unfolded r(1)] 2(2)] r show ?case by (simp add: held_claim_conn)
next
  case (3 sc' ky' s ow' x now sc ky ow ttl)
  then show ?case unfolding quietly_sel held_claim_conn by (simp add: held_claim_def claims.claim_holds)
next
  case (4 sc' ky' now sc ky en ttl s)
  show ?case unfolding quietly_sel held_claim_conn by (simp add: held_claim_def claims.save_claimed)
next
  case (5 sc ky s ow' x ow sc' ky')
  then show ?case unfolding quietly_sel held_claim_conn
    using claims.release_other [where clock = "\<lambda>_. clock s"] by (simp add: held_claim_def)
next
  case (6 sc ky s reading x now)
  then show ?case
    using live_seen [of now] by (auto simp: quiet_get redis_saved_def)
next
  case (7 s now sc ky)
  then show ?case unfolding quietly_sel get_content by simp
next
  case (8 s sc ky now)
  have "live (server_clock now) (content s (response_key pre (compound_of digest sc ky))) = None"
    by (rule not_live) (use 8 in \<open>auto simp: all_expire_def redis_saved_def\<close>)
  with 8 show ?case by (simp add: quiet_get)
next
  case (9 sc' ky' s now sc ky)
  then show ?case unfolding quietly_sel get_content by simp
next
  case (10 s sc ky ow now ttl)
  have "live (server_clock now) (content s (lock_key pre (compound_of digest sc ky))) = None"
    by (rule not_live) (use 10 in \<open>auto simp: all_expire_def held_claim_def redis_claimed_def\<close>)
  with 10 show ?case by (simp add: quiet_claim)
next
  case (11 sc ky ow s ow' x now ttl)
  then show ?case using live_seen [of now] by (auto simp: quiet_claim held_claim_def redis_claimed_def)
next
  case (12 sc' ky' now sc ky ow ttl s)
  obtain r c where q: "redis_claim R pre digest now sc ky ow ttl \<lparr>cn_db = s, cn_faults = []\<rparr> = (r, c)" by fastforce
  from claim_content [OF q] q show ?case by (auto simp: quietly_sel redis_saved_def)
next
  case (13 sc ky ttl en now s)
  then obtain raw where raw: "encode en = Inr raw" "decode raw = Inr en"
    by (auto simp: read_back_def split: sum.splits)
  have ttl: "0 < default_save_ttl ttl" by (simp add: default_save_ttl_def)
  from 13 raw show ?case
    using whole_ms_until [of "default_save_ttl ttl" now]
    by (simp add: quietly_def redis_save_def normalize_valid send_open redis_saved_def set [OF ttl] read_entry_def
        seen_to_def in_ms_def)
next
  case (14 sc' ky' sc ky ow s)
  obtain r c where q: "redis_idem_release R pre digest (clock s) sc ky ow \<lparr>cn_db = s, cn_faults = []\<rparr> = (r, c)" by fastforce
  from idem_release_content [OF q] q show ?case by (auto simp: quietly_sel redis_saved_def)
qed

section \<open>Properties\<close>

context redis_server
begin

lemmas one_claim_holder = claims.one_holder
lemmas served_again = core.second_is_replay
lemmas served_first = core.runs_and_stores

end

text \<open>C9: with the store on Redis, too, at most one request holds a key. On any server that keeps
  Redis's documented behaviour, however the steps of requests with different owners interleave and
  whichever commands and answers are lost, of two requests with one scope and key that are both
  between claim and release, the claim of one has expired, if the locks last whole milliseconds.\<close>

theorem redis_one_request_holds_key:
  assumes "redis_server R content"
    and "(idem_step (redis_get R decode pre digest) (redis_claim R pre digest) (redis_save R encode pre digest)
          (\<lambda>sc ky ow c. redis_idem_release R pre digest (clock c) sc ky ow c) q)\<^sup>*\<^sup>* (idem_start s0 t) s"
    and "\<And>i j. trim_space (ip_owner (q i)) = trim_space (ip_owner (q j)) \<Longrightarrow> i = j"
    and "\<And>i. in_ms (default_claim_ttl (ip_lock (q i)))"
    and "holds_until (ir_pc s i) = Some x" "holds_until (ir_pc s j) = Some y" "i \<noteq> j"
    and "ip_scope (q i) = ip_scope (q j)" "ip_key (q i) = ip_key (q j)"
  shows "x \<le> ir_now s \<or> y \<le> ir_now s"
  by (rule redis_server.one_claim_holder [OF assms])

text \<open>And a request that is sent again is answered from the store, if the JSON text of its response
  is read back as it was written.\<close>

lemma redis_request_replayed:
  assumes "redis_server R content"
    and "\<not> blank (ic_scope c)" "\<not> blank (ic_header c)" "\<not> blank (idem_owner (ic_uuid c))"
    and "redis_saved content decode pre digest (ic_scope c) (trim_space (ic_header c)) s = None"
    and "held_claim content pre digest (ic_scope c) (trim_space (ic_header c)) s = None"
    and "execute w = (r, w1)" "rs_status r < 500"
    and "in_ms (default_save_ttl (ic_ttl c))" "read_back encode decode (entry_of_response r)" "all_expire content pre s"
    and "ic_scope c' = ic_scope c" "trim_space (ic_header c') = trim_space (ic_header c)"
    and "ic_clock c' 0 \<le> ic_clock c 2 + default_save_ttl (ic_ttl c)"
    and "h = handle_idempotent (\<lambda>now sc ky. quietly (redis_get R decode pre digest now sc ky))
           (\<lambda>now sc ky ow ttl. quietly (redis_claim R pre digest now sc ky ow ttl))
           (\<lambda>now sc ky en ttl. quietly (redis_save R encode pre digest now sc ky en ttl))
           (\<lambda>sc ky ow d. quietly (redis_idem_release R pre digest (clock d) sc ky ow) d)"
    and "h c execute (s, w) = (ro, s', w')"
  shows "ro = Some (copy_response Map.empty r) \<and> w' = w1
    \<and> h c' execute' (s', w') = (Some (write_entry Map.empty (entry_of_response r)), s', w1)"
  using redis_server.served_first [where c = c and execute = execute and w = w and clock = clock, OF assms(1-11)]
    redis_server.served_again [where c = c and execute = execute and w = w and execute' = execute',
      OF assms(1-14) assms(16) [unfolded assms(15)]]
    assms(16) by (simp add: assms(15))

lemma two_claims:
  assumes "get t (ip_scope (q 0)) (ip_key (q 0)) s0 = (Inr None, s1)"
    and "get t (ip_scope (q 1)) (ip_key (q 1)) s1 = (Inr None, s2)"
    and "claim t (ip_scope (q 0)) (ip_key (q 0)) (ip_owner (q 0)) (ip_lock (q 0)) s2 = (Inr True, s3)"
    and "claim u (ip_scope (q 1)) (ip_key (q 1)) (ip_owner (q 1)) (ip_lock (q 1)) s3 = (Inr True, s4)" "t \<le> u"
  shows "(idem_step get claim save release q)\<^sup>*\<^sup>* (idem_start s0 t)
    \<lparr>ir_store = s4, ir_now = u, ir_pc = (\<lambda>_. Arrived)(0 := Claimed (t + default_claim_ttl (ip_lock (q 0))),
       1 := Claimed (u + default_claim_ttl (ip_lock (q 1)))), ir_runs = []\<rparr>"
proof -
  let ?step = "idem_step get claim save release q"
  let ?a = "\<lambda>st now p0 p1. \<lparr>ir_store = st, ir_now = now, ir_pc = (\<lambda>_. Arrived)(0 := p0, 1 := p1), ir_runs = []\<rparr>"
  let ?x = "t + default_claim_ttl (ip_lock (q 0))" and ?y = "u + default_claim_ttl (ip_lock (q 1))"
  have st0: "idem_start s0 t = ?a s0 t Arrived Arrived" by (simp add: idem_start_def fun_eq_iff)
  have "?step (?a s0 t Arrived Arrived) (?a s1 t Missed Arrived)"
    using Look [of "?a s0 t Arrived Arrived" 0 get q "Inr None" s1 Missed] assms(1) by (simp add: fun_upd_twist)
  moreover have "?step (?a s1 t Missed Arrived) (?a s2 t Missed Missed)"
    using Look [of "?a s1 t Missed Arrived" 1 get q "Inr None" s2 Missed] assms(2) by simp
  moreover have "?step (?a s2 t Missed Missed) (?a s3 t (Claimed ?x) Missed)"
    using Claim [of "?a s2 t Missed Missed" 0 claim q "Inr True" s3 "Claimed ?x"] assms(3) by (simp add: fun_upd_twist)
  moreover have "?step (?a s3 t (Claimed ?x) Missed) (?a s3 u (Claimed ?x) Missed)"
    using Pass [of "?a s3 t (Claimed ?x) Missed" u] assms(5) by simp
  moreover have "?step (?a s3 u (Claimed ?x) Missed) (?a s4 u (Claimed ?x) (Claimed ?y))"
    using Claim [of "?a s3 u (Claimed ?x) Missed" 1 claim q "Inr True" s4 "Claimed ?y"] assms(4) by simp
  ultimately show ?thesis unfolding st0 by (meson converse_rtranclp_into_rtranclp rtranclp.rtrancl_refl)
qed

text \<open>Two requests with locks of ten milliseconds; the second one claims after the first lock is over.\<close>

definition brief_lock :: "nat \<Rightarrow> idem_params" where
  "brief_lock i = \<lparr>ip_scope = ''s'', ip_key = ''k'', ip_owner = ''o'' @ replicate i (CHR ''x''), ip_lock = 10 * millisecond, ip_ttl = 0\<rparr>"

abbreviation (input) no_digest :: "gostr \<Rightarrow> gostr" where "no_digest \<equiv> \<lambda>s. s"

abbreviation (input) unread :: "gostr \<Rightarrow> go_error + payload idem_entry" where "unread \<equiv> \<lambda>_. Inl (new_error [])"

abbreviation (input) unwritten :: "payload idem_entry \<Rightarrow> go_error + gostr" where "unwritten \<equiv> \<lambda>_. Inl (new_error [])"

definition brief_run :: "(gostr \<Rightarrow> redis_entry option) connection idem_run" where
  "brief_run = \<lparr>ir_store = snd (redis_claim mem_redis ''p'' no_digest 20000000 ''s'' ''k'' ''ox'' 10000000
        (snd (redis_claim mem_redis ''p'' no_digest 5000000 ''s'' ''k'' ''o'' 10000000 \<lparr>cn_db = Map.empty, cn_faults = []\<rparr>))),
     ir_now = 20000000, ir_pc = (\<lambda>_. Arrived)(0 := Claimed 15000000, 1 := Claimed 30000000), ir_runs = []\<rparr>"

abbreviation (input) brief_conn :: "(gostr \<Rightarrow> redis_entry option) connection" where
  "brief_conn \<equiv> \<lparr>cn_db = Map.empty, cn_faults = []\<rparr>"

abbreviation (input) brief_claimed :: "(gostr \<Rightarrow> redis_entry option) connection" where
  "brief_claimed \<equiv> snd (redis_claim mem_redis ''p'' no_digest 5000000 ''s'' ''k'' ''o'' 10000000 brief_conn)"

lemma brief_lock_fields:
  "ip_scope (brief_lock i) = ''s''" "ip_key (brief_lock i) = ''k''" "ip_lock (brief_lock i) = 10000000"
  "ip_owner (brief_lock 0) = ''o''" "ip_owner (brief_lock 1) = ''ox''"
  by (simp_all add: brief_lock_def)

lemma brief_trims: "trim_space ''s'' = ''s''" "trim_space ''k'' = ''k''" "trim_space ''o'' = ''o''" "trim_space ''ox'' = ''ox''"
  by (simp_all add: plain_ends_def plain_char_def)

lemma brief_get: "redis_get mem_redis unread ''p'' no_digest 5000000 ''s'' ''k'' brief_conn = (Inr None, brief_conn)"
  by (simp add: redis_get_def normalize_compound_key_def brief_trims send_quiet mem_redis_def live_def)

lemma brief_first: "redis_claim mem_redis ''p'' no_digest 5000000 ''s'' ''k'' ''o'' 10000000 brief_conn = (Inr True, brief_claimed)"
  by (simp add: redis_claim_def normalize_compound_key_def brief_trims send_quiet mem_redis_def live_def)

lemma brief_second: "redis_claim mem_redis ''p'' no_digest 20000000 ''s'' ''k'' ''ox'' 10000000 brief_claimed =
    (Inr True, snd (redis_claim mem_redis ''p'' no_digest 20000000 ''s'' ''k'' ''ox'' 10000000 brief_claimed))"
  by (simp add: redis_claim_def normalize_compound_key_def brief_trims send_quiet mem_redis_def live_def server_clock_def
      whole_ms_def default_claim_ttl_def)

lemma brief_run_reached:
  "(idem_step (redis_get mem_redis unread ''p'' no_digest) (redis_claim mem_redis ''p'' no_digest)
      (redis_save mem_redis unwritten ''p'' no_digest) (\<lambda>sc ky ow c. redis_idem_release mem_redis ''p'' no_digest 0 sc ky ow c)
      brief_lock)\<^sup>*\<^sup>* (idem_start brief_conn 5000000) brief_run"
  unfolding brief_run_def
  using two_claims [where q = brief_lock and get = "redis_get mem_redis unread ''p'' no_digest"
      and claim = "redis_claim mem_redis ''p'' no_digest" and t = 5000000 and u = 20000000, unfolded brief_lock_fields,
      OF brief_get brief_get brief_first brief_second]
  by (simp only: default_claim_ttl_def) simp

theorem redis_one_request_holds_key_witness:
  "15000000 \<le> ir_now brief_run \<or> 30000000 \<le> ir_now brief_run"
proof (rule redis_one_request_holds_key [OF mem.redis_server_axioms brief_run_reached, of 0 15000000 1 30000000])
  have "trim_space (ip_owner (brief_lock i)) = ip_owner (brief_lock i)" for i
    by (cases i) (simp_all add: brief_lock_def plain_ends_def plain_char_def)
  then show "i = j" if "trim_space (ip_owner (brief_lock i)) = trim_space (ip_owner (brief_lock j))" for i j
    using that by (simp add: brief_lock_def)
qed (simp_all add: brief_lock_def brief_run_def in_ms_def default_claim_ttl_def)

end
