(* ===== verification/Postgres.thy ===== *)
theory Postgres
  imports Connection
begin

text \<open>
  The part of Postgres that \<open>internal/task/postgres_service.go\<close> and
  \<open>internal/session/postgres_service.go\<close> share: their statements over a table with a primary key,
  the constructor with \<open>initSchema\<close>, and the definition statements it runs. A table is a map from
  the key to the row. The texts of the server's and the driver's errors, the order of texts, and
  what a \<open>TIMESTAMPTZ\<close> and a \<open>JSONB\<close> column keep of a value are parameters.
\<close>

record pg_server =
  pg_time :: "go_time \<Rightarrow> go_time"
  pg_jsonb :: "gostr \<Rightarrow> go_error + gostr"
  pg_before :: "gostr \<Rightarrow> gostr \<Rightarrow> bool"
  pg_no_integer :: "int \<Rightarrow> go_error"
  pg_duplicate :: "gostr \<Rightarrow> go_error"

section \<open>Statements\<close>

type_synonym 'r db_table = "gostr \<rightharpoonup> 'r"

text \<open>\<open>INSERT ... RETURNING\<close>, \<open>UPDATE ... WHERE id = ... AND ... RETURNING\<close>, \<open>DELETE ... WHERE id = ...\<close>
  with the number of rows. An \<open>UPDATE\<close> that hits no row answers \<open>pgx.ErrNoRows\<close>, here \<open>None\<close>.\<close>

definition sql_insert :: "pg_server \<Rightarrow> gostr \<Rightarrow> 'r \<Rightarrow> 'r db_table \<Rightarrow> (go_error + 'r) \<times> 'r db_table" where
  "sql_insert S k r tbl = (if tbl k = None then (Inr r, tbl(k \<mapsto> r)) else (Inl (pg_duplicate S k), tbl))"

definition sql_update ::
  "gostr \<Rightarrow> ('r \<Rightarrow> bool) \<Rightarrow> ('r \<Rightarrow> go_error + 'r) \<Rightarrow> 'r db_table \<Rightarrow> (go_error + 'r option) \<times> 'r db_table" where
  "sql_update k cond change tbl =
     (case tbl k of
        None \<Rightarrow> (Inr None, tbl)
      | Some r \<Rightarrow>
          if cond r then
            (case change r of Inl e \<Rightarrow> (Inl e, tbl) | Inr r' \<Rightarrow> (Inr (Some r'), tbl(k \<mapsto> r')))
          else (Inr None, tbl))"

definition sql_delete :: "gostr \<Rightarrow> 'r db_table \<Rightarrow> nat \<times> 'r db_table" where
  "sql_delete k tbl = (case tbl k of None \<Rightarrow> (0, tbl) | Some _ \<Rightarrow> (1, tbl(k := None)))"

text \<open>A statement whose own error and the connection's are one to the caller.\<close>

definition ask :: "('d \<Rightarrow> (go_error + 'r) \<times> 'd) \<Rightarrow> 'd connection \<Rightarrow> (go_error + 'r) \<times> 'd connection" where
  "ask f c =
     (case send f c of
        (Inl e, c) \<Rightarrow> (Inl e, c)
      | (Inr r, c) \<Rightarrow> (r, c))"

lemma ask_answered: "ask f c = (Inr r, c') \<Longrightarrow> f (cn_db c) = (Inr r, cn_db c')"
  by (auto simp: ask_def split: prod.splits sum.splits dest: send_heard)

lemma ask_db: "ask f c = (r, c') \<Longrightarrow> cn_db c' = cn_db c \<or> cn_db c' = snd (f (cn_db c))"
  by (auto simp: ask_def split: prod.splits sum.splits dest: send_heard send_lost)

lemma ask_quiet: "cn_faults c = [] \<Longrightarrow> ask f c = (fst (f (cn_db c)), c\<lparr>cn_db := snd (f (cn_db c))\<rparr>)"
  by (simp add: ask_def send_quiet)

section \<open>Integers\<close>

text \<open>A value of an \<open>INTEGER\<close> column.\<close>

definition int4 :: "int \<Rightarrow> bool" where
  "int4 n \<longleftrightarrow> - (2 ^ 31) \<le> n \<and> n < 2 ^ 31"

definition as_integer :: "pg_server \<Rightarrow> int \<Rightarrow> go_error + int" where
  "as_integer S n = (if int4 n then Inr n else Inl (pg_no_integer S n))"

section \<open>The schema\<close>

record column =
  col_name :: gostr
  col_type :: gostr
  col_null :: bool
  col_default :: "gostr option"

text \<open>The statements of \<open>initSchema\<close>, each with its \<open>IF NOT EXISTS\<close>.\<close>

datatype ddl =
    CreateTable gostr "column list"
  | AddColumn gostr column
  | CreateIndex gostr gostr "gostr list"

record schema =
  sc_tables :: "gostr \<rightharpoonup> column list"
  sc_indexes :: "gostr \<rightharpoonup> gostr \<times> gostr list"

abbreviation column_names :: "column list \<Rightarrow> gostr set" where
  "column_names cs \<equiv> col_name ` set cs"

definition column_of :: "gostr \<Rightarrow> gostr \<Rightarrow> bool \<Rightarrow> gostr option \<Rightarrow> column" where
  "column_of name typ null def_val = \<lparr>col_name = name, col_type = typ, col_null = null, col_default = def_val\<rparr>"

definition missing :: "gostr \<Rightarrow> go_error" where
  "missing what = new_error (what @ '' does not exist'')"

fun run_ddl :: "ddl \<Rightarrow> schema \<Rightarrow> (go_error + unit) \<times> schema" where
  "run_ddl (CreateTable t cs) s =
     (Inr (), case sc_tables s t of None \<Rightarrow> s\<lparr>sc_tables := (sc_tables s)(t \<mapsto> cs)\<rparr> | Some _ \<Rightarrow> s)"
| "run_ddl (AddColumn t c) s =
     (case sc_tables s t of
        None \<Rightarrow> (Inl (missing t), s)
      | Some cs \<Rightarrow>
          (Inr (), if col_name c \<in> column_names cs then s
                   else s\<lparr>sc_tables := (sc_tables s)(t \<mapsto> cs @ [c])\<rparr>))"
| "run_ddl (CreateIndex i t ks) s =
     (case sc_indexes s i of
        Some _ \<Rightarrow> (Inr (), s)
      | None \<Rightarrow>
          (case sc_tables s t of
             None \<Rightarrow> (Inl (missing t), s)
           | Some cs \<Rightarrow>
               if set ks \<subseteq> column_names cs then (Inr (), s\<lparr>sc_indexes := (sc_indexes s)(i \<mapsto> (t, ks))\<rparr>)
               else (Inl (missing i), s)))"

primrec init_schema :: "gostr \<Rightarrow> ddl list \<Rightarrow> schema connection \<Rightarrow> (go_error + unit) \<times> schema connection" where
  "init_schema what [] c = (Inr (), c)"
| "init_schema what (d # ds) c =
     (case ask (run_ddl d) c of
        (Inl e, c) \<Rightarrow> (Inl (wrap_error (''initialize '' @ what @ '' schema: '') e), c)
      | (Inr _, c) \<Rightarrow> init_schema what ds c)"

text \<open>\<open>NewPostgresService\<close>: \<open>open_pool\<close> is \<open>pgxpool.New\<close>; the flag says whether the pool is left open.\<close>

definition new_pg_service ::
  "gostr \<Rightarrow> ddl list \<Rightarrow> (gostr \<Rightarrow> go_error + schema connection) \<Rightarrow> gostr \<Rightarrow> (go_error + schema connection) \<times> bool" where
  "new_pg_service what ds open_pool dsn =
     (if blank dsn then (Inl (new_error ''postgres dsn is required''), False)
      else case open_pool dsn of
        Inl e \<Rightarrow> (Inl (wrap_error ''create postgres pool: '' e), False)
      | Inr c \<Rightarrow>
          (case init_schema what ds c of
             (Inl e, _) \<Rightarrow> (Inl e, False)
           | (Inr _, c) \<Rightarrow> (Inr c, True)))"

text \<open>Tables and columns are never taken away, and a statement that was run need not be run again.\<close>

definition grows :: "schema \<Rightarrow> schema \<Rightarrow> bool" where
  "grows s s' \<longleftrightarrow> (\<forall>t cs. sc_tables s t = Some cs \<longrightarrow> (\<exists>cs'. sc_tables s' t = Some cs' \<and> set cs \<subseteq> set cs'))"

lemma grows_refl: "grows s s"
  by (auto simp: grows_def)

lemma grows_trans: "grows s s' \<Longrightarrow> grows s' s'' \<Longrightarrow> grows s s''"
  unfolding grows_def by (meson subset_trans)

lemma run_ddl_grows: "grows s (snd (run_ddl d s))"
  by (cases d) (auto simp: grows_def split: option.splits)

lemma ask_ddl_grows: "ask (run_ddl d) c = (r, c') \<Longrightarrow> grows (cn_db c) (cn_db c')"
  using ask_db [of "run_ddl d" c r c'] run_ddl_grows [of "cn_db c" d] grows_refl by auto

lemma init_schema_Cons:
  assumes "init_schema what (d # ds) c = (r, c')"
  obtains r1 c1 where "ask (run_ddl d) c = (r1, c1)"
    and "(\<exists>e. r1 = Inl e \<and> r \<noteq> Inr () \<and> c' = c1) \<or> (r1 = Inr () \<and> init_schema what ds c1 = (r, c'))"
proof -
  obtain r1 c1 where q: "ask (run_ddl d) c = (r1, c1)" by fastforce
  with assms that [OF q] show ?thesis by (cases r1) auto
qed

lemma init_schema_ok:
  assumes "init_schema what (d # ds) c = (Inr (), c')"
  obtains c1 where "ask (run_ddl d) c = (Inr (), c1)" "init_schema what ds c1 = (Inr (), c')"
  using assms by (rule init_schema_Cons) (auto simp: that)

lemma init_schema_grows: "init_schema what ds c = (r, c') \<Longrightarrow> grows (cn_db c) (cn_db c')"
proof (induction ds arbitrary: c)
  case Nil
  then show ?case by (simp add: grows_refl)
next
  case (Cons d ds)
  from Cons.prems obtain r1 c1 where q: "ask (run_ddl d) c = (r1, c1)"
    and "c' = c1 \<or> init_schema what ds c1 = (r, c')" by (rule init_schema_Cons) blast
  with Cons.IH [of c1] ask_ddl_grows [OF q] show ?case using grows_trans by blast
qed

text \<open>After a success the table has every column of the statements, if a table that was there
  before had at least the columns that no statement adds.\<close>

definition has_columns :: "gostr \<Rightarrow> gostr set \<Rightarrow> schema \<Rightarrow> bool" where
  "has_columns t names s \<longleftrightarrow> (\<exists>cs. sc_tables s t = Some cs \<and> names \<subseteq> column_names cs)"

lemma has_columns_grows: "grows s s' \<Longrightarrow> has_columns t names s \<Longrightarrow> has_columns t names s'"
  unfolding grows_def has_columns_def by (meson image_mono subset_trans)

lemma has_columns_mono: "has_columns t names' s \<Longrightarrow> names \<subseteq> names' \<Longrightarrow> has_columns t names s"
  unfolding has_columns_def by blast

lemma has_columns_Un: "has_columns t (A \<union> B) s \<longleftrightarrow> has_columns t A s \<and> has_columns t B s"
  by (auto simp: has_columns_def)

definition added_columns :: "gostr \<Rightarrow> ddl list \<Rightarrow> gostr set" where
  "added_columns t ds = {col_name c | c. AddColumn t c \<in> set ds}"

lemma init_schema_adds:
  "init_schema what ds c = (Inr (), c') \<Longrightarrow> sc_tables (cn_db c) t \<noteq> None \<Longrightarrow> has_columns t (added_columns t ds) (cn_db c')"
proof (induction ds arbitrary: c)
  case Nil
  then show ?case by (auto simp: has_columns_def added_columns_def)
next
  case (Cons d ds)
  from Cons.prems(1) obtain c1 where q: "ask (run_ddl d) c = (Inr (), c1)"
    and rest: "init_schema what ds c1 = (Inr (), c')" by (rule init_schema_ok)
  note run = ask_answered [OF q]
  have there: "sc_tables (cn_db c1) t \<noteq> None"
    using ask_ddl_grows [OF q] Cons.prems(2) unfolding grows_def by blast
  have "has_columns t (added_columns t [d]) (cn_db c1)"
    using run [THEN arg_cong [where f = snd], symmetric] Cons.prems(2)
    by (cases d) (auto simp: has_columns_def added_columns_def split: if_splits option.splits)
  from has_columns_grows [OF init_schema_grows [OF rest] this] Cons.IH [OF rest there]
  have "has_columns t (added_columns t [d] \<union> added_columns t ds) (cn_db c')" by (simp add: has_columns_Un)
  moreover have "added_columns t (d # ds) = added_columns t [d] \<union> added_columns t ds"
    by (auto simp: added_columns_def)
  ultimately show ?case by simp
qed

lemma init_schema_complete:
  assumes "init_schema what (CreateTable t cs # ds) c = (Inr (), c')"
    and "sc_tables (cn_db c) t = None \<or> has_columns t (column_names cs - added_columns t ds) (cn_db c)"
  shows "has_columns t (column_names cs) (cn_db c')"
proof -
  from assms(1) obtain c1 where q: "ask (run_ddl (CreateTable t cs)) c = (Inr (), c1)"
    and rest: "init_schema what ds c1 = (Inr (), c')" by (rule init_schema_ok)
  note run = ask_answered [OF q]
  then have "snd (run_ddl (CreateTable t cs) (cn_db c)) = cn_db c1" by simp
  then have "has_columns t (column_names cs - added_columns t ds) (cn_db c1)" "sc_tables (cn_db c1) t \<noteq> None"
    using assms(2) by (auto simp: has_columns_def split: option.splits dest: sym)
  then have "has_columns t (column_names cs - added_columns t ds) (cn_db c')" "has_columns t (added_columns t ds) (cn_db c')"
    using has_columns_grows [OF init_schema_grows [OF rest]] init_schema_adds [OF rest] by blast+
  then have "has_columns t ((column_names cs - added_columns t ds) \<union> added_columns t ds) (cn_db c')"
    by (simp only: has_columns_Un simp_thms)
  then show ?thesis by (rule has_columns_mono) blast
qed

end
