(* ===== verification/PgSessions.thy ===== *)
theory PgSessions
  imports Postgres Sessions
begin

text \<open>
  The session service on Postgres, \<open>internal/session/postgres_service.go\<close>, and how it differs from
  the one in memory: it trims the tenant and the identifiers it is asked for, it rejects a blank
  identifier of a deletion with an error of its own, and its identifiers are 48 bits of a random
  UUID, so that a creation may fail for an identifier that is taken.
\<close>

section \<open>The table\<close>

text \<open>\<open>''\<close>, \<open>'ready'\<close> and \<open>NOW()\<close> as the statements have them; the index is in descending order, which
  the schema of an index leaves out.\<close>

definition session_table :: "column list" where
  "session_table =
    [column_of ''id'' ''TEXT PRIMARY KEY'' False None,
     column_of ''tenant_id'' ''TEXT'' False None,
     column_of ''status'' ''TEXT'' False None,
     column_of ''created_at'' ''TIMESTAMPTZ'' False None]"

definition session_schema :: "ddl list" where
  "session_schema =
     [CreateTable ''sessions'' session_table,
      AddColumn ''sessions'' (column_of ''tenant_id'' ''TEXT'' False (Some [CHR 0x27, CHR 0x27])),
      AddColumn ''sessions'' (column_of ''status'' ''TEXT'' False (Some ([CHR 0x27] @ ''ready'' @ [CHR 0x27]))),
      AddColumn ''sessions'' (column_of ''created_at'' ''TIMESTAMPTZ'' False (Some ''NOW()'')),
      CreateIndex ''idx_sessions_created_at'' ''sessions'' [''created_at'']]"

definition new_pg_sessions where
  "new_pg_sessions = new_pg_service ''sessions'' session_schema"

section \<open>Operations\<close>

record session_row =
  sr_id :: gostr
  sr_tenant :: gostr
  sr_status :: gostr
  sr_created :: go_time

datatype pg_session_error = SessionRefused session_error | SessionIdMissing | SessionBroken go_error

type_synonym session_db = "session_row db_table connection"

definition scan_session :: "session_row \<Rightarrow> session_row" where
  "scan_session r = r\<lparr>sr_status := trim_space (sr_status r)\<rparr>"

definition pg_session_id :: "gostr \<Rightarrow> gostr" where
  "pg_session_id uuid = ''sess_'' @ take 12 (filter (\<lambda>ch. ch \<noteq> CHR ''-'') uuid)"

definition pg_session_create ::
  "pg_server \<Rightarrow> gostr \<Rightarrow> go_time \<Rightarrow> gostr \<Rightarrow> session_db \<Rightarrow> (pg_session_error + session_row) \<times> session_db" where
  "pg_session_create S uuid now tenant c =
     (let tenant_id = trim_space tenant; sid = pg_session_id uuid in
      if tenant_id = [] then (Inl (SessionRefused TenantRequired), c)
      else case ask (sql_insert S sid \<lparr>sr_id = sid, sr_tenant = tenant_id, sr_status = ''ready'', sr_created = pg_time S now\<rparr>) c of
        (Inl e, c) \<Rightarrow> (Inl (SessionBroken e), c)
      | (Inr r, c) \<Rightarrow> (Inr (scan_session r), c))"

definition pg_session_delete :: "gostr \<Rightarrow> session_db \<Rightarrow> (pg_session_error + unit) \<times> session_db" where
  "pg_session_delete sid c =
     (let trimmed_id = trim_space sid in
      if trimmed_id = [] then (Inl SessionIdMissing, c)
      else case send (sql_delete trimmed_id) c of
        (Inl e, c) \<Rightarrow> (Inl (SessionBroken e), c)
      | (Inr n, c) \<Rightarrow> if n = 0 then (Inl (SessionRefused SessionNotFound), c) else (Inr (), c))"

definition pg_session_get :: "gostr \<Rightarrow> session_db \<Rightarrow> (pg_session_error + session_row) \<times> session_db" where
  "pg_session_get sid c =
     (let trimmed_id = trim_space sid in
      if trimmed_id = [] then (Inl (SessionRefused SessionNotFound), c)
      else case send (\<lambda>tbl. (tbl trimmed_id, tbl)) c of
        (Inl e, c) \<Rightarrow> (Inl (SessionBroken e), c)
      | (Inr None, c) \<Rightarrow> (Inl (SessionRefused SessionNotFound), c)
      | (Inr (Some r), c) \<Rightarrow> (Inr (scan_session r), c))"

section \<open>The contract\<close>

text \<open>What a session service promises, on a server that may fail: a created session was new, nothing
  else changes a session but its deletion, and an answer tells what is stored.\<close>

fun session_op_step where
  "session_op_step create delete (Inl (now, tenant)) s = snd (create now tenant s)"
| "session_op_step create delete (Inr sid) s = snd (delete sid s)"

locale session_service =
  fixes create :: "'n \<Rightarrow> gostr \<Rightarrow> 's \<Rightarrow> ('e + 'v) \<times> 's"
    and delete :: "gostr \<Rightarrow> 's \<Rightarrow> ('e + unit) \<times> 's"
    and get :: "gostr \<Rightarrow> 's \<Rightarrow> ('e + 'v) \<times> 's"
    and view :: "'s \<Rightarrow> gostr \<rightharpoonup> 'v"
    and key :: "gostr \<Rightarrow> gostr"
    and sid_of :: "'v \<Rightarrow> gostr"
    and sinv :: "'s \<Rightarrow> bool"
    and not_found :: 'e
  assumes create_new: "sinv s \<Longrightarrow> create now tenant s = (res, s') \<Longrightarrow>
      view s' = view s \<and> (\<forall>v. res \<noteq> Inr v)
      \<or> (\<exists>v. view s (sid_of v) = None \<and> view s' = (view s)(sid_of v \<mapsto> v) \<and> (\<forall>u. res = Inr u \<longrightarrow> u = v))"
    and delete_only: "sinv s \<Longrightarrow> delete sid s = (gone, s') \<Longrightarrow>
      (view s' = view s \<and> gone \<noteq> Inr ()) \<or> view s' = (view s)(key sid := None)"
    and get_told: "sinv s \<Longrightarrow> get sid s = (res, s') \<Longrightarrow>
      view s' = view s \<and> (\<forall>v. res = Inr v \<longrightarrow> view s (key sid) = Some v)
      \<and> (res = Inl not_found \<longrightarrow> view s (key sid) = None)"
    and sinv_create: "sinv s \<Longrightarrow> sinv (snd (create now tenant s))"
    and sinv_delete: "sinv s \<Longrightarrow> sinv (snd (delete sid s))"
    and sinv_get: "sinv s \<Longrightarrow> sinv (snd (get sid s))"
begin

abbreviation (input) "does \<equiv> session_op_step create delete"

text \<open>A session stays as it was created until it is deleted.\<close>

lemma stays:
  assumes "sinv s" "view s sid = Some v" "\<forall>k. Inr k \<in> set ops \<longrightarrow> key k \<noteq> sid"
  shows "sinv (fold does ops s) \<and> view (fold does ops s) sid = Some v"
  using assms
proof (induction ops arbitrary: s)
  case (Cons oper ops)
  have "sinv (does oper s) \<and> view (does oper s) sid = Some v"
  proof (cases oper)
    case (Inl p)
    obtain now tenant where p: "p = (now, tenant)" by (cases p)
    obtain res s' where q: "create now tenant s = (res, s')" by fastforce
    from create_new [OF Cons.prems(1) q] Cons.prems(2) have "view s' sid = Some v" by auto
    with sinv_create [OF Cons.prems(1), of now tenant] Inl p q show ?thesis by simp
  next
    case (Inr k)
    obtain res s' where q: "delete k s = (res, s')" by fastforce
    from delete_only [OF Cons.prems(1) q] Cons.prems(2,3) Inr have "view s' sid = Some v" by auto
    with sinv_delete [OF Cons.prems(1), of k] Inr q show ?thesis by simp
  qed
  with Cons.IH [of "does oper s"] Cons.prems(3) show ?case by simp
qed simp

lemma created_found:
  assumes "sinv s" "create now tenant s = (Inr v, s1)" "\<forall>k. Inr k \<in> set ops \<longrightarrow> key k \<noteq> sid_of v"
    and "key sid = sid_of v" "get sid (fold does ops s1) = (res, s2)"
  shows "res = Inr v \<or> (\<exists>e. res = Inl e \<and> e \<noteq> not_found)"
proof -
  from create_new [OF assms(1,2)] have "view s1 (sid_of v) = Some v" by auto
  moreover from sinv_create [OF assms(1), of now tenant] assms(2) have "sinv s1" by simp
  ultimately have "sinv (fold does ops s1) \<and> view (fold does ops s1) (sid_of v) = Some v" by (rule stays [OF _ _ assms(3), rotated])
  with get_told [OF _ assms(5)] assms(4) show ?thesis by (cases res) auto
qed

lemma deleted_not_found:
  assumes "sinv s" "delete sid s = (Inr (), s1)" "key sid' = key sid"
  shows "\<nexists>v s2. get sid' s1 = (Inr v, s2)"
proof -
  from delete_only [OF assms(1,2)] have "view s1 (key sid) = None" by auto
  with sinv_delete [OF assms(1), of sid] assms(2,3) get_told [of s1 sid'] show ?thesis by fastforce
qed

end

interpretation mem_sessions: session_service session_create session_delete "\<lambda>sid s. (session_get sid s, s)"
    ss_items "\<lambda>sid. sid" se_id sessions_inv SessionNotFound
proof (unfold_locales, goal_cases)
  case (1 s now tenant res s')
  show ?case
  proof (cases res)
    case (Inl e)
    with 1 show ?thesis by (auto simp: session_create_def Let_def split: if_splits)
  next
    case (Inr v)
    with session_create_fresh [OF 1(1), of now tenant v s'] 1(2) show ?thesis
      by (auto simp: session_create_def Let_def split: if_splits)
  qed
next
  case (2 s sid res s')
  then show ?case by (auto simp: session_delete_def split: option.splits)
next
  case (3 s sid res s')
  then show ?case by (auto simp: session_get_def split: option.splits)
qed (simp_all add: sessions_inv_create sessions_inv_delete)

section \<open>Postgres keeps it\<close>

definition pg_session_view :: "session_db \<Rightarrow> gostr \<rightharpoonup> session_row" where
  "pg_session_view c sid = map_option scan_session (cn_db c sid)"

lemma pg_view_same: "cn_db c' = cn_db c \<Longrightarrow> pg_session_view c' = pg_session_view c"
  by (simp add: pg_session_view_def fun_eq_iff)

lemma scan_session_fields [simp]: "sr_id (scan_session r) = sr_id r"
  by (simp add: scan_session_def)

lemma pg_session_create_new:
  assumes "pg_session_create S uuid now tenant c = (res, c')"
  shows "pg_session_view c' = pg_session_view c \<and> (\<forall>v. res \<noteq> Inr v)
    \<or> (\<exists>v. pg_session_view c (sr_id v) = None \<and> pg_session_view c' = (pg_session_view c)(sr_id v \<mapsto> v) \<and> (\<forall>u. res = Inr u \<longrightarrow> u = v))"
proof (cases "trim_space tenant = []")
  case True
  with assms show ?thesis by (auto simp: pg_session_create_def)
next
  case False
  let ?r = "\<lparr>sr_id = pg_session_id uuid, sr_tenant = trim_space tenant, sr_status = ''ready'', sr_created = pg_time S now\<rparr>"
  let ?f = "sql_insert S (pg_session_id uuid) ?r"
  obtain a c1 where q: "ask ?f c = (a, c1)" by fastforce
  with False assms have r: "c' = c1" "\<And>u. res = Inr u \<Longrightarrow> \<exists>r. a = Inr r \<and> u = scan_session r"
    by (auto simp: pg_session_create_def Let_def split: sum.splits)
  have new: "pg_session_view c' = (pg_session_view c)(pg_session_id uuid \<mapsto> scan_session ?r)"
    if "cn_db c' = (cn_db c)(pg_session_id uuid \<mapsto> ?r)" using that by (simp add: pg_session_view_def fun_eq_iff)
  show ?thesis
  proof (cases "cn_db c (pg_session_id uuid) = None")
    case True
    then have ins: "?f (cn_db c) = (Inr ?r, (cn_db c)(pg_session_id uuid \<mapsto> ?r))" by (simp add: sql_insert_def)
    have free: "pg_session_view c (sr_id (scan_session ?r)) = None" using True by (simp add: pg_session_view_def)
    have told: "u = scan_session ?r \<and> cn_db c' = (cn_db c)(pg_session_id uuid \<mapsto> ?r)" if u: "res = Inr u" for u
    proof -
      from r(2) [OF u] obtain r' where "a = Inr r'" "u = scan_session r'" by blast
      with ask_answered [OF q [unfolded \<open>a = Inr r'\<close>]] ins r(1) show ?thesis by auto
    qed
    from ask_db [OF q] ins r(1) have "cn_db c' = cn_db c \<or> cn_db c' = (cn_db c)(pg_session_id uuid \<mapsto> ?r)" by simp
    then show ?thesis
    proof
      assume same: "cn_db c' = cn_db c"
      have "res \<noteq> Inr v" for v
      proof
        assume "res = Inr v"
        from told [OF this] same True show False by (metis fun_upd_same option.distinct(1))
      qed
      with pg_view_same [OF same] show ?thesis by simp
    next
      assume "cn_db c' = (cn_db c)(pg_session_id uuid \<mapsto> ?r)"
      from new [OF this] free told show ?thesis
        by (intro disjI2 exI [of _ "scan_session ?r"]) simp
    qed
  next
    case False
    then have ins: "?f (cn_db c) = (Inl (pg_duplicate S (pg_session_id uuid)), cn_db c)" by (simp add: sql_insert_def)
    from ask_db [OF q] ins r(1) have "cn_db c' = cn_db c" by simp
    moreover have "res \<noteq> Inr v" for v
      using r(2) [of v] ask_answered [of ?f c _ c1] q ins by auto
    ultimately show ?thesis using pg_view_same by blast
  qed
qed

lemma sql_delete_db: "snd (sql_delete k tbl) = tbl(k := None)"
  by (auto simp: sql_delete_def split: option.splits)

lemma pg_session_delete_only:
  assumes "pg_session_delete sid c = (res, c')"
  shows "(pg_session_view c' = pg_session_view c \<and> res \<noteq> Inr ()) \<or> pg_session_view c' = (pg_session_view c)(trim_space sid := None)"
proof (cases "trim_space sid = []")
  case True
  with assms show ?thesis by (auto simp: pg_session_delete_def)
next
  case False
  obtain a c1 where q: "send (sql_delete (trim_space sid)) c = (a, c1)" by fastforce
  with False assms have c1: "c' = c1" and err: "\<And>e. a = Inl e \<Longrightarrow> res \<noteq> Inr ()"
    by (auto simp: pg_session_delete_def Let_def split: sum.splits if_splits)
  have gone: "pg_session_view c' = (pg_session_view c)(trim_space sid := None)"
    if "cn_db c' = (cn_db c)(trim_space sid := None)" using that by (simp add: pg_session_view_def fun_eq_iff)
  show ?thesis
  proof (cases a)
    case (Inl e)
    with send_lost [OF q [unfolded Inl]] c1 err gone pg_view_same show ?thesis by (metis sql_delete_db)
  next
    case (Inr n)
    from send_heard [OF q [unfolded Inr]] c1 gone show ?thesis by (metis snd_conv sql_delete_db)
  qed
qed

lemma pg_session_get_told:
  assumes "pg_session_get sid c = (res, c')"
  shows "pg_session_view c' = pg_session_view c \<and> (\<forall>v. res = Inr v \<longrightarrow> pg_session_view c (trim_space sid) = Some v)
    \<and> (res = Inl (SessionRefused SessionNotFound) \<longrightarrow> cn_db c [] = None \<longrightarrow> pg_session_view c (trim_space sid) = None)"
proof (cases "trim_space sid = []")
  case True
  with assms show ?thesis by (auto simp: pg_session_get_def pg_session_view_def)
next
  case False
  obtain a c1 where q: "send (\<lambda>tbl. (tbl (trim_space sid), tbl)) c = (a, c1)" by fastforce
  with False assms have r: "c' = c1" "\<And>v. res = Inr v \<Longrightarrow> \<exists>r. a = Inr (Some r) \<and> v = scan_session r"
    "res = Inl (SessionRefused SessionNotFound) \<Longrightarrow> a = Inr None"
    by (auto simp: pg_session_get_def Let_def split: sum.splits option.splits)
  from send_read [OF q] r(1) have "cn_db c' = cn_db c" by simp
  moreover have "pg_session_view c (trim_space sid) = Some v" if v: "res = Inr v" for v
  proof -
    from r(2) [OF v] obtain r' where a: "a = Inr (Some r')" and "v = scan_session r'" by blast
    with send_heard [OF q [unfolded a]] show ?thesis by (auto simp: pg_session_view_def)
  qed
  moreover have "pg_session_view c (trim_space sid) = None" if v: "res = Inl (SessionRefused SessionNotFound)"
    using send_heard [OF q [unfolded r(3) [OF v]]] by (auto simp: pg_session_view_def)
  ultimately show ?thesis using pg_view_same by blast
qed

definition no_blank_session :: "session_db \<Rightarrow> bool" where
  "no_blank_session c \<longleftrightarrow> cn_db c [] = None"

lemma no_blank_create: "no_blank_session c \<Longrightarrow> no_blank_session (snd (pg_session_create S uuid now tenant c))"
proof -
  assume c: "no_blank_session c"
  obtain res c' where q: "pg_session_create S uuid now tenant c = (res, c')" by fastforce
  have "cn_db c' [] = None"
  proof (cases "trim_space tenant = []")
    case True
    with q c show ?thesis by (auto simp: pg_session_create_def no_blank_session_def)
  next
    case False
    let ?f = "sql_insert S (pg_session_id uuid) \<lparr>sr_id = pg_session_id uuid, sr_tenant = trim_space tenant, sr_status = ''ready'',
      sr_created = pg_time S now\<rparr>"
    obtain a c1 where a: "ask ?f c = (a, c1)" by fastforce
    with False q have "c' = c1" by (auto simp: pg_session_create_def Let_def split: sum.splits)
    with ask_db [OF a] c show ?thesis by (auto simp: sql_insert_def no_blank_session_def pg_session_id_def)
  qed
  with q show ?thesis by (simp add: no_blank_session_def)
qed

lemma no_blank_view: "no_blank_session c \<longleftrightarrow> pg_session_view c [] = None"
  by (simp add: no_blank_session_def pg_session_view_def)

lemma no_blank_delete: "no_blank_session c \<Longrightarrow> no_blank_session (snd (pg_session_delete sid c))"
proof -
  obtain res c' where q: "pg_session_delete sid c = (res, c')" by fastforce
  from pg_session_delete_only [OF q] q show "no_blank_session c \<Longrightarrow> ?thesis" by (auto simp: no_blank_view)
qed

lemma no_blank_get: "no_blank_session c \<Longrightarrow> no_blank_session (snd (pg_session_get sid c))"
proof -
  obtain res c' where q: "pg_session_get sid c = (res, c')" by fastforce
  from pg_session_get_told [OF q] q show "no_blank_session c \<Longrightarrow> ?thesis" by (simp add: no_blank_view)
qed

interpretation pg_sessions: session_service "\<lambda>(uuid, now). pg_session_create S uuid now" pg_session_delete pg_session_get
    pg_session_view trim_space sr_id no_blank_session "SessionRefused SessionNotFound" for S
proof (unfold_locales, goal_cases)
  case (1 c now tenant res c')
  then show ?case by (auto split: prod.splits dest: pg_session_create_new)
next
  case (3 c sid res c')
  then show ?case using pg_session_get_told [of sid c res c'] by (simp add: no_blank_session_def)
qed (auto split: prod.splits dest: pg_session_delete_only no_blank_create no_blank_delete no_blank_get)

text \<open>A created session is the one that is found. On Postgres, over any connection, a session
  that was created is read as it was answered, or not answered at all, until it is deleted, whatever
  else is created and deleted meanwhile and whichever statements or answers are lost; and one whose
  deletion was answered is not found any more.\<close>

lemma postgres_session_kept:
  assumes "no_blank_session c" "pg_session_create S uuid now tenant c = (Inr v, c1)"
    and "\<forall>k. Inr k \<in> set ops \<longrightarrow> trim_space k \<noteq> sr_id v"
    and "trim_space sid = sr_id v"
    and "c2 = fold (session_op_step (\<lambda>(uuid, now). pg_session_create S uuid now) pg_session_delete) ops c1"
    and "pg_session_get sid c2 = (res, c3)" "pg_session_delete sid c2 = (Inr (), c4)"
  shows "(res = Inr v \<or> (\<exists>e. res = Inl e \<and> e \<noteq> SessionRefused SessionNotFound))
    \<and> (\<nexists>x c5. pg_session_get sid c4 = (Inr x, c5))"
proof -
  have created: "(\<lambda>(uuid, now). pg_session_create S uuid now) (uuid, now) tenant c = (Inr v, c1)"
    using assms(2) by simp
  have "no_blank_session c2"
    using pg_sessions.stays [of c1 "sr_id v" v ops S] pg_sessions.create_new [OF assms(1) created] assms(3,5)
      no_blank_create [OF assms(1), of S uuid now tenant] assms(2) by auto
  with pg_sessions.created_found [OF assms(1) created assms(3,4), of res c3] assms(5-7)
    pg_sessions.deleted_not_found [of c2 sid c4 sid] show ?thesis by simp
qed

definition demo_uuid :: gostr where
  "demo_uuid = ''00112233-4455-6677-8899-aabbccddeeff''"

definition blank_server :: pg_server where
  "blank_server = \<lparr>pg_time = (\<lambda>t. t), pg_jsonb = Inr, pg_before = (\<lambda>_ _. False),
     pg_no_integer = (\<lambda>_. new_error []), pg_duplicate = (\<lambda>_. new_error [])\<rparr>"

text \<open>A creation on an empty database; if its answer is lost, the session is there, but its identifier
  was never told.\<close>

definition demo_session :: session_row where
  "demo_session = \<lparr>sr_id = ''sess_001122334455'', sr_tenant = ''acme'', sr_status = ''ready'', sr_created = 5\<rparr>"

lemma demo_session_id: "pg_session_id demo_uuid = ''sess_001122334455''"
  by code_simp

lemma demo_session_trims: "trim_space '' acme '' = ''acme''" "trim_space ''ready'' = ''ready''"
  "trim_space ''sess_001122334455'' = ''sess_001122334455''"
  by code_simp+

lemma demo_session_created:
  "pg_session_create blank_server demo_uuid 5 '' acme '' \<lparr>cn_db = Map.empty, cn_faults = fs\<rparr>
   = (case fs of NotSent e # _ \<Rightarrow> (Inl (SessionBroken e), \<lparr>cn_db = Map.empty, cn_faults = tl fs\<rparr>)
      | NotHeard e # _ \<Rightarrow> (Inl (SessionBroken e), \<lparr>cn_db = [''sess_001122334455'' \<mapsto> demo_session], cn_faults = tl fs\<rparr>)
      | _ \<Rightarrow> (Inr demo_session, \<lparr>cn_db = [''sess_001122334455'' \<mapsto> demo_session], cn_faults = tl fs\<rparr>))"
  by (simp add: pg_session_create_def Let_def demo_session_id demo_session_trims ask_def send_def sql_insert_def demo_session_def
      scan_session_def blank_server_def split: list.split fault.split)

lemma postgres_session_kept_at_work:
  "fst (pg_session_get ''sess_001122334455'' \<lparr>cn_db = [''sess_001122334455'' \<mapsto> demo_session], cn_faults = []\<rparr>) = Inr demo_session
   \<and> (\<nexists>x c. pg_session_get ''sess_001122334455'' \<lparr>cn_db = Map.empty, cn_faults = []\<rparr> = (Inr x, c))"
proof -
  let ?c = "\<lparr>cn_db = [''sess_001122334455'' \<mapsto> demo_session], cn_faults = []\<rparr>"
  have get: "pg_session_get ''sess_001122334455'' ?c = (Inr demo_session, ?c)"
    by (simp add: pg_session_get_def Let_def demo_session_trims send_def demo_session_def scan_session_def)
  have del: "pg_session_delete ''sess_001122334455'' ?c = (Inr (), \<lparr>cn_db = Map.empty, cn_faults = []\<rparr>)"
    by (simp add: pg_session_delete_def Let_def demo_session_trims send_def sql_delete_def)
  show ?thesis
    using postgres_session_kept [of "\<lparr>cn_db = Map.empty, cn_faults = []\<rparr>" blank_server demo_uuid 5 "'' acme ''" demo_session ?c
        "[]" "''sess_001122334455''" ?c _ ?c] get del demo_session_created [of "[]"]
    by (simp add: no_blank_session_def demo_session_trims demo_session_def)
qed

end
