(* ===== verification/PgTasks.thy ===== *)
theory PgTasks
  imports Postgres Tasks
begin

text \<open>
  The task service on Postgres, \<open>internal/task/postgres_service.go\<close>: the row of a task, its
  reading, and every operation with its statements. \<open>others\<close> is what other clients of the
  database do between the two statements of a refused call. The service keeps the contract
  \<open>task_safety\<close> whatever requests and answers are lost, and with a database that answers it does
  what the in-memory service does.
\<close>

section \<open>Rows\<close>

record task_row =
  rw_id :: gostr
  rw_source :: "gostr option"
  rw_session :: gostr
  rw_url :: gostr
  rw_goal :: gostr
  rw_actions :: gostr
  rw_trace :: gostr
  rw_status :: task_status
  rw_attempt :: int
  rw_max_retries :: int
  rw_next_retry :: "go_time option"
  rw_node :: "gostr option"
  rw_page_title :: "gostr option"
  rw_final_url :: "gostr option"
  rw_screenshot :: "gostr option"
  rw_artifact_url :: "gostr option"
  rw_blocker_type :: "gostr option"
  rw_blocker_message :: "gostr option"
  rw_error :: "gostr option"
  rw_created :: go_time
  rw_started :: "go_time option"
  rw_completed :: "go_time option"

text \<open>\<open>json.Marshal\<close> and \<open>json.Unmarshal\<close> at the two types that are stored as JSON.\<close>

record task_codec =
  js_actions :: "action list \<Rightarrow> go_error + gostr"
  js_read_actions :: "gostr \<Rightarrow> go_error + action list"
  js_trace :: "step_trace list \<Rightarrow> go_error + gostr"
  js_read_trace :: "gostr \<Rightarrow> go_error + step_trace list"

definition nullable_string :: "gostr \<Rightarrow> gostr option" where
  "nullable_string v = (if blank v then None else Some (trim_space v))"

definition deref :: "gostr option \<Rightarrow> gostr" where
  "deref v = (case v of None \<Rightarrow> [] | Some s \<Rightarrow> s)"

lemma deref_nullable [simp]: "deref (nullable_string v) = trim_space v" "deref None = []" "deref (Some v) = v"
  by (simp_all add: deref_def nullable_string_def)

text \<open>\<open>scanTask\<close>: the texts of actions and trace are decoded, everything else is copied.\<close>

definition task_of_row :: "task_row \<Rightarrow> action list \<Rightarrow> step_trace list \<Rightarrow> task" where
  "task_of_row r actions trace =
     \<lparr>tk_id = rw_id r, tk_source = deref (rw_source r), tk_session = rw_session r, tk_url = rw_url r,
      tk_goal = rw_goal r, tk_actions = actions, tk_trace = trace,
      tk_outputs = derive_extracted_outputs trace, tk_status = rw_status r, tk_attempt = rw_attempt r,
      tk_max_retries = rw_max_retries r, tk_next_retry = rw_next_retry r, tk_node = deref (rw_node r),
      tk_page_title = deref (rw_page_title r), tk_final_url = deref (rw_final_url r),
      tk_screenshot = deref (rw_screenshot r), tk_artifact_url = deref (rw_artifact_url r),
      tk_blocker_type = deref (rw_blocker_type r), tk_blocker_message = deref (rw_blocker_message r),
      tk_error = deref (rw_error r), tk_created = rw_created r, tk_started = rw_started r,
      tk_completed = rw_completed r\<rparr>"

definition decoded :: "(gostr \<Rightarrow> go_error + 'a list) \<Rightarrow> gostr \<Rightarrow> go_error + 'a list" where
  "decoded read s = (if s = [] then Inr [] else read s)"

definition scan_task :: "task_codec \<Rightarrow> task_row \<Rightarrow> go_error + task" where
  "scan_task J r =
     (case decoded (js_read_actions J) (rw_actions r) of
        Inl e \<Rightarrow> Inl (wrap_error ''decode task actions: '' e)
      | Inr actions \<Rightarrow>
          (case decoded (js_read_trace J) (rw_trace r) of
             Inl e \<Rightarrow> Inl (wrap_error ''decode task trace: '' e)
           | Inr trace \<Rightarrow> Inr (task_of_row r actions trace)))"

section \<open>Operations\<close>

datatype pg_error = Refused task_error | Broken go_error

type_synonym task_db = "task_row db_table connection"

text \<open>The answer of a statement that returns a row.\<close>

definition scanned :: "task_codec \<Rightarrow> task_row \<Rightarrow> pg_error + task" where
  "scanned J r = (case scan_task J r of Inl e \<Rightarrow> Inl (Broken e) | Inr t \<Rightarrow> Inr t)"

definition pg_task_id :: "gostr \<Rightarrow> gostr" where
  "pg_task_id uuid = ''task_'' @ filter (\<lambda>ch. ch \<noteq> CHR ''-'') uuid"

definition new_row :: "pg_server \<Rightarrow> gostr \<Rightarrow> go_time \<Rightarrow> create_input \<Rightarrow> gostr \<Rightarrow> task_row" where
  "new_row S tid now inp actions =
     \<lparr>rw_id = tid, rw_source = nullable_string (ci_source inp), rw_session = ci_session inp,
      rw_url = ci_url inp, rw_goal = ci_goal inp, rw_actions = actions, rw_trace = ''[]'',
      rw_status = Queued, rw_attempt = 0, rw_max_retries = ci_max_retries inp, rw_next_retry = None,
      rw_node = None, rw_page_title = None, rw_final_url = None, rw_screenshot = None,
      rw_artifact_url = None, rw_blocker_type = None, rw_blocker_message = None, rw_error = None,
      rw_created = pg_time S now, rw_started = None, rw_completed = None\<rparr>"

definition insert_task ::
  "pg_server \<Rightarrow> gostr \<Rightarrow> go_time \<Rightarrow> create_input \<Rightarrow> gostr \<Rightarrow> task_row db_table \<Rightarrow> (go_error + task_row) \<times> task_row db_table" where
  "insert_task S tid now inp raw tbl =
     (case (as_integer S (ci_max_retries inp), pg_jsonb S raw) of
        (Inl e, _) \<Rightarrow> (Inl e, tbl)
      | (_, Inl e) \<Rightarrow> (Inl e, tbl)
      | (Inr _, Inr kept) \<Rightarrow> sql_insert S tid (new_row S tid now inp kept) tbl)"

definition create_error :: "create_input \<Rightarrow> task_error option" where
  "create_error inp =
     (if ci_session inp = [] then Some SessionIdRequired
      else if ci_url inp = [] then Some UrlRequired
      else if ci_goal inp = [] \<and> ci_actions inp = [] then Some GoalRequired
      else if ci_max_retries inp < 0 then Some NegativeMaxRetries
      else None)"

definition pg_create ::
  "pg_server \<Rightarrow> task_codec \<Rightarrow> gostr \<Rightarrow> go_time \<Rightarrow> create_input \<Rightarrow> task_db \<Rightarrow> (pg_error + task) \<times> task_db" where
  "pg_create S J uuid now inp c =
     (case create_error inp of
        Some e \<Rightarrow> (Inl (Refused e), c)
      | None \<Rightarrow>
          (case js_actions J (ci_actions inp) of
             Inl e \<Rightarrow> (Inl (Broken (wrap_error ''marshal actions: '' e)), c)
           | Inr raw \<Rightarrow>
               (case ask (insert_task S (pg_task_id uuid) now inp raw) c of
                  (Inl e, c) \<Rightarrow> (Inl (Broken e), c)
                | (Inr r, c) \<Rightarrow> (scanned J r, c))))"

definition fetch_task_status :: "gostr \<Rightarrow> task_db \<Rightarrow> (pg_error + task_status) \<times> task_db" where
  "fetch_task_status tid c =
     (case send (\<lambda>tbl. (tbl tid, tbl)) c of
        (Inl e, c) \<Rightarrow> (Inl (Broken e), c)
      | (Inr None, c) \<Rightarrow> (Inl (Refused TaskNotFound), c)
      | (Inr (Some r), c) \<Rightarrow> (Inr (rw_status r), c))"

text \<open>The five updates: \<open>cond\<close> and \<open>change\<close> are their \<open>WHERE\<close> and \<open>SET\<close>. If no row is hit, the
  status is fetched by a second statement and \<open>refuse\<close> makes the error of it.\<close>

definition pg_update ::
  "task_codec \<Rightarrow> (task_row db_table \<Rightarrow> task_row db_table) \<Rightarrow> gostr \<Rightarrow> (task_status \<Rightarrow> bool) \<Rightarrow> (task_status \<Rightarrow> task_error) \<Rightarrow>
   (task_row \<Rightarrow> go_error + task_row) \<Rightarrow> task_db \<Rightarrow> (pg_error + task) \<times> task_db" where
  "pg_update J others tid cond refuse change c =
     (case ask (sql_update tid (\<lambda>r. cond (rw_status r)) change) c of
        (Inl e, c) \<Rightarrow> (Inl (Broken e), c)
      | (Inr (Some r), c) \<Rightarrow> (scanned J r, c)
      | (Inr None, c) \<Rightarrow>
          (case fetch_task_status tid (c\<lparr>cn_db := others (cn_db c)\<rparr>) of
             (Inl e, c) \<Rightarrow> (Inl e, c)
           | (Inr q, c) \<Rightarrow> (Inl (Refused (refuse q)), c)))"

definition start_row :: "pg_server \<Rightarrow> go_time \<Rightarrow> start_input \<Rightarrow> task_row \<Rightarrow> go_error + task_row" where
  "start_row S now inp r =
     (case as_integer S (rw_attempt r + 1) of
        Inl e \<Rightarrow> Inl e
      | Inr n \<Rightarrow> Inr (r\<lparr>rw_status := Running, rw_attempt := n, rw_node := nullable_string (si_node inp),
          rw_started := Some (pg_time S (normalize_time now (si_started inp))), rw_next_retry := None,
          rw_error := Some [], rw_blocker_type := None, rw_blocker_message := None, rw_trace := ''[]'',
          rw_completed := None\<rparr>))"

definition pg_start where
  "pg_start S J others now inp c =
     pg_update J others (si_task inp) (\<lambda>q. q = Queued) (\<lambda>_. TaskNotQueued) (start_row S now inp) c"

definition retry_row :: "pg_server \<Rightarrow> go_time \<Rightarrow> retry_input \<Rightarrow> task_row \<Rightarrow> go_error + task_row" where
  "retry_row S now inp r =
     Inr (r\<lparr>rw_status := Queued, rw_node := None,
       rw_next_retry := Some (pg_time S (normalize_time now (ri_retry_at inp))),
       rw_error := Some (ri_last_error inp), rw_blocker_type := None, rw_blocker_message := None,
       rw_trace := ''[]''\<rparr>)"

definition not_cancelable :: "(task_status \<Rightarrow> bool) \<Rightarrow> task_status \<Rightarrow> task_error" where
  "not_cancelable final q = (if final q then TaskNotCancelable else TaskNotFound)"

definition pg_retry where
  "pg_retry S J others now inp c =
     pg_update J others (ri_task inp) (\<lambda>q. q \<noteq> Canceled) (not_cancelable (\<lambda>q. q = Canceled)) (retry_row S now inp) c"

definition complete_row :: "pg_server \<Rightarrow> go_time \<Rightarrow> complete_input \<Rightarrow> gostr \<Rightarrow> task_row \<Rightarrow> go_error + task_row" where
  "complete_row S now inp raw r =
     (case pg_jsonb S raw of
        Inl e \<Rightarrow> Inl e
      | Inr kept \<Rightarrow> Inr (r\<lparr>rw_status := Completed, rw_node := nullable_string (co_node inp),
          rw_page_title := nullable_string (co_page_title inp), rw_final_url := nullable_string (co_final_url inp),
          rw_screenshot := nullable_string (co_screenshot inp),
          rw_artifact_url := nullable_string (co_artifact_url inp), rw_trace := kept, rw_error := Some [],
          rw_blocker_type := None, rw_blocker_message := None, rw_next_retry := None,
          rw_completed := Some (pg_time S (normalize_time now (co_completed inp)))\<rparr>))"

definition pg_complete where
  "pg_complete S J others now inp c =
     (case js_trace J (co_trace inp) of
        Inl e \<Rightarrow> (Inl (Broken (wrap_error ''marshal trace: '' e)), c)
      | Inr raw \<Rightarrow>
          pg_update J others (co_task inp) (\<lambda>q. q \<noteq> Canceled) (not_cancelable (\<lambda>q. q = Canceled))
            (complete_row S now inp raw) c)"

definition fail_row :: "pg_server \<Rightarrow> go_time \<Rightarrow> fail_input \<Rightarrow> gostr \<Rightarrow> task_row \<Rightarrow> go_error + task_row" where
  "fail_row S now inp raw r =
     (case pg_jsonb S raw of
        Inl e \<Rightarrow> Inl e
      | Inr kept \<Rightarrow> Inr (r\<lparr>rw_status := Failed, rw_node := nullable_string (fi_node inp),
          rw_page_title := nullable_string (fi_page_title inp), rw_final_url := nullable_string (fi_final_url inp),
          rw_screenshot := nullable_string (fi_screenshot inp),
          rw_artifact_url := nullable_string (fi_artifact_url inp),
          rw_blocker_type := nullable_string (fi_blocker_type inp),
          rw_blocker_message := nullable_string (fi_blocker_message inp),
          rw_error := Some (fi_error inp), rw_trace := kept, rw_next_retry := None,
          rw_completed := Some (pg_time S (normalize_time now (fi_completed inp)))\<rparr>))"

definition pg_fail where
  "pg_fail S J others now inp c =
     (case js_trace J (fi_trace inp) of
        Inl e \<Rightarrow> (Inl (Broken (wrap_error ''marshal trace: '' e)), c)
      | Inr raw \<Rightarrow>
          pg_update J others (fi_task inp) (\<lambda>q. q \<noteq> Canceled) (not_cancelable (\<lambda>q. q = Canceled))
            (fail_row S now inp raw) c)"

definition cancel_row :: "pg_server \<Rightarrow> go_time \<Rightarrow> cancel_input \<Rightarrow> task_row \<Rightarrow> go_error + task_row" where
  "cancel_row S now inp r =
     Inr (r\<lparr>rw_status := Canceled, rw_node := None, rw_error := Some (cancel_reason (ca_reason inp)),
       rw_blocker_type := None, rw_blocker_message := None, rw_next_retry := None,
       rw_completed := Some (pg_time S (normalize_time now (ca_completed inp)))\<rparr>)"

definition pg_cancel where
  "pg_cancel S J others now inp c =
     pg_update J others (ca_task inp) (\<lambda>q. q = Queued \<or> q = Running)
       (not_cancelable (\<lambda>q. q = Completed \<or> q = Failed \<or> q = Canceled)) (cancel_row S now inp) c"

definition pg_get :: "task_codec \<Rightarrow> gostr \<Rightarrow> task_db \<Rightarrow> (pg_error + task) \<times> task_db" where
  "pg_get J tid c =
     (case send (\<lambda>tbl. (tbl tid, tbl)) c of
        (Inl e, c) \<Rightarrow> (Inl (Broken e), c)
      | (Inr None, c) \<Rightarrow> (Inl (Refused TaskNotFound), c)
      | (Inr (Some r), c) \<Rightarrow> (scanned J r, c))"

text \<open>A listing scans its rows one by one and stops at the first that cannot be read. \<open>ks\<close> is the
  order in which the server visits the table.\<close>

primrec scan_rows :: "task_codec \<Rightarrow> task_row list \<Rightarrow> task list \<Rightarrow> go_error + task list" where
  "scan_rows J [] items = Inr items"
| "scan_rows J (r # rs) items =
     (case scan_task J r of Inl e \<Rightarrow> Inl e | Inr t \<Rightarrow> scan_rows J rs (items @ [t]))"

definition pg_list ::
  "task_codec \<Rightarrow> gostr list \<Rightarrow> (task_row \<Rightarrow> bool) \<Rightarrow> (task_row \<Rightarrow> task_row \<Rightarrow> bool) \<Rightarrow> nat \<Rightarrow> task_db \<Rightarrow>
   (go_error + task list) \<times> task_db" where
  "pg_list J ks cond before n c =
     (case send (\<lambda>tbl. (take n (sort_by before (filter cond (listed tbl ks))), tbl)) c of
        (Inl e, c) \<Rightarrow> (Inl e, c)
      | (Inr rows, c) \<Rightarrow> (scan_rows J rows [], c))"

definition recent_row :: "pg_server \<Rightarrow> task_row \<Rightarrow> task_row \<Rightarrow> bool" where
  "recent_row S a b \<longleftrightarrow>
     (if rw_created a = rw_created b then pg_before S (rw_id b) (rw_id a) else rw_created b < rw_created a)"

definition pg_list_recent where
  "pg_list_recent S J ks limit c = pg_list J ks (\<lambda>_. True) (recent_row S) (limit_or 50 limit) c"

definition pg_list_by_source where
  "pg_list_by_source S J ks source limit c =
     (let src = trim_space source in
      if src = [] then (Inr [], c)
      else pg_list J ks (\<lambda>r. rw_source r = Some src) (recent_row S) (limit_or 50 limit) c)"

text \<open>\<open>db_now\<close> is the server's \<open>NOW()\<close>.\<close>

definition row_due :: "go_time \<Rightarrow> task_row \<Rightarrow> bool" where
  "row_due db_now r \<longleftrightarrow> rw_status r = Queued \<and> (case rw_next_retry r of None \<Rightarrow> True | Some at \<Rightarrow> at \<le> db_now)"

definition due_since :: "task_row \<Rightarrow> go_time" where
  "due_since r = (case rw_next_retry r of None \<Rightarrow> rw_created r | Some at \<Rightarrow> at)"

definition queued_row :: "task_row \<Rightarrow> task_row \<Rightarrow> bool" where
  "queued_row a b \<longleftrightarrow>
     (if due_since a = due_since b then rw_created a < rw_created b else due_since a < due_since b)"

definition pg_list_queued where
  "pg_list_queued J ks db_now limit c =
     pg_list J ks (row_due db_now) queued_row (limit_or 100 limit) c"

section \<open>The schema\<close>

text \<open>\<open>'[]'::jsonb\<close>, with its quotes.\<close>

definition empty_array :: gostr where
  "empty_array = [CHR 0x27, CHR ''['', CHR '']'', CHR 0x27] @ ''::jsonb''"

definition task_table :: "column list" where
  "task_table =
    [column_of ''id'' ''TEXT PRIMARY KEY'' False None,
     column_of ''source_task_id'' ''TEXT'' True None,
     column_of ''session_id'' ''TEXT'' False None,
     column_of ''url'' ''TEXT'' False None,
     column_of ''goal'' ''TEXT'' False None,
     column_of ''actions'' ''JSONB'' False (Some empty_array),
     column_of ''trace'' ''JSONB'' False (Some empty_array),
     column_of ''status'' ''TEXT'' False None,
     column_of ''attempt'' ''INTEGER'' False (Some ''0''),
     column_of ''max_retries'' ''INTEGER'' False (Some ''0''),
     column_of ''next_retry_at'' ''TIMESTAMPTZ'' True None,
     column_of ''node_id'' ''TEXT'' True None,
     column_of ''page_title'' ''TEXT'' True None,
     column_of ''final_url'' ''TEXT'' True None,
     column_of ''screenshot_base64'' ''TEXT'' True None,
     column_of ''screenshot_artifact_url'' ''TEXT'' True None,
     column_of ''blocker_type'' ''TEXT'' True None,
     column_of ''blocker_message'' ''TEXT'' True None,
     column_of ''error_message'' ''TEXT'' True None,
     column_of ''created_at'' ''TIMESTAMPTZ'' False None,
     column_of ''started_at'' ''TIMESTAMPTZ'' True None,
     column_of ''completed_at'' ''TIMESTAMPTZ'' True None]"

definition task_schema :: "ddl list" where
  "task_schema =
     [CreateTable ''tasks'' task_table,
      AddColumn ''tasks'' (column_of ''source_task_id'' ''TEXT'' True None),
      AddColumn ''tasks'' (column_of ''trace'' ''JSONB'' False (Some empty_array)),
      AddColumn ''tasks'' (column_of ''max_retries'' ''INTEGER'' False (Some ''0'')),
      AddColumn ''tasks'' (column_of ''next_retry_at'' ''TIMESTAMPTZ'' True None),
      AddColumn ''tasks'' (column_of ''screenshot_artifact_url'' ''TEXT'' True None),
      AddColumn ''tasks'' (column_of ''blocker_type'' ''TEXT'' True None),
      AddColumn ''tasks'' (column_of ''blocker_message'' ''TEXT'' True None),
      CreateIndex ''idx_tasks_status_retry'' ''tasks'' [''status'', ''next_retry_at''],
      CreateIndex ''idx_tasks_source_task_id_created'' ''tasks'' [''source_task_id'', ''created_at'']]"

text \<open>The columns that every statement returns and \<open>scanTask\<close> reads.\<close>

definition task_columns :: "gostr list" where
  "task_columns =
     [''id'', ''source_task_id'', ''session_id'', ''url'', ''goal'',
      ''actions'', ''trace'', ''status'', ''attempt'', ''max_retries'',
      ''next_retry_at'', ''node_id'', ''page_title'', ''final_url'', ''screenshot_base64'',
      ''screenshot_artifact_url'', ''blocker_type'', ''blocker_message'', ''error_message'', ''created_at'',
      ''started_at'', ''completed_at'']"

definition new_pg_tasks where
  "new_pg_tasks = new_pg_service ''tasks'' task_schema"

end
