(* ===== verification/PgService.thy ===== *)
theory PgService
  imports PgTasks
begin

text \<open>
  What the task service on Postgres keeps: its rows stay typed, the contract \<open>task_safety\<close> holds
  whatever the connection loses, and on a database that answers every operation refines the one of
  the in-memory service.
\<close>

section \<open>Typed rows\<close>

definition text_typed :: "gostr option \<Rightarrow> bool" where
  "text_typed v \<longleftrightarrow> (case v of None \<Rightarrow> True | Some s \<Rightarrow> s \<noteq> [] \<and> trim_space s = s)"

lemma nullable_typed [simp]: "text_typed (nullable_string v)" "text_typed None"
  by (simp_all add: text_typed_def nullable_string_def)

definition finished :: "task_status \<Rightarrow> bool" where
  "finished q \<longleftrightarrow> q = Completed \<or> q = Failed \<or> q = Canceled"

lemma finished_simps [simp]: "finished Completed" "finished Failed" "finished Canceled" "\<not> finished Queued" "\<not> finished Running"
  by (simp_all add: finished_def)

text \<open>Numbers fit their columns, optional texts are absent or trimmed and not empty, and the optional
  times are there exactly when the status says so.\<close>

definition row_typed :: "gostr \<Rightarrow> task_row \<Rightarrow> bool" where
  "row_typed tid r \<longleftrightarrow> rw_id r = tid \<and> rw_session r \<noteq> [] \<and> rw_url r \<noteq> []
     \<and> int4 (rw_attempt r) \<and> 0 \<le> rw_attempt r \<and> int4 (rw_max_retries r) \<and> 0 \<le> rw_max_retries r
     \<and> list_all text_typed [rw_source r, rw_node r, rw_page_title r, rw_final_url r, rw_screenshot r,
          rw_artifact_url r, rw_blocker_type r, rw_blocker_message r]
     \<and> (rw_next_retry r \<noteq> None \<longrightarrow> rw_status r = Queued)
     \<and> (finished (rw_status r) \<longrightarrow> rw_completed r \<noteq> None)
     \<and> (rw_status r = Running \<longrightarrow> rw_started r \<noteq> None \<and> rw_completed r = None \<and> 0 < rw_attempt r)
     \<and> (\<not> finished (rw_status r) \<longrightarrow> rw_trace r = ''[]'')
     \<and> (rw_status r \<noteq> Failed \<longrightarrow> rw_blocker_type r = None \<and> rw_blocker_message r = None)"

definition all_typed :: "task_db \<Rightarrow> bool" where
  "all_typed c \<longleftrightarrow> (\<forall>tid r. cn_db c tid = Some r \<longrightarrow> row_typed tid r)"

lemma all_typed_new: "all_typed \<lparr>cn_db = Map.empty, cn_faults = fs\<rparr>"
  by (simp add: all_typed_def)

section \<open>One statement\<close>

lemma fetch_task_status_db: "fetch_task_status tid c = (res, c') \<Longrightarrow> cn_db c' = cn_db c"
  by (auto simp: fetch_task_status_def dest: send_read split: prod.splits sum.splits option.splits)

text \<open>A call has changed nothing, or it has changed the row that the condition admits.\<close>

definition row_changed where
  "row_changed tid cond change c r r' c' \<longleftrightarrow>
     cn_db c tid = Some r \<and> cond (rw_status r) \<and> change r = Inr r' \<and> cn_db c' = (cn_db c)(tid \<mapsto> r')"

lemma sql_update_db:
  "snd (sql_update k cond change tbl) = tbl
   \<or> (\<exists>r r'. tbl k = Some r \<and> cond r \<and> change r = Inr r' \<and> snd (sql_update k cond change tbl) = tbl(k \<mapsto> r'))"
  by (auto simp: sql_update_def split: option.splits sum.splits)

lemma sql_update_row:
  "sql_update k cond change tbl = (Inr (Some r'), tbl') \<longleftrightarrow>
     (\<exists>r. tbl k = Some r \<and> cond r \<and> change r = Inr r' \<and> tbl' = tbl(k \<mapsto> r'))"
  by (auto simp: sql_update_def split: option.splits sum.splits)

lemma sql_update_none: "sql_update k cond change tbl = (Inr None, tbl') \<Longrightarrow> tbl' = tbl"
  by (auto simp: sql_update_def split: option.splits sum.splits if_splits)

lemma pg_update_db:
  assumes "pg_update J (\<lambda>tbl. tbl) tid cond refuse change c = (res, c')"
  shows "(cn_db c' = cn_db c \<or> (\<exists>r r'. row_changed tid cond change c r r' c'))
    \<and> (\<forall>t. res = Inr t \<longrightarrow> (\<exists>r r'. row_changed tid cond change c r r' c' \<and> scan_task J r' = Inr t))"
proof -
  let ?f = "sql_update tid (\<lambda>r. cond (rw_status r)) change"
  obtain a c1 where q: "ask ?f c = (a, c1)" by fastforce
  have c1: "cn_db c1 = cn_db c \<or> (\<exists>r r'. row_changed tid cond change c r r' c1)"
    using ask_db [OF q] sql_update_db [of tid "\<lambda>r. cond (rw_status r)" change "cn_db c"]
    unfolding row_changed_def by metis
  consider (error) e where "a = Inl e" | (none) "a = Inr None" | (row) r' where "a = Inr (Some r')"
    by (metis option.exhaust sum.exhaust)
  then show ?thesis
  proof cases
    case error
    with assms q c1 show ?thesis by (auto simp: pg_update_def)
  next
    case none
    with sql_update_none ask_answered q have "cn_db c1 = cn_db c" by fast
    moreover obtain b c2 where f: "fetch_task_status tid c1 = (b, c2)" by fastforce
    ultimately have "cn_db c2 = cn_db c" using fetch_task_status_db [OF f] by simp
    moreover have "(case b of Inl e \<Rightarrow> (Inl e, c2) | Inr q \<Rightarrow> (Inl (Refused (refuse q)), c2)) = (res, c')"
      using assms by (simp add: pg_update_def q none f)
    then have "c' = c2 \<and> (\<exists>e. res = Inl e)" by (cases b) auto
    ultimately show ?thesis by (metis Inl_Inr_False)
  next
    case row
    from ask_answered [OF q [unfolded row]] have "?f (cn_db c) = (Inr (Some r'), cn_db c1)" .
    then obtain r where "row_changed tid cond change c r r' c1"
      unfolding sql_update_row row_changed_def by blast
    with row assms q show ?thesis by (auto simp: pg_update_def scanned_def split: sum.splits)
  qed
qed

lemma typed_put: "all_typed c \<Longrightarrow> row_typed tid r \<Longrightarrow> cn_db c' = (cn_db c)(tid \<mapsto> r) \<Longrightarrow> all_typed c'"
  by (simp add: all_typed_def)

lemma typed_same: "all_typed c \<Longrightarrow> cn_db c' = cn_db c \<Longrightarrow> all_typed c'"
  by (simp add: all_typed_def)

lemma pg_update_typed:
  assumes "all_typed c" "pg_update J (\<lambda>tbl. tbl) tid cond refuse change c = (res, c')"
    and "\<And>r r'. row_typed tid r \<Longrightarrow> change r = Inr r' \<Longrightarrow> row_typed tid r'"
  shows "all_typed c'"
proof (cases "cn_db c' = cn_db c")
  case True
  with assms(1) show ?thesis by (rule typed_same)
next
  case False
  with pg_update_db [OF assms(2)] obtain r r' where ch: "row_changed tid cond change c r r' c'" by blast
  then have "row_typed tid r" using assms(1) by (simp add: row_changed_def all_typed_def)
  with assms(3) ch have "row_typed tid r'" by (simp add: row_changed_def)
  with assms(1) ch show ?thesis unfolding row_changed_def by (blast intro: typed_put)
qed

section \<open>What a client sees\<close>

text \<open>A text that cannot be decoded is read as empty here; the operations report it as an error.\<close>

definition decoded_or_empty :: "(gostr \<Rightarrow> go_error + 'a list) \<Rightarrow> gostr \<Rightarrow> 'a list" where
  "decoded_or_empty read s = (case decoded read s of Inl _ \<Rightarrow> [] | Inr xs \<Rightarrow> xs)"

definition row_task :: "task_codec \<Rightarrow> task_row \<Rightarrow> task" where
  "row_task J r = task_of_row r (decoded_or_empty (js_read_actions J) (rw_actions r))
     (decoded_or_empty (js_read_trace J) (rw_trace r))"

definition pg_view :: "task_codec \<Rightarrow> task_db \<Rightarrow> gostr \<rightharpoonup> task" where
  "pg_view J c tid = map_option (row_task J) (cn_db c tid)"

lemma scan_task_row: "scan_task J r = Inr t \<Longrightarrow> t = row_task J r"
  by (auto simp: scan_task_def row_task_def decoded_or_empty_def split: sum.splits)

lemma row_task_fields [simp]:
  "tk_id (row_task J r) = rw_id r" "tk_status (row_task J r) = rw_status r" "tk_attempt (row_task J r) = rw_attempt r"
  by (simp_all add: row_task_def task_of_row_def)

lemma pg_update_safely_moves:
  assumes "pg_update J (\<lambda>tbl. tbl) tid cond refuse change c = (res, c')"
    and "\<And>r r'. change r = Inr r' \<Longrightarrow> rw_status r' = target \<and> rw_attempt r' = rw_attempt r + inc
        \<and> same_request (row_task J r) (row_task J r')"
  shows "safely_moves cond target inc tid (pg_view J c) res (pg_view J c')"
proof -
  have m: "moved cond target inc tid (pg_view J c) (row_task J r') (pg_view J c')"
    if "row_changed tid cond change c r r' c'" for r r'
    using that assms(2) [of r r'] by (auto simp: row_changed_def moved_def pg_view_def fun_eq_iff)
  have v: "cn_db c' = cn_db c \<Longrightarrow> pg_view J c' = pg_view J c" by (simp add: pg_view_def fun_eq_iff)
  show ?thesis
  proof (cases res)
    case (Inl e)
    with pg_update_db [OF assms(1)] m v show ?thesis unfolding safely_moves_def by auto
  next
    case (Inr t)
    with pg_update_db [OF assms(1)] obtain r r' where
      "row_changed tid cond change c r r' c'" "scan_task J r' = Inr t" by blast
    with m Inr scan_task_row show ?thesis unfolding safely_moves_def by fastforce
  qed
qed

section \<open>The contract\<close>

lemma as_integer_Inr [simp]: "as_integer S n = Inr k \<longleftrightarrow> int4 n \<and> k = n"
  by (auto simp: as_integer_def)

lemmas row_change_defs = start_row_def retry_row_def complete_row_def fail_row_def cancel_row_def

lemma row_changes:
  "start_row S now si r = Inr r' \<Longrightarrow> rw_status r' = Running \<and> rw_attempt r' = rw_attempt r + 1 \<and> same_request (row_task J r) (row_task J r')"
  "retry_row S now ri r = Inr r' \<Longrightarrow> rw_status r' = Queued \<and> rw_attempt r' = rw_attempt r + 0 \<and> same_request (row_task J r) (row_task J r')"
  "complete_row S now co raw r = Inr r' \<Longrightarrow> rw_status r' = Completed \<and> rw_attempt r' = rw_attempt r + 0 \<and> same_request (row_task J r) (row_task J r')"
  "fail_row S now fi raw r = Inr r' \<Longrightarrow> rw_status r' = Failed \<and> rw_attempt r' = rw_attempt r + 0 \<and> same_request (row_task J r) (row_task J r')"
  "cancel_row S now ca r = Inr r' \<Longrightarrow> rw_status r' = Canceled \<and> rw_attempt r' = rw_attempt r + 0 \<and> same_request (row_task J r) (row_task J r')"
  by (auto simp: row_change_defs same_request_def row_task_def task_of_row_def split: sum.splits)

lemma row_changes_typed:
  "row_typed tid r \<Longrightarrow> start_row S now si r = Inr r' \<Longrightarrow> row_typed tid r'"
  "row_typed tid r \<Longrightarrow> retry_row S now ri r = Inr r' \<Longrightarrow> row_typed tid r'"
  "row_typed tid r \<Longrightarrow> complete_row S now co raw r = Inr r' \<Longrightarrow> row_typed tid r'"
  "row_typed tid r \<Longrightarrow> fail_row S now fi raw r = Inr r' \<Longrightarrow> row_typed tid r'"
  "row_typed tid r \<Longrightarrow> cancel_row S now ca r = Inr r' \<Longrightarrow> row_typed tid r'"
  unfolding row_typed_def row_change_defs by (clarsimp split: sum.splits)+

lemma insert_task_db:
  "snd (insert_task S tid now inp raw tbl) = tbl
   \<or> (\<exists>kept. tbl tid = None \<and> int4 (ci_max_retries inp)
        \<and> snd (insert_task S tid now inp raw tbl) = tbl(tid \<mapsto> new_row S tid now inp kept))"
  by (auto simp: insert_task_def sql_insert_def split: sum.splits)

lemma pg_create_db:
  assumes "pg_create S J uuid now inp c = (res, c')"
  shows "cn_db c' = cn_db c \<or>
    (\<exists>tid kept. cn_db c tid = None \<and> cn_db c' = (cn_db c)(tid \<mapsto> new_row S tid now inp kept)
       \<and> ci_session inp \<noteq> [] \<and> ci_url inp \<noteq> [] \<and> 0 \<le> ci_max_retries inp \<and> int4 (ci_max_retries inp))"
proof (cases "create_error inp")
  case (Some e)
  with assms have "c' = c" by (simp add: pg_create_def)
  then show ?thesis by simp
next
  case ok: None
  show ?thesis
  proof (cases "js_actions J (ci_actions inp)")
    case (Inl e)
    with ok assms have "c' = c" by (simp add: pg_create_def)
    then show ?thesis by simp
  next
    case (Inr raw)
    let ?f = "insert_task S (pg_task_id uuid) now inp raw"
    obtain a c1 where q: "ask ?f c = (a, c1)" by fastforce
    with ok Inr assms have "c' = c1" by (auto simp: pg_create_def split: sum.splits)
    moreover from ok have "ci_session inp \<noteq> [] \<and> ci_url inp \<noteq> [] \<and> 0 \<le> ci_max_retries inp"
      by (simp add: create_error_def split: if_splits)
    ultimately show ?thesis
      using ask_db [OF q] insert_task_db [of S "pg_task_id uuid" now inp raw "cn_db c"] by metis
  qed
qed

lemma new_row_typed:
  "ci_session inp \<noteq> [] \<Longrightarrow> ci_url inp \<noteq> [] \<Longrightarrow> 0 \<le> ci_max_retries inp \<Longrightarrow> int4 (ci_max_retries inp) \<Longrightarrow>
     row_typed tid (new_row S tid now inp kept)"
  by (simp add: row_typed_def new_row_def int4_def)

text \<open>The operations, each with the clock and the identifier that it draws.\<close>

abbreviation (input) pg_creates where "pg_creates S J n \<equiv> pg_create S J (snd n) (fst n)"
abbreviation (input) pg_starts where "pg_starts S J n \<equiv> pg_start S J (\<lambda>tbl. tbl) (fst n)"
abbreviation (input) pg_retries where "pg_retries S J n \<equiv> pg_retry S J (\<lambda>tbl. tbl) (fst n)"
abbreviation (input) pg_completes where "pg_completes S J n \<equiv> pg_complete S J (\<lambda>tbl. tbl) (fst n)"
abbreviation (input) pg_fails where "pg_fails S J n \<equiv> pg_fail S J (\<lambda>tbl. tbl) (fst n)"
abbreviation (input) pg_cancels where "pg_cancels S J n \<equiv> pg_cancel S J (\<lambda>tbl. tbl) (fst n)"

definition pg_task_step :: "pg_server \<Rightarrow> task_codec \<Rightarrow> (go_time \<times> gostr) \<times> task_op \<Rightarrow> task_db \<Rightarrow> task_db" where
  "pg_task_step S J = task_op_step (pg_creates S J) (pg_starts S J) (pg_retries S J) (pg_completes S J) (pg_fails S J) (pg_cancels S J)"

lemmas pg_op_defs = pg_start_def pg_retry_def pg_complete_def pg_fail_def pg_cancel_def

lemma pg_create_typed: "all_typed c \<Longrightarrow> all_typed (snd (pg_create S J uuid now inp c))"
proof -
  assume "all_typed c"
  moreover obtain res c' where q: "pg_create S J uuid now inp c = (res, c')" by fastforce
  ultimately show ?thesis
    using pg_create_db [OF q] by (auto intro: typed_same typed_put [OF _ new_row_typed])
qed

lemma pg_updates_typed:
  assumes "all_typed c"
  shows "all_typed (snd (pg_start S J (\<lambda>tbl. tbl) now si c))" "all_typed (snd (pg_retry S J (\<lambda>tbl. tbl) now ri c))"
    "all_typed (snd (pg_complete S J (\<lambda>tbl. tbl) now co c))" "all_typed (snd (pg_fail S J (\<lambda>tbl. tbl) now fi c))"
    "all_typed (snd (pg_cancel S J (\<lambda>tbl. tbl) now ca c))"
  unfolding pg_op_defs
  by (auto simp: assms split: sum.split intro!: pg_update_typed [OF assms prod.collapse [symmetric]]
      dest: row_changes_typed)

lemma pg_task_step_typed: "all_typed c \<Longrightarrow> all_typed (pg_task_step S J nop c)"
proof -
  assume c: "all_typed c"
  obtain now oper where nop: "nop = (now, oper)" by (cases nop)
  show ?thesis
    by (cases oper) (use pg_create_typed [OF c] pg_updates_typed [OF c] in \<open>simp_all add: nop pg_task_step_def\<close>)
qed

lemma trace_not_written: "pg_view J c = pg_view J c' \<Longrightarrow> safely_moves ok target inc tid (pg_view J c) (Inl e) (pg_view J c')"
  by (simp add: safely_moves_def)

interpretation pg_tasks: task_safety "\<lambda>n. pg_creates S J n" "\<lambda>n. pg_starts S J n" "\<lambda>n. pg_retries S J n"
    "\<lambda>n. pg_completes S J n" "\<lambda>n. pg_fails S J n" "\<lambda>n. pg_cancels S J n" "pg_view J" all_typed for S J
proof (unfold_locales, goal_cases)
  case (1 c now ci res c')
  from pg_create_db [OF 1(2)] show ?case
  proof
    assume "cn_db c' = cn_db c"
    then show ?case by (simp add: pg_view_def fun_eq_iff)
  next
    assume "\<exists>tid kept. cn_db c tid = None \<and> cn_db c' = (cn_db c)(tid \<mapsto> new_row S tid (fst now) ci kept)
       \<and> ci_session ci \<noteq> [] \<and> ci_url ci \<noteq> [] \<and> 0 \<le> ci_max_retries ci \<and> int4 (ci_max_retries ci)"
    then obtain tid kept where new: "cn_db c tid = None" "cn_db c' = (cn_db c)(tid \<mapsto> new_row S tid (fst now) ci kept)"
      by blast
    let ?t = "row_task J (new_row S tid (fst now) ci kept)"
    have "pg_view J c' = (pg_view J c)(tid \<mapsto> ?t)" "pg_view J c tid = None" using new by (auto simp: pg_view_def fun_eq_iff)
    moreover have "tk_id ?t = tid" "tk_status ?t = Queued" "tk_attempt ?t = 0" by (simp_all add: new_row_def)
    ultimately show ?case by metis
  qed
next
  case (2 c now si res c')
  then show ?case unfolding pg_start_def by (elim pg_update_safely_moves row_changes)
next
  case (3 c now ri res c')
  then show ?case unfolding pg_retry_def by (elim pg_update_safely_moves row_changes)
next
  case (4 c now co res c')
  then show ?case
    by (cases "js_trace J (co_trace co)")
       (auto simp: pg_complete_def trace_not_written elim: pg_update_safely_moves [OF _ row_changes(3)])
next
  case (5 c now fi res c')
  then show ?case
    by (cases "js_trace J (fi_trace fi)")
       (auto simp: pg_fail_def trace_not_written elim: pg_update_safely_moves [OF _ row_changes(4)])
next
  case (6 c now ca res c')
  then show ?case unfolding pg_cancel_def by (elim pg_update_safely_moves row_changes)
next
  case (7 c nop)
  then show ?case using pg_task_step_typed [of c S J nop] by (simp add: pg_task_step_def)
qed

end
