(* ===== verification/PgRefines.thy ===== *)
theory PgRefines
  imports PgService
begin

text \<open>
  On a database that answers, every operation of the Postgres service does what the in-memory
  service does: the stored tasks correspond, and so do the answers. The correspondence shows where
  the two differ: Postgres trims the texts that it stores as nullable and keeps what a
  \<open>TIMESTAMPTZ\<close> keeps of a time, and a task that is not finished may have another completion time.
\<close>

section \<open>The correspondence\<close>

definition shown_task :: "task \<Rightarrow> task" where
  "shown_task t = (if finished (tk_status t) then t else t\<lparr>tk_completed := None\<rparr>)"

definition stored_form :: "pg_server \<Rightarrow> task \<Rightarrow> task" where
  "stored_form S t = t\<lparr>tk_source := trim_space (tk_source t), tk_outputs := derive_extracted_outputs (tk_trace t),
     tk_next_retry := map_option (pg_time S) (tk_next_retry t), tk_node := trim_space (tk_node t),
     tk_page_title := trim_space (tk_page_title t), tk_final_url := trim_space (tk_final_url t),
     tk_screenshot := trim_space (tk_screenshot t), tk_artifact_url := trim_space (tk_artifact_url t),
     tk_blocker_type := trim_space (tk_blocker_type t), tk_blocker_message := trim_space (tk_blocker_message t),
     tk_created := pg_time S (tk_created t), tk_started := map_option (pg_time S) (tk_started t),
     tk_completed := map_option (pg_time S) (tk_completed t)\<rparr>"

definition abs_task :: "pg_server \<Rightarrow> task \<Rightarrow> task" where
  "abs_task S t = shown_task (stored_form S t)"

definition row_stands_for :: "pg_server \<Rightarrow> task_codec \<Rightarrow> task_row \<Rightarrow> task \<Rightarrow> bool" where
  "row_stands_for S J r t \<longleftrightarrow> (\<exists>u. scan_task J r = Inr u \<and> shown_task u = abs_task S t)"

definition stands_for :: "pg_server \<Rightarrow> task_codec \<Rightarrow> task_db \<Rightarrow> task_state \<Rightarrow> bool" where
  "stands_for S J c s \<longleftrightarrow> cn_faults c = [] \<and> (\<forall>tid. rel_option (row_stands_for S J) (cn_db c tid) (ts_items s tid))"

text \<open>The same, field by field.\<close>

lemma shown_eq:
  "shown_task u = abs_task S t \<longleftrightarrow>
     tk_id u = tk_id t \<and> tk_source u = trim_space (tk_source t) \<and> tk_session u = tk_session t \<and> tk_url u = tk_url t
     \<and> tk_goal u = tk_goal t \<and> tk_actions u = tk_actions t \<and> tk_trace u = tk_trace t
     \<and> tk_outputs u = derive_extracted_outputs (tk_trace t) \<and> tk_status u = tk_status t \<and> tk_attempt u = tk_attempt t
     \<and> tk_max_retries u = tk_max_retries t \<and> tk_next_retry u = map_option (pg_time S) (tk_next_retry t)
     \<and> tk_node u = trim_space (tk_node t) \<and> tk_page_title u = trim_space (tk_page_title t)
     \<and> tk_final_url u = trim_space (tk_final_url t) \<and> tk_screenshot u = trim_space (tk_screenshot t)
     \<and> tk_artifact_url u = trim_space (tk_artifact_url t) \<and> tk_blocker_type u = trim_space (tk_blocker_type t)
     \<and> tk_blocker_message u = trim_space (tk_blocker_message t) \<and> tk_error u = tk_error t
     \<and> tk_created u = pg_time S (tk_created t) \<and> tk_started u = map_option (pg_time S) (tk_started t)
     \<and> (finished (tk_status t) \<longrightarrow> tk_completed u = map_option (pg_time S) (tk_completed t))"
  by (cases u; cases t) (auto simp: shown_task_def abs_task_def stored_form_def)

lemma scan_task_eq:
  "scan_task J r = Inr u \<longleftrightarrow> (\<exists>actions trace. decoded (js_read_actions J) (rw_actions r) = Inr actions
     \<and> decoded (js_read_trace J) (rw_trace r) = Inr trace \<and> u = task_of_row r actions trace)"
  by (auto simp: scan_task_def split: sum.splits)

lemma row_stands_for_eq:
  "row_stands_for S J r t \<longleftrightarrow>
     decoded (js_read_actions J) (rw_actions r) = Inr (tk_actions t)
     \<and> decoded (js_read_trace J) (rw_trace r) = Inr (tk_trace t)
     \<and> rw_id r = tk_id t \<and> deref (rw_source r) = trim_space (tk_source t) \<and> rw_session r = tk_session t \<and> rw_url r = tk_url t
     \<and> rw_goal r = tk_goal t \<and> rw_status r = tk_status t \<and> rw_attempt r = tk_attempt t
     \<and> rw_max_retries r = tk_max_retries t \<and> rw_next_retry r = map_option (pg_time S) (tk_next_retry t)
     \<and> deref (rw_node r) = trim_space (tk_node t) \<and> deref (rw_page_title r) = trim_space (tk_page_title t)
     \<and> deref (rw_final_url r) = trim_space (tk_final_url t) \<and> deref (rw_screenshot r) = trim_space (tk_screenshot t)
     \<and> deref (rw_artifact_url r) = trim_space (tk_artifact_url t) \<and> deref (rw_blocker_type r) = trim_space (tk_blocker_type t)
     \<and> deref (rw_blocker_message r) = trim_space (tk_blocker_message t) \<and> deref (rw_error r) = tk_error t
     \<and> rw_created r = pg_time S (tk_created t) \<and> rw_started r = map_option (pg_time S) (tk_started t)
     \<and> (finished (tk_status t) \<longrightarrow> rw_completed r = map_option (pg_time S) (tk_completed t))"
  by (auto simp: row_stands_for_def scan_task_eq shown_eq task_of_row_def)

definition answer_for :: "pg_server \<Rightarrow> pg_error + task \<Rightarrow> task_error + task \<Rightarrow> bool" where
  "answer_for S res res0 \<longleftrightarrow>
     (case (res, res0) of
        (Inl e, Inl e0) \<Rightarrow> e = Refused e0
      | (Inr u, Inr t) \<Rightarrow> shown_task u = abs_task S t
      | _ \<Rightarrow> False)"

text \<open>What the JSON functions and the column must do for the values of a call, and what they must
  do with the empty array that the statements write.\<close>

definition trace_kept :: "pg_server \<Rightarrow> task_codec \<Rightarrow> step_trace list \<Rightarrow> bool" where
  "trace_kept S J trace \<longleftrightarrow>
     (case js_trace J trace of
        Inl _ \<Rightarrow> False
      | Inr raw \<Rightarrow> (case pg_jsonb S raw of Inl _ \<Rightarrow> False | Inr kept \<Rightarrow> decoded (js_read_trace J) kept = Inr trace))"

definition reads_empty :: "task_codec \<Rightarrow> bool" where
  "reads_empty J \<longleftrightarrow> decoded (js_read_trace J) ''[]'' = Inr []"

fun op_kept :: "pg_server \<Rightarrow> task_codec \<Rightarrow> task_op \<Rightarrow> bool" where
  "op_kept S J (OpCreate i) \<longleftrightarrow> False"
| "op_kept S J (OpComplete i) \<longleftrightarrow> trace_kept S J (co_trace i)"
| "op_kept S J (OpFail i) \<longleftrightarrow> trace_kept S J (fi_trace i)"
| "op_kept S J _ \<longleftrightarrow> True"

section \<open>One operation\<close>

lemma pg_update_quiet:
  assumes "cn_faults c = []"
  shows "pg_update J (\<lambda>tbl. tbl) tid cond refuse change c =
    (case cn_db c tid of
       None \<Rightarrow> (Inl (Refused TaskNotFound), c)
     | Some r \<Rightarrow>
         if cond (rw_status r) then
           (case change r of
              Inl e \<Rightarrow> (Inl (Broken e), c)
            | Inr r' \<Rightarrow> (scanned J r', c\<lparr>cn_db := (cn_db c)(tid \<mapsto> r')\<rparr>))
         else (Inl (Refused (refuse (rw_status r))), c))"
  using assms
  by (simp add: pg_update_def ask_quiet sql_update_def fetch_task_status_def send_quiet split: option.split sum.split)

lemma update_refines:
  assumes sf: "stands_for S J c s"
    and err: "\<And>q. \<not> cond q \<Longrightarrow> refuse q = err"
    and row: "\<And>r t. ts_items s tid = Some t \<Longrightarrow> row_stands_for S J r t \<Longrightarrow> \<exists>r'. row r = Inr r' \<and> row_stands_for S J r' (change t)"
    and q: "pg_update J (\<lambda>tbl. tbl) tid cond refuse row c = (res, c')"
      "task_update tid (unless_status cond err) change s = (res0, s')"
  shows "answer_for S res res0 \<and> stands_for S J c' s'"
proof -
  have faults: "cn_faults c = []" and rel: "rel_option (row_stands_for S J) (cn_db c tid) (ts_items s tid)"
    using sf by (simp_all add: stands_for_def)
  show ?thesis
  proof (cases "ts_items s tid")
    case None
    with rel have "cn_db c tid = None" by simp
    with None q sf show ?thesis by (auto simp: pg_update_quiet [OF faults] task_update_def answer_for_def)
  next
    case (Some t)
    with rel obtain r where r: "cn_db c tid = Some r" "row_stands_for S J r t" by (auto elim: option.rel_cases)
    then have st: "rw_status r = tk_status t" by (simp add: row_stands_for_eq)
    show ?thesis
    proof (cases "cond (tk_status t)")
      case True
      from row [OF Some r(2)] obtain r' where r': "row r = Inr r'" "row_stands_for S J r' (change t)" by blast
      then obtain u where u: "scan_task J r' = Inr u" "shown_task u = abs_task S (change t)"
        by (auto simp: row_stands_for_def)
      with q Some r r' st True
      have "res = Inr u" "c' = c\<lparr>cn_db := (cn_db c)(tid \<mapsto> r')\<rparr>"
        "res0 = Inr (change t)" "s' = s\<lparr>ts_items := (ts_items s)(tid \<mapsto> change t)\<rparr>"
        by (simp_all add: pg_update_quiet [OF faults] task_update_def unless_status_def scanned_def)
      with u r'(2) sf show ?thesis by (simp add: answer_for_def stands_for_def)
    next
      case False
      with q Some r st err sf show ?thesis
        by (auto simp: pg_update_quiet [OF faults] task_update_def unless_status_def answer_for_def)
    qed
  qed
qed

lemma start_refines:
  assumes "reads_empty J" "stands_for S J c s" "\<And>t. ts_items s (si_task si) = Some t \<Longrightarrow> int4 (tk_attempt t + 1)"
    and "pg_start S J (\<lambda>tbl. tbl) now si c = (res, c')" "task_start now si s = (res0, s')"
  shows "answer_for S res res0 \<and> stands_for S J c' s'"
proof (rule update_refines [OF assms(2) _ _ assms(4) [unfolded pg_start_def] assms(5) [unfolded task_start_def]])
  show "\<exists>r'. start_row S now si r = Inr r' \<and> row_stands_for S J r' (start_task now si t)"
    if "ts_items s (si_task si) = Some t" "row_stands_for S J r t" for r t
    using that assms(1) assms(3) [OF that(1)]
    by (simp add: start_row_def as_integer_def row_stands_for_eq start_task_def reads_empty_def)
qed simp

lemma retry_refines:
  assumes "reads_empty J" "stands_for S J c s"
    and "pg_retry S J (\<lambda>tbl. tbl) now ri c = (res, c')" "task_retry now ri s = (res0, s')"
  shows "answer_for S res res0 \<and> stands_for S J c' s'"
proof (rule update_refines [OF assms(2) _ _ assms(3) [unfolded pg_retry_def] assms(4) [unfolded task_retry_def]])
  show "\<exists>r'. retry_row S now ri r = Inr r' \<and> row_stands_for S J r' (retry_task now ri t)"
    if "row_stands_for S J r t" for r t
    using that assms(1) by (simp add: retry_row_def row_stands_for_eq retry_task_def reads_empty_def)
qed (simp add: not_cancelable_def)

lemma complete_refines:
  assumes "trace_kept S J (co_trace co)" "stands_for S J c s"
    and "pg_complete S J (\<lambda>tbl. tbl) now co c = (res, c')" "task_complete now co s = (res0, s')"
  shows "answer_for S res res0 \<and> stands_for S J c' s'"
proof -
  from assms(1) obtain raw kept where raw: "js_trace J (co_trace co) = Inr raw" "pg_jsonb S raw = Inr kept"
    "decoded (js_read_trace J) kept = Inr (co_trace co)" by (auto simp: trace_kept_def split: sum.splits)
  from assms(3) raw(1) have q: "pg_update J (\<lambda>tbl. tbl) (co_task co) (\<lambda>q. q \<noteq> Canceled) (not_cancelable (\<lambda>q. q = Canceled))
      (complete_row S now co raw) c = (res, c')" by (simp add: pg_complete_def)
  show ?thesis
  proof (rule update_refines [OF assms(2) _ _ q assms(4) [unfolded task_complete_def]])
    show "\<exists>r'. complete_row S now co raw r = Inr r' \<and> row_stands_for S J r' (complete_task now co t)"
      if "row_stands_for S J r t" for r t
      using that raw(2,3) by (simp add: complete_row_def row_stands_for_eq complete_task_def)
  qed (simp add: not_cancelable_def)
qed

lemma fail_refines:
  assumes "trace_kept S J (fi_trace fi)" "stands_for S J c s"
    and "pg_fail S J (\<lambda>tbl. tbl) now fi c = (res, c')" "task_fail now fi s = (res0, s')"
  shows "answer_for S res res0 \<and> stands_for S J c' s'"
proof -
  from assms(1) obtain raw kept where raw: "js_trace J (fi_trace fi) = Inr raw" "pg_jsonb S raw = Inr kept"
    "decoded (js_read_trace J) kept = Inr (fi_trace fi)" by (auto simp: trace_kept_def split: sum.splits)
  from assms(3) raw(1) have q: "pg_update J (\<lambda>tbl. tbl) (fi_task fi) (\<lambda>q. q \<noteq> Canceled) (not_cancelable (\<lambda>q. q = Canceled))
      (fail_row S now fi raw) c = (res, c')" by (simp add: pg_fail_def)
  show ?thesis
  proof (rule update_refines [OF assms(2) _ _ q assms(4) [unfolded task_fail_def]])
    show "\<exists>r'. fail_row S now fi raw r = Inr r' \<and> row_stands_for S J r' (fail_task now fi t)"
      if "row_stands_for S J r t" for r t
      using that raw(2,3) by (simp add: fail_row_def row_stands_for_eq fail_task_def)
  qed (simp add: not_cancelable_def)
qed

lemma cancelable_eq: "(\<lambda>q. q = Queued \<or> q = Running) = (\<lambda>q. q \<noteq> Completed \<and> q \<noteq> Failed \<and> q \<noteq> Canceled)"
  by (rule ext) (case_tac q; simp)

lemma cancel_refines:
  assumes "stands_for S J c s"
    and "pg_cancel S J (\<lambda>tbl. tbl) now ca c = (res, c')" "task_cancel now ca s = (res0, s')"
  shows "answer_for S res res0 \<and> stands_for S J c' s'"
proof (rule update_refines [OF assms(1) _ _ assms(2) [unfolded pg_cancel_def cancelable_eq] assms(3) [unfolded task_cancel_def]])
  show "\<exists>r'. cancel_row S now ca r = Inr r' \<and> row_stands_for S J r' (cancel_task now ca t)"
    if "row_stands_for S J r t" for r t
    using that by (simp add: cancel_row_def row_stands_for_eq cancel_task_def)
qed (auto simp: not_cancelable_def)

section \<open>Sequences of operations\<close>

primrec answers_of :: "('op \<Rightarrow> 's \<Rightarrow> 'r \<times> 's) \<Rightarrow> 'op list \<Rightarrow> 's \<Rightarrow> 'r list \<times> 's" where
  "answers_of run [] s = ([], s)"
| "answers_of run (nop # ops) s =
     (let (r, s1) = run nop s; (rs, s2) = answers_of run ops s1 in (r # rs, s2))"

definition mem_run :: "go_time \<times> task_op \<Rightarrow> task_state \<Rightarrow> (task_error + task) \<times> task_state" where
  "mem_run = task_op_run task_create task_start task_retry task_complete task_fail task_cancel"

definition pg_run :: "pg_server \<Rightarrow> task_codec \<Rightarrow> gostr \<Rightarrow> go_time \<times> task_op \<Rightarrow> task_db \<Rightarrow> (pg_error + task) \<times> task_db" where
  "pg_run S J uuid = task_op_run (pg_create S J uuid) (pg_start S J (\<lambda>tbl. tbl)) (pg_retry S J (\<lambda>tbl. tbl))
     (pg_complete S J (\<lambda>tbl. tbl)) (pg_fail S J (\<lambda>tbl. tbl)) (pg_cancel S J (\<lambda>tbl. tbl))"

definition attempts_within :: "int \<Rightarrow> task_state \<Rightarrow> bool" where
  "attempts_within n s \<longleftrightarrow> (\<forall>tid t. ts_items s tid = Some t \<longrightarrow> 0 \<le> tk_attempt t \<and> tk_attempt t + n < 2 ^ 31)"

lemma attempts_within_int4: "attempts_within n s \<Longrightarrow> 1 \<le> n \<Longrightarrow> ts_items s tid = Some t \<Longrightarrow> int4 (tk_attempt t + 1)"
  by (fastforce simp: attempts_within_def int4_def)

lemma attempts_within_update:
  assumes "attempts_within (n + 1) s" "\<And>t. tk_attempt t \<le> tk_attempt (change t) \<and> tk_attempt (change t) \<le> tk_attempt t + 1"
  shows "attempts_within n (snd (task_update tid refuse change s))"
proof (cases "task_update tid refuse change s = (Inr (change (the (ts_items s tid))), s\<lparr>ts_items := (ts_items s)(tid \<mapsto> change (the (ts_items s tid)))\<rparr>) \<and> ts_items s tid \<noteq> None")
  case True
  with assms(1) assms(2) [of "the (ts_items s tid)"] show ?thesis by (fastforce simp: attempts_within_def)
next
  case False
  then have "snd (task_update tid refuse change s) = s" by (auto simp: task_update_def split: option.splits)
  with assms(1) show ?thesis by (fastforce simp: attempts_within_def)
qed

lemma mem_run_within:
  assumes "attempts_within (n + 1) s" "op_kept S J oper"
  shows "attempts_within n (snd (mem_run (now, oper) s))"
  using assms(2)
  by (cases oper)
     (simp_all add: mem_run_def task_op_defs attempts_within_update [OF assms(1)] task_change_defs)

lemma run_refines:
  assumes "reads_empty J" "stands_for S J c s" "op_kept S J oper" "attempts_within n s" "1 \<le> n"
    and "pg_run S J uuid (now, oper) c = (res, c')" "mem_run (now, oper) s = (res0, s')"
  shows "answer_for S res res0 \<and> stands_for S J c' s'"
proof (cases oper)
  case (OpCreate i)
  with assms(3) show ?thesis by simp
next
  case (OpStart i)
  with assms show ?thesis
    by (intro start_refines [OF assms(1,2)]) (auto simp: pg_run_def mem_run_def intro: attempts_within_int4)
next
  case (OpRetry i)
  with assms show ?thesis by (intro retry_refines [OF assms(1,2)]) (auto simp: pg_run_def mem_run_def)
next
  case (OpComplete i)
  with assms show ?thesis by (intro complete_refines [OF _ assms(2)]) (auto simp: pg_run_def mem_run_def)
next
  case (OpFail i)
  with assms show ?thesis by (intro fail_refines [OF _ assms(2)]) (auto simp: pg_run_def mem_run_def)
next
  case (OpCancel i)
  with assms show ?thesis by (intro cancel_refines [OF assms(2)]) (auto simp: pg_run_def mem_run_def)
qed

lemma runs_refine:
  assumes "reads_empty J" "list_all (\<lambda>(now, oper). op_kept S J oper) ops"
  shows "stands_for S J c s \<Longrightarrow> attempts_within (int (length ops)) s \<Longrightarrow>
    answers_of (pg_run S J uuid) ops c = (rs, c') \<Longrightarrow> answers_of mem_run ops s = (rs0, s') \<Longrightarrow>
    list_all2 (answer_for S) rs rs0 \<and> stands_for S J c' s'"
  using assms(2)
proof (induction ops arbitrary: c s rs rs0 c' s')
  case Nil
  then show ?case by simp
next
  case (Cons nop ops)
  obtain now oper where nop: "nop = (now, oper)" by (cases nop)
  obtain r c1 r0 s1 where q: "pg_run S J uuid (now, oper) c = (r, c1)" "mem_run (now, oper) s = (r0, s1)" by fastforce
  obtain ps c2 ps0 s2 where rest: "answers_of (pg_run S J uuid) ops c1 = (ps, c2)" "answers_of mem_run ops s1 = (ps0, s2)"
    by fastforce
  from Cons.prems(5) have kept: "op_kept S J oper" by (simp add: nop)
  have n: "int (length (nop # ops)) = int (length ops) + 1" by simp
  from run_refines [OF assms(1) Cons.prems(1) kept Cons.prems(2) _ q]
  have one: "answer_for S r r0 \<and> stands_for S J c1 s1" by simp
  have "attempts_within (int (length ops)) s1"
    using mem_run_within [OF Cons.prems(2) [unfolded n] kept, of now] q(2) by simp
  with Cons.IH [OF _ _ rest] one Cons.prems(3-5) q rest show ?case by (auto simp: nop)
qed

section \<open>Creation\<close>

definition actions_kept :: "pg_server \<Rightarrow> task_codec \<Rightarrow> action list \<Rightarrow> bool" where
  "actions_kept S J actions \<longleftrightarrow>
     (case js_actions J actions of
        Inl _ \<Rightarrow> False
      | Inr raw \<Rightarrow> (case pg_jsonb S raw of Inl _ \<Rightarrow> False | Inr kept \<Rightarrow> decoded (js_read_actions J) kept = Inr actions))"

text \<open>A creation differs in the identifier that it draws only.\<close>

lemma create_refines:
  assumes "reads_empty J" "actions_kept S J (ci_actions inp)" "int4 (ci_max_retries inp)"
    and "cn_faults c = []" "cn_db c (pg_task_id uuid) = None"
    and "pg_create S J uuid now inp c = (res, c')" "task_create now inp s = (res0, s')"
  shows "answer_for S res (map_sum (\<lambda>e. e) (\<lambda>t. t\<lparr>tk_id := pg_task_id uuid\<rparr>) res0)"
proof (cases "create_error inp")
  case (Some e)
  with assms(6,7) show ?thesis
    by (auto simp: pg_create_def create_error_def task_create_def answer_for_def split: if_splits)
next
  case None
  then have ok: "ci_session inp \<noteq> []" "ci_url inp \<noteq> []" "ci_goal inp = [] \<longrightarrow> ci_actions inp \<noteq> []" "\<not> ci_max_retries inp < 0"
    by (auto simp: create_error_def split: if_splits)
  from assms(2) obtain raw kept where raw: "js_actions J (ci_actions inp) = Inr raw" "pg_jsonb S raw = Inr kept"
    "decoded (js_read_actions J) kept = Inr (ci_actions inp)" by (auto simp: actions_kept_def split: sum.splits)
  let ?r = "new_row S (pg_task_id uuid) now inp kept"
  have ins: "fst (insert_task S (pg_task_id uuid) now inp raw (cn_db c)) = Inr ?r"
    using assms(3,5) raw(2) by (simp add: insert_task_def as_integer_def sql_insert_def)
  have res: "res = scanned J ?r"
    using assms(4,6) None raw(1) ins by (auto simp: pg_create_def ask_quiet split: sum.splits)
  from assms(7) ok obtain t where t: "res0 = Inr t"
    by (auto simp: task_create_def Let_def)
  moreover have "row_stands_for S J ?r (t\<lparr>tk_id := pg_task_id uuid\<rparr>)"
    using assms(1,7) raw(3) ok t
    by (auto simp: task_create_def Let_def row_stands_for_eq new_row_def reads_empty_def)
  ultimately show ?thesis by (auto simp: res scanned_def row_stands_for_def answer_for_def)
qed

end
