(* ===== verification/PgProps.thy ===== *)
theory PgProps
  imports PgRefines
begin

text \<open>
  The properties of the task service on Postgres: typed rows, final cancellation and single starts
  whatever the connection loses, the refinement of the in-memory service, and its schema.
\<close>

section \<open>Queue listing\<close>

interpretation queued_row_order: strict_weak queued_row
  by unfold_locales (auto simp: queued_row_def split: if_splits)

lemma scan_rows_map: "scan_rows J rs items = Inr xs \<Longrightarrow> xs = items @ map (row_task J) rs"
proof (induction rs arbitrary: items)
  case (Cons r rs)
  then show ?case by (auto split: sum.splits dest!: scan_task_row dest: Cons.IH)
qed simp

text \<open>The listing of the queue: due tasks in the order of the time since which they are due, and one
  is left out only for others that are not due later.\<close>

lemma pg_list_queued_spec:
  assumes "pg_list_queued J ks db_now limit c = (Inr ts, c')" "enumerates ks (cn_db c)"
  shows "\<exists>rows. ts = map (row_task J) rows \<and> sorted_wrt (\<lambda>a b. \<not> queued_row b a) rows
    \<and> (\<forall>r\<in>set rows. row_due db_now r \<and> (\<exists>tid. cn_db c tid = Some r)) \<and> length rows \<le> limit_or 100 limit
    \<and> (\<forall>tid r. cn_db c tid = Some r \<longrightarrow> row_due db_now r \<longrightarrow> r \<notin> set rows \<longrightarrow>
         (\<forall>a\<in>set rows. \<not> queued_row r a) \<and> length rows = limit_or 100 limit)"
proof -
  let ?all = "sort_by queued_row (filter (row_due db_now) (listed (cn_db c) ks))" and ?n = "limit_or 100 limit"
  from assms(1) have "scan_rows J (take ?n ?all) [] = Inr ts"
    by (auto simp: pg_list_queued_def pg_list_def dest: send_heard split: prod.splits sum.splits)
  then have ts: "ts = map (row_task J) (take ?n ?all)" by (auto dest: scan_rows_map)
  have left: "(\<forall>a\<in>set (take ?n ?all). \<not> queued_row r a) \<and> length (take ?n ?all) = ?n"
    if "r \<in> set ?all" "r \<notin> set (take ?n ?all)" for r
  proof -
    have "r \<in> set (drop ?n ?all)" using that by (metis UnE append_take_drop_id set_append)
    moreover from this have "?n < length ?all" by (metis drop_all empty_iff empty_set not_less)
    ultimately show ?thesis using queued_row_order.sort_by_take_drop by auto
  qed
  show ?thesis
  proof (intro exI [of _ "take ?n ?all"] conjI)
    show "sorted_wrt (\<lambda>a b. \<not> queued_row b a) (take ?n ?all)" by (rule sorted_wrt_take [OF queued_row_order.sorted_sort_by])
    show "\<forall>r\<in>set (take ?n ?all). row_due db_now r \<and> (\<exists>tid. cn_db c tid = Some r)"
      using assms(2) by (auto dest!: in_set_takeD simp: in_listed)
    show "\<forall>tid r. cn_db c tid = Some r \<longrightarrow> row_due db_now r \<longrightarrow> r \<notin> set (take ?n ?all) \<longrightarrow>
         (\<forall>a\<in>set (take ?n ?all). \<not> queued_row r a) \<and> length (take ?n ?all) = ?n"
      using left assms(2) by (auto simp: in_listed)
  qed (simp_all add: ts)
qed

text \<open>The two services order the queue differently: a task with a retry time precedes every new one
  in memory, and on Postgres only those that were created after that time.\<close>

lemma queue_orders_differ:
  assumes "row_stands_for S J a ta" "row_stands_for S J b tb" "pg_time S = (\<lambda>t. t)"
    and "tk_next_retry ta = Some at" "tk_next_retry tb = None" "tk_created tb < at"
  shows "queued_less ta tb \<and> queued_row b a"
  using assms by (simp add: queued_less_def queued_row_def due_since_def row_stands_for_eq)

section \<open>The schema\<close>

lemma task_table_columns: "column_names task_table = set task_columns"
  unfolding task_table_def task_columns_def column_of_def by simp

section \<open>Properties\<close>

text \<open>C12: the rows on Postgres are typed. Whatever operations run in whatever order on an empty
  database, and whichever statements or answers the connection loses, every row is stored under its
  own identifier, its numbers fit the INTEGER columns and are not negative, its optional texts are
  NULL or trimmed and not empty, a retry time belongs to a queued task, and the times of start and
  completion are there exactly when the status needs them.\<close>

theorem postgres_rows_typed:
  "all_typed (fold (pg_task_step S J) ops \<lparr>cn_db = Map.empty, cn_faults = fs\<rparr>)"
proof -
  have "all_typed c \<Longrightarrow> all_typed (fold (pg_task_step S J) ops c)" for c
    by (induction ops arbitrary: c) (simp_all add: pg_task_step_typed)
  then show ?thesis by (simp add: all_typed_new)
qed


text \<open>A database with one queued and one canceled task, over JSON functions that know the empty
  array only.\<close>

definition plain_codec :: task_codec where
  "plain_codec = \<lparr>js_actions = (\<lambda>xs. if xs = [] then Inr ''[]'' else Inl (new_error [])),
     js_read_actions = (\<lambda>s. if s = ''[]'' then Inr [] else Inl (new_error [])),
     js_trace = (\<lambda>xs. if xs = [] then Inr ''[]'' else Inl (new_error [])),
     js_read_trace = (\<lambda>s. if s = ''[]'' then Inr [] else Inl (new_error []))\<rparr>"

definition plain_server :: pg_server where
  "plain_server = \<lparr>pg_time = (\<lambda>t. t div 1000 * 1000), pg_jsonb = Inr, pg_before = (\<lambda>a b. length a < length b),
     pg_no_integer = (\<lambda>_. new_error []), pg_duplicate = (\<lambda>_. new_error [])\<rparr>"

definition demo_row :: "gostr \<Rightarrow> task_row" where
  "demo_row tid = new_row plain_server tid 7000 demo_input ''[]''"

definition demo_db :: task_db where
  "demo_db = \<lparr>cn_db = [''a'' \<mapsto> demo_row ''a'',
       ''b'' \<mapsto> (demo_row ''b'')\<lparr>rw_status := Canceled, rw_completed := Some 9000\<rparr>], cn_faults = []\<rparr>"

lemma demo_row_fields [simp]:
  "rw_id (demo_row tid) = tid" "rw_status (demo_row tid) = Queued" "rw_attempt (demo_row tid) = 0"
  "rw_actions (demo_row tid) = ''[]''" "rw_trace (demo_row tid) = ''[]''"
  "rw_next_retry (demo_row tid) = None"
  by (simp_all add: demo_row_def new_row_def)

lemma demo_db_typed: "all_typed demo_db"
proof -
  have "row_typed tid (demo_row tid)" for tid
    unfolding demo_row_def by (rule new_row_typed) (simp_all add: demo_input_def int4_def)
  then show ?thesis by (auto simp: all_typed_def demo_db_def row_typed_def)
qed

definition demo_start :: start_input where
  "demo_start = \<lparr>si_task = ''a'', si_node = ''n1'', si_started = 8000\<rparr>"

lemma plain_decoded [simp]:
  "decoded (js_read_actions plain_codec) ''[]'' = Inr []" "decoded (js_read_trace plain_codec) ''[]'' = Inr []"
  by (simp_all add: decoded_def plain_codec_def)

lemma demo_started: "\<exists>t c1. pg_start plain_server plain_codec (\<lambda>tbl. tbl) 8000 demo_start demo_db = (Inr t, c1)"
  by (simp add: pg_start_def pg_update_quiet demo_db_def demo_start_def start_row_def as_integer_def int4_def
      scanned_def scan_task_def)



definition demo_pair :: "gostr \<Rightarrow> task_status \<Rightarrow> task" where
  "demo_pair tid q = demo_task\<lparr>tk_id := tid, tk_status := q, tk_created := 7001,
     tk_completed := if finished q then Some 9000 else None\<rparr>"

definition demo_memory :: task_state where
  "demo_memory = \<lparr>ts_counter = 2, ts_items = [''a'' \<mapsto> demo_pair ''a'' Queued, ''b'' \<mapsto> demo_pair ''b'' Canceled]\<rparr>"

lemma demo_stands_for: "stands_for plain_server plain_codec demo_db demo_memory"
proof -
  have "row_stands_for plain_server plain_codec (demo_row tid) (demo_pair tid Queued)"
    "row_stands_for plain_server plain_codec ((demo_row tid)\<lparr>rw_status := Canceled, rw_completed := Some 9000\<rparr>) (demo_pair tid Canceled)" for tid
    by (simp_all add: row_stands_for_eq demo_row_def new_row_def demo_pair_def demo_task_def demo_input_def plain_server_def)
  then show ?thesis by (simp add: stands_for_def demo_db_def demo_memory_def)
qed


text \<open>NewPostgresService returns a service only for a table that has every column the
  statements name: a new table has them, and to a table of an earlier version the missing ones are
  added, if it has those that no statement adds.\<close>

lemma postgres_schema_complete:
  assumes "new_pg_tasks open_pool dsn = (Inr c', left_open)" "open_pool dsn = Inr c"
    and "sc_tables (cn_db c) ''tasks'' = None
      \<or> has_columns ''tasks'' (set task_columns - added_columns ''tasks'' (tl task_schema)) (cn_db c)"
  shows "left_open \<and> has_columns ''tasks'' (set task_columns) (cn_db c')"
proof -
  from assms(1,2) have "init_schema ''tasks'' task_schema c = (Inr (), c') \<and> left_open"
    by (auto simp: new_pg_tasks_def new_pg_service_def split: if_splits prod.splits sum.splits)
  moreover have "task_schema = CreateTable ''tasks'' task_table # tl task_schema" by (simp add: task_schema_def)
  ultimately show ?thesis
    using init_schema_complete [of "''tasks''" "''tasks''" task_table "tl task_schema" c c'] assms(3)
    by (simp add: task_table_columns)
qed

end
