(* ===== verification/PoolManager.thy ===== *)
theory PoolManager
  imports Registry
begin

text \<open>
  The pool manager, \<open>internal/pool/manager.go\<close>: it keeps a target number of ready nodes,
  destroys stale, old and surplus ones and provisions the missing ones. Its registry is any
  provider of the contract \<open>node_registry\<close>: the operations take its \<open>Heartbeat\<close> as \<open>hb\<close> and
  its \<open>List\<close> as \<open>list_nodes\<close>. The provider of nodes (\<open>pool.Provider\<close>) is outside: what its
  i-th \<open>ProvisionNode\<close> of a cycle answers is \<open>provs i\<close>, and every call made to it is an event
  of the log \<open>mg_events\<close> (an error of \<open>DestroyNode\<close> is only logged by the code, so nothing
  depends on it). \<open>wks\<close> is the order in which the warming map is visited.
\<close>

record pool_config =
  cf_target_ready :: int
  cf_reconcile_interval :: duration
  cf_heartbeat_timeout :: duration
  cf_node_max_age :: duration
  cf_managed_prefix :: gostr

datatype pool_event = Destroyed gostr | Provisioned gostr | ProvisionFailed

record 'r pool_manager =
  mg_registry :: 'r
  mg_warming :: "gostr \<rightharpoonup> go_time"
  mg_events :: "pool_event list"

definition normalize_pool_config :: "pool_config \<Rightarrow> pool_config" where
  "normalize_pool_config c = c\<lparr>
     cf_target_ready := max 0 (cf_target_ready c),
     cf_reconcile_interval := (if cf_reconcile_interval c \<le> 0 then 5 * second else cf_reconcile_interval c),
     cf_heartbeat_timeout := (if cf_heartbeat_timeout c \<le> 0 then 30 * second else cf_heartbeat_timeout c),
     cf_node_max_age := (if cf_node_max_age c \<le> 0 then 3600 * second else cf_node_max_age c)\<rparr>"

definition new_pool_manager :: "'r \<Rightarrow> 'r pool_manager" where
  "new_pool_manager r = \<lparr>mg_registry = r, mg_warming = Map.empty, mg_events = []\<rparr>"

definition reap_by_heartbeat :: "pool_config \<Rightarrow> go_time \<Rightarrow> node \<Rightarrow> bool" where
  "reap_by_heartbeat cfg now n \<longleftrightarrow>
     nd_state n \<noteq> NodeDead \<and> nd_heartbeat n \<noteq> zero_time
     \<and> time_sub now (nd_heartbeat n) > cf_heartbeat_timeout cfg"

definition reap_by_age :: "pool_config \<Rightarrow> go_time \<Rightarrow> node \<Rightarrow> bool" where
  "reap_by_age cfg now n \<longleftrightarrow>
     nd_state n \<noteq> NodeLeased \<and> nd_booted n \<noteq> zero_time
     \<and> time_sub now (nd_booted n) > cf_node_max_age cfg"

definition is_managed :: "pool_config \<Rightarrow> gostr \<Rightarrow> bool" where
  "is_managed cfg nid =
     (let pre = trim_space (cf_managed_prefix cfg) in pre = [] \<or> has_prefix (trim_space nid) pre)"

definition emit :: "pool_event \<Rightarrow> 'r pool_manager \<Rightarrow> 'r pool_manager" where
  "emit e m = m\<lparr>mg_events := mg_events m @ [e]\<rparr>"

definition delete_warming :: "gostr \<Rightarrow> 'r pool_manager \<Rightarrow> 'r pool_manager" where
  "delete_warming nid m = m\<lparr>mg_warming := (mg_warming m)(nid := None)\<rparr>"

definition set_warming :: "gostr \<Rightarrow> go_time \<Rightarrow> 'r pool_manager \<Rightarrow> 'r pool_manager" where
  "set_warming nid t m = m\<lparr>mg_warming := (mg_warming m)(nid \<mapsto> t)\<rparr>"

type_synonym 'r heartbeat_call = "go_time \<Rightarrow> heartbeat_input \<Rightarrow> 'r \<Rightarrow> (registry_error + node) \<times> 'r"

definition dead_beat :: "gostr \<Rightarrow> go_time \<Rightarrow> heartbeat_input" where
  "dead_beat nid t =
     \<lparr>hb_node = nid, hb_state = Some NodeDead, hb_at = t, hb_leased_until = zero_time\<rparr>"

definition destroy_node ::
  "'r heartbeat_call \<Rightarrow> go_time \<Rightarrow> gostr \<Rightarrow> 'r pool_manager \<Rightarrow> 'r pool_manager" where
  "destroy_node hb now nid m =
     (let m1 = emit (Destroyed nid) m;
          m2 = m1\<lparr>mg_registry := snd (hb now (dead_beat nid now) (mg_registry m1))\<rparr>
      in delete_warming nid m2)"

definition prune_warming_known :: "gostr list \<Rightarrow> 'r pool_manager \<Rightarrow> 'r pool_manager" where
  "prune_warming_known known m =
     m\<lparr>mg_warming := (\<lambda>k. if k \<in> set known then None else mg_warming m k)\<rparr>"

definition warming_timeout :: "pool_config \<Rightarrow> duration" where
  "warming_timeout cfg = (if cf_heartbeat_timeout cfg \<le> 0 then 30 * second else cf_heartbeat_timeout cfg)"

definition stale_warming :: "pool_config \<Rightarrow> go_time \<Rightarrow> (gostr \<rightharpoonup> go_time) \<Rightarrow> gostr \<Rightarrow> bool" where
  "stale_warming cfg now w k = (case w k of None \<Rightarrow> False | Some t \<Rightarrow> time_sub now t > warming_timeout cfg)"

definition reap_timed_out_warming ::
  "pool_config \<Rightarrow> go_time \<Rightarrow> gostr list \<Rightarrow> 'r pool_manager \<Rightarrow> int \<times> 'r pool_manager" where
  "reap_timed_out_warming cfg now wks m =
     (let ks = filter (\<lambda>k. mg_warming m k \<noteq> None) wks;
          stale = filter (stale_warming cfg now (mg_warming m)) ks;
          active = length (filter (\<lambda>k. \<not> stale_warming cfg now (mg_warming m) k) ks);
          m1 = foldl (\<lambda>m k. delete_warming k m) m stale
      in (int active, foldl (\<lambda>m k. emit (Destroyed k) m) m1 stale))"

definition booted_less :: "node \<Rightarrow> node \<Rightarrow> bool" where
  "booted_less a b =
     (if nd_booted a = zero_time \<and> nd_booted b = zero_time then nd_created a < nd_created b
      else if nd_booted a = zero_time then False
      else if nd_booted b = zero_time then True
      else nd_booted a < nd_booted b)"

definition scale_down_excess_ready ::
  "'r heartbeat_call \<Rightarrow> go_time \<Rightarrow> int \<Rightarrow> int \<Rightarrow> node list \<Rightarrow> 'r pool_manager \<Rightarrow> int \<times> 'r pool_manager" where
  "scale_down_excess_ready hb now ready_count target candidates m =
     (let surplus = ready_count - target in
      if surplus \<le> 0 \<or> candidates = [] then (ready_count, m)
      else
        let sorted = sort_by booted_less candidates;
            to_reap = min surplus (int (length candidates))
        in foldl (\<lambda>(r, m) n. (r - 1, destroy_node hb now (nd_id n) m)) (ready_count, m)
             (take (nat to_reap) sorted))"

text \<open>The loop over the listed nodes: the manager, the managed nodes seen, the ready count and
  the candidates for scaling down.\<close>

definition scan_node ::
  "'r heartbeat_call \<Rightarrow> pool_config \<Rightarrow> go_time \<Rightarrow>
   'r pool_manager \<times> gostr list \<times> int \<times> node list \<Rightarrow> node \<Rightarrow>
   'r pool_manager \<times> gostr list \<times> int \<times> node list" where
  "scan_node hb cfg now acc n =
     (case acc of (m, known, ready, cands) \<Rightarrow>
        if \<not> is_managed cfg (nd_id n)
        then (m, known, (if nd_state n = NodeReady then ready + 1 else ready), cands)
        else
          let known = known @ [nd_id n] in
          if reap_by_heartbeat cfg now n then (destroy_node hb now (nd_id n) m, known, ready, cands)
          else if reap_by_age cfg now n then (destroy_node hb now (nd_id n) m, known, ready, cands)
          else if nd_state n = NodeReady then (m, known, ready + 1, cands @ [n])
          else (m, known, ready, cands))"

primrec provision_loop ::
  "(nat \<Rightarrow> go_error + gostr) \<Rightarrow> go_time \<Rightarrow> nat list \<Rightarrow> go_error option \<Rightarrow> 'r pool_manager \<Rightarrow>
     go_error option \<times> 'r pool_manager" where
  "provision_loop provs now [] err m = (err, m)"
| "provision_loop provs now (i # is) err m =
     (case provs i of
        Inl e \<Rightarrow> provision_loop provs now is (if err = None then Some e else err) (emit ProvisionFailed m)
      | Inr nid \<Rightarrow> provision_loop provs now is err (set_warming nid now (emit (Provisioned nid) m)))"

definition reconcile ::
  "'r heartbeat_call \<Rightarrow> ('r \<Rightarrow> go_error + node list) \<Rightarrow> pool_config \<Rightarrow> go_time \<Rightarrow> gostr list \<Rightarrow>
   (nat \<Rightarrow> go_error + gostr) \<Rightarrow> int \<Rightarrow> 'r pool_manager \<Rightarrow> go_error option \<times> 'r pool_manager" where
  "reconcile hb list_nodes cfg now wks provs target m =
     (case list_nodes (mg_registry m) of
        Inl e \<Rightarrow> (Some e, m)
      | Inr nodes \<Rightarrow>
          let (m1, known, ready, cands) = foldl (scan_node hb cfg now) (m, [], 0, []) nodes;
              m2 = prune_warming_known known m1;
              (warming, m3) = reap_timed_out_warming cfg now wks m2;
              (ready, m4) = scale_down_excess_ready hb now ready target cands m3;
              needed = target - ready - warming
          in if needed \<le> 0 then (None, m4)
             else provision_loop provs now [0..<nat needed] None m4)"

definition reconcile_to ::
  "'r heartbeat_call \<Rightarrow> ('r \<Rightarrow> go_error + node list) \<Rightarrow> pool_config \<Rightarrow> go_time \<Rightarrow> gostr list \<Rightarrow>
   (nat \<Rightarrow> go_error + gostr) \<Rightarrow> int \<Rightarrow> 'r pool_manager \<Rightarrow> go_error option \<times> 'r pool_manager" where
  "reconcile_to hb list_nodes cfg now wks provs target m =
     reconcile hb list_nodes cfg now wks provs (max 0 target) m"

text \<open>\<open>Run\<close>: one cycle at once and one per tick, until the context ends; before each cycle the
  nodes and the API may have changed the registry (\<open>env\<close>).\<close>

record 'r pool_tick =
  pt_now :: go_time
  pt_env :: "'r \<Rightarrow> 'r"
  pt_warming_order :: "gostr list"
  pt_provs :: "nat \<Rightarrow> go_error + gostr"

definition pool_cycle where
  "pool_cycle hb list_nodes cfg m t =
     snd (reconcile hb list_nodes cfg (pt_now t) (pt_warming_order t) (pt_provs t) (cf_target_ready cfg)
       (m\<lparr>mg_registry := pt_env t (mg_registry m)\<rparr>))"

definition pool_run where
  "pool_run hb list_nodes cfg ticks m =
     (if cf_target_ready cfg \<le> 0 then m
      else foldl (pool_cycle hb list_nodes cfg) m ticks)"

section \<open>What one cycle does\<close>

definition reaped :: "pool_config \<Rightarrow> go_time \<Rightarrow> node \<Rightarrow> bool" where
  "reaped cfg now n \<longleftrightarrow>
     is_managed cfg (nd_id n) \<and> (reap_by_heartbeat cfg now n \<or> reap_by_age cfg now n)"

definition kept_ready :: "pool_config \<Rightarrow> go_time \<Rightarrow> node \<Rightarrow> bool" where
  "kept_ready cfg now n \<longleftrightarrow> nd_state n = NodeReady \<and> \<not> reaped cfg now n"

definition surplus_candidate :: "pool_config \<Rightarrow> go_time \<Rightarrow> node \<Rightarrow> bool" where
  "surplus_candidate cfg now n \<longleftrightarrow> kept_ready cfg now n \<and> is_managed cfg (nd_id n)"

lemma scan_nodes:
  "foldl (scan_node hb cfg now) (m, known, ready, cands) nodes =
     (foldl (\<lambda>m n. destroy_node hb now (nd_id n) m) m (filter (reaped cfg now) nodes),
      known @ map nd_id (filter (\<lambda>n. is_managed cfg (nd_id n)) nodes),
      ready + int (length (filter (kept_ready cfg now) nodes)),
      cands @ filter (surplus_candidate cfg now) nodes)"
proof (induction nodes arbitrary: m known ready cands)
  case Nil
  then show ?case by simp
next
  case (Cons n nodes)
  then show ?case
    by (cases "is_managed cfg (nd_id n)"; cases "reap_by_heartbeat cfg now n"; cases "reap_by_age cfg now n";
        cases "nd_state n = NodeReady")
       (simp_all add: scan_node_def Let_def reaped_def kept_ready_def surplus_candidate_def)
qed

lemma destroy_node_fields [simp]:
  "mg_events (destroy_node hb now nid m) = mg_events m @ [Destroyed nid]"
  "mg_warming (destroy_node hb now nid m) = (mg_warming m)(nid := None)"
  "mg_registry (destroy_node hb now nid m) = snd (hb now (dead_beat nid now) (mg_registry m))"
  by (simp_all add: destroy_node_def emit_def delete_warming_def Let_def)

definition destroy_nodes where
  "destroy_nodes hb now nodes m = foldl (\<lambda>m n. destroy_node hb now (nd_id n) m) m nodes"

lemma destroy_nodes_fields [simp]:
  "mg_events (destroy_nodes hb now nodes m) = mg_events m @ map (Destroyed \<circ> nd_id) nodes"
  "mg_warming (destroy_nodes hb now nodes m) =
     (\<lambda>k. if k \<in> nd_id ` set nodes then None else mg_warming m k)"
  unfolding destroy_nodes_def
  by (induction nodes arbitrary: m) (auto simp: fun_eq_iff)

lemma reap_warming_spec:
  "reap_timed_out_warming cfg now wks m =
     (let ks = filter (\<lambda>k. mg_warming m k \<noteq> None) wks;
          stale = filter (stale_warming cfg now (mg_warming m)) ks
      in (int (length (filter (\<lambda>k. \<not> stale_warming cfg now (mg_warming m) k) ks)),
          m\<lparr>mg_warming := (\<lambda>k. if k \<in> set stale then None else mg_warming m k),
             mg_events := mg_events m @ map Destroyed stale\<rparr>))"
proof -
  have d: "foldl (\<lambda>m k. delete_warming k m) m st =
      m\<lparr>mg_warming := (\<lambda>k. if k \<in> set st then None else mg_warming m k)\<rparr>" for st and m :: "'a pool_manager"
    by (induction st arbitrary: m) (auto simp: delete_warming_def fun_eq_iff intro!: pool_manager.equality)
  have e: "foldl (\<lambda>m k. emit (Destroyed k) m) m st = m\<lparr>mg_events := mg_events m @ map Destroyed st\<rparr>"
    for st and m :: "'a pool_manager"
    by (induction st arbitrary: m) (simp_all add: emit_def)
  show ?thesis by (simp add: reap_timed_out_warming_def Let_def d e)
qed

lemma scale_down_spec:
  "scale_down_excess_ready hb now ready target cands m =
     (let k = min (nat (ready - target)) (length cands) in
      (ready - int k, destroy_nodes hb now (take k (sort_by booted_less cands)) m))"
proof -
  have f: "foldl (\<lambda>(r, m) n. (r - 1, destroy_node hb now (nd_id n) m)) (r, m) ns =
      (r - int (length ns), destroy_nodes hb now ns m)" for ns r and m :: "'a pool_manager"
    unfolding destroy_nodes_def by (induction ns arbitrary: r m) simp_all
  have n: "nat (min (ready - target) (int (length cands))) = min (nat (ready - target)) (length cands)"
    by (simp add: min_def nat_le_iff)
  show ?thesis
    by (auto simp: scale_down_excess_ready_def f n Let_def destroy_nodes_def min_def)
qed


lemma provision_loop_fields [simp]:
  "mg_events (snd (provision_loop provs now is err m)) = mg_events m @
     map (\<lambda>i. case provs i of Inl _ \<Rightarrow> ProvisionFailed | Inr nid \<Rightarrow> Provisioned nid) is"
  "dom (mg_warming (snd (provision_loop provs now is err m))) =
     dom (mg_warming m) \<union> {nid. \<exists>i\<in>set is. provs i = Inr nid}"
  "mg_registry (snd (provision_loop provs now is err m)) = mg_registry m"
  by (induction "is" arbitrary: err m)
     (auto simp: emit_def set_warming_def split: sum.split)

text \<open>The parts of a cycle, named: the managed identifiers, the warming entries that are not
  listed yet, those past their timeout and the others, the surplus nodes, the missing ones.\<close>

definition known_ids :: "pool_config \<Rightarrow> node list \<Rightarrow> gostr list" where
  "known_ids cfg nodes = map nd_id (filter (\<lambda>n. is_managed cfg (nd_id n)) nodes)"

definition open_warming :: "pool_config \<Rightarrow> node list \<Rightarrow> (gostr \<rightharpoonup> go_time) \<Rightarrow> gostr \<rightharpoonup> go_time" where
  "open_warming cfg nodes w k = (if k \<in> set (known_ids cfg nodes) then None else w k)"

definition stale_keys where
  "stale_keys cfg now nodes wks w =
     filter (stale_warming cfg now (open_warming cfg nodes w)) (filter (\<lambda>k. open_warming cfg nodes w k \<noteq> None) wks)"

definition active_keys where
  "active_keys cfg now nodes wks w =
     filter (\<lambda>k. \<not> stale_warming cfg now (open_warming cfg nodes w) k)
       (filter (\<lambda>k. open_warming cfg nodes w k \<noteq> None) wks)"

definition ready_count :: "pool_config \<Rightarrow> go_time \<Rightarrow> node list \<Rightarrow> int" where
  "ready_count cfg now nodes = int (length (filter (kept_ready cfg now) nodes))"

definition surplus_nodes :: "pool_config \<Rightarrow> go_time \<Rightarrow> int \<Rightarrow> node list \<Rightarrow> node list" where
  "surplus_nodes cfg now target nodes =
     (let cands = filter (surplus_candidate cfg now) nodes
      in take (min (nat (ready_count cfg now nodes - target)) (length cands)) (sort_by booted_less cands))"

definition needed_nodes where
  "needed_nodes cfg now target nodes wks w =
     target - (ready_count cfg now nodes - int (length (surplus_nodes cfg now target nodes)))
       - int (length (active_keys cfg now nodes wks w))"

lemma reaped_known: "n \<in> set nodes \<Longrightarrow> reaped cfg now n \<Longrightarrow> nd_id n \<in> set (known_ids cfg nodes)"
  by (auto simp: known_ids_def reaped_def)

lemma surplus_known: "n \<in> set (surplus_nodes cfg now target nodes) \<Longrightarrow>
    n \<in> set nodes \<and> surplus_candidate cfg now n \<and> nd_id n \<in> set (known_ids cfg nodes)"
  by (auto simp: known_ids_def surplus_nodes_def Let_def surplus_candidate_def dest!: in_set_takeD)

definition before_provision where
  "before_provision hb cfg now wks target nodes m =
     (let m1 = destroy_nodes hb now (filter (reaped cfg now) nodes) m;
          stale = stale_keys cfg now nodes wks (mg_warming m);
          m3 = m1\<lparr>mg_warming := (\<lambda>k. if k \<in> set stale then None else open_warming cfg nodes (mg_warming m) k),
                 mg_events := mg_events m1 @ map Destroyed stale\<rparr>
      in destroy_nodes hb now (surplus_nodes cfg now target nodes) m3)"

lemma reconcile_phases:
  assumes "list_nodes (mg_registry m) = Inr nodes"
  shows "reconcile hb list_nodes cfg now wks provs target m =
    (let needed = needed_nodes cfg now target nodes wks (mg_warming m);
         m4 = before_provision hb cfg now wks target nodes m
     in if needed \<le> 0 then (None, m4) else provision_loop provs now [0..<nat needed] None m4)"
proof -
  have w: "(\<lambda>k. if k \<in> set (known_ids cfg nodes) then None
        else if k \<in> nd_id ` {x \<in> set nodes. reaped cfg now x} then None else mg_warming m k) =
      open_warming cfg nodes (mg_warming m)"
    using reaped_known [of _ nodes cfg now] by (auto simp: fun_eq_iff open_warming_def)
  have w': "mg_warming (prune_warming_known (known_ids cfg nodes)
      (destroy_nodes hb now (filter (reaped cfg now) nodes) m)) = open_warming cfg nodes (mg_warming m)"
    using w by (simp add: prune_warming_known_def cong: if_cong)
  have p: "prune_warming_known ks m'\<lparr>mg_warming := x, mg_events := y\<rparr> = m'\<lparr>mg_warming := x, mg_events := y\<rparr>"
    "mg_events (prune_warming_known ks m') = mg_events m'" for ks x y and m' :: "'a pool_manager"
    by (simp_all add: prune_warming_known_def)
  show ?thesis
    unfolding reconcile_def assms
    by (simp add: scan_nodes scale_down_spec reap_warming_spec Let_def
        destroy_nodes_def [symmetric] known_ids_def [symmetric] w' p
        before_provision_def stale_keys_def active_keys_def needed_nodes_def surplus_nodes_def
        ready_count_def cong: if_cong)
qed

lemma reconcile_events:
  assumes "list_nodes (mg_registry m) = Inr nodes"
  shows "mg_events (snd (reconcile hb list_nodes cfg now wks provs target m)) = mg_events m
    @ map (Destroyed \<circ> nd_id) (filter (reaped cfg now) nodes)
    @ map Destroyed (stale_keys cfg now nodes wks (mg_warming m))
    @ map (Destroyed \<circ> nd_id) (surplus_nodes cfg now target nodes)
    @ map (\<lambda>i. case provs i of Inl _ \<Rightarrow> ProvisionFailed | Inr nid \<Rightarrow> Provisioned nid)
        [0..<nat (needed_nodes cfg now target nodes wks (mg_warming m))]"
  by (simp add: reconcile_phases [where list_nodes = list_nodes and m = m, OF assms] Let_def before_provision_def)

lemma before_provision_warming:
  "mg_warming (before_provision hb cfg now wks target nodes m) =
     (\<lambda>k. if k \<in> set (stale_keys cfg now nodes wks (mg_warming m)) then None
          else open_warming cfg nodes (mg_warming m) k)"
  using surplus_known [of _ cfg now target nodes]
  by (fastforce simp: before_provision_def Let_def fun_eq_iff open_warming_def)

lemma surplus_length:
  "int (length (surplus_nodes cfg now target nodes)) =
     min (max 0 (ready_count cfg now nodes - target)) (int (length (filter (surplus_candidate cfg now) nodes)))"
proof -
  have "int (min (nat a) c) = min (max 0 a) (int c)" for a :: int and c :: nat by linarith
  then show ?thesis by (simp add: surplus_nodes_def Let_def)
qed

interpretation booted_order: strict_weak booted_less
  by unfold_locales (auto simp: booted_less_def split: if_splits)


section \<open>The registry after a cycle\<close>

lemma dead_beat_fields [simp]:
  "hb_node (dead_beat nid t) = nid" "hb_state (dead_beat nid t) = Some NodeDead"
  by (simp_all add: dead_beat_def)

context node_registry
begin

lemma dead_beat_marks:
  assumes "nodes r nid = Some n" "trim_space nid = nid" "nid \<noteq> []"
  shows "\<exists>n'. nodes (snd (hb now (dead_beat nid now) r)) nid = Some n' \<and> nd_state n' = NodeDead"
proof -
  have "\<not> blank (hb_node (dead_beat nid now))" using assms by simp
  moreover have "nodes r (trim_space (hb_node (dead_beat nid now))) = Some n"
    using assms by simp
  ultimately obtain n' r' where h: "hb now (dead_beat nid now) r = (Inr n', r')"
    using hb_found by blast
  from hb_ok [OF this] assms show ?thesis
    by (auto simp: h or_ready_def heartbeat_state_def)
qed

lemma destroy_nodes_registry:
  assumes "\<forall>n\<in>set ns. trim_space (nd_id n) = nd_id n \<and> nd_id n \<noteq> []" "nodes (mg_registry m) nid = Some n0"
  shows "if nid \<in> nd_id ` set ns
     then \<exists>n'. nodes (mg_registry (destroy_nodes hb now ns m)) nid = Some n' \<and> nd_state n' = NodeDead
     else nodes (mg_registry (destroy_nodes hb now ns m)) nid = Some n0"
  using assms
proof (induction ns arbitrary: m n0)
  case Nil
  then show ?case by (simp add: destroy_nodes_def)
next
  case (Cons n ns)
  let ?m = "destroy_node hb now (nd_id n) m"
  have m: "destroy_nodes hb now (n # ns) m = destroy_nodes hb now ns ?m"
    by (simp add: destroy_nodes_def)
  have t: "trim_space (nd_id n) = nd_id n" "nd_id n \<noteq> []" using Cons.prems(1) by simp_all
  show ?case
  proof (cases "nid = nd_id n")
    case True
    with dead_beat_marks [of "mg_registry m" nid n0 now] Cons.prems t
    obtain n' where n': "nodes (mg_registry ?m) nid = Some n'" "nd_state n' = NodeDead" by auto
    with Cons.IH [of ?m n'] Cons.prems(1) True show ?thesis by (auto simp: m split: if_splits)
  next
    case False
    then have "nodes (mg_registry ?m) nid = Some n0"
      using hb_other [of nid "dead_beat (nd_id n) now" now] t Cons.prems(2) by simp
    with Cons.IH [of ?m n0] Cons.prems(1) False show ?thesis by (simp add: m)
  qed
qed

lemma reconcile_registry:
  fixes cfg :: pool_config and now wks provs target
  assumes l: "list_nodes (mg_registry m) = Inr ns"
    and ns: "\<And>n. n \<in> set ns \<Longrightarrow> trim_space (nd_id n) = nd_id n \<and> nd_id n \<noteq> [] \<and> nodes (mg_registry m) (nd_id n) = Some n"
    and n: "n \<in> set ns"
  defines "r' \<equiv> mg_registry (snd (reconcile hb list_nodes cfg now wks provs target m))"
  shows "if reaped cfg now n \<or> n \<in> set (surplus_nodes cfg now target ns)
     then \<exists>n'. nodes r' (nd_id n) = Some n' \<and> nd_state n' = NodeDead
     else nodes r' (nd_id n) = Some n"
proof -
  let ?d = "filter (reaped cfg now) ns @ surplus_nodes cfg now target ns"
  have in_d: "nd_id n \<in> nd_id ` set ?d \<longleftrightarrow> reaped cfg now n \<or> n \<in> set (surplus_nodes cfg now target ns)"
  proof
    assume "nd_id n \<in> nd_id ` set ?d"
    then obtain n' where n': "n' \<in> set ?d" "nd_id n' = nd_id n" by (metis imageE)
    have "n' \<in> set ns" using n'(1) surplus_known [of n' cfg now target ns] by auto
    from conjunct2 [OF conjunct2 [OF ns [OF this]]] conjunct2 [OF conjunct2 [OF ns [OF n]]]
    have "n' = n" unfolding n'(2) by simp
    with n' show "reaped cfg now n \<or> n \<in> set (surplus_nodes cfg now target ns)" by auto
  qed (use n in auto)
  have "mg_registry (destroy_nodes hb now b (destroy_nodes hb now a x\<lparr>mg_warming := w, mg_events := e\<rparr>)) =
      mg_registry (destroy_nodes hb now (a @ b) x)" for a b w e and x :: "'r pool_manager"
  proof -
    have "mg_registry (destroy_nodes hb now b y) = mg_registry (destroy_nodes hb now b z)"
      if "mg_registry y = mg_registry z" for y z :: "'r pool_manager"
      using that by (induction b arbitrary: y z) (simp_all add: destroy_nodes_def)
    from this [of "destroy_nodes hb now a x\<lparr>mg_warming := w, mg_events := e\<rparr>" "destroy_nodes hb now a x"]
    show ?thesis by (simp add: destroy_nodes_def)
  qed
  then have "r' = mg_registry (destroy_nodes hb now ?d m)"
    by (simp add: r'_def reconcile_phases [where list_nodes = list_nodes and m = m, OF l] Let_def before_provision_def)
  moreover have "\<forall>n\<in>set ?d. trim_space (nd_id n) = nd_id n \<and> nd_id n \<noteq> []"
    using ns surplus_known [of _ cfg now target ns] by auto
  moreover have "nodes (mg_registry m) (nd_id n) = Some n" using ns n by blast
  ultimately show ?thesis using destroy_nodes_registry [of ?d m "nd_id n" n now] in_d by simp
qed

end

lemma listed_nodes_wf:
  assumes "registry_inv r" "enumerates ks r" "n \<in> set (registry_list ks r)"
  shows "trim_space (nd_id n) = nd_id n" "nd_id n \<noteq> []" "r (nd_id n) = Some n"
  using assms by (auto simp: registry_list_def in_listed registry_inv_def wf_node_def)

section \<open>Properties\<close>

text \<open>The manager over the in-memory registry; \<open>ks\<close> is the order of its range loop.\<close>

definition mem_reconcile where
  "mem_reconcile cfg now ks wks provs target m =
     reconcile registry_heartbeat (\<lambda>r. Inr (registry_list ks r)) cfg now wks provs target m"

definition mem_destroyed where
  "mem_destroyed cfg now ks wks provs target m =
     {nid. Destroyed nid \<in> set (drop (length (mg_events m))
        (mg_events (snd (mem_reconcile cfg now ks wks provs target m))))}"

lemma mem_destroyed_eq:
  "mem_destroyed cfg now ks wks provs target m =
     (let ns = registry_list ks (mg_registry m) in
      nd_id ` {n \<in> set ns. reaped cfg now n} \<union> set (stale_keys cfg now ns wks (mg_warming m))
      \<union> nd_id ` set (surplus_nodes cfg now target ns))"
  unfolding mem_destroyed_def mem_reconcile_def
  by (subst reconcile_events [where nodes = "registry_list ks (mg_registry m)"])
     (auto simp: Let_def split: sum.splits)

lemma destroyed_why:
  assumes "registry_inv (mg_registry m)" "enumerates ks (mg_registry m)"
    and "nid \<in> mem_destroyed cfg now ks wks provs target m"
  shows "(\<exists>n. mg_registry m nid = Some n \<and> is_managed cfg nid
       \<and> (reap_by_heartbeat cfg now n \<or> reap_by_age cfg now n
          \<or> nd_state n = NodeReady \<and> target < ready_count cfg now (registry_list ks (mg_registry m))))
     \<or> (\<exists>t. mg_warming m nid = Some t \<and> time_sub now t > warming_timeout cfg
          \<and> \<not> (is_managed cfg nid \<and> nid \<in> dom (mg_registry m)))"
proof -
  let ?ns = "registry_list ks (mg_registry m)"
  note wf = listed_nodes_wf [OF assms(1,2)]
  consider n where "n \<in> set ?ns" "reaped cfg now n" "nid = nd_id n"
    | "nid \<in> set (stale_keys cfg now ?ns wks (mg_warming m))"
    | n where "n \<in> set (surplus_nodes cfg now target ?ns)" "nid = nd_id n"
    using assms(3) by (auto simp: mem_destroyed_eq Let_def)
  then show ?thesis
  proof cases
    case (1 n)
    with wf(3) [of n] show ?thesis by (auto simp: reaped_def)
  next
    case 2
    then have "nid \<notin> set (known_ids cfg ?ns)" "stale_warming cfg now (mg_warming m) nid"
      by (auto simp: stale_keys_def open_warming_def stale_warming_def split: if_splits)
    moreover have "nid \<in> set (known_ids cfg ?ns)" if "is_managed cfg nid" "mg_registry m nid = Some n" for n
    proof -
      have "n \<in> set ?ns" using that assms(2) by (auto simp: registry_list_def in_listed)
      moreover have "nd_id n = nid" using that assms(1) by (auto simp: registry_inv_def wf_node_def)
      ultimately show ?thesis using that by (auto simp: known_ids_def)
    qed
    ultimately show ?thesis by (auto simp: stale_warming_def split: option.splits)
  next
    case (3 n)
    then have "set (surplus_nodes cfg now target ?ns) \<noteq> {}" by auto
    then have "target < ready_count cfg now ?ns" by (auto simp: surplus_nodes_def Let_def)
    with 3 wf(3) [of n] surplus_known [of n cfg now target ?ns] show ?thesis
      by (auto simp: surplus_candidate_def kept_ready_def)
  qed
qed


definition demo_pool_config :: pool_config where
  "demo_pool_config = \<lparr>cf_target_ready = 1, cf_reconcile_interval = 5 * second,
     cf_heartbeat_timeout = 30 * second, cf_node_max_age = 3600 * second, cf_managed_prefix = ''node-''\<rparr>"

definition demo_pool :: "node_state \<Rightarrow> registry_state pool_manager" where
  "demo_pool st = new_pool_manager [''node-1'' \<mapsto> demo_node ''node-1'' 5 st]"

lemma demo_managed: "is_managed demo_pool_config ''node-1''"
  by (simp add: is_managed_def demo_pool_config_def has_prefix_def plain_ends_def plain_char_def)

lemma demo_pool_facts:
  "registry_inv (mg_registry (demo_pool st))" "enumerates [''node-1''] (mg_registry (demo_pool st))"
  "registry_list [''node-1''] (mg_registry (demo_pool st)) = [demo_node ''node-1'' 5 st]"
  "mg_registry (demo_pool st) ''node-1'' = Some (demo_node ''node-1'' 5 st)"
  "mg_warming (demo_pool st) = Map.empty" "mg_events (demo_pool st) = []"
  by (auto simp: demo_pool_def new_pool_manager_def registry_inv_def wf_node_def demo_node_def
      enumerates_def registry_list_def plain_ends_def plain_char_def)

lemma demo_stale: "st \<noteq> NodeDead \<Longrightarrow> reaped demo_pool_config (100 * second) (demo_node ''node-1'' 5 st)"
  using demo_managed
  by (simp add: reaped_def reap_by_heartbeat_def demo_node_def demo_pool_config_def time_sub_def
      max_duration_def min_duration_def)

lemma demo_fresh: "st = NodeLeased \<Longrightarrow> \<not> reaped demo_pool_config (10 * second) (demo_node ''node-1'' 5 st)"
  by (simp add: reaped_def reap_by_heartbeat_def reap_by_age_def demo_node_def demo_pool_config_def
      time_sub_def max_duration_def min_duration_def)


text \<open>A leased node whose heartbeats arrive is never destroyed by a cycle, however old it is and
  however many nodes are ready.\<close>

lemma leased_node_spared:
  assumes "registry_inv (mg_registry m)" "enumerates ks (mg_registry m)"
    and "mg_registry m nid = Some n" "nd_state n = NodeLeased" "is_managed cfg nid"
    and "nd_heartbeat n = zero_time \<or> time_sub now (nd_heartbeat n) \<le> cf_heartbeat_timeout cfg"
  shows "nid \<notin> mem_destroyed cfg now ks wks provs target m"
proof
  assume "nid \<in> mem_destroyed cfg now ks wks provs target m"
  from destroyed_why [OF assms(1,2) this] assms(3-)
  show False by (auto simp: reap_by_heartbeat_def reap_by_age_def)
qed

lemma leased_node_spared_at_work:
  "''node-1'' \<notin> mem_destroyed demo_pool_config (10 * second) [''node-1''] [] (\<lambda>_. Inl (new_error ''x'')) 0
     (demo_pool NodeLeased)"
  by (rule leased_node_spared [OF demo_pool_facts(1,2,4)])
     (simp_all add: demo_managed, simp_all add: demo_node_def demo_pool_config_def time_sub_def
       max_duration_def min_duration_def)

text \<open>After a cycle every registered node it destroyed is marked dead in the registry and every
  other managed node is as it was.\<close>

lemma reconcile_marks_dead:
  assumes "registry_inv (mg_registry m)" "enumerates ks (mg_registry m)"
    and "mg_registry m nid = Some n" "is_managed cfg nid"
  shows "let r' = mg_registry (snd (mem_reconcile cfg now ks wks provs target m)) in
     if nid \<in> mem_destroyed cfg now ks wks provs target m
     then \<exists>n'. r' nid = Some n' \<and> nd_state n' = NodeDead
     else r' nid = Some n"
proof -
  let ?ns = "registry_list ks (mg_registry m)"
  have n: "n \<in> set ?ns" using assms(2,3) by (auto simp: registry_list_def in_listed)
  have i: "nd_id n = nid" using assms(1,3) by (auto simp: registry_inv_def wf_node_def)
  note wf = listed_nodes_wf [OF assms(1,2)]
  have "nid \<notin> set (stale_keys cfg now ?ns wks (mg_warming m))"
    using n i assms(4) by (auto simp: stale_keys_def open_warming_def known_ids_def)
  then have e: "nid \<in> mem_destroyed cfg now ks wks provs target m \<longleftrightarrow>
      (\<exists>n'\<in>set ?ns. reaped cfg now n' \<and> nid = nd_id n')
      \<or> (\<exists>n'\<in>set (surplus_nodes cfg now target ?ns). nid = nd_id n')"
    by (simp add: mem_destroyed_eq Let_def image_iff) blast
  have same: "n' = n" if "n' \<in> set ?ns" "nid = nd_id n'" for n'
    using wf(3) [OF that(1)] assms(3) unfolding that(2) by simp
  have sub: "n' \<in> set ?ns" if "n' \<in> set (surplus_nodes cfg now target ?ns)" for n'
    using surplus_known [OF that] by blast
  have "nid \<in> mem_destroyed cfg now ks wks provs target m \<longleftrightarrow>
      reaped cfg now n \<or> n \<in> set (surplus_nodes cfg now target ?ns)"
    unfolding e using same sub n i [symmetric] by metis
  moreover have "if reaped cfg now n \<or> n \<in> set (surplus_nodes cfg now target ?ns)
      then \<exists>n'. id (mg_registry (snd (mem_reconcile cfg now ks wks provs target m))) (nd_id n) = Some n'
        \<and> nd_state n' = NodeDead
      else id (mg_registry (snd (mem_reconcile cfg now ks wks provs target m))) (nd_id n) = Some n"
    unfolding mem_reconcile_def
    by (rule mem_registry.reconcile_registry [where ns = ?ns, OF _ _ n]) (simp_all add: wf)
  ultimately show ?thesis by (simp only: Let_def i id_apply)
qed

lemma reconcile_marks_dead_at_work:
  "\<exists>n'. mg_registry (snd (mem_reconcile demo_pool_config (100 * second) [''node-1''] []
      (\<lambda>_. Inl (new_error ''x'')) 1 (demo_pool NodeReady))) ''node-1'' = Some n' \<and> nd_state n' = NodeDead"
proof -
  have "''node-1'' \<in> mem_destroyed demo_pool_config (100 * second) [''node-1''] [] (\<lambda>_. Inl (new_error ''x'')) 1
      (demo_pool NodeReady)"
    using demo_stale [of NodeReady]
    by (auto simp: mem_destroyed_eq demo_pool_facts Let_def demo_node_def)
  with reconcile_marks_dead [OF demo_pool_facts(1,2,4) demo_managed, of "100 * second" "[]"
      "\<lambda>_. Inl (new_error ''x'')" 1 NodeReady] show ?thesis by simp
qed

text \<open>Scaling down takes the oldest nodes first, only as many as exceed the target, and never
  leaves fewer ready nodes than the target.\<close>

lemma scale_down_oldest_first:
  assumes "scale_down_excess_ready hb now ready target cands m = (ready', m')"
    and "int (length cands) \<le> ready"
  shows "\<exists>gone kept. mset cands = mset (gone @ kept) \<and> mg_events m' = mg_events m @ map (Destroyed \<circ> nd_id) gone
    \<and> ready' = ready - int (length gone) \<and> min ready target \<le> ready'
    \<and> (kept \<noteq> [] \<longrightarrow> ready' = min ready target)
    \<and> (\<forall>a\<in>set gone. \<forall>b\<in>set kept. \<not> booted_less b a)"
proof -
  let ?k = "min (nat (ready - target)) (length cands)"
  let ?s = "sort_by booted_less cands"
  have "mset cands = mset (take ?k ?s @ drop ?k ?s)" by (simp only: append_take_drop_id mset_sort_by)
  moreover have l: "length (take ?k ?s) = ?k" by simp
  moreover have "mg_events m' = mg_events m @ map (Destroyed \<circ> nd_id) (take ?k ?s)" "ready' = ready - int ?k"
    using assms(1) by (auto simp: scale_down_spec Let_def)
  moreover have "min ready target \<le> ready - int ?k" by linarith
  moreover have "drop ?k ?s \<noteq> [] \<longrightarrow> ready - int ?k = min ready target" by (simp add: min_def)
  moreover have "\<forall>a\<in>set (take ?k ?s). \<forall>b\<in>set (drop ?k ?s). \<not> booted_less b a"
    using booted_order.sort_by_take_drop by blast
  ultimately show ?thesis by metis
qed

lemma scale_down_oldest_first_at_work:
  "let r = scale_down_excess_ready registry_heartbeat 10 2 1
     [demo_node ''node-2'' 7 NodeReady, demo_node ''node-1'' 5 NodeReady] (demo_pool NodeReady)
   in mg_events (snd r) = [Destroyed ''node-1''] \<and> 1 \<le> fst r"
proof -
  let ?c = "[demo_node ''node-2'' 7 NodeReady, demo_node ''node-1'' 5 NodeReady]"
  let ?r = "scale_down_excess_ready registry_heartbeat 10 2 1 ?c (demo_pool NodeReady)"
  have "?r = (fst ?r, snd ?r)" by simp
  from scale_down_oldest_first [OF this] have "min 2 1 \<le> fst ?r" by fastforce
  moreover have "sort_by booted_less ?c = [demo_node ''node-1'' 5 NodeReady, demo_node ''node-2'' 7 NodeReady]"
    by (simp add: booted_less_def demo_node_def)
  then have "mg_events (snd ?r) = [Destroyed ''node-1'']"
    by (simp add: scale_down_spec Let_def demo_pool_facts) (simp add: demo_node_def)
  ultimately show ?thesis by (simp add: Let_def)
qed



text \<open>A dead node past the maximal age is destroyed again by every cycle: the age test does not
  exclude dead nodes, and nothing removes them from the registry.\<close>

lemma dead_node_reaped_again:
  "is_managed cfg (nd_id n) \<Longrightarrow> nd_booted n \<noteq> zero_time \<Longrightarrow> time_sub now (nd_booted n) > cf_node_max_age cfg \<Longrightarrow>
   nd_state n = NodeDead \<Longrightarrow> reaped cfg now n"
  by (simp add: reaped_def reap_by_age_def)

end
