(* ===== verification/RunnerQueue.thy ===== *)
theory RunnerQueue
  imports Attempts
begin

text \<open>
  The queue of the task runner, \<open>internal/taskrunner/runner.go\<close>: \<open>Enqueue\<close> with its set of
  identifiers that are already queued, the worker loop, the reconciliation with the stored
  tasks and the goroutine that enqueues a task for its retry. \<open>Enqueue\<close> marks the identifier
  and sends it to the channel in two steps, and a worker receives and clears it in two steps,
  so the queue is also a step relation in which these steps of all goroutines interleave.
\<close>

datatype enqueue_error = EnqueueIdRequired | QueueFull | EnqueueCtx go_error

fun enqueue_error_text :: "enqueue_error \<Rightarrow> gostr" where
  "enqueue_error_text EnqueueIdRequired = ''task id is required''"
| "enqueue_error_text QueueFull = ''task queue is full''"
| "enqueue_error_text (EnqueueCtx e) = err_text e"

definition clear_enqueued :: "gostr \<Rightarrow> 'l runner \<Rightarrow> 'l runner" where
  "clear_enqueued tid s = s\<lparr>ru_enqueued := ru_enqueued s - {tid}\<rparr>"

text \<open>\<open>ended\<close> is the error of the context when the select takes its branch (it may when the
  context is done, even if the channel has room).\<close>

definition enqueue ::
  "runner_config \<Rightarrow> go_error option \<Rightarrow> gostr \<Rightarrow> 'l runner \<Rightarrow> enqueue_error option \<times> 'l runner" where
  "enqueue cfg ended task_id s =
     (let tid = trim_space task_id in
      if tid = [] then (Some EnqueueIdRequired, s)
      else if tid \<in> ru_enqueued s then (None, s)
      else
        let s1 = s\<lparr>ru_enqueued := insert tid (ru_enqueued s)\<rparr> in
        case ended of
          Some e \<Rightarrow> (Some (EnqueueCtx e), clear_enqueued tid s1)
        | None \<Rightarrow>
            if int (length (ru_queue s1)) < rc_queue_size cfg
            then (None, s1\<lparr>ru_queue := ru_queue s1 @ [tid]\<rparr>)
            else (Some QueueFull, clear_enqueued tid s1))"

text \<open>One round of the worker loop: take a task, clear it, process it.\<close>

definition worker_round ::
  "'l leaser \<Rightarrow> runner_config \<Rightarrow> runner_libs \<Rightarrow> 'l attempt \<Rightarrow> 'l runner \<Rightarrow> 'l runner" where
  "worker_round L cfg lib at s =
     (case ru_queue s of
        [] \<Rightarrow> s
      | tid # q \<Rightarrow> process_task L cfg lib at tid (clear_enqueued tid (s\<lparr>ru_queue := q\<rparr>)))"

text \<open>The reconciliation: every due task of the store, until the queue is full. \<open>ended i\<close> is the
  context of the i-th call.\<close>

primrec reconcile_enqueue ::
  "runner_config \<Rightarrow> (gostr \<Rightarrow> go_error option) \<Rightarrow> task list \<Rightarrow> 'l runner \<Rightarrow> 'l runner" where
  "reconcile_enqueue cfg ended [] s = s"
| "reconcile_enqueue cfg ended (t # ts) s =
     (case enqueue cfg (ended (tk_id t)) (tk_id t) s of
        (Some QueueFull, s1) \<Rightarrow> s1
      | (_, s1) \<Rightarrow> reconcile_enqueue cfg ended ts s1)"

definition reconcile_queued_once ::
  "runner_config \<Rightarrow> go_time \<Rightarrow> gostr list \<Rightarrow> (gostr \<Rightarrow> go_error option) \<Rightarrow> 'l runner \<Rightarrow> 'l runner" where
  "reconcile_queued_once cfg now ks ended s =
     reconcile_enqueue cfg ended (task_list_queued ks now (rc_queue_size cfg) (ru_tasks s)) s"

definition reconcile_interval :: "runner_config \<Rightarrow> duration" where
  "reconcile_interval cfg = (if rc_poll cfg < 500 * millisecond then 500 * millisecond else rc_poll cfg)"

text \<open>The goroutine of a retry, after its timer. In its k-th try, \<open>env k\<close> is what others did
  before, \<open>ended k\<close> the context of the call, \<open>stop k\<close> that the runner's context ends in the
  pause after it.\<close>

primrec enqueue_tries ::
  "runner_config \<Rightarrow> go_time \<Rightarrow> gostr \<Rightarrow> (nat \<Rightarrow> 'l runner \<Rightarrow> 'l runner) \<Rightarrow> (nat \<Rightarrow> go_error option) \<Rightarrow>
     (nat \<Rightarrow> bool) \<Rightarrow> nat list \<Rightarrow> 'l runner \<Rightarrow> 'l runner" where
  "enqueue_tries cfg now tid env ended stop [] s =
     fail_plain now tid [] (new_error ''re-enqueue failed: queue remained full'') s"
| "enqueue_tries cfg now tid env ended stop (k # ks) s =
     (case enqueue cfg (ended k) tid (env k s) of
        (None, s1) \<Rightarrow> s1
      | (Some (EnqueueCtx e), s1) \<Rightarrow>
          if err_canceled e \<or> err_deadline e then s1
          else fail_plain now tid [] (new_error (''re-enqueue failed: '' @ err_text e)) s1
      | (Some EnqueueIdRequired, s1) \<Rightarrow>
          fail_plain now tid [] (new_error (''re-enqueue failed: '' @ enqueue_error_text EnqueueIdRequired)) s1
      | (Some QueueFull, s1) \<Rightarrow>
          if stop k then s1 else enqueue_tries cfg now tid env ended stop ks s1)"

definition enqueue_after_delay where
  "enqueue_after_delay cfg now tid env ended stop s = enqueue_tries cfg now tid env ended stop [0..<10] s"

section \<open>The steps of the goroutines\<close>

text \<open>
  \<open>q_marked\<close> are the identifiers a goroutine has put into the set and not yet sent (or given
  up), \<open>q_taken\<close> those a worker has received and not yet cleared; both with repetitions.
\<close>

record queue_state =
  q_queue :: "gostr list"
  q_enqueued :: "gostr set"
  q_marked :: "gostr multiset"
  q_taken :: "gostr multiset"

definition empty_queue :: queue_state where
  "empty_queue = \<lparr>q_queue = [], q_enqueued = {}, q_marked = {#}, q_taken = {#}\<rparr>"

inductive queue_step :: "nat \<Rightarrow> queue_state \<Rightarrow> queue_state \<Rightarrow> bool" for cap where
  Mark: "tid \<notin> q_enqueued s \<Longrightarrow>
    queue_step cap s (s\<lparr>q_enqueued := insert tid (q_enqueued s), q_marked := add_mset tid (q_marked s)\<rparr>)"
| Send: "tid \<in># q_marked s \<Longrightarrow> length (q_queue s) < cap \<Longrightarrow>
    queue_step cap s (s\<lparr>q_queue := q_queue s @ [tid], q_marked := q_marked s - {#tid#}\<rparr>)"
| GiveUp: "tid \<in># q_marked s \<Longrightarrow>
    queue_step cap s (s\<lparr>q_enqueued := q_enqueued s - {tid}, q_marked := q_marked s - {#tid#}\<rparr>)"
| Take: "q_queue s = tid # rest \<Longrightarrow>
    queue_step cap s (s\<lparr>q_queue := rest, q_taken := add_mset tid (q_taken s)\<rparr>)"
| Clear: "tid \<in># q_taken s \<Longrightarrow>
    queue_step cap s (s\<lparr>q_enqueued := q_enqueued s - {tid}, q_taken := q_taken s - {#tid#}\<rparr>)"

inductive_cases queue_stepE: "queue_step cap s s'"

text \<open>Every identifier of the set is in exactly one place: marked, in the channel or taken.\<close>

definition queue_inv :: "nat \<Rightarrow> queue_state \<Rightarrow> bool" where
  "queue_inv cap s \<longleftrightarrow> finite (q_enqueued s) \<and> length (q_queue s) \<le> cap
     \<and> q_marked s + mset (q_queue s) + q_taken s = mset_set (q_enqueued s)"

lemma queue_inv_empty: "queue_inv cap empty_queue"
  by (simp add: queue_inv_def empty_queue_def)

lemma mset_set_remove: "finite A \<Longrightarrow> x \<in> A \<Longrightarrow> mset_set (A - {x}) = mset_set A - {#x#}"
  by (simp add: mset_set_Diff)

lemma queue_inv_step: "queue_step cap s s' \<Longrightarrow> queue_inv cap s \<Longrightarrow> queue_inv cap s'"
proof (induction rule: queue_step.induct)
  case (Mark tid s)
  then show ?case by (simp add: queue_inv_def)
next
  case (Send tid s)
  then have "add_mset tid (q_marked s - {#tid#}) = q_marked s" by simp
  with Send show ?case by (simp add: queue_inv_def)
next
  case (GiveUp tid s)
  then have m: "add_mset tid (q_marked s - {#tid#}) = q_marked s" by simp
  have "tid \<in># mset_set (q_enqueued s)"
    using GiveUp unfolding queue_inv_def by (metis union_iff)
  with GiveUp m show ?case
    by (simp add: queue_inv_def mset_set_remove)
next
  case (Take s tid rest)
  then show ?case by (simp add: queue_inv_def)
next
  case (Clear tid s)
  then have m: "add_mset tid (q_taken s - {#tid#}) = q_taken s" by simp
  have "tid \<in># mset_set (q_enqueued s)"
    using Clear unfolding queue_inv_def by (metis union_iff)
  with Clear m show ?case
    by (simp add: queue_inv_def mset_set_remove)
qed


lemma queue_inv_steps: "(queue_step cap)\<^sup>*\<^sup>* s s' \<Longrightarrow> queue_inv cap s \<Longrightarrow> queue_inv cap s'"
  by (induction rule: rtranclp_induct) (auto dest: queue_inv_step)

lemma queue_inv_distinct:
  assumes "queue_inv cap s"
  shows "distinct (q_queue s)"
proof -
  have "count (mset (q_queue s)) x \<le> count (mset_set (q_enqueued s)) x" for x
    using assms unfolding queue_inv_def by (metis count_union le_add1 le_add2 le_trans)
  then have "count (mset (q_queue s)) x \<le> 1" for x
    by (metis count_mset_set(1) count_mset_set(3) count_mset_set(2) le_zero_eq order_trans zero_le_one le_numeral_extra(4))
  then show ?thesis
    by (metis count_greater_zero_iff distinct_count_atmost_1 in_multiset_in_set le_antisym less_one not_le_imp_less not_in_iff)
qed

text \<open>The sequential operations are sequences of these steps.\<close>

definition queue_of :: "'l runner \<Rightarrow> queue_state" where
  "queue_of s = \<lparr>q_queue = ru_queue s, q_enqueued = ru_enqueued s, q_marked = {#}, q_taken = {#}\<rparr>"

lemma enqueue_steps:
  assumes "enqueue cfg ended task_id s = (r, s')"
  shows "(queue_step (nat (rc_queue_size cfg)))\<^sup>*\<^sup>* (queue_of s) (queue_of s')"
proof -
  let ?cap = "nat (rc_queue_size cfg)"
  let ?tid = "trim_space task_id"
  let ?q1 = "queue_of s\<lparr>q_enqueued := insert ?tid (ru_enqueued s), q_marked := {#?tid#}\<rparr>"
  show ?thesis
  proof (cases "queue_of s' = queue_of s")
    case True
    then show ?thesis by simp
  next
    case False
    then have new: "?tid \<notin> ru_enqueued s" and room: "int (length (ru_queue s)) < rc_queue_size cfg"
      and s': "s' = s\<lparr>ru_enqueued := insert ?tid (ru_enqueued s), ru_queue := ru_queue s @ [?tid]\<rparr>"
      using assms
      by (auto simp: enqueue_def Let_def clear_enqueued_def queue_of_def split: if_splits option.splits)
    have m: "queue_step ?cap (queue_of s) ?q1"
      using Mark [of ?tid "queue_of s" ?cap] new by (simp add: queue_of_def)
    have p: "queue_step ?cap ?q1 (queue_of s')"
      using Send [of ?tid ?q1 ?cap] room by (simp add: s' queue_of_def zless_nat_eq_int_zless)
    show ?thesis
      using m p by (meson r_into_rtranclp rtranclp_trans)
  qed
qed

lemma take_steps:
  assumes "ru_queue s = tid # q"
  shows "(queue_step cap)\<^sup>*\<^sup>* (queue_of s) (queue_of (clear_enqueued tid (s\<lparr>ru_queue := q\<rparr>)))"
proof -
  let ?q1 = "queue_of s\<lparr>q_queue := q, q_taken := {#tid#}\<rparr>"
  have "queue_step cap (queue_of s) ?q1"
    using Take [of "queue_of s" tid q cap] assms by (simp add: queue_of_def)
  moreover have "queue_step cap ?q1 (queue_of (clear_enqueued tid (s\<lparr>ru_queue := q\<rparr>)))"
    using Clear [of tid ?q1 cap] by (simp add: queue_of_def clear_enqueued_def)
  ultimately show ?thesis by (meson converse_rtranclp_into_rtranclp rtranclp.rtrancl_refl)
qed

section \<open>Properties\<close>

text \<open>C23: the queue holds a task at most once and never more than its size, however the steps
  of enqueuing goroutines and workers interleave; and every identifier in the set of enqueued
  ones is about to be sent, in the channel, or just taken by a worker.\<close>

theorem queue_no_duplicates:
  assumes "(queue_step cap)\<^sup>*\<^sup>* empty_queue s"
  shows "distinct (q_queue s) \<and> length (q_queue s) \<le> cap \<and> set (q_queue s) \<subseteq> q_enqueued s
    \<and> (\<forall>tid\<in>q_enqueued s. tid \<in># q_marked s \<or> tid \<in> set (q_queue s) \<or> tid \<in># q_taken s)"
proof -
  have i: "queue_inv cap s" using queue_inv_steps [OF assms queue_inv_empty] .
  then have f: "finite (q_enqueued s)" and e: "q_marked s + mset (q_queue s) + q_taken s = mset_set (q_enqueued s)"
    by (simp_all add: queue_inv_def)
  have "tid \<in> q_enqueued s \<longleftrightarrow> tid \<in># q_marked s \<or> tid \<in> set (q_queue s) \<or> tid \<in># q_taken s" for tid
    using f by (metis e elem_mset_set set_mset_mset union_iff)
  moreover have "length (q_queue s) \<le> cap" using i by (simp add: queue_inv_def)
  ultimately show ?thesis using queue_inv_distinct [OF i] by blast
qed

theorem queue_no_duplicates_witness:
  "(let s = snd (enqueue demo_runner_config None '' task_000001 '' demo_runner) in
    ru_queue s = [''task_000001''] \<and> distinct (ru_queue (snd (enqueue demo_runner_config None ''task_000001'' s))))"
proof -
  let ?s = "snd (enqueue demo_runner_config None '' task_000001 '' demo_runner)"
  let ?s2 = "snd (enqueue demo_runner_config None ''task_000001'' ?s)"
  have t: "trim_space '' task_000001 '' = ''task_000001''" by code_simp
  have e: "queue_of demo_runner = empty_queue" by (simp add: queue_of_def demo_runner_def empty_queue_def)
  have c: "nat (rc_queue_size demo_runner_config) = 8" by (simp add: demo_runner_config_def)
  have "(queue_step 8)\<^sup>*\<^sup>* (queue_of demo_runner) (queue_of ?s)"
    using enqueue_steps [OF prod.collapse [symmetric], where cfg = demo_runner_config and ended = None
        and task_id = "'' task_000001 ''" and s = demo_runner]
    by (simp only: c)
  moreover have "(queue_step 8)\<^sup>*\<^sup>* (queue_of ?s) (queue_of ?s2)"
    using enqueue_steps [OF prod.collapse [symmetric], where cfg = demo_runner_config and ended = None
        and task_id = "''task_000001''" and s = ?s]
    by (simp only: c)
  ultimately have "(queue_step 8)\<^sup>*\<^sup>* (queue_of demo_runner) (queue_of ?s2)" by (rule rtranclp_trans)
  then have "(queue_step 8)\<^sup>*\<^sup>* empty_queue (queue_of ?s2)" by (simp only: e)
  from queue_no_duplicates [OF this] have "distinct (ru_queue ?s2)" by (simp add: queue_of_def)
  moreover have "ru_queue ?s = [''task_000001'']"
    by (simp add: enqueue_def t demo_runner_def demo_runner_config_def Let_def)
  ultimately show ?thesis by (simp add: Let_def)
qed

text \<open>C28: a scheduled retry is never dropped in silence. When its goroutine is done and neither a
  call nor a pause was ended by the context, the task is in the queue's set, or it was marked
  as failed (or others canceled it), so it does not stay queued without anyone knowing.\<close>

theorem retry_not_dropped:
  assumes "\<And>k s. tid \<in> dom (ts_items (ru_tasks s)) \<Longrightarrow> tid \<in> dom (ts_items (ru_tasks (env k s)))"
    and "\<And>k. ended k = None" "\<And>k. \<not> stop k" "tid \<in> dom (ts_items (ru_tasks s))" "trim_space tid = tid"
  shows "let s' = enqueue_after_delay cfg now tid env ended stop s in
    tid \<in> ru_enqueued s'
    \<or> (\<exists>u. ts_items (ru_tasks s') tid = Some u \<and> (tk_status u = Failed \<or> tk_status u = Canceled))"
proof -
  have fail: "\<exists>u. ts_items (ru_tasks (fail_plain now tid [] e s)) tid = Some u \<and> (tk_status u = Failed \<or> tk_status u = Canceled)"
    if d: "tid \<in> dom (ts_items (ru_tasks s))" for e and s :: "'a runner"
  proof -
    from d obtain u where "ts_items (ru_tasks s) tid = Some u" by blast
    then show ?thesis
      by (cases "tk_status u = Canceled")
         (simp_all add: fail_plain_def fail_task_with_evidence_def task_fail_def task_update_def
           unless_status_def fail_task_def)
  qed
  have "(\<exists>u. ts_items (ru_tasks (enqueue_tries cfg now tid env ended stop ks s)) tid = Some u
        \<and> (tk_status u = Failed \<or> tk_status u = Canceled))
      \<or> tid \<in> ru_enqueued (enqueue_tries cfg now tid env ended stop ks s)"
    if "tid \<in> dom (ts_items (ru_tasks s))" for ks s
    using that
  proof (induction ks arbitrary: s)
    case Nil
    with fail show ?case by simp
  next
    case (Cons k ks)
    let ?s = "env k s"
    have d: "tid \<in> dom (ts_items (ru_tasks ?s))" using assms(1) Cons.prems .
    obtain r s1 where q: "enqueue cfg (ended k) tid ?s = (r, s1)" by (rule prod.exhaust)
    have s1: "tid \<in> dom (ts_items (ru_tasks s1))"
      using q d by (auto simp: enqueue_def Let_def clear_enqueued_def split: if_splits option.splits)
    consider "r = None" "tid \<in> ru_enqueued s1" | "r = Some QueueFull" | "r = Some EnqueueIdRequired"
      using q assms(2,5) by (auto simp: enqueue_def Let_def split: if_splits)
    then show ?case
      using fail [OF s1] Cons.IH [OF s1] assms(3) q by cases simp_all
  qed
  from this [OF assms(4), of "[0..<10]"] show ?thesis by (auto simp: enqueue_after_delay_def Let_def)
qed

theorem retry_not_dropped_witness:
  "let s' = enqueue_after_delay demo_runner_config 9 ''task_000001'' (\<lambda>k s. s) (\<lambda>k. None) (\<lambda>k. False) demo_runner in
    ''task_000001'' \<in> ru_enqueued s'
    \<or> (\<exists>u. ts_items (ru_tasks s') ''task_000001'' = Some u \<and> (tk_status u = Failed \<or> tk_status u = Canceled))"
  by (rule retry_not_dropped)
     (simp_all add: demo_runner_def demo_tasks_def plain_ends_def plain_char_def)

text \<open>The goroutine gives up by failing the task it was started for, whatever its status is by
  then: a task that another path of the queue ran to completion in the meantime is turned into a
  failed one, because \<open>Fail\<close> refuses only canceled tasks.\<close>

lemma requeue_fails_completed:
  assumes "ts_items (ru_tasks s) tid = Some u" "tk_status u = Completed"
  shows "\<exists>v. ts_items (ru_tasks (enqueue_tries cfg now tid env ended stop [] s)) tid = Some v \<and> tk_status v = Failed"
  using assms by (simp add: fail_plain_def fail_task_with_evidence_def task_fail_def task_update_def
      unless_status_def fail_task_def)

end
