(* ===== verification/Security.thy ===== *)
theory Security
  imports Http "HOL-Library.AList"
begin

text \<open>
  Who may create work, \<open>internal/api/security.go\<close>: the API key, the client's identity and the
  fixed-window rate limiter. The limiter's map is an association list with distinct keys.
\<close>

section \<open>The rate limiter\<close>

record rate_bucket =
  rb_start :: go_time
  rb_count :: int

record limiter =
  lm_limit :: int
  lm_window :: duration
  lm_clients :: "(gostr \<times> rate_bucket) list"

definition new_limiter :: "int \<Rightarrow> duration \<Rightarrow> limiter" where
  "new_limiter limit window = \<lparr>lm_limit = (if limit \<le> 0 then 1 else limit),
     lm_window = (if window \<le> 0 then 60 * second else window), lm_clients = []\<rparr>"

definition prune_clients :: "go_time \<Rightarrow> limiter \<Rightarrow> limiter" where
  "prune_clients active l =
     (if length (lm_clients l) < 1000 then l
      else l\<lparr>lm_clients := filter (\<lambda>(k, b). \<not> rb_start b < active - 2 * lm_window l) (lm_clients l)\<rparr>)"

definition client_key :: "gostr \<Rightarrow> gostr" where
  "client_key client = (if blank client then ''unknown'' else trim_space client)"

text \<open>The bucket a request is counted in: the stored one if it is of the current window.\<close>

definition current_bucket :: "limiter \<Rightarrow> gostr \<Rightarrow> go_time \<Rightarrow> rate_bucket" where
  "current_bucket l key start =
     (case map_of (lm_clients l) key of
        Some b \<Rightarrow> if rb_start b = zero_time \<or> rb_start b \<noteq> start then \<lparr>rb_start = start, rb_count = 0\<rparr> else b
      | None \<Rightarrow> \<lparr>rb_start = start, rb_count = 0\<rparr>)"

definition limiter_allow :: "gostr \<Rightarrow> go_time \<Rightarrow> limiter \<Rightarrow> bool \<times> limiter" where
  "limiter_allow client now l =
     (let key = client_key client;
          start = time_truncate now (lm_window l);
          bucket = current_bucket l key start
      in if rb_count bucket \<ge> lm_limit l then (False, l)
         else (True, prune_clients start
                (l\<lparr>lm_clients := AList.update key (bucket\<lparr>rb_count := rb_count bucket + 1\<rparr>) (lm_clients l)\<rparr>)))"

section \<open>Authorisation\<close>

definition requires_create_auth :: "request \<Rightarrow> bool" where
  "requires_create_auth r \<longleftrightarrow>
     rq_method r = ''POST'' \<and>
     (let path = trim_space (rq_path r) in
      path \<in> {''/sessions'', ''/v1/sessions'', ''/task'', ''/v1/tasks''}
      \<or> has_prefix path ''/v1/tasks/'' \<and> (has_suffix path ''/replay'' \<or> has_suffix path ''/cancel''))"

definition request_has_api_key :: "request \<Rightarrow> gostr \<Rightarrow> bool" where
  "request_has_api_key r expected =
     (let want = trim_space expected;
          auth = trim_space (rq_header r ''Authorization'');
          candidates = [trim_space (rq_header r ''X-Api-Key''), trim_space (rq_header r ''X-Api-Key'')]
            @ (if has_prefix (to_lower auth) ''bearer '' then [trim_space (drop 7 auth)] else [])
      in want = [] \<or> want \<in> set candidates)"

text \<open>\<open>net.SplitHostPort\<close>, its host or nothing when it fails.\<close>

definition last_index :: "char \<Rightarrow> gostr \<Rightarrow> nat option" where
  "last_index c s = (case index_of (rev s) [c] of None \<Rightarrow> None | Some i \<Rightarrow> Some (length s - 1 - i))"

definition split_host :: "gostr \<Rightarrow> gostr option" where
  "split_host hp =
     (case last_index (CHR '':'') hp of
        None \<Rightarrow> None
      | Some i \<Rightarrow>
          if has_prefix hp ''['' then
            (case index_of hp '']'' of
               None \<Rightarrow> None
             | Some e \<Rightarrow>
                 if e + 1 \<noteq> i then None
                 else if CHR ''['' \<in> set (drop 1 hp) \<or> CHR '']'' \<in> set (drop (e + 1) hp) then None
                 else Some (take (e - 1) (drop 1 hp)))
          else if CHR '':'' \<in> set (take i hp) then None
          else if CHR ''['' \<in> set hp \<or> CHR '']'' \<in> set hp then None
          else Some (take i hp))"

definition client_identity :: "request \<Rightarrow> gostr" where
  "client_identity r =
     (let forwarded = trim_space (rq_header r ''X-Forwarded-For'');
          first = trim_space (hd (split_at forwarded (CHR '','') []));
          remote = trim_space (rq_remote r)
      in if forwarded \<noteq> [] \<and> first \<noteq> [] then first
         else case split_host remote of
             Some h \<Rightarrow> if h \<noteq> [] then h else if remote \<noteq> [] then remote else ''unknown''
           | None \<Rightarrow> if remote \<noteq> [] then remote else ''unknown'')"

text \<open>The wrapper around all routes; \<open>serve\<close> is the wrapped handler on the rest of the state.\<close>

definition with_api_security ::
  "gostr \<Rightarrow> go_time \<Rightarrow> (request \<Rightarrow> 'w \<Rightarrow> response \<times> 'w) \<Rightarrow> request \<Rightarrow> limiter option \<times> 'w \<Rightarrow>
     response \<times> limiter option \<times> 'w" where
  "with_api_security api_key now serve r lw =
     (let (l, w) = lw in
      if \<not> requires_create_auth r then (let (p, w') = serve r w in (p, l, w'))
      else if \<not> blank api_key \<and> \<not> request_has_api_key r api_key
      then (write_error Map.empty 401 ''unauthorized'' ''missing or invalid api key'', l, w)
      else case l of
          None \<Rightarrow> (let (p, w') = serve r w in (p, None, w'))
        | Some lim \<Rightarrow>
            let (ok, lim') = limiter_allow (client_identity r) now lim in
            if \<not> ok
            then (write_error Map.empty 429 ''rate_limited'' ''request rate limit exceeded'', Some lim', w)
            else (let (p, w') = serve r w in (p, Some lim', w')))"

section \<open>Counting what the limiter lets through\<close>

text \<open>A run of requests (client and time), and how many of one client and window pass.\<close>

primrec limiter_run :: "limiter \<Rightarrow> (gostr \<times> go_time) list \<Rightarrow> (gostr \<times> go_time \<times> bool) list" where
  "limiter_run l [] = []"
| "limiter_run l (q # qs) =
     (let (ok, l') = limiter_allow (fst q) (snd q) l
      in (client_key (fst q), time_truncate (snd q) (lm_window l), ok) # limiter_run l' qs)"

definition passed :: "gostr \<Rightarrow> go_time \<Rightarrow> (gostr \<times> go_time \<times> bool) list \<Rightarrow> int" where
  "passed k w res = int (length (filter (\<lambda>x. x = (k, w, True)) res))"

definition used :: "limiter \<Rightarrow> gostr \<Rightarrow> go_time \<Rightarrow> int" where
  "used l k w = (case map_of (lm_clients l) k of
     Some b \<Rightarrow> if rb_start b = w then rb_count b else 0 | None \<Rightarrow> 0)"

lemma limiter_allow_config [simp]:
  "lm_limit (snd (limiter_allow c now l)) = lm_limit l"
  "lm_window (snd (limiter_allow c now l)) = lm_window l"
  by (simp_all add: limiter_allow_def prune_clients_def Let_def)

lemma passed_Cons: "passed k w (x # res) = (if x = (k, w, True) then 1 else 0) + passed k w res"
  by (simp add: passed_def)

lemma limiter_run_Cons:
  "limiter_run l (q # qs) =
     (client_key (fst q), time_truncate (snd q) (lm_window l), fst (limiter_allow (fst q) (snd q) l))
       # limiter_run (snd (limiter_allow (fst q) (snd q) l)) qs"
  by (simp add: split_beta)

lemma passed_later:
  "\<forall>q\<in>set qs. w \<noteq> time_truncate (snd q) (lm_window l) \<Longrightarrow> passed k w (limiter_run l qs) = 0"
  by (induction qs arbitrary: l) (simp_all add: limiter_run_Cons passed_Cons del: limiter_run.simps, simp add: passed_def)

lemma map_of_filter_values:
  "distinct (map fst xs) \<Longrightarrow>
   map_of (filter (\<lambda>(k, b). P b) xs) k = (case map_of xs k of Some b \<Rightarrow> if P b then Some b else None | None \<Rightarrow> None)"
  by (induction xs) (auto split: option.splits dest!: map_of_SomeD, force)

lemma limiter_allow_distinct:
  "distinct (map fst (lm_clients l)) \<Longrightarrow> distinct (map fst (lm_clients (snd (limiter_allow c now l))))"
  by (auto simp: limiter_allow_def Let_def prune_clients_def distinct_update intro: distinct_map_filter)

text \<open>What one request does to the count of a client in a window that is not over.\<close>

lemma used_step:
  assumes "distinct (map fst (lm_clients l))" "0 < lm_window l" "w \<noteq> 0"
    and "w' = time_truncate now (lm_window l)" "w \<le> w'" "used l k w \<le> lm_limit l"
  shows "w = w' \<Longrightarrow> used (snd (limiter_allow c now l)) k w =
      used l k w + (if fst (limiter_allow c now l) \<and> client_key c = k then 1 else 0)"
    and "fst (limiter_allow c now l) \<Longrightarrow> client_key c = k \<Longrightarrow> w = w' \<Longrightarrow> used l k w < lm_limit l"
proof -
  let ?key = "client_key c"
  let ?b = "current_bucket l ?key w'"
  have cb: "rb_start ?b = w'" "w = w' \<Longrightarrow> ?key = k \<Longrightarrow> rb_count ?b = used l k w"
    using assms(3) by (auto simp: current_bucket_def used_def split: option.split)
  show "fst (limiter_allow c now l) \<Longrightarrow> ?key = k \<Longrightarrow> w = w' \<Longrightarrow> used l k w < lm_limit l"
    using cb assms(4) by (auto simp: limiter_allow_def Let_def split: if_splits)
  assume w: "w = w'"
  show "used (snd (limiter_allow c now l)) k w =
      used l k w + (if fst (limiter_allow c now l) \<and> ?key = k then 1 else 0)"
  proof (cases "rb_count ?b \<ge> lm_limit l")
    case True
    then show ?thesis using assms(4) by (simp add: limiter_allow_def Let_def)
  next
    case False
    let ?l1 = "l\<lparr>lm_clients := AList.update ?key (?b\<lparr>rb_count := rb_count ?b + 1\<rparr>) (lm_clients l)\<rparr>"
    have d: "distinct (map fst (lm_clients ?l1))" using assms(1) by (simp add: distinct_update)
    have u: "used (prune_clients w' ?l1) k w = used ?l1 k w"
    proof (cases "length (lm_clients ?l1) < 1000")
      case True
      then show ?thesis by (simp add: prune_clients_def)
    next
      case False
      then have "map_of (lm_clients (prune_clients w' ?l1)) k =
          (case map_of (lm_clients ?l1) k of Some b \<Rightarrow> if \<not> rb_start b < w' - 2 * lm_window l then Some b else None | None \<Rightarrow> None)"
        using map_of_filter_values [OF d, of "\<lambda>b. \<not> rb_start b < w' - 2 * lm_window l" k]
        by (simp add: prune_clients_def)
      then show ?thesis using w assms(2) by (auto simp: used_def split: option.splits)
    qed
    have "used ?l1 k w = used l k w + (if ?key = k then 1 else 0)"
      using cb w by (auto simp: used_def update_conv')
    with False u assms(4) show ?thesis by (simp add: limiter_allow_def Let_def)
  qed
qed


lemma passed_le:
  assumes "distinct (map fst (lm_clients l))" "0 < lm_window l" "w \<noteq> 0"
    and "sorted_wrt (\<lambda>x y. snd x \<le> snd y) qs"
    and "\<forall>q\<in>set qs. w \<le> time_truncate (snd q) (lm_window l)" "used l k w \<le> lm_limit l"
  shows "passed k w (limiter_run l qs) \<le> lm_limit l - used l k w"
  using assms
proof (induction qs arbitrary: l)
  case Nil
  then show ?case by (simp add: passed_def)
next
  case (Cons q qs)
  let ?l = "snd (limiter_allow (fst q) (snd q) l)"
  let ?w = "time_truncate (snd q) (lm_window l)"
  have d: "distinct (map fst (lm_clients ?l))" using Cons.prems(1) by (rule limiter_allow_distinct)
  have le: "w \<le> ?w" using Cons.prems(5) by simp
  show ?case
  proof (cases "w = ?w")
    case True
    note st = used_step [OF Cons.prems(1-3) refl le Cons.prems(6), of "fst q"]
    have u: "used ?l k w = used l k w + (if fst (limiter_allow (fst q) (snd q) l) \<and> client_key (fst q) = k then 1 else 0)"
      using st(1) True by simp
    moreover have "used ?l k w \<le> lm_limit ?l" using st(2) True u Cons.prems(6) by (auto split: if_splits)
    ultimately show ?thesis
      using Cons.IH [OF d] Cons.prems True by (auto simp: limiter_run_Cons passed_Cons simp del: limiter_run.simps split: if_splits)
  next
    case False
    have "w \<noteq> time_truncate (snd q') (lm_window ?l)" if "q' \<in> set qs" for q'
    proof -
      have "?w \<le> time_truncate (snd q') (lm_window l)"
        using that Cons.prems(2,4) by (auto simp: time_truncate_def minus_mod_eq_mult_div intro!: mult_left_mono zdiv_mono1)
      with le False show ?thesis by simp
    qed
    then have "passed k w (limiter_run ?l qs) = 0" by (intro passed_later) simp
    with False Cons.prems(6) show ?thesis
      by (auto simp: limiter_run_Cons passed_Cons simp del: limiter_run.simps)
  qed
qed

lemma prune_used: "distinct (map fst (lm_clients l)) \<Longrightarrow>
    used (prune_clients a l) k w = used l k w \<or> used (prune_clients a l) k w = 0"
proof -
  assume d: "distinct (map fst (lm_clients l))"
  show ?thesis
  proof (cases "length (lm_clients l) < 1000")
    case True
    then show ?thesis by (simp add: prune_clients_def)
  next
    case False
    then have "map_of (lm_clients (prune_clients a l)) k =
        (case map_of (lm_clients l) k of Some b \<Rightarrow> if \<not> rb_start b < a - 2 * lm_window l then Some b else None | None \<Rightarrow> None)"
      using map_of_filter_values [OF d, of "\<lambda>b. \<not> rb_start b < a - 2 * lm_window l" k]
      by (simp add: prune_clients_def)
    then show ?thesis by (auto simp: used_def split: option.splits)
  qed
qed

lemma used_zero:
  assumes "distinct (map fst (lm_clients l))" "used l k w = 0" "w \<noteq> time_truncate now (lm_window l)"
  shows "used (snd (limiter_allow c now l)) k w = 0"
proof -
  let ?w = "time_truncate now (lm_window l)"
  let ?b = "current_bucket l (client_key c) ?w"
  let ?l1 = "l\<lparr>lm_clients := AList.update (client_key c) (?b\<lparr>rb_count := rb_count ?b + 1\<rparr>) (lm_clients l)\<rparr>"
  have "rb_start ?b = ?w" by (auto simp: current_bucket_def split: option.split)
  then have "used ?l1 k w = 0" using assms(2,3) by (auto simp: used_def update_conv')
  moreover have "distinct (map fst (lm_clients ?l1))" using assms(1) by (simp add: distinct_update)
  ultimately have "used (prune_clients ?w ?l1) k w = 0" using prune_used by metis
  then show ?thesis using assms(2) by (simp add: limiter_allow_def Let_def)
qed

lemma window_mono: "0 < d \<Longrightarrow> t \<le> u \<Longrightarrow> time_truncate t d \<le> time_truncate u d"
  by (auto simp: time_truncate_def minus_mod_eq_mult_div intro!: mult_left_mono zdiv_mono1)

lemma passed_le_limit:
  assumes "0 < lm_limit l" "0 < lm_window l" "w \<noteq> 0"
    and "distinct (map fst (lm_clients l))" "used l k w = 0" "sorted_wrt (\<lambda>x y. snd x \<le> snd y) qs"
  shows "passed k w (limiter_run l qs) \<le> lm_limit l"
  using assms
proof (induction qs arbitrary: l)
  case Nil
  then show ?case by (simp add: passed_def)
next
  case (Cons q qs)
  let ?w = "time_truncate (snd q) (lm_window l)"
  let ?l = "snd (limiter_allow (fst q) (snd q) l)"
  show ?case
  proof (cases "w \<le> ?w")
    case True
    have "\<forall>q'\<in>set (q # qs). ?w \<le> time_truncate (snd q') (lm_window l)"
      using Cons.prems(2,6) by (auto intro: window_mono)
    with True have "\<forall>q'\<in>set (q # qs). w \<le> time_truncate (snd q') (lm_window l)" by force
    from passed_le [OF Cons.prems(4,2,3,6) this, of k] Cons.prems(1,5) show ?thesis by simp
  next
    case False
    then have "used ?l k w = 0" using used_zero [OF Cons.prems(4,5)] by auto
    with Cons.IH [of ?l] Cons.prems False show ?thesis
      by (auto simp: limiter_run_Cons passed_Cons limiter_allow_distinct simp del: limiter_run.simps)
  qed
qed

section \<open>Properties\<close>

text \<open>C29: the rate limit holds. Of the requests of one client in one window, in the order of their
  times, at most the limit pass, however the requests of other clients are mixed in and whatever
  is pruned from the limiter's map meanwhile.\<close>

theorem rate_limit_holds:
  assumes "0 < limit" "0 < window" "sorted_wrt (\<lambda>x y. snd x \<le> snd y) qs" "w \<noteq> 0"
  shows "passed k w (limiter_run (new_limiter limit window) qs) \<le> limit"
  using passed_le_limit [of "new_limiter limit window" w k qs] assms
  by (simp add: new_limiter_def used_def)

theorem rate_limit_holds_witness:
  "passed ''c'' 60 (limiter_run (new_limiter 1 60) [(''c'', 61), ('' c'', 62), (''c'', 119)]) \<le> 1"
  by (rule rate_limit_holds) simp_all

text \<open>The order matters: the limiter compares windows for being equal and not for being later, so a
  request whose time was read before another client's request moved the window on, and which
  gets the lock after it, starts the old window again with a fresh count.\<close>

lemma late_request_resets_window:
  "passed ''c'' 60 (limiter_run (new_limiter 1 60) [(''c'', 119), (''c'', 120), (''c'', 119)]) = 2"
proof -
  have k: "client_key ''c'' = ''c''" by (simp add: client_key_def plain_ends_def plain_char_def)
  show ?thesis
    by (simp add: limiter_allow_def new_limiter_def Let_def k time_truncate_def current_bucket_def
        prune_clients_def passed_def)
qed

text \<open>Without the key nothing happens. When an API key is configured, a request that creates,
  replays or cancels work and presents no matching key is answered 401; neither the handler nor
  the rate limiter sees it, and nothing changes.\<close>

lemma missing_key_refused:
  assumes "requires_create_auth r" "\<not> blank api_key" "\<not> request_has_api_key r api_key"
  shows "with_api_security api_key now serve r (l, w) =
    (write_error Map.empty 401 ''unauthorized'' ''missing or invalid api key'', l, w)"
  using assms by (simp add: with_api_security_def)

definition demo_request :: "gostr \<Rightarrow> gostr \<Rightarrow> request" where
  "demo_request m p = \<lparr>rq_method = m, rq_path = p, rq_header = (\<lambda>_. []), rq_query = (\<lambda>_. []),
     rq_remote = ''10.0.0.9:1'', rq_body = []\<rparr>"

lemma missing_key_refused_at_work:
  "with_api_security ''secret'' 5 (\<lambda>r w. (no_content, w + 1)) (demo_request ''POST'' ''/v1/tasks/t1/cancel'') (None, 0::nat) =
    (write_error Map.empty 401 ''unauthorized'' ''missing or invalid api key'', None, 0)"
  by (rule missing_key_refused)
     (simp_all add: demo_request_def requires_create_auth_def request_has_api_key_def has_prefix_def
       has_suffix_def plain_ends_def plain_char_def)

end
