(* ===== verification/Api.thy ===== *)
theory Api
  imports RunnerQueue Http
begin

text \<open>
  The task and session handlers of the HTTP API, \<open>internal/api/tasks.go\<close>,
  \<open>internal/api/sessions.go\<close> and the configuration of \<open>internal/api/server.go\<close>. They work on the
  session service and on the runner's state, which holds the tasks, the nodes and the queue: the
  dispatcher of the server is the task runner, or none. The JSON decoders of the request bodies,
  \<open>strconv.Quote\<close> and the RFC 3339 parser are part of the configuration.
\<close>

section \<open>Requests and configuration\<close>

datatype 'a decoded = Decoded 'a | DecodeEOF | DecodeFailed

record create_task_request =
  cr_session :: gostr
  cr_tenant :: gostr
  cr_url :: gostr
  cr_goal :: gostr
  cr_actions :: "action list"
  cr_max_retries :: "int option"
  cr_wait :: "bool option"
  cr_wait_timeout_ms :: int

record replay_task_request =
  rr_session :: gostr
  rr_max_retries :: "int option"
  rr_new_session :: bool
  rr_tenant :: gostr

record server_config =
  sc_has_sessions :: bool
  sc_dispatcher :: "runner_config option"
  sc_default_retries :: int
  sc_quote :: "gostr \<Rightarrow> gostr"
  sc_decode_create :: "gostr \<Rightarrow> create_task_request decoded"
  sc_decode_replay :: "gostr \<Rightarrow> replay_task_request decoded"
  sc_decode_session :: "gostr \<Rightarrow> gostr decoded"

definition default_max_retries :: "int \<Rightarrow> int" where
  "default_max_retries n = (if n < 0 then 0 else n)"

record 'l server =
  sv_sessions :: session_state
  sv_run :: "'l runner"

text \<open>What a handler meets: the clock, the order of the map of tasks, the context of its call of
  \<open>Enqueue\<close>, and what others do before each look of its wait.\<close>

record 'l api_env =
  ae_clock :: "nat \<Rightarrow> go_time"
  ae_order :: "gostr list"
  ae_ended :: "go_error option"
  ae_waits :: "('l server \<Rightarrow> 'l server) list"

definition sv_tasks :: "'l server \<Rightarrow> task_state" where
  "sv_tasks w = ru_tasks (sv_run w)"

definition set_tasks :: "task_state \<Rightarrow> 'l server \<Rightarrow> 'l server" where
  "set_tasks ts w = w\<lparr>sv_run := (sv_run w)\<lparr>ru_tasks := ts\<rparr>\<rparr>"

definition bad_request :: "gostr \<Rightarrow> gostr \<Rightarrow> response" where
  "bad_request code msg = write_error Map.empty 400 code msg"

definition invalid_json :: response where
  "invalid_json = bad_request ''invalid_json'' ''request body must be valid JSON''"

definition not_found :: "gostr \<Rightarrow> response" where
  "not_found msg = write_error Map.empty 404 ''not_found'' msg"

definition trace_headers :: "gostr \<Rightarrow> gostr \<rightharpoonup> gostr list" where
  "trace_headers tid =
     (if blank tid then Map.empty else [''X-Trace-Id'' \<mapsto> [''trc_'' @ trim_space tid]])"

definition map_task_actions :: "action list \<Rightarrow> action list" where
  "map_task_actions actions =
     map (\<lambda>a. a\<lparr>ac_type := trim_space (ac_type a), ac_selector := trim_space (ac_selector a)\<rparr>) actions"

definition wait_timeout :: "int \<Rightarrow> duration" where
  "wait_timeout ms =
     (if ms \<le> 0 then 90 * second
      else let ms = (if ms < 1000 then 1000 else ms);
               ms = (if ms > 10 * 60 * 1000 then 10 * 60 * 1000 else ms)
           in ms * millisecond)"

section \<open>Sessions of a task\<close>

definition ensure_session_exists :: "server_config \<Rightarrow> gostr \<Rightarrow> 'l server \<Rightarrow> gostr option" where
  "ensure_session_exists cfg session_id w =
     (let i = trim_space session_id in
      if i = [] then Some ''session_id is required''
      else if \<not> sc_has_sessions cfg then None
      else case session_get i (sv_sessions w) of
          Inr _ \<Rightarrow> None
        | Inl SessionNotFound \<Rightarrow> Some (''session_id '' @ sc_quote cfg i @ '' not found'')
        | Inl e \<Rightarrow> Some (''failed to load session '' @ sc_quote cfg i @ '': '' @ session_error_text e))"

definition resolve_task_session ::
  "server_config \<Rightarrow> go_time \<Rightarrow> gostr \<Rightarrow> gostr \<Rightarrow> 'l server \<Rightarrow> (gostr + gostr) \<times> 'l server" where
  "resolve_task_session cfg now session_id tenant_id w =
     (let i = trim_space session_id in
      if i \<noteq> []
      then (case ensure_session_exists cfg i w of Some msg \<Rightarrow> (Inl msg, w) | None \<Rightarrow> (Inr i, w))
      else if \<not> sc_has_sessions cfg then (Inl ''session_id is required'', w)
      else
        let tenant = (if blank tenant_id then ''task'' else trim_space tenant_id) in
        case session_create now tenant (sv_sessions w) of
          (Inl e, ss) \<Rightarrow> (Inl (''failed to create session: '' @ session_error_text e), w\<lparr>sv_sessions := ss\<rparr>)
        | (Inr created, ss) \<Rightarrow> (Inr (se_id created), w\<lparr>sv_sessions := ss\<rparr>))"

section \<open>Creating and queueing\<close>

definition fail_unqueued :: "go_time \<Rightarrow> gostr \<Rightarrow> gostr \<Rightarrow> 'l server \<Rightarrow> task option \<times> 'l server" where
  "fail_unqueued now tid msg w =
     (case task_fail now \<lparr>fi_task = tid, fi_node = [], fi_completed = now, fi_error = msg,
          fi_page_title = [], fi_final_url = [], fi_screenshot = [], fi_artifact_url = [],
          fi_blocker_type = [], fi_blocker_message = [], fi_trace = []\<rparr> (sv_tasks w) of
        (Inl _, ts) \<Rightarrow> (None, set_tasks ts w)
      | (Inr t, ts) \<Rightarrow> (Some t, set_tasks ts w))"

text \<open>The task to answer with, the status and whether it is queued.\<close>

definition enqueue_created_task ::
  "server_config \<Rightarrow> 'l api_env \<Rightarrow> task \<Rightarrow> 'l server \<Rightarrow> (task option \<times> int \<times> bool) \<times> 'l server" where
  "enqueue_created_task cfg env created w =
     (case sc_dispatcher cfg of
        None \<Rightarrow>
          let (t, w1) = fail_unqueued (ae_clock env 1) (tk_id created) ''task dispatcher is not configured'' w
          in ((t, 500, False), w1)
      | Some rc \<Rightarrow>
          (case enqueue rc (ae_ended env) (tk_id created) (sv_run w) of
             (None, r) \<Rightarrow> ((Some created, 202, True), w\<lparr>sv_run := r\<rparr>)
           | (Some e, r) \<Rightarrow>
               let (t, w1) = fail_unqueued (ae_clock env 1) (tk_id created) (enqueue_error_text e) (w\<lparr>sv_run := r\<rparr>)
               in ((t, (if e = QueueFull then 503 else 500), False), w1)))"

definition is_terminal :: "task_status \<Rightarrow> bool" where
  "is_terminal q \<longleftrightarrow> q = Completed \<or> q = Failed \<or> q = Canceled"

text \<open>One look per tick until the timeout; the first at once.\<close>

primrec wait_for_terminal ::
  "gostr \<Rightarrow> ('l server \<Rightarrow> 'l server) list \<Rightarrow> 'l server \<Rightarrow> task option \<times> 'l server" where
  "wait_for_terminal tid [] w = (None, w)"
| "wait_for_terminal tid (f # fs) w =
     (let w1 = f w in
      case task_get tid (sv_tasks w1) of
        Inr t \<Rightarrow> if is_terminal (tk_status t) then (Some t, w1) else wait_for_terminal tid fs w1
      | Inl _ \<Rightarrow> wait_for_terminal tid fs w1)"

definition create_and_queue_task ::
  "server_config \<Rightarrow> 'l api_env \<Rightarrow> bool \<Rightarrow> request \<Rightarrow> 'l server \<Rightarrow> response \<times> 'l server" where
  "create_and_queue_task cfg env default_wait r w =
     (case sc_decode_create cfg (rq_body r) of
        Decoded req \<Rightarrow>
          let max_retries = (case cr_max_retries req of Some n \<Rightarrow> n | None \<Rightarrow> sc_default_retries cfg) in
          (case resolve_task_session cfg (ae_clock env 0) (trim_space (cr_session req)) (trim_space (cr_tenant req)) w of
             (Inl msg, w1) \<Rightarrow> (bad_request ''create_failed'' msg, w1)
           | (Inr sid, w1) \<Rightarrow>
               (case task_create (ae_clock env 0)
                   \<lparr>ci_source = [], ci_session = sid, ci_url = trim_space (cr_url req),
                    ci_goal = trim_space (cr_goal req), ci_actions = map_task_actions (cr_actions req),
                    ci_max_retries = max_retries\<rparr> (sv_tasks w1) of
                  (Inl e, ts) \<Rightarrow> (bad_request ''create_failed'' (task_error_text e), set_tasks ts w1)
                | (Inr created, ts) \<Rightarrow>
                    let ((queued, status, ok), w2) = enqueue_created_task cfg env created (set_tasks ts w1);
                        h = trace_headers (tk_id created)
                    in if \<not> ok then (write_json h status (PTask queued), w2)
                       else if (case cr_wait req of Some b \<Rightarrow> b | None \<Rightarrow> default_wait)
                       then (case wait_for_terminal (tk_id created) (ae_waits env) w2 of
                           (Some t, w3) \<Rightarrow> (write_json h 200 (PTask (Some t)), w3)
                         | (None, w3) \<Rightarrow> (write_json h 202 (PTask queued), w3))
                       else (write_json h 202 (PTask queued), w2)))
      | _ \<Rightarrow> (invalid_json, w))"

section \<open>Replays\<close>

text \<open>An empty body counts as an empty request.\<close>

definition empty_replay :: replay_task_request where
  "empty_replay = \<lparr>rr_session = [], rr_max_retries = None, rr_new_session = False, rr_tenant = []\<rparr>"

definition replay_session ::
  "server_config \<Rightarrow> go_time \<Rightarrow> replay_task_request \<Rightarrow> task \<Rightarrow> 'l server \<Rightarrow> (response + gostr) \<times> 'l server" where
  "replay_session cfg now req original w =
     (let override = trim_space (rr_session req);
          or_original = (\<lambda>s. if s = [] then trim_space (tk_session original) else s)
      in if rr_new_session req \<and> override \<noteq> []
         then (Inl (bad_request ''invalid_replay_request'' ''session_id cannot be used with create_new_session''), w)
         else if rr_new_session req
         then
           if \<not> sc_has_sessions cfg
           then (Inl (write_error Map.empty 500 ''replay_failed'' ''session service is not configured''), w)
           else
             let tenant = (if blank (rr_tenant req) then ''replay'' else trim_space (rr_tenant req)) in
             case session_create now tenant (sv_sessions w) of
               (Inl e, ss) \<Rightarrow>
                 (Inl (bad_request ''replay_failed'' (''failed to create replay session: '' @ session_error_text e)),
                  w\<lparr>sv_sessions := ss\<rparr>)
             | (Inr created, ss) \<Rightarrow> (Inr (or_original (se_id created)), w\<lparr>sv_sessions := ss\<rparr>)
         else (Inr (or_original override), w))"

definition replay_task_now ::
  "server_config \<Rightarrow> 'l api_env \<Rightarrow> gostr \<Rightarrow> request \<Rightarrow> 'l server \<Rightarrow> response \<times> 'l server" where
  "replay_task_now cfg env source r w =
     (case task_get source (sv_tasks w) of
        Inl e \<Rightarrow> (not_found (task_error_text e), w)
      | Inr original \<Rightarrow>
          (case (case sc_decode_replay cfg (rq_body r) of
                   Decoded req \<Rightarrow> Some req | DecodeEOF \<Rightarrow> Some empty_replay | DecodeFailed \<Rightarrow> None) of
             None \<Rightarrow> (invalid_json, w)
           | Some req \<Rightarrow>
               (case replay_session cfg (ae_clock env 0) req original w of
                  (Inl resp, w1) \<Rightarrow> (resp, w1)
                | (Inr sid, w1) \<Rightarrow>
                    (case ensure_session_exists cfg sid w1 of
                       Some msg \<Rightarrow> (bad_request ''replay_failed'' msg, w1)
                     | None \<Rightarrow>
                         (case task_create (ae_clock env 0)
                             \<lparr>ci_source = source, ci_session = sid, ci_url = trim_space (tk_url original),
                              ci_goal = trim_space (tk_goal original), ci_actions = tk_actions original,
                              ci_max_retries = (case rr_max_retries req of Some n \<Rightarrow> n | None \<Rightarrow> tk_max_retries original)\<rparr>
                             (sv_tasks w1) of
                            (Inl e, ts) \<Rightarrow> (bad_request ''replay_failed'' (task_error_text e), set_tasks ts w1)
                          | (Inr created, ts) \<Rightarrow>
                              let ((queued, status, ok), w2) = enqueue_created_task cfg env created (set_tasks ts w1);
                                  h = trace_headers (tk_id created)
                              in (write_json h (if ok then 202 else status) (PTask queued), w2))))))"


section \<open>Cancelling, listing, counting\<close>

text \<open>The runner is also the canceler; without a dispatcher there is none.\<close>

definition cancel_task_handler ::
  "server_config \<Rightarrow> go_time \<Rightarrow> gostr \<Rightarrow> 'l server \<Rightarrow> response \<times> 'l server" where
  "cancel_task_handler cfg now tid w =
     (case task_get tid (sv_tasks w) of
        Inl e \<Rightarrow> (not_found (task_error_text e), w)
      | Inr found \<Rightarrow>
          let w1 = (if tk_status found = Running \<and> sc_dispatcher cfg \<noteq> None
                    then w\<lparr>sv_run := snd (runner_cancel (tk_id found) (sv_run w))\<rparr> else w)
          in case task_cancel now \<lparr>ca_task = tk_id found, ca_reason = ''task canceled by api request'',
                 ca_completed = now, ca_by = ''api''\<rparr> (sv_tasks w1) of
               (Inl TaskNotCancelable, ts) \<Rightarrow>
                 (write_error Map.empty 409 ''task_not_cancelable'' (task_error_text TaskNotCancelable), set_tasks ts w1)
             | (Inl TaskNotFound, ts) \<Rightarrow> (not_found (task_error_text TaskNotFound), set_tasks ts w1)
             | (Inl e, ts) \<Rightarrow> (write_error Map.empty 500 ''cancel_failed'' (task_error_text e), set_tasks ts w1)
             | (Inr t, ts) \<Rightarrow> (write_json Map.empty 200 (PTask (Some t)), set_tasks ts w1))"

text \<open>A query parameter that is a positive integer up to a bound; \<open>None\<close> is a bad request.\<close>

definition bounded_param :: "int \<Rightarrow> int \<Rightarrow> gostr \<Rightarrow> int option" where
  "bounded_param dflt bound q =
     (let raw = trim_space q in
      if raw = [] then Some dflt
      else case atoi raw of
          None \<Rightarrow> None
        | Some n \<Rightarrow> if n \<le> 0 then None else Some (if n > bound then bound else n))"

text \<open>The loop of \<open>getReplayChain\<close>; the number of tasks still allowed bounds it. The result is
  the error of the first lookup, or the chain, the next identifier and whether it was cut.\<close>

primrec chain_loop ::
  "task_state \<Rightarrow> nat \<Rightarrow> gostr \<Rightarrow> gostr list \<Rightarrow> task list \<Rightarrow> task_error + task list \<times> gostr \<times> bool" where
  "chain_loop ts 0 next_id visited chain = Inr (chain, next_id, False)"
| "chain_loop ts (Suc n) next_id visited chain =
     (if next_id = [] then Inr (chain, next_id, False)
      else if next_id \<in> set visited then Inr (chain, next_id, True)
      else case task_get next_id ts of
          Inl e \<Rightarrow> if chain = [] then Inl e else Inr (chain, next_id, True)
        | Inr found \<Rightarrow>
            chain_loop ts n (trim_space (tk_source found)) (visited @ [next_id]) (chain @ [found]))"

definition replay_chain :: "task_state \<Rightarrow> int \<Rightarrow> gostr \<Rightarrow> task_error + task list \<times> bool" where
  "replay_chain ts max_depth tid =
     (case chain_loop ts (nat max_depth) (trim_space tid) [] [] of
        Inl e \<Rightarrow> Inl e
      | Inr (chain, next_id, stopped) \<Rightarrow>
          Inr (chain, stopped \<or> next_id \<noteq> [] \<and> max_depth \<le> int (length chain)))"

definition get_replay_chain :: "request \<Rightarrow> gostr \<Rightarrow> 'l server \<Rightarrow> response" where
  "get_replay_chain r tid w =
     (case bounded_param 20 100 (rq_query r ''max_depth'') of
        None \<Rightarrow> bad_request ''invalid_max_depth'' ''max_depth must be a positive integer''
      | Some depth \<Rightarrow>
          (case replay_chain (sv_tasks w) depth tid of
             Inl e \<Rightarrow> not_found (task_error_text e)
           | Inr (chain, truncated) \<Rightarrow> write_json Map.empty 200 (PChain chain truncated)))"

definition invalid_limit :: response where
  "invalid_limit = bad_request ''invalid_limit'' ''limit must be a positive integer''"

definition list_direct_replays :: "gostr list \<Rightarrow> request \<Rightarrow> gostr \<Rightarrow> 'l server \<Rightarrow> response" where
  "list_direct_replays ks r tid w =
     (case bounded_param 200 500 (rq_query r ''limit'') of
        None \<Rightarrow> invalid_limit
      | Some limit \<Rightarrow>
          write_json Map.empty 200 (PReplays tid (task_list_by_source ks tid limit (sv_tasks w))))"

definition list_recent_tasks :: "gostr list \<Rightarrow> request \<Rightarrow> 'l server \<Rightarrow> response" where
  "list_recent_tasks ks r w =
     (case bounded_param 50 200 (rq_query r ''limit'') of
        None \<Rightarrow> invalid_limit
      | Some limit \<Rightarrow> write_json Map.empty 200 (PTasks (task_list_recent ks limit (sv_tasks w))))"

fun task_status_text :: "task_status \<Rightarrow> gostr" where
  "task_status_text Queued = ''queued''"
| "task_status_text Running = ''running''"
| "task_status_text Completed = ''completed''"
| "task_status_text Failed = ''failed''"
| "task_status_text Canceled = ''canceled''"

text \<open>\<open>m[key]++\<close> on a map of counters.\<close>

definition bump :: "gostr \<Rightarrow> (gostr \<rightharpoonup> int) \<Rightarrow> gostr \<rightharpoonup> int" where
  "bump k m = m(k \<mapsto> (case m k of Some n \<Rightarrow> n | None \<Rightarrow> 0) + 1)"

definition zero_status_counts :: "gostr \<rightharpoonup> int" where
  "zero_status_counts = [''queued'' \<mapsto> 0, ''running'' \<mapsto> 0, ''completed'' \<mapsto> 0, ''failed'' \<mapsto> 0, ''canceled'' \<mapsto> 0]"

text \<open>The loop over the tasks: status counts, blocker counts, blocked, terminal, completed.\<close>

definition stats_step ::
  "(gostr \<rightharpoonup> int) \<times> (gostr \<rightharpoonup> int) \<times> int \<times> int \<times> int \<Rightarrow> task \<Rightarrow>
     (gostr \<rightharpoonup> int) \<times> (gostr \<rightharpoonup> int) \<times> int \<times> int \<times> int" where
  "stats_step acc t =
     (case acc of (sc, bc, blocked, terminal, completed) \<Rightarrow>
        let sc = bump (task_status_text (tk_status t)) sc;
            terminal = (if is_terminal (tk_status t) then terminal + 1 else terminal);
            completed = (if tk_status t = Completed then completed + 1 else completed)
        in if \<not> blank (tk_blocker_type t)
           then (sc, bump (tk_blocker_type t) bc, blocked + 1, terminal, completed)
           else (sc, bc, blocked, terminal, completed))"

text \<open>Both rates are quotients of numbers below \<open>2 ^ 53\<close> cut to integers, which 64-bit floats give
  as the integer division does.\<close>

definition task_stats_of :: "int \<Rightarrow> task list \<Rightarrow> task_stats" where
  "task_stats_of limit items =
     (let (sc, bc, blocked, terminal, completed) = foldl stats_step (zero_status_counts, Map.empty, 0, 0, 0) items;
          failed = (case sc ''failed'' of Some n \<Rightarrow> n | None \<Rightarrow> 0)
      in \<lparr>sx_limit = limit, sx_fetched = int (length items), sx_terminal = terminal, sx_blocked = blocked,
          sx_status_counts = sc, sx_blocker_counts = bc,
          sx_success_rate = (if terminal > 0 then completed * 100 div terminal else 0),
          sx_block_rate = (if failed > 0 then blocked * 100 div failed else 0)\<rparr>)"

definition handle_task_stats :: "gostr list \<Rightarrow> request \<Rightarrow> 'l server \<Rightarrow> response" where
  "handle_task_stats ks r w =
     (if rq_method r \<noteq> ''GET'' then method_not_allowed
      else case bounded_param 300 1000 (rq_query r ''limit'') of
          None \<Rightarrow> invalid_limit
        | Some limit \<Rightarrow> write_json Map.empty 200 (PStats (task_stats_of limit (task_list_recent ks limit (sv_tasks w)))))"

section \<open>The handlers by path\<close>

text \<open>A handler does its work directly, or gives it with a scope to
  \<open>handleIdempotentRequest\<close>, which theory ApiRoutes applies.\<close>

type_synonym 'l plain = "'l server \<Rightarrow> response \<times> 'l server"

datatype 'l routed = Plain "'l plain" | Keyed gostr "'l plain"

definition answer :: "response \<Rightarrow> 'l routed" where
  "answer r = Plain (\<lambda>w. (r, w))"

definition look_up :: "('l server \<Rightarrow> response) \<Rightarrow> 'l routed" where
  "look_up f = Plain (\<lambda>w. (f w, w))"

definition handle_tasks ::
  "server_config \<Rightarrow> 'l api_env \<Rightarrow> request \<Rightarrow> 'l routed" where
  "handle_tasks cfg env r =
     (if rq_method r = ''GET'' then look_up (list_recent_tasks (ae_order env) r)
      else if rq_method r = ''POST'' then Keyed ''tasks:create'' (create_and_queue_task cfg env False r)
      else answer method_not_allowed)"

definition handle_task_alias ::
  "server_config \<Rightarrow> 'l api_env \<Rightarrow> request \<Rightarrow> 'l routed" where
  "handle_task_alias cfg env r =
     (if rq_method r \<noteq> ''POST'' then answer method_not_allowed
      else Keyed ''tasks:create'' (create_and_queue_task cfg env True r))"

definition task_id_required :: response where
  "task_id_required = bad_request ''invalid_task_id'' ''task id is required''"

definition get_task :: "gostr \<Rightarrow> 'l server \<Rightarrow> response" where
  "get_task tid w =
     (case task_get tid (sv_tasks w) of
        Inl e \<Rightarrow> not_found (task_error_text e)
      | Inr t \<Rightarrow> write_json Map.empty 200 (PTask (Some t)))"

definition handle_task_alias_by_id :: "request \<Rightarrow> 'l routed" where
  "handle_task_alias_by_id r =
     (let i = trim_space (trim_prefix (rq_path r) ''/tasks/'') in
      if i = [] then answer task_id_required
      else if contains i ''/'' then answer http_not_found
      else if rq_method r \<noteq> ''GET'' then answer method_not_allowed
      else look_up (get_task i))"

definition handle_task_by_id ::
  "server_config \<Rightarrow> 'l api_env \<Rightarrow> request \<Rightarrow> 'l routed" where
  "handle_task_by_id cfg env r =
     (let path = trim_prefix (rq_path r) ''/v1/tasks/'';
          parts = split_at path (CHR ''/'') [];
          i = trim_space (hd parts)
      in if path = [] then answer task_id_required
         else if i = [] then answer task_id_required
         else if length parts = 1
         then if rq_method r = ''GET'' then look_up (get_task i) else answer method_not_allowed
         else if length parts = 2 \<and> parts ! 1 = ''replay''
         then if rq_method r \<noteq> ''POST'' then answer method_not_allowed
              else Keyed (''tasks:replay:'' @ trim_space i) (replay_task_now cfg env i r)
         else if length parts = 2 \<and> parts ! 1 = ''cancel''
         then if rq_method r \<noteq> ''POST'' then answer method_not_allowed
              else Plain (cancel_task_handler cfg (ae_clock env 0) i)
         else if length parts = 2 \<and> parts ! 1 = ''replay_chain''
         then if rq_method r \<noteq> ''GET'' then answer method_not_allowed else look_up (get_replay_chain r i)
         else if length parts = 2 \<and> parts ! 1 = ''replays''
         then if rq_method r \<noteq> ''GET'' then answer method_not_allowed
              else look_up (list_direct_replays (ae_order env) r i)
         else answer http_not_found)"

definition create_session_now :: "server_config \<Rightarrow> 'l api_env \<Rightarrow> request \<Rightarrow> 'l plain" where
  "create_session_now cfg env r w =
     (case sc_decode_session cfg (rq_body r) of
        Decoded tenant \<Rightarrow>
          (case session_create (ae_clock env 0) (trim_space tenant) (sv_sessions w) of
             (Inl e, ss) \<Rightarrow> (bad_request ''create_failed'' (session_error_text e), w\<lparr>sv_sessions := ss\<rparr>)
           | (Inr s, ss) \<Rightarrow> (write_json Map.empty 201 (PSession s), w\<lparr>sv_sessions := ss\<rparr>))
      | _ \<Rightarrow> (invalid_json, w))"

definition handle_sessions ::
  "server_config \<Rightarrow> 'l api_env \<Rightarrow> request \<Rightarrow> 'l routed" where
  "handle_sessions cfg env r =
     (if rq_method r = ''POST'' then Keyed ''sessions:create'' (create_session_now cfg env r)
      else answer method_not_allowed)"

definition session_path_id :: "request \<Rightarrow> gostr" where
  "session_path_id r =
     (let i = trim_space (trim_prefix (rq_path r) ''/v1/sessions/'') in
      if i = rq_path r then trim_space (trim_prefix (rq_path r) ''/sessions/'') else i)"

definition handle_session_by_id :: "request \<Rightarrow> 'l plain" where
  "handle_session_by_id r w =
     (let i = session_path_id r in
      if i = [] then (bad_request ''invalid_session_id'' ''session id is required'', w)
      else if rq_method r = ''DELETE''
      then (case session_delete i (sv_sessions w) of
          (Inl e, ss) \<Rightarrow> (not_found (session_error_text e), w\<lparr>sv_sessions := ss\<rparr>)
        | (Inr _, ss) \<Rightarrow> (no_content, w\<lparr>sv_sessions := ss\<rparr>))
      else (method_not_allowed, w))"

end
