(* ===== verification/ApiTasks.thy ===== *)
theory ApiTasks
  imports Api
begin

text \<open>
  What holds of the task handlers of theory Api: a created task is queued or failed and never
  lost, a replay repeats the request of its source, cancelling, the replay chain and the
  statistics.
\<close>

section \<open>Lemmas\<close>

lemma sv_tasks_set [simp]: "sv_tasks (set_tasks ts w) = ts" "sv_sessions (set_tasks ts w) = sv_sessions w"
  by (simp_all add: sv_tasks_def set_tasks_def)

lemma enqueue_tasks [simp]: "ru_tasks (snd (enqueue cfg e tid s)) = ru_tasks s"
  by (auto simp: enqueue_def Let_def clear_enqueued_def split: option.split)

lemma enqueue_ok: "enqueue cfg e tid s = (None, s') \<Longrightarrow> \<not> blank tid \<and> trim_space tid \<in> ru_enqueued s'"
  by (auto simp: enqueue_def Let_def split: if_splits option.splits)

lemma task_create_ok:
  assumes "task_create now inp ts = (Inr t, ts')"
  shows "ts_items ts' (tk_id t) = Some t" "tk_status t = Queued" "tk_source t = ci_source inp"
    "tk_session t = ci_session inp" "tk_url t = ci_url inp" "tk_goal t = ci_goal inp"
    "tk_actions t = ci_actions inp" "tk_max_retries t = ci_max_retries inp" "tk_attempt t = 0"
  using assms by (auto simp: task_create_def Let_def split: if_splits)

lemma fail_unqueued_ok:
  assumes "ts_items (sv_tasks w) tid = Some t" "tk_status t = Queued"
  shows "\<exists>u w'. fail_unqueued now tid msg w = (Some u, w') \<and> ts_items (sv_tasks w') tid = Some u
    \<and> tk_status u = Failed \<and> tk_error u = msg \<and> same_request t u"
  using assms
  by (simp add: fail_unqueued_def task_fail_def task_update_def unless_status_def fail_task_def same_request_def)

lemma enqueue_created_outcome:
  assumes "ts_items (sv_tasks w) (tk_id t) = Some t" "tk_status t = Queued"
    and "enqueue_created_task cfg env t w = ((q, st, ok), w')"
  shows "\<exists>u. q = Some u \<and> ts_items (sv_tasks w') (tk_id t) = Some u \<and> same_request t u
    \<and> (if ok then st = 202 \<and> u = t \<and> trim_space (tk_id t) \<in> ru_enqueued (sv_run w')
       else tk_status u = Failed \<and> (st = 500 \<or> st = 503))"
proof (cases "sc_dispatcher cfg")
  case None
  obtain u w1 where f: "fail_unqueued (ae_clock env 1) (tk_id t) ''task dispatcher is not configured'' w = (Some u, w1)"
    "ts_items (sv_tasks w1) (tk_id t) = Some u" "tk_status u = Failed" "same_request t u"
    using fail_unqueued_ok [OF assms(1,2)] by metis
  with None assms(3) have "q = Some u" "w' = w1" "st = 500" "\<not> ok" by (auto simp: enqueue_created_task_def)
  with f(2-4) show ?thesis by simp
next
  case (Some rc)
  obtain r s where q: "enqueue rc (ae_ended env) (tk_id t) (sv_run w) = (r, s)" by (rule prod.exhaust)
  then have ts: "sv_tasks (w\<lparr>sv_run := s\<rparr>) = sv_tasks w"
    using enqueue_tasks [of rc "ae_ended env" "tk_id t" "sv_run w"] by (simp add: sv_tasks_def)
  show ?thesis
  proof (cases r)
    case None
    have "same_request t t" by (simp add: same_request_def)
    moreover from None q Some assms(3) have "q = Some t" "st = 202" ok "w' = w\<lparr>sv_run := s\<rparr>"
      by (auto simp: enqueue_created_task_def)
    moreover have "trim_space (tk_id t) \<in> ru_enqueued s" using enqueue_ok q None by blast
    ultimately show ?thesis using assms(1) ts by simp
  next
    case (Some e)
    obtain u w1 where f: "fail_unqueued (ae_clock env 1) (tk_id t) (enqueue_error_text e) (w\<lparr>sv_run := s\<rparr>) = (Some u, w1)"
      "ts_items (sv_tasks w1) (tk_id t) = Some u" "tk_status u = Failed" "same_request t u"
      using fail_unqueued_ok [of "w\<lparr>sv_run := s\<rparr>" "tk_id t" t] assms(1,2) ts by metis
    with Some q \<open>sc_dispatcher cfg = Some rc\<close> assms(3)
    have "q = Some u" "w' = w1" "st = 500 \<or> st = 503" "\<not> ok" by (auto simp: enqueue_created_task_def)
    with f(2-4) show ?thesis by simp
  qed
qed

section \<open>The replay chain\<close>

definition linked :: "task_state \<Rightarrow> task list \<Rightarrow> bool" where
  "linked ts chain \<longleftrightarrow> (\<forall>i. Suc i < length chain \<longrightarrow>
     ts_items ts (trim_space (tk_source (chain ! i))) = Some (chain ! Suc i))"

lemma linked_snoc:
  assumes "linked ts chain" "chain \<noteq> [] \<Longrightarrow> ts_items ts (trim_space (tk_source (last chain))) = Some t"
  shows "linked ts (chain @ [t])"
  unfolding linked_def
proof (intro allI impI)
  fix i
  assume i: "Suc i < length (chain @ [t])"
  show "ts_items ts (trim_space (tk_source ((chain @ [t]) ! i))) = Some ((chain @ [t]) ! Suc i)"
  proof (cases "Suc i < length chain")
    case True
    with assms(1) show ?thesis by (simp add: linked_def nth_append)
  next
    case False
    with i have l: "length chain = Suc i" by simp
    then have "last chain = chain ! i" by (cases chain rule: rev_cases) (auto simp: nth_append)
    moreover have "chain \<noteq> []" using l by auto
    ultimately show ?thesis using assms(2) l by (auto simp: nth_append)
  qed
qed

lemma chain_loop_spec:
  assumes "tasks_inv ts" "chain_loop ts n next_id visited chain = Inr (res, rest, stopped)"
    and "visited = map tk_id chain" "distinct visited" "linked ts chain"
    and "if chain = [] then next_id = first else next_id = trim_space (tk_source (last chain))
           \<and> ts_items ts first = Some (hd chain)"
  shows "linked ts res \<and> distinct (map tk_id res) \<and> length res \<le> length chain + n
    \<and> (res \<noteq> [] \<longrightarrow> ts_items ts first = Some (hd res) \<and> rest = trim_space (tk_source (last res)))
    \<and> (res = [] \<longrightarrow> n = 0 \<or> first = [])
    \<and> (\<not> stopped \<longrightarrow> rest = [] \<or> length res = length chain + n)"
  using assms(2-)
proof (induction n arbitrary: next_id visited chain)
  case 0
  then show ?case by (auto split: if_splits)
next
  case (Suc n)
  consider "next_id = []" | "next_id \<noteq> []" "next_id \<in> set visited" | "next_id \<noteq> []" "next_id \<notin> set visited"
    by blast
  then show ?case
  proof cases
    case 1
    with Suc.prems show ?thesis by (auto split: if_splits)
  next
    case 2
    with Suc.prems show ?thesis by (auto split: if_splits)
  next
    case 3
    show ?thesis
    proof (cases "task_get next_id ts")
      case (Inl e)
      with 3 Suc.prems show ?thesis by (auto split: if_splits)
    next
      case (Inr t)
      then have t: "ts_items ts next_id = Some t" by (auto simp: task_get_def split: option.splits)
      then have i: "tk_id t = next_id" using assms(1) by (auto simp: tasks_inv_def)
      have l: "linked ts (chain @ [t])"
        by (rule linked_snoc [OF Suc.prems(4)]) (use Suc.prems(5) t in auto)
      have "if chain @ [t] = [] then trim_space (tk_source t) = first
          else trim_space (tk_source t) = trim_space (tk_source (last (chain @ [t])))
            \<and> ts_items ts first = Some (hd (chain @ [t]))"
        using Suc.prems(5) t by (auto split: if_splits)
      from Suc.IH [OF _ _ _ l this, of "visited @ [next_id]"] Suc.prems 3 Inr i show ?thesis by auto
    qed
  qed
qed


section \<open>Properties\<close>

text \<open>C22: a created task is never lost. When the request was valid, exactly one new task is stored
  and answered, with the URL and goal of the request; it is queued under its identifier and the
  status is 202, or it could not be queued, is stored as failed, and the status is 503 or 500.\<close>

theorem created_task_queued_or_failed:
  assumes "tasks_inv (sv_tasks w)" "sc_decode_create cfg (rq_body r) = Decoded req" "cr_wait req = Some False"
    and "create_and_queue_task cfg env dw r w = (resp, w')" "rs_status resp \<noteq> 400"
  shows "\<exists>t. rs_body resp = PTask (Some t) \<and> ts_items (sv_tasks w) (tk_id t) = None
    \<and> ts_items (sv_tasks w') (tk_id t) = Some t
    \<and> tk_url t = trim_space (cr_url req) \<and> tk_goal t = trim_space (cr_goal req)
    \<and> (rs_status resp = 202 \<and> tk_status t = Queued \<and> trim_space (tk_id t) \<in> ru_enqueued (sv_run w')
       \<or> rs_status resp \<in> {500, 503} \<and> tk_status t = Failed)"
proof -
  obtain res w1 where s: "resolve_task_session cfg (ae_clock env 0) (trim_space (cr_session req)) (trim_space (cr_tenant req)) w = (res, w1)"
    by (rule prod.exhaust)
  then have w1: "sv_tasks w1 = sv_tasks w"
    by (auto simp: resolve_task_session_def Let_def sv_tasks_def split: if_splits option.splits prod.splits sum.splits)
  from s assms(2,4,5) obtain sid where sid: "res = Inr sid"
    by (cases res) (auto simp: create_and_queue_task_def bad_request_def)
  let ?inp = "\<lparr>ci_source = [], ci_session = sid, ci_url = trim_space (cr_url req), ci_goal = trim_space (cr_goal req),
    ci_actions = map_task_actions (cr_actions req),
    ci_max_retries = (case cr_max_retries req of Some n \<Rightarrow> n | None \<Rightarrow> sc_default_retries cfg)\<rparr>"
  obtain c ts where c: "task_create (ae_clock env 0) ?inp (sv_tasks w1) = (c, ts)" by (rule prod.exhaust)
  from s sid c assms(2,4,5) obtain t where t: "c = Inr t"
    by (cases c) (auto simp: create_and_queue_task_def bad_request_def)
  note ct = c [unfolded t]
  note tf = task_create_ok [OF ct]
  have new: "ts_items (sv_tasks w) (tk_id t) = None"
    using mem_tasks.create_ok [OF _ ct] assms(1) w1 by simp
  obtain q st ok w2 where e: "enqueue_created_task cfg env t (set_tasks ts w1) = ((q, st, ok), w2)"
    by (metis prod.exhaust)
  from enqueue_created_outcome [OF _ tf(2) e] tf(1) obtain u where
    u: "q = Some u" "ts_items (sv_tasks w2) (tk_id t) = Some u" "same_request t u"
      "if ok then st = 202 \<and> u = t \<and> trim_space (tk_id t) \<in> ru_enqueued (sv_run w2)
       else tk_status u = Failed \<and> (st = 500 \<or> st = 503)"
    by auto
  have r: "resp = write_json (trace_headers (tk_id t)) (if ok then 202 else st) (PTask q)" "w' = w2"
    using s sid c t e assms(2-4) by (auto simp: create_and_queue_task_def Let_def split: if_splits)
  have "tk_id u = tk_id t" "tk_url u = tk_url t" "tk_goal u = tk_goal t"
    using u(3) by (simp_all add: same_request_def)
  with r u new tf show ?thesis by (auto split: if_splits)
qed

definition demo_create_request :: create_task_request where
  "demo_create_request = \<lparr>cr_session = [], cr_tenant = ''acme'', cr_url = ''http://a'', cr_goal = ''g'',
     cr_actions = [], cr_max_retries = Some 1, cr_wait = Some False, cr_wait_timeout_ms = 0\<rparr>"

definition demo_server_config :: server_config where
  "demo_server_config = \<lparr>sc_has_sessions = True, sc_dispatcher = Some demo_runner_config, sc_default_retries = 0,
     sc_quote = (\<lambda>s. s), sc_decode_create = (\<lambda>_. Decoded demo_create_request),
     sc_decode_replay = (\<lambda>_. DecodeEOF), sc_decode_session = (\<lambda>_. Decoded ''acme'')\<rparr>"

definition demo_server :: "lease_state server" where
  "demo_server = \<lparr>sv_sessions = new_sessions, sv_run = demo_runner\<rparr>"

definition demo_api_env :: "lease_state api_env" where
  "demo_api_env = \<lparr>ae_clock = (\<lambda>i. 50 + int i), ae_order = [''task_000001''], ae_ended = None, ae_waits = []\<rparr>"

definition demo_post :: request where
  "demo_post = \<lparr>rq_method = ''POST'', rq_path = ''/v1/tasks'', rq_header = (\<lambda>_. []), rq_query = (\<lambda>_. []),
     rq_remote = [], rq_body = []\<rparr>"

lemma demo_server_inv: "tasks_inv (sv_tasks demo_server)"
  using demo_tasks_inv by (simp add: sv_tasks_def demo_server_def demo_runner_def)

theorem created_task_queued_or_failed_witness:
  "\<exists>t. rs_body (fst (create_and_queue_task demo_server_config demo_api_env False demo_post demo_server)) = PTask (Some t)
     \<and> tk_url t = ''http://a''"
proof -
  obtain resp w' where q: "create_and_queue_task demo_server_config demo_api_env False demo_post demo_server = (resp, w')"
    by (rule prod.exhaust)
  have tr: "trim_space ''acme'' = ''acme''" "trim_space ''http://a'' = ''http://a''" "trim_space ''g'' = ''g''" "trim_space [] = []"
    by (simp_all add: plain_ends_def plain_char_def)
  have sid: "session_id_of (Suc 0) \<noteq> []" by (simp add: session_id_of_def)
  have "rs_status resp \<noteq> 400"
    using arg_cong [OF q, of "\<lambda>x. rs_status (fst x)"]
    by (auto simp: create_and_queue_task_def demo_server_config_def demo_create_request_def
        resolve_task_session_def tr session_create_def Let_def demo_server_def new_sessions_def
        task_create_def sid enqueue_created_task_def fail_unqueued_def
        split: prod.splits sum.splits option.splits if_splits)
  from created_task_queued_or_failed [OF demo_server_inv _ _ q this, of demo_create_request] q show ?thesis
    by (auto simp: demo_server_config_def demo_create_request_def tr)
qed

text \<open>The replay chain of a task is what it says: it starts with the task, each task is followed
  by the one it replays, no task occurs twice (so a cycle of sources ends it), it is at most as
  long as asked for, and when it is not reported as truncated it ends with a task that replays
  nothing.\<close>

lemma replay_chain_spec:
  assumes "tasks_inv ts" "0 < depth" "\<not> blank tid" "replay_chain ts depth tid = Inr (chain, truncated)"
  shows "chain \<noteq> [] \<and> ts_items ts (trim_space tid) = Some (hd chain) \<and> linked ts chain
    \<and> distinct (map tk_id chain) \<and> int (length chain) \<le> depth
    \<and> (\<not> truncated \<longrightarrow> blank (tk_source (last chain)))"
proof -
  from assms(4) obtain rest stopped where
    q: "chain_loop ts (nat depth) (trim_space tid) [] [] = Inr (chain, rest, stopped)"
    and t: "truncated = (stopped \<or> rest \<noteq> [] \<and> depth \<le> int (length chain))"
    by (auto simp: replay_chain_def split: sum.splits prod.splits)
  have "linked ts []" by (simp add: linked_def)
  note spec = chain_loop_spec [OF assms(1) q _ _ this, of "trim_space tid"]
  have d: "length chain \<le> nat depth \<longleftrightarrow> int (length chain) \<le> depth"
    "length chain = nat depth \<longleftrightarrow> int (length chain) = depth"
    using assms(2) by linarith+
  from spec assms(2,3) t show ?thesis by (auto simp: d)
qed

lemma replay_chain_spec_at_work:
  "\<exists>chain. replay_chain demo_tasks 20 '' task_000001'' = Inr (chain, False) \<and> length chain \<le> 20"
proof -
  have t: "trim_space '' task_000001'' = ''task_000001''" by code_simp
  have n: "nat 20 = Suc 19" by simp
  have c: "replay_chain demo_tasks 20 '' task_000001'' = Inr ([demo_task], False)"
    by (simp add: replay_chain_def t n task_get_def demo_tasks_def plain_ends_def demo_task_def eval_nat_numeral)
  from replay_chain_spec [OF demo_tasks_inv _ _ c] t c show ?thesis by auto
qed

text \<open>A cancel request ends a task that is not finished and touches no other: a queued or running
  task is canceled and answered with 200, a running one's execution is told to stop when a runner
  has it registered, and a finished one is answered 409 and stays as it is.\<close>

lemma cancel_request_outcome:
  assumes "ts_items (sv_tasks w) tid = Some t" "tk_id t = tid" "cancel_task_handler cfg now tid w = (resp, w')"
  shows "if is_terminal (tk_status t)
     then rs_status resp = 409 \<and> sv_tasks w' = sv_tasks w
     else rs_status resp = 200 \<and> (\<exists>u. ts_items (sv_tasks w') = (ts_items (sv_tasks w))(tid \<mapsto> u)
            \<and> tk_status u = Canceled \<and> same_request t u)
       \<and> (tk_status t = Running \<and> sc_dispatcher cfg \<noteq> None \<and> \<not> blank tid \<and> trim_space tid \<in> ru_running (sv_run w)
            \<longrightarrow> trim_space tid \<in> ru_stopped (sv_run w'))"
proof -
  let ?w = "if tk_status t = Running \<and> sc_dispatcher cfg \<noteq> None
     then w\<lparr>sv_run := snd (runner_cancel (tk_id t) (sv_run w))\<rparr> else w"
  have ts: "sv_tasks ?w = sv_tasks w" by (simp add: sv_tasks_def runner_cancel_def Let_def)
  have g: "task_get tid (sv_tasks w) = Inr t" using assms(1) by (simp add: task_get_def)
  let ?ca = "\<lparr>ca_task = tk_id t, ca_reason = ''task canceled by api request'', ca_completed = now, ca_by = ''api''\<rparr>"
  show ?thesis
  proof (cases "is_terminal (tk_status t)")
    case True
    then have "task_cancel now ?ca (sv_tasks w) = (Inl TaskNotCancelable, sv_tasks w)"
      using assms(1,2) by (simp add: task_cancel_def task_update_def unless_status_def is_terminal_def)
    with True assms(3) g ts show ?thesis by (auto simp: cancel_task_handler_def Let_def)
  next
    case False
    then have c: "task_cancel now ?ca (sv_tasks w) = (Inr (cancel_task now ?ca t),
        (sv_tasks w)\<lparr>ts_items := (ts_items (sv_tasks w))(tid \<mapsto> cancel_task now ?ca t)\<rparr>)"
      using assms(1,2) by (auto simp: task_cancel_def task_update_def unless_status_def is_terminal_def)
    have "w' = set_tasks ((sv_tasks w)\<lparr>ts_items := (ts_items (sv_tasks w))(tid \<mapsto> cancel_task now ?ca t)\<rparr>) ?w"
      "rs_status resp = 200"
      using assms(3) g c ts by (auto simp: cancel_task_handler_def Let_def)
    then show ?thesis using False assms(2)
      by (auto simp: set_tasks_def sv_tasks_def runner_cancel_def Let_def cancel_task_def same_request_def)
  qed
qed

lemma cancel_request_outcome_at_work:
  "rs_status (fst (cancel_task_handler demo_server_config 60 ''task_000001'' demo_server)) = 200"
proof -
  have "ts_items (sv_tasks demo_server) ''task_000001'' = Some demo_task" "tk_id demo_task = ''task_000001''"
    "\<not> is_terminal (tk_status demo_task)"
    by (simp_all add: sv_tasks_def demo_server_def demo_runner_def demo_tasks_def demo_task_def is_terminal_def)
  from cancel_request_outcome [OF this(1,2) prod.collapse [symmetric], of demo_server_config 60] this(3)
  show ?thesis by (simp only: if_False)
qed

end
