(* ===== verification/ApiRoutes.thy ===== *)
theory ApiRoutes
  imports ApiTasks ApiIdempotency Security
begin

text \<open>
  The node handlers, \<open>internal/api/nodes.go\<close>, and the whole server: a request passes the security
  wrapper, \<open>route\<close> chooses a handler for it, and a keyed handler runs under its idempotency key.
  \<open>routes\<close> is the choice as a chain of tests of the path, where dashboard, assets, metrics and
  artifacts, which read only, are one handler \<open>ro\<close>; theory \<open>Mux\<close> has the table of patterns of
  \<open>internal/api/server.go\<close> and proves that it chooses the same.
\<close>

section \<open>Nodes\<close>

record register_request =
  nq_node :: gostr
  nq_address :: gostr
  nq_version :: gostr
  nq_booted :: gostr

record heartbeat_request =
  hq_state :: gostr
  hq_at :: gostr

record node_api =
  na_decode_register :: "gostr \<Rightarrow> register_request decoded"
  na_decode_heartbeat :: "gostr \<Rightarrow> heartbeat_request decoded"
  na_parse_time :: "gostr \<Rightarrow> go_time option"
  na_state_store :: bool
  na_recycler :: "(gostr \<Rightarrow> go_error option) option"
  na_order :: "gostr list"
  na_clock :: "nat \<Rightarrow> go_time"

definition set_nodes :: "registry_state \<Rightarrow> 'l server \<Rightarrow> 'l server" where
  "set_nodes ns w = w\<lparr>sv_run := (sv_run w)\<lparr>ru_nodes := ns\<rparr>\<rparr>"

definition sv_nodes :: "'l server \<Rightarrow> registry_state" where
  "sv_nodes w = ru_nodes (sv_run w)"

definition parse_rfc3339 :: "node_api \<Rightarrow> gostr \<Rightarrow> go_time option" where
  "parse_rfc3339 na v = (if blank v then Some zero_time else na_parse_time na (trim_space v))"

definition handle_nodes :: "node_api \<Rightarrow> request \<Rightarrow> 'l routed" where
  "handle_nodes na r =
     (if rq_method r = ''GET''
      then look_up (\<lambda>w. write_json Map.empty 200 (PNodes (registry_list (na_order na) (sv_nodes w))))
      else answer method_not_allowed)"

definition register_node :: "node_api \<Rightarrow> request \<Rightarrow> 'l plain" where
  "register_node na r w =
     (case na_decode_register na (rq_body r) of
        Decoded req \<Rightarrow>
          (case parse_rfc3339 na (nq_booted req) of
             None \<Rightarrow> (bad_request ''invalid_booted_at'' ''booted_at must be RFC3339'', w)
           | Some booted \<Rightarrow>
               (case registry_register (na_clock na 0)
                   \<lparr>rg_node = trim_space (nq_node req), rg_address = trim_space (nq_address req),
                    rg_version = trim_space (nq_version req), rg_booted = booted\<rparr> (sv_nodes w) of
                  (Inl e, ns) \<Rightarrow> (bad_request ''register_failed'' (registry_error_text e), set_nodes ns w)
                | (Inr n, ns) \<Rightarrow> (write_json Map.empty 201 (PNode n), set_nodes ns w)))
      | _ \<Rightarrow> (invalid_json, w))"

definition handle_node_register :: "node_api \<Rightarrow> request \<Rightarrow> 'l routed" where
  "handle_node_register na r =
     (if rq_method r \<noteq> ''POST'' then answer method_not_allowed else Plain (register_node na r))"

text \<open>The answer to an operation of the registry on one node.\<close>

definition node_answer ::
  "gostr \<Rightarrow> (registry_error + node) \<times> registry_state \<Rightarrow> 'l plain" where
  "node_answer code res w =
     (case res of
        (Inl NodeNotFound, ns) \<Rightarrow> (not_found (registry_error_text NodeNotFound), set_nodes ns w)
      | (Inl e, ns) \<Rightarrow> (bad_request code (registry_error_text e), set_nodes ns w)
      | (Inr n, ns) \<Rightarrow> (write_json Map.empty 200 (PNode n), set_nodes ns w))"

definition node_heartbeat :: "node_api \<Rightarrow> request \<Rightarrow> gostr \<Rightarrow> 'l plain" where
  "node_heartbeat na r nid w =
     (case na_decode_heartbeat na (rq_body r) of
        Decoded req \<Rightarrow>
          (case parse_rfc3339 na (hq_at req) of
             None \<Rightarrow> (bad_request ''invalid_heartbeat_at'' ''heartbeat_at must be RFC3339'', w)
           | Some at \<Rightarrow>
               (case parse_node_state (hq_state req) of
                  Inl e \<Rightarrow> (bad_request ''invalid_state'' (err_text e), w)
                | Inr st \<Rightarrow>
                    node_answer ''heartbeat_failed''
                      (registry_heartbeat (na_clock na 0)
                         \<lparr>hb_node = nid, hb_state = Some st, hb_at = at, hb_leased_until = zero_time\<rparr> (sv_nodes w)) w))
      | _ \<Rightarrow> (invalid_json, w))"

definition unsupported_state :: response where
  "unsupported_state = write_error Map.empty 501 ''unsupported_operation''
     ''node state updates are not supported by this registry''"

definition node_set_state :: "node_api \<Rightarrow> request \<Rightarrow> gostr \<Rightarrow> node_state \<Rightarrow> 'l routed" where
  "node_set_state na r nid st =
     (if rq_method r \<noteq> ''POST'' then answer method_not_allowed
      else if \<not> na_state_store na then answer unsupported_state
      else Plain (\<lambda>w. node_answer ''set_state_failed''
             (registry_set_state (na_clock na 0) nid (Some st) (na_clock na 0) (sv_nodes w)) w))"

definition recycle_node :: "node_api \<Rightarrow> (gostr \<Rightarrow> go_error option) \<Rightarrow> gostr \<Rightarrow> 'l plain" where
  "recycle_node na destroy nid w =
     (let (res, ns) = registry_set_state (na_clock na 0) nid (Some NodeDraining) (na_clock na 0) (sv_nodes w);
          w1 = set_nodes ns w
      in case (case res of Inl e \<Rightarrow> if e = NodeNotFound then None else Some e | Inr _ \<Rightarrow> None) of
           Some e \<Rightarrow> (bad_request ''set_state_failed'' (registry_error_text e), w1)
         | None \<Rightarrow>
             (case destroy nid of
                Some e \<Rightarrow> (write_error Map.empty 502 ''destroy_failed'' (err_text e), w1)
              | None \<Rightarrow>
                  node_answer ''set_state_failed''
                    (registry_set_state (na_clock na 1) nid (Some NodeDead) (na_clock na 1) (sv_nodes w1)) w1))"

definition node_recycle :: "node_api \<Rightarrow> request \<Rightarrow> gostr \<Rightarrow> 'l routed" where
  "node_recycle na r nid =
     (if rq_method r \<noteq> ''POST'' then answer method_not_allowed
      else if \<not> na_state_store na then answer unsupported_state
      else case na_recycler na of
          None \<Rightarrow> answer (write_error Map.empty 501 ''unsupported_operation''
                   ''node recycle is not supported in this mode'')
        | Some destroy \<Rightarrow> Plain (recycle_node na destroy nid))"

definition handle_node_by_id :: "node_api \<Rightarrow> request \<Rightarrow> 'l routed" where
  "handle_node_by_id na r =
     (let parts = split_at (trim_prefix (rq_path r) ''/v1/nodes/'') (CHR ''/'') [] in
      if length parts \<noteq> 2 \<or> blank (parts ! 0) \<or> blank (parts ! 1)
      then answer (bad_request ''invalid_node_path'' ''expected /v1/nodes/{id}/{heartbeat|drain|activate|recycle}'')
      else
        let nid = trim_space (parts ! 0); act = trim_space (parts ! 1) in
        if act = ''heartbeat''
        then (if rq_method r \<noteq> ''POST'' then answer method_not_allowed else Plain (node_heartbeat na r nid))
        else if act = ''drain'' then node_set_state na r nid NodeDraining
        else if act = ''activate'' then node_set_state na r nid NodeReady
        else if act = ''recycle'' then node_recycle na r nid
        else answer (write_error Map.empty 404 ''not_found'' ''route not found''))"

section \<open>The routes\<close>

definition routes ::
  "server_config \<Rightarrow> node_api \<Rightarrow> (request \<Rightarrow> 'l server \<Rightarrow> response) \<Rightarrow> 'l api_env \<Rightarrow> request \<Rightarrow> 'l routed" where
  "routes cfg na ro env r =
     (let p = rq_path r in
      if p = ''/healthz'' then answer (write_json Map.empty 200 (PStatus ''ok''))
      else if p = ''/sessions'' \<or> p = ''/v1/sessions'' then handle_sessions cfg env r
      else if has_prefix p ''/sessions/'' \<or> has_prefix p ''/v1/sessions/'' then Plain (handle_session_by_id r)
      else if p = ''/task'' then handle_task_alias cfg env r
      else if has_prefix p ''/tasks/'' then handle_task_alias_by_id r
      else if p = ''/v1/tasks'' then handle_tasks cfg env r
      else if p = ''/v1/tasks/stats'' then look_up (handle_task_stats (ae_order env) r)
      else if has_prefix p ''/v1/tasks/'' then handle_task_by_id cfg env r
      else if p = ''/v1/nodes'' then handle_nodes na r
      else if p = ''/v1/nodes/register'' then handle_node_register na r
      else if has_prefix p ''/v1/nodes/'' then handle_node_by_id na r
      else look_up (ro r))"

text \<open>A keyed handler runs under its key; without a key it runs as it is. The state is the
  idempotency store and the server.\<close>

definition serve_routed ::
  "(gostr \<Rightarrow> gostr) \<Rightarrow> payload idem_state idem_call \<Rightarrow> 'l routed \<Rightarrow> payload idem_state \<times> 'l server \<Rightarrow>
     response \<times> payload idem_state \<times> 'l server" where
  "serve_routed digest c rt sw =
     (case rt of
        Plain f \<Rightarrow> (let (r, w') = f (snd sw) in (r, fst sw, w'))
      | Keyed scope f \<Rightarrow>
          (case handle_idempotent (idem_get digest) (idem_claim digest) (idem_save digest) (idem_release digest)
               (c\<lparr>ic_scope := scope\<rparr>) f sw of
             (Some r, s', w') \<Rightarrow> (r, s', w')
           | (None, s', w') \<Rightarrow> (let (r, w'') = f w' in (r, s', w''))))"

definition serve ::
  "gostr \<Rightarrow> (request \<Rightarrow> 'l routed) \<Rightarrow> (gostr \<Rightarrow> gostr) \<Rightarrow> payload idem_state idem_call \<Rightarrow> go_time \<Rightarrow> request \<Rightarrow>
   limiter option \<times> payload idem_state \<times> 'l server \<Rightarrow> response \<times> limiter option \<times> payload idem_state \<times> 'l server" where
  "serve api_key route digest c now r st =
     with_api_security api_key now
       (\<lambda>r. serve_routed digest (c\<lparr>ic_header := rq_header r ''Idempotency-Key''\<rparr>) (route r)) r st"

section \<open>Which requests can change tasks\<close>

text \<open>A request is read-only for tasks when its handler is a plain one that keeps them.\<close>

definition keeps_tasks :: "'l routed \<Rightarrow> bool" where
  "keeps_tasks rt \<longleftrightarrow> (\<exists>f. rt = Plain f \<and> (\<forall>w. sv_tasks (snd (f w)) = sv_tasks w))"

lemma keeps_answer [simp]: "keeps_tasks (answer r)" "keeps_tasks (look_up f)"
  by (simp_all add: keeps_tasks_def answer_def look_up_def)

lemma keeps_set_nodes [simp]: "sv_tasks (set_nodes ns w) = sv_tasks w"
  by (simp add: sv_tasks_def set_nodes_def)

lemma node_answer_tasks [simp]: "sv_tasks (snd (node_answer code res w)) = sv_tasks w"
  by (auto simp: node_answer_def split: prod.split sum.split registry_error.split)

lemma keeps_nodes: "keeps_tasks (handle_nodes na r)"
  by (simp add: handle_nodes_def)

lemma register_node_tasks [simp]: "sv_tasks (snd (register_node na r w)) = sv_tasks w"
  by (auto simp: register_node_def split: decoded.split option.split prod.split sum.split)

lemma keeps_node_register: "keeps_tasks (handle_node_register na r)"
  by (auto simp: handle_node_register_def keeps_tasks_def answer_def)

lemma node_heartbeat_tasks [simp]: "sv_tasks (snd (node_heartbeat na r nid w)) = sv_tasks w"
  by (auto simp: node_heartbeat_def split: decoded.split option.split sum.split)

lemma recycle_node_tasks [simp]: "sv_tasks (snd (recycle_node na d nid w)) = sv_tasks w"
  by (auto simp: recycle_node_def Let_def split: prod.split option.split sum.split)

lemma keeps_node_set_state: "keeps_tasks (node_set_state na r nid x)"
  by (auto simp: node_set_state_def keeps_tasks_def answer_def)

lemma keeps_node_recycle: "keeps_tasks (node_recycle na r nid)"
  by (auto simp: node_recycle_def keeps_tasks_def answer_def split: option.split)

lemma keeps_node_heartbeat: "keeps_tasks (Plain (node_heartbeat na r nid))"
  by (simp add: keeps_tasks_def)

lemma keeps_node_by_id: "keeps_tasks (handle_node_by_id na r)"
  by (simp add: handle_node_by_id_def Let_def keeps_node_set_state keeps_node_recycle keeps_node_heartbeat)

lemmas keeps_node_handlers = keeps_nodes keeps_node_register keeps_node_by_id

lemma join_split: "join (split_at s c cs) (c # cs) = s"
proof (induction s c cs rule: split_at.induct)
  case (1 s c cs)
  show ?case
  proof (cases "index_of s (c # cs)")
    case None
    then show ?thesis by (subst split_at.simps) simp
  next
    case (Some i)
    from index_of_Some [OF this] obtain t where t: "drop i s = (c # cs) @ t" by (auto simp: has_prefix_iff)
    have d: "drop (i + length (c # cs)) s = t"
      using t by (metis add.commute append_eq_conv_conj drop_drop)
    obtain p ps where pp: "split_at (drop (i + length (c # cs)) s) c cs = p # ps"
      using split_at_nonempty by (metis list.exhaust)
    have "join (split_at s c cs) (c # cs) = take i s @ (c # cs) @ join (p # ps) (c # cs)"
      using Some pp by (subst split_at.simps) simp
    also have "join (p # ps) (c # cs) = t" using 1 [OF Some] pp d by simp
    also have "take i s @ (c # cs) @ t = s" using t by (metis append_take_drop_id)
    finally show ?thesis .
  qed
qed

lemma split_two: "length (split_at s c []) = 2 \<Longrightarrow> split_at s c [] ! 1 = b \<Longrightarrow> \<exists>a. s = a @ [c] @ b"
proof -
  assume l: "length (split_at s c []) = 2" and b: "split_at s c [] ! 1 = b"
  then obtain a b' where "split_at s c [] = [a, b']" by (auto simp: numeral_2_eq_2 length_Suc_conv)
  with b have "split_at s c [] = [a, b]" by simp
  then have "join (split_at s c []) [c] = a @ [c] @ b" by simp
  with join_split [of s c "[]"] show ?thesis by auto
qed


lemma trim_path: "trim_space (''/v1/tasks/'' @ a @ ''/replay'') = ''/v1/tasks/'' @ a @ ''/replay''"
  "trim_space (''/v1/tasks/'' @ a @ ''/cancel'') = ''/v1/tasks/'' @ a @ ''/cancel''"
  by (rule trim_space_plain, simp add: plain_ends_def plain_char_def)+

lemma requires_auth_paths:
  assumes "rq_method r = ''POST''"
  shows "rq_path r = ''/v1/tasks/'' @ a @ ''/replay'' \<Longrightarrow> requires_create_auth r"
    and "rq_path r = ''/v1/tasks/'' @ a @ ''/cancel'' \<Longrightarrow> requires_create_auth r"
proof -
  have suf: "has_suffix (''/v1/tasks/'' @ a @ ''/replay'') ''/replay''" "has_suffix (''/v1/tasks/'' @ a @ ''/cancel'') ''/cancel''"
    unfolding has_suffix_iff by (metis append.assoc)+
  have pre: "has_prefix (''/v1/tasks/'' @ x) ''/v1/tasks/''" for x by (rule has_prefix_append)
  show "requires_create_auth r" if "rq_path r = ''/v1/tasks/'' @ a @ ''/replay''"
    unfolding requires_create_auth_def Let_def that trim_path using assms suf(1) pre by blast
  show "requires_create_auth r" if "rq_path r = ''/v1/tasks/'' @ a @ ''/cancel''"
    unfolding requires_create_auth_def Let_def that trim_path using assms suf(2) pre by blast
qed

lemma trim_prefix_append: "trim_prefix (p @ x) p = x"
  by (simp add: trim_prefix_def)

lemma task_path_protected:
  assumes "has_prefix (rq_path r) ''/v1/tasks/''" "\<not> requires_create_auth r" "rq_method r = ''POST''"
    and "length (split_at (trim_prefix (rq_path r) ''/v1/tasks/'') (CHR ''/'') []) = 2"
  shows "split_at (trim_prefix (rq_path r) ''/v1/tasks/'') (CHR ''/'') [] ! 1 \<notin> {''replay'', ''cancel''}"
proof
  let ?rest = "trim_prefix (rq_path r) ''/v1/tasks/''"
  assume b: "split_at ?rest (CHR ''/'') [] ! 1 \<in> {''replay'', ''cancel''}"
  obtain x where x: "rq_path r = ''/v1/tasks/'' @ x" using assms(1) by (auto simp: has_prefix_iff)
  then have rest: "?rest = x" by (metis trim_prefix_append)
  from split_two [OF assms(4) refl] obtain a where
    "?rest = a @ [CHR ''/''] @ split_at ?rest (CHR ''/'') [] ! 1" by blast
  with b rest have "x = a @ ''/replay'' \<or> x = a @ ''/cancel''" by auto
  with x requires_auth_paths [OF assms(3), of a] assms(2) show False by auto
qed

lemma keeps_task_by_id:
  assumes "has_prefix (rq_path r) ''/v1/tasks/''" "\<not> requires_create_auth r"
  shows "keeps_tasks (handle_task_by_id cfg env r)"
proof -
  let ?parts = "split_at (trim_prefix (rq_path r) ''/v1/tasks/'') (CHR ''/'') []"
  have "rq_method r = ''POST'' \<and> length ?parts = 2 \<longrightarrow> ?parts ! 1 \<noteq> ''replay'' \<and> ?parts ! 1 \<noteq> ''cancel''"
    using task_path_protected [OF assms] by auto
  then show ?thesis by (auto simp: handle_task_by_id_def Let_def)
qed

lemma exact_path_protected:
  assumes "rq_path r \<in> {''/sessions'', ''/v1/sessions'', ''/task'', ''/v1/tasks''}" "\<not> requires_create_auth r"
  shows "rq_method r \<noteq> ''POST''"
proof
  assume "rq_method r = ''POST''"
  moreover have "trim_space (rq_path r) = rq_path r"
    using assms(1) by (auto simp: plain_ends_def plain_char_def)
  ultimately show False using assms unfolding requires_create_auth_def Let_def by simp
qed

text \<open>What the security wrapper lets through unchecked changes no task, if the handler that is chosen for
  it keeps the tasks.\<close>

lemma serve_keeps:
  assumes "\<not> requires_create_auth r" "keeps_tasks (route r)"
  shows "sv_tasks (snd (snd (snd (serve api_key route digest c now r (l, s, w))))) = sv_tasks w"
proof -
  from assms(2) obtain f where "route r = Plain f" "\<forall>w. sv_tasks (snd (f w)) = sv_tasks w" by (auto simp: keeps_tasks_def)
  with assms(1) show ?thesis by (simp add: serve_def with_api_security_def serve_routed_def split_beta)
qed

definition demo_node_api :: node_api where
  "demo_node_api = \<lparr>na_decode_register = (\<lambda>_. DecodeFailed), na_decode_heartbeat = (\<lambda>_. DecodeFailed),
     na_parse_time = (\<lambda>_. None), na_state_store = True, na_recycler = None, na_order = [], na_clock = int\<rparr>"

section \<open>Statistics\<close>

definition count_of :: "task_status \<Rightarrow> task list \<Rightarrow> int" where
  "count_of st items = int (length (filter (\<lambda>t. tk_status t = st) items))"

definition stats_inv where
  "stats_inv items acc \<longleftrightarrow> (case acc of (sc, bc, blocked, terminal, completed) \<Rightarrow>
     (\<forall>st. sc (task_status_text st) = Some (count_of st items))
     \<and> blocked = int (length (filter (\<lambda>t. \<not> blank (tk_blocker_type t)) items))
     \<and> terminal = count_of Completed items + count_of Failed items + count_of Canceled items
     \<and> completed = count_of Completed items)"

lemma status_text_inject [simp]: "task_status_text a = task_status_text b \<longleftrightarrow> a = b"
  by (cases a; cases b) simp_all

lemma stats_inv_start: "stats_inv [] (zero_status_counts, Map.empty, 0, 0, 0)"
proof -
  have "zero_status_counts (task_status_text st) = Some 0" for st
    by (cases st) (simp_all add: zero_status_counts_def)
  then show ?thesis by (simp add: stats_inv_def count_of_def)
qed

lemma count_of_snoc [simp]: "count_of st (xs @ [t]) = count_of st xs + (if tk_status t = st then 1 else 0)"
  by (simp add: count_of_def)

lemma stats_inv_step:
  assumes "stats_inv xs acc"
  shows "stats_inv (xs @ [t]) (stats_step acc t)"
proof -
  obtain sc bc bl te co where a: "acc = (sc, bc, bl, te, co)" by (metis prod.exhaust)
  have "bump (task_status_text (tk_status t)) sc (task_status_text st) = Some (count_of st (xs @ [t]))" for st
    using assms by (simp add: a stats_inv_def bump_def)
  then show ?thesis
    using assms by (cases "tk_status t") (simp_all add: a stats_inv_def stats_step_def Let_def is_terminal_def)
qed

lemma stats_inv_fold: "stats_inv xs (foldl stats_step (zero_status_counts, Map.empty, 0, 0, 0) xs)"
  by (induction xs rule: rev_induct) (simp_all add: stats_inv_start stats_inv_step)

lemma count_of_sum:
  "count_of Queued xs + count_of Running xs + count_of Completed xs + count_of Failed xs + count_of Canceled xs
   = int (length xs)"
proof (induction xs)
  case (Cons t xs)
  then show ?case by (cases "tk_status t") (simp_all add: count_of_def)
qed (simp add: count_of_def)

lemma percentage_bounds: "0 \<le> c \<Longrightarrow> c \<le> t \<Longrightarrow> 0 < t \<Longrightarrow> 0 \<le> c * 100 div t \<and> c * 100 div t \<le> (100::int)"
  by (metis mult.commute mult_left_mono nonzero_mult_div_cancel_right order_less_imp_le pos_imp_zdiv_nonneg_iff
      split_mult_pos_le zdiv_mono1 zero_le_numeral order.strict_iff_order)

text \<open>The statistics add up. The count of every status is the number of the fetched tasks in that
  status, the five counts sum to the number of fetched tasks, the terminal ones are those completed,
  failed or canceled, and the success rate is a percentage.\<close>

lemma task_stats_add_up:
  "(\<forall>st. sx_status_counts (task_stats_of limit items) (task_status_text st) = Some (count_of st items))
   \<and> count_of Queued items + count_of Running items + sx_terminal (task_stats_of limit items)
       = sx_fetched (task_stats_of limit items)
   \<and> 0 \<le> sx_success_rate (task_stats_of limit items) \<and> sx_success_rate (task_stats_of limit items) \<le> 100"
proof -
  obtain sc bc bl te co where f: "foldl stats_step (zero_status_counts, Map.empty, 0, 0, 0) items = (sc, bc, bl, te, co)"
    by (metis prod.exhaust)
  from stats_inv_fold [of items] have i: "stats_inv items (sc, bc, bl, te, co)" unfolding f .
  have nonneg: "0 \<le> count_of st items" for st by (simp add: count_of_def)
  have te: "te = count_of Completed items + count_of Failed items + count_of Canceled items" "co = count_of Completed items"
    using i by (auto simp: stats_inv_def)
  have "0 < te \<longrightarrow> 0 \<le> co * 100 div te \<and> co * 100 div te \<le> 100"
    using percentage_bounds [of co te] nonneg [of Completed] nonneg [of Failed] nonneg [of Canceled] te by simp
  then show ?thesis
    using i te count_of_sum [of items] by (simp add: task_stats_of_def f Let_def stats_inv_def)
qed

end
