(* ===== verification/Egress.thy ===== *)
theory Egress
  imports Prelude
begin

unbundle bit_operations_syntax

text \<open>
  The egress policy of the node agent, \<open>cmd/node-agent/main.go\<close>: which addresses a browser on the
  node may open. Outside the model are \<open>url.Parse\<close> with \<open>Hostname\<close>, \<open>netip.ParseAddr\<close>, the DNS
  resolver and the quoting of \<open>%q\<close>, together in a \<open>net_libs\<close>; the classification of an address
  (\<open>netip.Addr\<close>) is written out on words.
\<close>

section \<open>Addresses\<close>

text \<open>An IPv6 address has a zone, which is empty for most.\<close>

datatype ip_addr = V4 "32 word" | V6 "128 word" gostr

definition v4_byte :: "nat \<Rightarrow> 32 word \<Rightarrow> nat" where
  "v4_byte i a = unat (drop_bit (8 * (3 - i)) a) mod 256"

definition v6_group :: "nat \<Rightarrow> 128 word \<Rightarrow> nat" where
  "v6_group i a = unat (drop_bit (16 * (7 - i)) a) mod 65536"

text \<open>\<open>Unmap\<close>: an IPv4 address written as an IPv6 one (\<open>::ffff:0:0/96\<close>).\<close>

definition unmap :: "ip_addr \<Rightarrow> ip_addr" where
  "unmap ip = (case ip of
     V4 a \<Rightarrow> V4 a
   | V6 a z \<Rightarrow> if drop_bit 32 a = 0xffff then V4 (ucast a) else V6 a z)"

definition is_private :: "ip_addr \<Rightarrow> bool" where
  "is_private ip = (case ip of
     V4 a \<Rightarrow> v4_byte 0 a = 10 \<or> v4_byte 0 a = 172 \<and> v4_byte 1 a div 16 = 1
           \<or> v4_byte 0 a = 192 \<and> v4_byte 1 a = 168
   | V6 a z \<Rightarrow> v6_group 0 a div 512 = 0x7e)"

definition is_loopback :: "ip_addr \<Rightarrow> bool" where
  "is_loopback ip = (case ip of V4 a \<Rightarrow> v4_byte 0 a = 127 | V6 a z \<Rightarrow> a = 1)"

definition is_link_local_multicast :: "ip_addr \<Rightarrow> bool" where
  "is_link_local_multicast ip = (case ip of
     V4 a \<Rightarrow> v4_byte 0 a = 224 \<and> v4_byte 1 a = 0 \<and> v4_byte 2 a = 0
   | V6 a z \<Rightarrow> v6_group 0 a div 256 = 0xff \<and> v6_group 0 a mod 16 = 2)"

definition is_link_local_unicast :: "ip_addr \<Rightarrow> bool" where
  "is_link_local_unicast ip = (case ip of
     V4 a \<Rightarrow> v4_byte 0 a = 169 \<and> v4_byte 1 a = 254
   | V6 a z \<Rightarrow> v6_group 0 a div 64 = 0x3fa)"

definition is_multicast :: "ip_addr \<Rightarrow> bool" where
  "is_multicast ip = (case ip of V4 a \<Rightarrow> v4_byte 0 a div 16 = 0xe | V6 a z \<Rightarrow> v6_group 0 a div 256 = 0xff)"

definition is_unspecified :: "ip_addr \<Rightarrow> bool" where
  "is_unspecified ip = (case ip of V4 a \<Rightarrow> a = 0 | V6 a z \<Rightarrow> a = 0 \<and> z = [])"

text \<open>The prefix \<open>100.64.0.0/10\<close> holds no IPv6 address.\<close>

definition in_cgnat :: "ip_addr \<Rightarrow> bool" where
  "in_cgnat ip = (case ip of V4 a \<Rightarrow> drop_bit 22 a = drop_bit 22 0x64400000 | V6 a z \<Rightarrow> False)"

definition is_private_or_local :: "ip_addr \<Rightarrow> bool" where
  "is_private_or_local ip =
     (let addr = unmap ip in
      is_private addr \<or> is_loopback addr \<or> is_link_local_multicast addr \<or> is_link_local_unicast addr
      \<or> is_multicast addr \<or> is_unspecified addr \<or> in_cgnat addr)"

section \<open>The policy\<close>

definition normalize_egress_mode :: "gostr \<Rightarrow> gostr" where
  "normalize_egress_mode raw =
     (let mode = to_lower (trim_space raw) in
      if mode = ''public_only'' then ''public_only''
      else if mode = ''deny_all'' then ''deny_all'' else ''open'')"

primrec host_allowed_by :: "gostr \<Rightarrow> gostr list \<Rightarrow> bool" where
  "host_allowed_by target [] = False"
| "host_allowed_by target (item # items) =
     (let candidate = to_lower (trim_space item) in
      if candidate = [] then host_allowed_by target items
      else if has_prefix candidate ''*.''
      then (let suffix = trim_prefix candidate ''*.'' in
            target = suffix \<or> has_suffix target (''.'' @ suffix) \<or> host_allowed_by target items)
      else target = candidate \<or> has_suffix target (''.'' @ candidate) \<or> host_allowed_by target items)"

definition host_allowed :: "gostr \<Rightarrow> gostr list \<Rightarrow> bool" where
  "host_allowed host allow = host_allowed_by (to_lower (trim_space host)) allow"

definition is_local_hostname :: "gostr \<Rightarrow> bool" where
  "is_local_hostname host =
     (let h = to_lower (trim_space host) in h = ''localhost'' \<or> h = ''localhost.localdomain'')"

record net_libs =
  nl_hostname :: "gostr \<Rightarrow> go_error + gostr"
  nl_parse_addr :: "gostr \<Rightarrow> ip_addr option"
  nl_lookup :: "gostr \<Rightarrow> go_error + ip_addr list"
  nl_quote :: "gostr \<Rightarrow> gostr"
  nl_addr_text :: "ip_addr \<Rightarrow> gostr"

text \<open>\<open>None\<close> lets the target pass.\<close>

definition validate_egress :: "net_libs \<Rightarrow> gostr \<Rightarrow> gostr list \<Rightarrow> gostr \<Rightarrow> go_error option" where
  "validate_egress nl md allow raw_url =
     (let mode = normalize_egress_mode md; url = trim_space raw_url; q = nl_quote nl in
      if url = [] then None
      else if mode = ''deny_all''
      then Some (new_error (''egress policy blocked navigation: mode=deny_all url='' @ q url))
      else case nl_hostname nl url of
          Inl e \<Rightarrow> Some (wrap_error (''invalid url '' @ q url @ '': '') e)
        | Inr name \<Rightarrow>
            let host = to_lower (trim_space name) in
            if host = [] then Some (new_error (''egress policy blocked navigation: empty host in url '' @ q url))
            else if allow \<noteq> [] \<and> \<not> host_allowed host allow
            then Some (new_error (''egress policy blocked host '' @ q host @ '' (not in NODE_AGENT_EGRESS_ALLOW_HOSTS)''))
            else if mode \<noteq> ''public_only'' then None
            else if is_local_hostname host
            then Some (new_error (''egress policy blocked local/private host '' @ q host))
            else case nl_parse_addr nl host of
                Some ip \<Rightarrow>
                  if is_private_or_local ip
                  then Some (new_error (''egress policy blocked local/private ip '' @ q host)) else None
              | None \<Rightarrow>
                  (case nl_lookup nl host of
                     Inl e \<Rightarrow> Some (new_error (''egress policy blocked host '' @ q host @ '' (dns lookup failed: ''
                                @ err_text e @ '')''))
                   | Inr ips \<Rightarrow>
                       (case find is_private_or_local ips of
                          Some ip \<Rightarrow> Some (new_error (''egress policy blocked host '' @ q host
                              @ '' resolved to local/private ip '' @ nl_addr_text nl ip))
                        | None \<Rightarrow> None)))"

text \<open>What \<open>parseCSV\<close> makes of the variable with the allowed hosts.\<close>

definition parse_csv :: "gostr \<Rightarrow> gostr list" where
  "parse_csv raw = filter (\<lambda>s. s \<noteq> []) (map trim_space (split_at raw (CHR '','') []))"

section \<open>Facts about addresses\<close>

lemma unat_drop_bit_div: "unat (drop_bit n a) = unat a div 2 ^ n"
  by (simp only: unat_drop_bit_eq) (rule drop_bit_eq_div)

lemma v4_byte_unat: "v4_byte i a = unat a div 2 ^ (8 * (3 - i)) mod 256"
  by (simp only: v4_byte_def unat_drop_bit_div)

lemma v4_bytes:
  "v4_byte 0 a = unat a div 16777216" "v4_byte (Suc 0) a = unat a div 65536 mod 256" "v4_byte 2 a = unat a div 256 mod 256"
proof -
  have "unat a < 4294967296" using unsigned_less [of a] by simp
  then have "unat a div 16777216 < 256" by (simp add: div_less_iff_less_mult)
  then show "v4_byte 0 a = unat a div 16777216" by (simp add: v4_byte_unat)
qed (simp_all add: v4_byte_unat)

text \<open>The addresses that are refused, as intervals of 32-bit numbers.\<close>

definition refused_intervals :: "(nat \<times> nat) list" where
  "refused_intervals =
     [(0x00000000, 0x00000000), (0x0a000000, 0x0affffff), (0x64400000, 0x647fffff), (0x7f000000, 0x7fffffff),
      (0xa9fe0000, 0xa9feffff), (0xac100000, 0xac1fffff), (0xc0a80000, 0xc0a8ffff), (0xe0000000, 0xefffffff)]"

definition in_intervals :: "(nat \<times> nat) list \<Rightarrow> nat \<Rightarrow> bool" where
  "in_intervals is n \<longleftrightarrow> list_ex (\<lambda>(lo, hi). lo \<le> n \<and> n \<le> hi) is"

lemma in_cgnat_iff: "in_cgnat (V4 a) \<longleftrightarrow> unat a div 4194304 = 401"
proof -
  have "drop_bit 22 a = drop_bit 22 (0x64400000 :: 32 word) \<longleftrightarrow> unat (drop_bit 22 a) = unat (drop_bit 22 (0x64400000 :: 32 word))"
    by (simp only: word_unat_eq_iff)
  also have "\<dots> \<longleftrightarrow> unat a div 2 ^ 22 = 1681915904 div 2 ^ 22"
    by (simp only: unat_drop_bit_div) simp
  finally show ?thesis by (simp add: in_cgnat_def)
qed

lemma unspecified_iff: "is_unspecified (V4 a) \<longleftrightarrow> unat a = 0"
  by (simp add: is_unspecified_def unat_eq_0)

lemmas v4_classes = is_private_def is_loopback_def is_link_local_multicast_def is_link_local_unicast_def
  is_multicast_def in_cgnat_iff unspecified_iff v4_bytes

text \<open>The value of the leading digits of a number is an interval.\<close>

lemma div_interval: "0 < k \<Longrightarrow> (n::nat) div k = c \<longleftrightarrow> c * k \<le> n \<and> n < c * k + k"
proof
  assume "0 < k" "n div k = c"
  then show "c * k \<le> n \<and> n < c * k + k"
    using div_times_less_eq_dividend [of n k] dividend_less_div_times [of k n] by auto
next
  assume "0 < k" "c * k \<le> n \<and> n < c * k + k"
  then show "n div k = c" by (intro div_nat_eqI) (simp_all add: mult.commute)
qed

lemma split_digits: "b < k \<Longrightarrow> m div k = a \<and> m mod k = b \<longleftrightarrow> m = a * k + (b::nat)"
  by (auto simp: div_mult_mod_eq)

lemma v4_ranges:
  fixes n :: nat
  shows "n div 16777216 = 10 \<longleftrightarrow> 0x0a000000 \<le> n \<and> n \<le> 0x0affffff"
    and "n div 16777216 = 127 \<longleftrightarrow> 0x7f000000 \<le> n \<and> n \<le> 0x7fffffff"
    and "n div 4194304 = 401 \<longleftrightarrow> 0x64400000 \<le> n \<and> n \<le> 0x647fffff"
    and "n div 16777216 div 16 = 14 \<longleftrightarrow> 0xe0000000 \<le> n \<and> n \<le> 0xefffffff"
    and "n div 16777216 = 169 \<and> n div 65536 mod 256 = 254 \<longleftrightarrow> 0xa9fe0000 \<le> n \<and> n \<le> 0xa9feffff"
    and "n div 16777216 = 192 \<and> n div 65536 mod 256 = 168 \<longleftrightarrow> 0xc0a80000 \<le> n \<and> n \<le> 0xc0a8ffff"
    and "n div 16777216 = 172 \<and> n div 65536 mod 256 div 16 = Suc 0 \<longleftrightarrow> 0xac100000 \<le> n \<and> n \<le> 0xac1fffff"
proof -
  show "n div 16777216 = 10 \<longleftrightarrow> 0x0a000000 \<le> n \<and> n \<le> 0x0affffff"
    "n div 16777216 = 127 \<longleftrightarrow> 0x7f000000 \<le> n \<and> n \<le> 0x7fffffff"
    "n div 4194304 = 401 \<longleftrightarrow> 0x64400000 \<le> n \<and> n \<le> 0x647fffff"
    "n div 16777216 div 16 = 14 \<longleftrightarrow> 0xe0000000 \<le> n \<and> n \<le> 0xefffffff"
    by (auto simp: div_mult2_eq [symmetric] div_interval)
  have d: "n div 16777216 = n div 65536 div 256" by (simp add: div_mult2_eq [symmetric])
  show "n div 16777216 = 169 \<and> n div 65536 mod 256 = 254 \<longleftrightarrow> 0xa9fe0000 \<le> n \<and> n \<le> 0xa9feffff"
    unfolding d by (subst split_digits) (auto simp: div_interval)
  show "n div 16777216 = 192 \<and> n div 65536 mod 256 = 168 \<longleftrightarrow> 0xc0a80000 \<le> n \<and> n \<le> 0xc0a8ffff"
    unfolding d by (subst split_digits) (auto simp: div_interval)
  have "n div 65536 mod 256 div 16 = n div 65536 div 16 mod 16"
    using drop_bit_take_bit [of 4 8 "n div 65536"] by (simp add: drop_bit_eq_div take_bit_eq_mod)
  then have e: "n div 65536 mod 256 div 16 = n div 1048576 mod 16" by (simp add: div_mult2_eq [symmetric])
  have d: "n div 16777216 = n div 1048576 div 16" by (simp add: div_mult2_eq [symmetric])
  show "n div 16777216 = 172 \<and> n div 65536 mod 256 div 16 = Suc 0 \<longleftrightarrow> 0xac100000 \<le> n \<and> n \<le> 0xac1fffff"
    unfolding e d by (subst split_digits) (auto simp: div_interval)
qed

lemma private_v4: "is_private_or_local (V4 a) \<longleftrightarrow> in_intervals refused_intervals (unat a)"
proof -
  have "unat a div 16777216 = 224 \<Longrightarrow> 0xe0000000 \<le> unat a \<and> unat a \<le> 0xefffffff"
    by (simp add: div_interval)
  then show ?thesis
    by (simp add: is_private_or_local_def unmap_def v4_classes v4_ranges in_intervals_def refused_intervals_def) blast
qed

text \<open>An IPv4 address written as an IPv6 one.\<close>

definition mapped_v6 :: "32 word \<Rightarrow> 128 word" where
  "mapped_v6 a = push_bit 32 (mask 16) OR ucast a"

lemma unmap_mapped: "unmap (V6 (mapped_v6 a) z) = V4 a"
proof -
  have "drop_bit 32 (mapped_v6 a) = mask 16" "ucast (mapped_v6 a) = a"
    unfolding mapped_v6_def
    by (rule bit_word_eqI, auto simp: bit_simps dest: bit_imp_le_length)+
  moreover have "mask 16 = (0xffff :: 128 word)" by (simp add: mask_eq_exp_minus_1)
  ultimately show ?thesis by (simp add: unmap_def)
qed

text \<open>The address check is the list of ranges it is meant to be. An IPv4 address counts as private
  or local exactly when it is the unspecified address or lies in 10.0.0.0/8, 100.64.0.0/10,
  127.0.0.0/8, 169.254.0.0/16, 172.16.0.0/12, 192.168.0.0/16 or 224.0.0.0/4; written as an IPv6
  address it is classified the same.\<close>

lemma private_v4_intervals:
  "(is_private_or_local (V4 a) \<longleftrightarrow> in_intervals refused_intervals (unat a))
   \<and> (is_private_or_local (V6 (mapped_v6 a) z) \<longleftrightarrow> in_intervals refused_intervals (unat a))"
proof -
  have "is_private_or_local (V6 (mapped_v6 a) z) \<longleftrightarrow> is_private_or_local (V4 a)"
    by (simp add: is_private_or_local_def unmap_mapped unmap_def [of "V4 a"])
  then show ?thesis using private_v4 by simp
qed

section \<open>What the policy lets pass\<close>

text \<open>The names an entry of the allow list stands for: the domain and everything below it.\<close>

definition allowed_domain :: "gostr \<Rightarrow> gostr option" where
  "allowed_domain item =
     (let candidate = to_lower (trim_space item) in
      if candidate = [] then None else Some (trim_prefix candidate ''*.''))"

definition in_domain :: "gostr \<Rightarrow> gostr \<Rightarrow> bool" where
  "in_domain host dn \<longleftrightarrow> host = dn \<or> has_suffix host (''.'' @ dn)"

lemma trim_prefix_none: "\<not> has_prefix s p \<Longrightarrow> trim_prefix s p = s"
  by (simp add: trim_prefix_def)

lemma host_allowed_by_iff:
  "host_allowed_by target items \<longleftrightarrow> (\<exists>item\<in>set items. \<exists>dn. allowed_domain item = Some dn \<and> in_domain target dn)"
  by (induction items) (auto simp: allowed_domain_def in_domain_def Let_def trim_prefix_none)

text \<open>A name that merely ends with the characters of an allowed domain is not in it: the part before
  must end with a dot.\<close>

lemma in_domain_split: "in_domain host dn \<longleftrightarrow> host = dn \<or> (\<exists>sub. host = sub @ ''.'' @ dn)"
  by (simp add: in_domain_def has_suffix_iff)

text \<open>C16: the browser is only sent where the policy allows. When a target that is not blank passes,
  the mode is not deny_all, the URL has a host, the host is in a domain of the allow list when there
  is one, and in the mode public_only it is no local name and no address it stands for is private or
  local.\<close>

theorem egress_allows_only:
  assumes "validate_egress nl md allow url = None" "\<not> blank url"
  shows "normalize_egress_mode md \<noteq> ''deny_all''
    \<and> (\<exists>name. nl_hostname nl (trim_space url) = Inr name
       \<and> (let host = to_lower (trim_space name) in
          host \<noteq> []
          \<and> (allow = [] \<or> (\<exists>item\<in>set allow. \<exists>dn. allowed_domain item = Some dn \<and> in_domain host dn))
          \<and> (normalize_egress_mode md = ''public_only'' \<longrightarrow>
               \<not> is_local_hostname host
               \<and> (case nl_parse_addr nl host of
                    Some ip \<Rightarrow> \<not> is_private_or_local ip
                  | None \<Rightarrow> \<exists>ips. nl_lookup nl host = Inr ips \<and> list_all (\<lambda>ip. \<not> is_private_or_local ip) ips))))"
proof -
  obtain name where n: "nl_hostname nl (trim_space url) = Inr name"
    using assms by (auto simp: validate_egress_def Let_def split: sum.splits if_splits)
  let ?host = "to_lower (trim_space name)"
  have t: "to_lower (trim_space ?host) = ?host" by (simp add: trim_lower_trim)
  have d: "normalize_egress_mode md \<noteq> ''deny_all''" "?host \<noteq> []" "allow = [] \<or> host_allowed ?host allow"
    using assms n by (auto simp: validate_egress_def Let_def split: if_splits)
  have "\<not> is_local_hostname ?host
      \<and> (case nl_parse_addr nl ?host of
           Some ip \<Rightarrow> \<not> is_private_or_local ip
         | None \<Rightarrow> \<exists>ips. nl_lookup nl ?host = Inr ips \<and> list_all (\<lambda>ip. \<not> is_private_or_local ip) ips)"
    if "normalize_egress_mode md = ''public_only''"
    using assms n d that
    by (simp add: validate_egress_def Let_def split: if_splits option.splits sum.splits)
       (auto simp: find_None_iff list_all_iff)
  with d n t show ?thesis by (auto simp: Let_def host_allowed_def host_allowed_by_iff)
qed

definition demo_net :: net_libs where
  "demo_net = \<lparr>nl_hostname = (\<lambda>u. Inr ''Shop.Example.com''),
     nl_parse_addr = (\<lambda>_. None), nl_lookup = (\<lambda>_. Inr [V4 0x5db8d822]), nl_quote = (\<lambda>s. s), nl_addr_text = (\<lambda>_. [])\<rparr>"

lemma demo_target_passes: "validate_egress demo_net ''public_only'' [''*.example.com''] ''https://Shop.Example.com/'' = None"
proof -
  have h: "to_lower (trim_space ''Shop.Example.com'') = ''shop.example.com''"
    "trim_space ''https://Shop.Example.com/'' = ''https://Shop.Example.com/''"
    by (simp add: plain_ends_def plain_char_def, code_simp, simp add: plain_ends_def plain_char_def)
  have m: "normalize_egress_mode ''public_only'' = ''public_only''"
    by (simp add: normalize_egress_mode_def plain_ends_def plain_char_def to_lower_def lower_char_def)
  have a: "host_allowed ''shop.example.com'' [''*.example.com'']"
    by (simp add: host_allowed_def plain_ends_def plain_char_def to_lower_def lower_char_def has_prefix_def
        trim_prefix_def has_suffix_def)
  have l: "\<not> is_local_hostname ''shop.example.com''"
    by (simp add: is_local_hostname_def plain_ends_def plain_char_def to_lower_def lower_char_def)
  have "\<not> is_private_or_local (V4 0x5db8d822)"
    by (simp add: private_v4 in_intervals_def refused_intervals_def)
  then show ?thesis
    by (simp add: validate_egress_def Let_def h m a l) (simp add: demo_net_def h a l)
qed

theorem egress_allows_only_witness:
  "normalize_egress_mode ''public_only'' \<noteq> ''deny_all'' \<and> in_domain ''shop.example.com'' ''example.com''"
proof -
  have "\<not> blank ''https://Shop.Example.com/''" by (simp add: plain_ends_def plain_char_def)
  from egress_allows_only [OF demo_target_passes this]
  show ?thesis by (simp add: in_domain_def has_suffix_def)
qed

end
