(* ===== verification/PlannedActions.thy ===== *)
theory PlannedActions
  imports Prelude
begin

text \<open>
  The actions a planner may propose, \<open>cmd/node-agent/planner.go\<close>: the snippet function, the check
  and normalisation of proposed actions, their signature and the step planner that hands them out
  one by one.
\<close>

section \<open>Actions\<close>

record exec_action =
  ea_type :: gostr
  ea_selector :: gostr
  ea_text :: gostr
  ea_pixels :: int
  ea_timeout_ms :: int
  ea_delay_ms :: int

text \<open>The expression \<open>\s+\<close> of Go's \<open>regexp\<close> matches runs of these bytes; each run becomes one
  blank. \<open>b\<close> tells that the byte before belongs to a run.\<close>

definition re_space :: "char \<Rightarrow> bool" where
  "re_space c \<longleftrightarrow> c \<in> {CHR 0x09, CHR 0x0A, CHR 0x0C, CHR 0x0D, CHR 0x20}"

primrec collapse_from :: "bool \<Rightarrow> gostr \<Rightarrow> gostr" where
  "collapse_from b [] = []"
| "collapse_from b (c # cs) =
     (if re_space c then (if b then collapse_from True cs else CHR 0x20 # collapse_from True cs)
      else c # collapse_from False cs)"

definition collapse_spaces :: "gostr \<Rightarrow> gostr" where
  "collapse_spaces s = collapse_from False s"

definition trim_snippet :: "gostr \<Rightarrow> int \<Rightarrow> gostr" where
  "trim_snippet value m =
     (let normalized = collapse_spaces (trim_space value) in
      if m \<le> 0 \<or> int (length normalized) \<le> m then normalized
      else trim_space (take (nat m) normalized))"

definition allowed_planner_actions :: "gostr list" where
  "allowed_planner_actions =
     [''wait_for'', ''click'', ''type'', ''scroll'', ''extract_text'', ''wait'', ''press_enter'',
      ''submit_search'', ''wait_for_url_contains'']"

definition clamp :: "int \<Rightarrow> int \<Rightarrow> int" where
  "clamp bound n = (let n = (if n < 0 then 0 else n) in if n > bound then bound else n)"

definition needs_selector :: "gostr \<Rightarrow> bool" where
  "needs_selector typ \<longleftrightarrow>
     typ \<in> {''wait_for'', ''click'', ''type'', ''extract_text'', ''press_enter'', ''submit_search''}"

text \<open>What the loop makes of one action; \<open>None\<close> drops it.\<close>

definition sanitize_action :: "exec_action \<Rightarrow> exec_action option" where
  "sanitize_action a =
     (let typ = to_lower (trim_space (ea_type a)) in
      if typ \<notin> set allowed_planner_actions then None
      else
        let n = \<lparr>ea_type = typ, ea_selector = trim_space (ea_selector a),
                 ea_text = trim_snippet (trim_space (ea_text a)) 320,
                 ea_pixels = clamp 3000 (ea_pixels a),
                 ea_timeout_ms = clamp 60000 (ea_timeout_ms a),
                 ea_delay_ms = clamp 15000 (ea_delay_ms a)\<rparr>
        in if needs_selector typ
           then (if ea_selector n = [] \<or> typ = ''type'' \<and> ea_text n = [] then None else Some n)
           else if typ = ''wait_for_url_contains''
           then (if length (ea_text n) < 2 then None else Some n)
           else if typ = ''scroll''
           then (let direction = to_lower (trim_space (ea_text n)) in
                 if direction \<noteq> ''up'' \<and> direction \<noteq> ''down'' then Some (n\<lparr>ea_text := ''down''\<rparr>)
                 else Some (n\<lparr>ea_text := direction\<rparr>))
           else Some n)"

definition raw_signature :: "exec_action \<Rightarrow> gostr" where
  "raw_signature n = join [ea_type n, ea_selector n, ea_text n, fmt_d (ea_timeout_ms n),
     fmt_d (ea_delay_ms n), fmt_d (ea_pixels n)] ''|''"

text \<open>The set \<open>seen\<close> holds the signatures of the cleaned actions.\<close>

primrec sanitize_loop :: "exec_action list \<Rightarrow> exec_action list \<Rightarrow> exec_action list" where
  "sanitize_loop cleaned [] = cleaned"
| "sanitize_loop cleaned (a # as) =
     (case sanitize_action a of
        None \<Rightarrow> sanitize_loop cleaned as
      | Some n \<Rightarrow>
          if raw_signature n \<in> raw_signature ` set cleaned then sanitize_loop cleaned as
          else let cleaned = cleaned @ [n] in
               if 12 \<le> length cleaned then cleaned else sanitize_loop cleaned as)"

definition sanitize_planned_actions :: "exec_action list \<Rightarrow> exec_action list" where
  "sanitize_planned_actions as = sanitize_loop [] as"

definition normalize_trace_action :: "exec_action \<Rightarrow> exec_action" where
  "normalize_trace_action a = a\<lparr>ea_type := to_lower (trim_space (ea_type a)),
     ea_selector := trim_space (ea_selector a), ea_text := trim_space (ea_text a)\<rparr>"

definition action_signature :: "exec_action \<Rightarrow> gostr" where
  "action_signature a = raw_signature (normalize_trace_action a)"

section \<open>Snippets\<close>

lemma collapse_from_set: "set (collapse_from b s) \<subseteq> insert (CHR 0x20) (set s)"
  by (induction s arbitrary: b) auto

lemma length_collapse: "length (collapse_from b s) \<le> length s"
  by (induction s arbitrary: b) (auto intro: le_SucI)

lemma collapse_idem: "collapse_from b (collapse_from b s) = collapse_from b s"
proof (induction s arbitrary: b)
  case (Cons c s)
  have sp: "re_space (CHR 0x20)" by (simp add: re_space_def)
  show ?case using Cons [of True] Cons [of False] sp by (cases b) auto
qed simp

lemma collapse_snoc:
  "collapse_from b (xs @ [c]) = collapse_from b xs @
     (if \<not> re_space c then [c] else if (if xs = [] then b else re_space (last xs)) then [] else [CHR 0x20])"
  by (induction xs arbitrary: b) auto

lemma collapse_last:
  "re_space c \<Longrightarrow> collapse_from False (xs @ [c]) \<noteq> [] \<and> last (collapse_from False (xs @ [c])) = CHR 0x20"
proof (induction xs arbitrary: c rule: rev_induct)
  case (snoc d xs)
  then show ?case using snoc.IH [of d] by (cases "re_space d") (simp_all add: collapse_snoc del: append_assoc)
qed simp

text \<open>A prefix or a suffix without blanks is one of the original string.\<close>

lemma collapse_prefix: "\<forall>c\<in>set e. \<not> re_space c \<Longrightarrow> has_prefix (collapse_from False s) e \<Longrightarrow> has_prefix s e"
proof (induction s arbitrary: e)
  case (Cons c s)
  have sp: "re_space (CHR 0x20)" by (simp add: re_space_def)
  show ?case
  proof (cases e)
    case (Cons d e')
    with Cons.prems sp have "d = c" "\<not> re_space c" "has_prefix (collapse_from False s) e'"
      by (auto simp: has_prefix_def split: if_splits)
    with Cons.IH [of e'] Cons.prems Cons show ?thesis by (simp add: has_prefix_def)
  qed simp
qed (simp add: has_prefix_def)

lemma collapse_suffix: "\<forall>c\<in>set e. \<not> re_space c \<Longrightarrow> has_suffix (collapse_from False s) e \<Longrightarrow> has_suffix s e"
proof (induction s arbitrary: e rule: rev_induct)
  case (snoc c s)
  have sp: "re_space (CHR 0x20)" by (simp add: re_space_def)
  show ?case
  proof (cases e rule: rev_cases)
    case (snoc e' d)
    from snoc.prems(2) snoc obtain t where t: "collapse_from False (s @ [c]) = (t @ e') @ [d]"
      by (auto simp: has_suffix_iff)
    have "\<not> re_space c"
    proof
      assume "re_space c"
      from collapse_last [OF this, of s] t have "d = CHR 0x20" by simp
      with snoc.prems(1) snoc sp show False by simp
    qed
    with t have "d = c" "collapse_from False s = t @ e'" by (auto simp: collapse_snoc)
    then have "has_suffix (collapse_from False s) e'" by (auto simp: has_suffix_iff)
    with snoc.IH [of e'] snoc.prems(1) snoc have "has_suffix s e'" by simp
    with snoc \<open>d = c\<close> show ?thesis by (auto simp: has_suffix_iff)
  qed (simp add: has_suffix_def)
qed (simp add: has_suffix_def)

lemma trimmed_iff: "trimmed s \<longleftrightarrow> (\<forall>e\<in>set space_encodings. \<not> has_prefix s e \<and> \<not> has_suffix s e)"
proof -
  have "has_prefix (rev s) (rev e) \<longleftrightarrow> has_suffix s e" for e
    by (metis has_prefix_iff has_suffix_iff rev_append rev_rev_ident)
  then show ?thesis using space_encodings_hd by (auto simp: trimmed_def no_lead_def)
qed

lemma space_encodings_kinds:
  "list_all (\<lambda>e. length e = 1 \<and> re_space (hd e) \<or> list_all (\<lambda>c. \<not> re_space c) e) space_encodings"
  by code_simp

lemma space_encoding_kinds:
  "e \<in> set space_encodings \<Longrightarrow> (\<exists>c. e = [c] \<and> re_space c) \<or> (\<forall>c\<in>set e. \<not> re_space c)"
  using space_encodings_kinds by (auto simp: list_all_iff length_Suc_conv)

lemma re_space_encoding: "re_space c \<Longrightarrow> [c] \<in> set space_encodings"
  by (auto simp: space_encodings_def re_space_def)

lemma trimmed_collapse:
  assumes "trimmed s"
  shows "trimmed (collapse_spaces s)"
proof -
  have "\<not> has_prefix (collapse_from False s) e \<and> \<not> has_suffix (collapse_from False s) e" if e: "e \<in> set space_encodings" for e
    using space_encoding_kinds [OF e]
  proof (elim disjE exE conjE)
    fix c assume c: "e = [c]" "re_space c"
    have "\<not> has_prefix (collapse_from False s) [c]"
    proof
      assume "has_prefix (collapse_from False s) [c]"
      with c(2) obtain d s' where "s = d # s'" "re_space d"
        by (cases s) (auto simp: has_prefix_def split: if_splits)
      with assms re_space_encoding [of d] show False by (auto simp: trimmed_iff has_prefix_def)
    qed
    moreover have "\<not> has_suffix (collapse_from False s) [c]"
    proof
      assume "has_suffix (collapse_from False s) [c]"
      with c(2) obtain d s' where "s = s' @ [d]" "re_space d"
        by (cases s rule: rev_cases) (auto simp: has_suffix_iff collapse_snoc split: if_splits)
      with assms re_space_encoding [of d] show False by (auto simp: trimmed_iff has_suffix_iff)
    qed
    ultimately show ?thesis by (simp add: c)
  next
    assume n: "\<forall>c\<in>set e. \<not> re_space c"
    with assms e show ?thesis using collapse_prefix [OF n] collapse_suffix [OF n] by (auto simp: trimmed_iff)
  qed
  then show ?thesis by (simp add: trimmed_iff collapse_spaces_def)
qed

lemma trim_space_sublist: "\<exists>p q. s = p @ trim_space s @ q"
proof -
  obtain p where p: "s = p @ trim_left s" using trim_by_suffix unfolding trim_left_def by blast
  obtain q where "rev (trim_left s) = q @ trim_by (map rev space_encodings) (rev (trim_left s))"
    using trim_by_suffix by blast
  then have "trim_left s = trim_space s @ rev q"
    by (metis rev_append rev_rev_ident trim_right_def trim_space_def)
  with p show ?thesis by metis
qed

lemma length_trim_space: "length (trim_space s) \<le> length s"
proof -
  obtain p q where "s = p @ trim_space s @ q" using trim_space_sublist by blast
  then have "length s = length p + length (trim_space s) + length q" by (metis append.assoc length_append)
  then show ?thesis by simp
qed

text \<open>Collapsed strings have no two blanks in a row, and their parts have none either.\<close>

lemma collapse_first: "collapse_from b (c # s) = c # s \<Longrightarrow> re_space c \<Longrightarrow> \<not> b"
proof
  assume c: "collapse_from b (c # s) = c # s" "re_space c" and b: b
  then have "length (c # s) \<le> length s" using length_collapse [of True s] by simp
  then show False by simp
qed

lemma collapsed_prefix: "collapse_from b (s @ t) = s @ t \<Longrightarrow> collapse_from b s = s"
proof (induction s arbitrary: b)
  case (Cons c s)
  with collapse_first [of b c "s @ t"] show ?case by (auto split: if_splits)
qed simp

lemma collapsed_suffix: "collapse_from b (p @ s) = p @ s \<Longrightarrow> collapse_from False s = s"
proof (induction p arbitrary: b)
  case Nil
  show ?case
  proof (cases s)
    case (Cons c s')
    with Nil collapse_first [of b c s'] show ?thesis by (cases "re_space c"; cases b) simp_all
  qed simp
next
  case (Cons c p)
  with collapse_first [of b c "p @ s"] show ?case by (auto split: if_splits)
qed

lemma collapsed_sublist: "collapse_from False (p @ s @ q) = p @ s @ q \<Longrightarrow> collapse_from False s = s"
  by (rule collapsed_prefix, rule collapsed_suffix)

lemma trim_snippet_trimmed [simp]: "trim_space (trim_snippet v m) = trim_snippet v m"
  by (simp add: trim_snippet_def Let_def trim_space_trimmed trimmed_collapse)

text \<open>A snippet is within its bound, and taking the snippet of a snippet changes nothing.\<close>

lemma trim_snippet_length: "0 < m \<Longrightarrow> int (length (trim_snippet v m)) \<le> m"
  using length_trim_space [of "take (nat m) (collapse_spaces (trim_space v))"]
  by (auto simp: trim_snippet_def Let_def)

lemma trim_snippet_collapsed: "collapse_spaces (trim_snippet v m) = trim_snippet v m"
proof -
  let ?n = "collapse_spaces (trim_space v)"
  obtain p q where t: "take (nat m) ?n = p @ trim_space (take (nat m) ?n) @ q" using trim_space_sublist by blast
  have "?n = p @ trim_space (take (nat m) ?n) @ (q @ drop (nat m) ?n)"
    by (metis append.assoc append_take_drop_id t)
  moreover have "collapse_from False ?n = ?n" by (simp add: collapse_spaces_def collapse_idem)
  ultimately have "collapse_from False (trim_space (take (nat m) ?n)) = trim_space (take (nat m) ?n)"
    by (metis collapsed_sublist)
  then show ?thesis by (simp add: trim_snippet_def Let_def collapse_spaces_def collapse_idem)
qed

lemma trim_snippet_idem: "0 < m \<Longrightarrow> trim_snippet (trim_snippet v m) m = trim_snippet v m"
  using trim_snippet_length [of m v]
  by (subst trim_snippet_def) (simp add: Let_def trim_snippet_collapsed)

section \<open>Sanitizing\<close>

text \<open>What the executor may rely on: a known type, bounded numbers, a bounded text, a selector where
  the action needs one.\<close>

definition safe_action :: "exec_action \<Rightarrow> bool" where
  "safe_action a \<longleftrightarrow> ea_type a \<in> set allowed_planner_actions
     \<and> 0 \<le> ea_pixels a \<and> ea_pixels a \<le> 3000 \<and> 0 \<le> ea_timeout_ms a \<and> ea_timeout_ms a \<le> 60000
     \<and> 0 \<le> ea_delay_ms a \<and> ea_delay_ms a \<le> 15000 \<and> length (ea_text a) \<le> 320
     \<and> (needs_selector (ea_type a)
          \<longrightarrow> ea_selector a \<noteq> [])
     \<and> (ea_type a = ''type'' \<longrightarrow> ea_text a \<noteq> [])
     \<and> (ea_type a = ''wait_for_url_contains'' \<longrightarrow> 2 \<le> length (ea_text a))
     \<and> (ea_type a = ''scroll'' \<longrightarrow> ea_text a = ''up'' \<or> ea_text a = ''down'')"

lemma clamp_bounds: "0 \<le> bound \<Longrightarrow> 0 \<le> clamp bound n \<and> clamp bound n \<le> bound"
  by (simp add: clamp_def Let_def)

lemma clamp_id: "0 \<le> n \<Longrightarrow> n \<le> bound \<Longrightarrow> clamp bound n = n"
  by (simp add: clamp_def Let_def)

lemma snippet_320: "length (trim_snippet v 320) \<le> 320"
  using trim_snippet_length [of 320 v] by simp

lemma short_words [simp]:
  "trim_snippet ''up'' 320 = ''up''" "trim_snippet ''down'' 320 = ''down''"
  "trim_space ''up'' = ''up''" "trim_space ''down'' = ''down''" "to_lower ''up'' = ''up''" "to_lower ''down'' = ''down''"
  by (simp_all add: plain_ends_def plain_char_def trim_snippet_def collapse_spaces_def re_space_def Let_def) code_simp+

lemma needs_selector_types [simp]:
  "needs_selector ''type''" "\<not> needs_selector ''scroll''" "\<not> needs_selector ''wait_for_url_contains''"
  by (simp_all add: needs_selector_def)

lemma sanitize_action_cases:
  assumes "sanitize_action a = Some b"
  obtains "b = \<lparr>ea_type = to_lower (trim_space (ea_type a)), ea_selector = trim_space (ea_selector a),
      ea_text = (if to_lower (trim_space (ea_type a)) = ''scroll''
        then (if to_lower (trim_snippet (trim_space (ea_text a)) 320) = ''up'' then ''up'' else ''down'')
        else trim_snippet (trim_space (ea_text a)) 320),
      ea_pixels = clamp 3000 (ea_pixels a), ea_timeout_ms = clamp 60000 (ea_timeout_ms a),
      ea_delay_ms = clamp 15000 (ea_delay_ms a)\<rparr>"
    "ea_type b \<in> set allowed_planner_actions"
    "needs_selector (ea_type b)
       \<longrightarrow> ea_selector b \<noteq> []"
    "ea_type b = ''type'' \<longrightarrow> ea_text b \<noteq> []"
    "ea_type b = ''wait_for_url_contains'' \<longrightarrow> 2 \<le> length (ea_text b)"
  using assms
  by (cases "to_lower (trim_space (ea_type a)) = ''scroll''"; cases "to_lower (trim_space (ea_type a)) = ''type''";
      cases "to_lower (trim_space (ea_type a)) = ''wait_for_url_contains''")
     (auto simp: sanitize_action_def Let_def split: if_splits)

lemma sanitize_action_safe: "sanitize_action a = Some b \<Longrightarrow> safe_action b"
  by (erule sanitize_action_cases) (auto simp: safe_action_def clamp_bounds snippet_320)

lemma sanitize_action_fix: "sanitize_action a = Some b \<Longrightarrow> sanitize_action b = Some b"
proof (erule sanitize_action_cases)
  let ?t = "to_lower (trim_space (ea_type a))"
  assume b: "b = \<lparr>ea_type = ?t, ea_selector = trim_space (ea_selector a),
      ea_text = (if ?t = ''scroll''
        then (if to_lower (trim_snippet (trim_space (ea_text a)) 320) = ''up'' then ''up'' else ''down'')
        else trim_snippet (trim_space (ea_text a)) 320),
      ea_pixels = clamp 3000 (ea_pixels a), ea_timeout_ms = clamp 60000 (ea_timeout_ms a),
      ea_delay_ms = clamp 15000 (ea_delay_ms a)\<rparr>"
    and k: "ea_type b \<in> set allowed_planner_actions"
    "needs_selector (ea_type b)
       \<longrightarrow> ea_selector b \<noteq> []"
    "ea_type b = ''type'' \<longrightarrow> ea_text b \<noteq> []"
    "ea_type b = ''wait_for_url_contains'' \<longrightarrow> 2 \<le> length (ea_text b)"
  have c: "clamp 3000 (ea_pixels b) = ea_pixels b" "clamp 60000 (ea_timeout_ms b) = ea_timeout_ms b"
    "clamp 15000 (ea_delay_ms b) = ea_delay_ms b"
    by (simp_all add: b clamp_id clamp_bounds)
  have t: "to_lower (trim_space (ea_type b)) = ea_type b" "trim_space (ea_selector b) = ea_selector b"
    "trim_snippet (trim_space (ea_text b)) 320 = ea_text b"
    by (simp_all add: b trim_snippet_idem)
  have sc: "ea_type b = ''scroll'' \<Longrightarrow> ea_text b = ''up'' \<or> ea_text b = ''down''" by (simp add: b)
  have r: "\<lparr>ea_type = ea_type b, ea_selector = ea_selector b, ea_text = ea_text b, ea_pixels = ea_pixels b,
      ea_timeout_ms = ea_timeout_ms b, ea_delay_ms = ea_delay_ms b\<rparr> = b" by simp
  show "sanitize_action b = Some b"
    unfolding sanitize_action_def Let_def t c
    using k sc by (cases "ea_type b = ''scroll''"; cases "needs_selector (ea_type b)") auto
qed

text \<open>The loop, in one equation: sanitize each, keep the first of each signature, take twelve.\<close>

primrec first_of_each :: "gostr set \<Rightarrow> exec_action list \<Rightarrow> exec_action list" where
  "first_of_each seen [] = []"
| "first_of_each seen (a # as) =
     (if raw_signature a \<in> seen then first_of_each seen as
      else a # first_of_each (insert (raw_signature a) seen) as)"

lemma sanitize_loop_spec:
  "length cleaned < 12 \<Longrightarrow> sanitize_loop cleaned as =
     cleaned @ take (12 - length cleaned) (first_of_each (raw_signature ` set cleaned) (List.map_filter sanitize_action as))"
proof (induction as arbitrary: cleaned)
  case Nil
  then show ?case by (simp add: map_filter_simps)
next
  case (Cons a as)
  show ?case
  proof (cases "sanitize_action a")
    case None
    with Cons show ?thesis by (simp add: map_filter_simps)
  next
    case (Some n)
    show ?thesis
    proof (cases "raw_signature n \<in> raw_signature ` set cleaned")
      case True
      with Some Cons show ?thesis by (simp add: map_filter_simps)
    next
      case False
      have "12 - length cleaned = Suc (12 - length (cleaned @ [n]))" using Cons.prems by simp
      with False Some Cons show ?thesis
        by (cases "12 \<le> length (cleaned @ [n])") (simp_all add: map_filter_simps Let_def)
    qed
  qed
qed

lemma sanitize_spec:
  "sanitize_planned_actions as = take 12 (first_of_each {} (List.map_filter sanitize_action as))"
  by (simp add: sanitize_planned_actions_def sanitize_loop_spec)

lemma first_of_each_set: "set (first_of_each seen as) \<subseteq> set as"
  by (induction as arbitrary: seen) auto

lemma first_of_each_distinct:
  "distinct (map raw_signature (first_of_each seen as)) \<and> raw_signature ` set (first_of_each seen as) \<inter> seen = {}"
  by (induction as arbitrary: seen) auto

lemma first_of_each_id:
  "distinct (map raw_signature as) \<Longrightarrow> raw_signature ` set as \<inter> seen = {} \<Longrightarrow> first_of_each seen as = as"
  by (induction as arbitrary: seen) auto

lemma sanitized_fixed:
  assumes "b \<in> set (sanitize_planned_actions as)"
  shows "sanitize_action b = Some b" "safe_action b"
proof -
  have "b \<in> set (List.map_filter sanitize_action as)"
    using assms first_of_each_set by (fastforce simp: sanitize_spec dest: in_set_takeD)
  then obtain a where "sanitize_action a = Some b" by (auto simp: List.map_filter_def)
  then show "sanitize_action b = Some b" "safe_action b"
    by (rule sanitize_action_fix, rule sanitize_action_safe)
qed

lemma map_filter_fixed: "\<forall>b\<in>set bs. f b = Some b \<Longrightarrow> List.map_filter f bs = bs"
  by (induction bs) (simp_all add: map_filter_simps)

text \<open>C24: whatever a planner or a language model proposes, the executor only sees actions it may run:
  at most twelve, none twice, each of a known type with bounded numbers and text and with the
  selector it needs; and checking them again changes nothing.\<close>

theorem sanitized_actions_safe:
  "length (sanitize_planned_actions as) \<le> 12
   \<and> distinct (map raw_signature (sanitize_planned_actions as))
   \<and> list_all safe_action (sanitize_planned_actions as)
   \<and> sanitize_planned_actions (sanitize_planned_actions as) = sanitize_planned_actions as"
proof -
  let ?s = "sanitize_planned_actions as"
  have l: "length ?s \<le> 12" by (simp add: sanitize_spec)
  have d: "distinct (map raw_signature ?s)"
    using first_of_each_distinct by (simp add: sanitize_spec take_map [symmetric] distinct_take)
  have "List.map_filter sanitize_action ?s = ?s" by (rule map_filter_fixed) (simp add: sanitized_fixed)
  with l d have "sanitize_planned_actions ?s = ?s"
    by (subst sanitize_spec) (simp add: first_of_each_id)
  with l d show ?thesis using sanitized_fixed(2) by (auto simp: list_all_iff)
qed

end
