(* ===== verification/Planner.thy ===== *)
theory Planner
  imports PlannedActions
begin

unbundle bit_operations_syntax

text \<open>
  The planners of the node agent, \<open>cmd/node-agent/planner.go\<close>: what a page looks like to them, the
  search box and the query they find, the heuristic, the template, the endpoint and the OpenAI
  planner with their fallbacks, and the step planner. Outside the model are \<open>strings.ToLower\<close> of
  free text (which may change its length), \<open>url.Parse\<close>, JSON and the HTTP client, together in a
  \<open>planner_libs\<close>, and the text of the system prompt.
\<close>

section \<open>Pages\<close>

record page_element =
  pe_stable_id :: gostr
  pe_tag :: gostr
  pe_type :: gostr
  pe_name :: gostr
  pe_id :: gostr
  pe_placeholder :: gostr
  pe_aria :: gostr
  pe_role :: gostr
  pe_text :: gostr
  pe_selector :: gostr
  pe_x :: int
  pe_y :: int
  pe_width :: int
  pe_height :: int

record page_snapshot =
  ps_url :: gostr
  ps_title :: gostr
  ps_viewport_width :: int
  ps_viewport_height :: int
  ps_scroll_x :: int
  ps_scroll_y :: int
  ps_elements :: "page_element list"

text \<open>The 32-bit FNV-1a hash and its eight hexadecimal digits.\<close>

definition fnv32a :: "gostr \<Rightarrow> 32 word" where
  "fnv32a s = foldl (\<lambda>h c. (h XOR of_nat (of_char c)) * 16777619) 2166136261 s"

definition hex_digit :: "nat \<Rightarrow> char" where
  "hex_digit n = (if n < 10 then char_of (48 + n) else char_of (87 + n))"

definition hex8 :: "32 word \<Rightarrow> gostr" where
  "hex8 w = map (\<lambda>i. hex_digit (unat (drop_bit (4 * i) w) mod 16)) [7, 6, 5, 4, 3, 2, 1, 0]"

definition stable_id :: "(gostr \<Rightarrow> gostr) \<Rightarrow> page_element \<Rightarrow> gostr" where
  "stable_id lower e =
     (let parts = map (\<lambda>s. lower (trim_space s)) [pe_tag e, pe_type e, pe_name e, pe_id e, pe_placeholder e,
            pe_aria e, pe_role e, pe_text e, pe_selector e]
          @ map fmt_d [pe_x e, pe_y e, pe_width e, pe_height e]
      in ''el_'' @ hex8 (fnv32a (join parts ''|'')))"

definition assign_stable_ids :: "(gostr \<Rightarrow> gostr) \<Rightarrow> page_snapshot \<Rightarrow> page_snapshot" where
  "assign_stable_ids lower s = s\<lparr>ps_elements := map (\<lambda>e. e\<lparr>pe_stable_id := stable_id lower e\<rparr>) (ps_elements s)\<rparr>"

fun first_non_empty_string :: "gostr list \<Rightarrow> gostr" where
  "first_non_empty_string [] = []"
| "first_non_empty_string (v # vs) = (if blank v then first_non_empty_string vs else trim_space v)"

section \<open>The packet for a remote planner\<close>

record state_element =
  se_id :: gostr
  se_role :: gostr
  se_name :: gostr
  se_text :: gostr
  se_selector :: gostr
  se_x :: int
  se_y :: int
  se_width :: int
  se_height :: int

record state_packet =
  sp_url :: gostr
  sp_title :: gostr
  sp_goal :: gostr
  sp_width :: int
  sp_height :: int
  sp_scroll_x :: int
  sp_scroll_y :: int
  sp_elements :: "state_element list"

definition packet_limit :: "int \<Rightarrow> int" where
  "packet_limit m = (let limit = (if m \<le> 0 then 48 else m) in if limit > 120 then 120 else limit)"

definition packet_element :: "(gostr \<Rightarrow> gostr) \<Rightarrow> page_element \<Rightarrow> state_element" where
  "packet_element lower e =
     (let role = lower (trim_space (first_non_empty_string [trim_space (pe_role e), trim_space (pe_type e), trim_space (pe_tag e)]));
          role = (if role = [] then ''interactive'' else role);
          name = first_non_empty_string [trim_space (pe_aria e), trim_space (pe_name e),
                   trim_space (pe_placeholder e), trim_space (pe_id e)]
      in \<lparr>se_id = first_non_empty_string [trim_space (pe_stable_id e), stable_id lower e],
          se_role = trim_snippet role 32, se_name = trim_snippet name 120,
          se_text = trim_snippet (trim_space (pe_text e)) 160,
          se_selector = trim_snippet (trim_space (pe_selector e)) 220,
          se_x = pe_x e, se_y = pe_y e, se_width = pe_width e, se_height = pe_height e\<rparr>)"

primrec packet_loop ::
  "(gostr \<Rightarrow> gostr) \<Rightarrow> int \<Rightarrow> state_element list \<Rightarrow> page_element list \<Rightarrow> state_element list" where
  "packet_loop lower limit acc [] = acc"
| "packet_loop lower limit acc (e # es) =
     (if int (length acc) \<ge> limit then acc
      else if blank (pe_selector e) then packet_loop lower limit acc es
      else packet_loop lower limit (acc @ [packet_element lower e]) es)"

definition build_state_packet :: "(gostr \<Rightarrow> gostr) \<Rightarrow> gostr \<Rightarrow> page_snapshot \<Rightarrow> int \<Rightarrow> state_packet" where
  "build_state_packet lower goal s m =
     \<lparr>sp_url = trim_space (ps_url s), sp_title = trim_snippet (trim_space (ps_title s)) 160,
      sp_goal = trim_snippet (trim_space goal) 220,
      sp_width = ps_viewport_width s, sp_height = ps_viewport_height s,
      sp_scroll_x = ps_scroll_x s, sp_scroll_y = ps_scroll_y s,
      sp_elements = packet_loop lower (packet_limit m) [] (ps_elements s)\<rparr>"

section \<open>Goals\<close>

definition contains_any :: "gostr \<Rightarrow> gostr list \<Rightarrow> bool" where
  "contains_any s terms = list_ex (contains s) terms"

definition is_price_goal :: "(gostr \<Rightarrow> gostr) \<Rightarrow> gostr \<Rightarrow> bool" where
  "is_price_goal lower goal = (let l = lower (trim_space goal) in
     l \<noteq> [] \<and> contains_any l [''price'', ''cost'', ''how much'', ''amount''])"

definition is_text_goal :: "(gostr \<Rightarrow> gostr) \<Rightarrow> gostr \<Rightarrow> bool" where
  "is_text_goal lower goal = (let l = lower (trim_space goal) in
     l \<noteq> [] \<and> contains_any l [''extract'', ''get me'', ''tell me'', ''find the'', ''what is''])"

definition price_selector :: "gostr \<Rightarrow> gostr" where
  "price_selector host =
     (if contains host ''amazon.''
      then ''span.a-price span.a-offscreen || span[data-a-color='' @ [CHR 0x27] @ ''price'' @ [CHR 0x27] @ ''] span.a-offscreen || span.a-price-whole''
      else if contains host ''flipkart.'' then ''div.Nx9bqj || div._30jeq3 || div._16Jk6d''
      else if contains host ''ebay.''
      then ''div.x-price-primary span.ux-textspans || span[itemprop='' @ [CHR 0x27] @ ''price'' @ [CHR 0x27] @ '']''
      else ''[itemprop='' @ [CHR 0x27] @ ''price'' @ [CHR 0x27] @ ''] || [data-testid*='' @ [CHR 0x27] @ ''price'' @ [CHR 0x27]
             @ ''] || .price || .product-price || .a-price .a-offscreen'')"

definition generic_selector :: "(gostr \<Rightarrow> gostr) \<Rightarrow> gostr \<Rightarrow> gostr \<Rightarrow> gostr" where
  "generic_selector lower host goal =
     (let g = lower (trim_space goal); q = [CHR 0x27] in
      if contains_any g [''title'', ''name'']
      then (if contains host ''amazon.'' then ''span#productTitle || h2 span || h1''
            else ''h1 || h2 || [data-testid*='' @ q @ ''title'' @ q @ ''] || [itemprop='' @ q @ ''name'' @ q @ '']'')
      else if contains_any g [''rating'', ''stars'', ''review'']
      then (if contains host ''amazon.''
            then ''span[data-hook='' @ q @ ''rating-out-of-text'' @ q
                 @ ''] || i.a-icon-star-small span.a-icon-alt || span.a-size-base.s-underline-text''
            else ''[itemprop='' @ q @ ''ratingValue'' @ q @ ''] || [data-testid*='' @ q @ ''rating'' @ q
                 @ ''] || [class*='' @ q @ ''rating'' @ q @ '']'')
      else [])"

definition extraction_hint :: "(gostr \<Rightarrow> gostr) \<Rightarrow> gostr \<Rightarrow> gostr" where
  "extraction_hint lower goal =
     (let l = lower (trim_space goal) in
      if contains_any l [''price'', ''cost'', ''how much'', ''amount''] then ''price''
      else if contains_any l [''rating'', ''stars'', ''review''] then ''rating''
      else if contains_any l [''title'', ''name''] then ''title'' else ''text'')"

section \<open>The query of a search goal\<close>

text \<open>The expression \<open>trimExpr\<close> cuts blanks and quotes in front, blanks, quotes and punctuation at
  the end.\<close>

definition lead_cut :: "char \<Rightarrow> bool" where
  "lead_cut c \<longleftrightarrow> re_space c \<or> c \<in> {CHR 0x22, CHR 0x27, CHR 0x60}"

definition tail_cut :: "char \<Rightarrow> bool" where
  "tail_cut c \<longleftrightarrow> lead_cut c \<or> c \<in> set ''.,!?;:''"

definition trim_expr :: "gostr \<Rightarrow> gostr" where
  "trim_expr s = rev (dropWhile tail_cut (rev (dropWhile lead_cut s)))"

definition search_patterns :: "gostr list" where
  "search_patterns = [''search for '', ''search '', ''find '', ''look up '', ''lookup '']"

text \<open>The position is found in the lower-cased text and used in the original: \<open>None\<close> is the panic
  of a slice that starts behind the end.\<close>

primrec query_by :: "gostr \<Rightarrow> gostr \<Rightarrow> gostr list \<Rightarrow> gostr option" where
  "query_by goal l [] = Some []"
| "query_by goal l (pat # pats) =
     (case index_of l pat of
        None \<Rightarrow> query_by goal l pats
      | Some i \<Rightarrow>
          if i + length pat > length goal then None
          else Some (trim_space (collapse_spaces (trim_expr (trim_space (drop (i + length pat) goal))))))"

definition parse_search_query :: "(gostr \<Rightarrow> gostr) \<Rightarrow> gostr \<Rightarrow> gostr option" where
  "parse_search_query lower goal =
     (let t = trim_space goal in if t = [] then Some [] else query_by t (lower t) search_patterns)"

section \<open>The search box\<close>

definition css_escaped :: "gostr \<Rightarrow> gostr" where
  "css_escaped v = replace_all (replace_all v (CHR 0x5C) [] [CHR 0x5C, CHR 0x5C]) (CHR 0x22) [] [CHR 0x5C, CHR 0x22]"

text \<open>\<open>[name="value"]\<close>.\<close>

definition attr :: "gostr \<Rightarrow> gostr \<Rightarrow> gostr" where
  "attr name v = ''['' @ name @ ''='' @ [CHR 0x22] @ css_escaped v @ [CHR 0x22] @ '']''"

definition best_selector :: "(gostr \<Rightarrow> gostr) \<Rightarrow> page_element \<Rightarrow> gostr" where
  "best_selector lower e =
     (let tag = lower (trim_space (pe_tag e)); tag = (if tag = [] then ''input'' else tag);
          i = trim_space (pe_id e); name = trim_space (pe_name e); typ = trim_space (pe_type e);
          aria = trim_space (pe_aria e); placeholder = trim_space (pe_placeholder e)
      in if i \<noteq> [] then ''#'' @ css_escaped i
         else if name \<noteq> [] \<and> placeholder \<noteq> [] then tag @ attr ''name'' name @ attr ''placeholder'' placeholder
         else if name \<noteq> [] \<and> aria \<noteq> [] then tag @ attr ''name'' name @ attr ''aria-label'' aria
         else if name \<noteq> [] \<and> typ \<noteq> [] then tag @ attr ''name'' name @ attr ''type'' typ
         else if name \<noteq> [] then tag @ attr ''name'' name
         else if typ \<noteq> [] then tag @ attr ''type'' typ
         else if aria \<noteq> [] then tag @ attr ''aria-label'' aria
         else if placeholder \<noteq> [] then tag @ attr ''placeholder'' placeholder
         else trim_space (pe_selector e))"

definition is_search_candidate :: "(gostr \<Rightarrow> gostr) \<Rightarrow> page_element \<Rightarrow> bool" where
  "is_search_candidate lower e =
     (let tag = lower (trim_space (pe_tag e)); typ = lower (trim_space (pe_type e)) in
      (tag = ''input'' \<or> tag = ''textarea'') \<and> \<not> blank (pe_selector e)
      \<and> typ \<notin> {''hidden'', ''checkbox'', ''radio''})"

text \<open>The product wraps in the 64 bits of an \<open>int\<close>.\<close>

definition element_area :: "page_element \<Rightarrow> int" where
  "element_area e = sint (word_of_int (pe_width e) * word_of_int (pe_height e) :: 64 word)"

definition search_score :: "(gostr \<Rightarrow> gostr) \<Rightarrow> page_element \<Rightarrow> int" where
  "search_score lower e =
     (let typ = lower (trim_space (pe_type e));
          haystack = lower (join [pe_name e, pe_placeholder e, pe_aria e, pe_text e, pe_id e] '' '');
          area = element_area e
      in (if typ = ''search'' then 8 else 0) + (if typ = ''text'' \<or> typ = [] then 2 else 0)
         + (if contains haystack ''search'' then 6 else 0)
         + (if contains haystack ''query'' \<or> contains haystack ''keyword'' then 4 else 0)
         + (if contains haystack ''q'' then 1 else 0)
         + (if area \<ge> 20000 then 8 else if area \<ge> 12000 then 6 else if area \<ge> 6000 then 3
            else if area \<ge> 2500 then 1 else 0))"

definition better_candidate :: "(gostr \<Rightarrow> gostr) \<Rightarrow> page_element \<Rightarrow> page_element \<Rightarrow> bool" where
  "better_candidate lower a b =
     (if search_score lower a = search_score lower b then element_area a > element_area b
      else search_score lower a > search_score lower b)"

text \<open>The head of the sorted candidates; among equally good ones \<open>sort.Slice\<close> may choose another
  one when there are more than twelve.\<close>

definition select_search_input :: "(gostr \<Rightarrow> gostr) \<Rightarrow> page_element list \<Rightarrow> gostr" where
  "select_search_input lower es =
     (case sort_by (better_candidate lower) (filter (is_search_candidate lower) es) of
        [] \<Rightarrow> [] | e # _ \<Rightarrow> best_selector lower e)"

section \<open>The planners\<close>

record remote_config =
  rm_url :: gostr
  rm_token :: gostr
  rm_model :: gostr
  rm_timeout :: duration
  rm_max_elements :: int

datatype planner =
    HeuristicPlanner
  | TemplatePlanner "planner option"
  | EndpointPlanner remote_config "planner option"
  | OpenAIPlanner remote_config "planner option"

text \<open>A plan fails with an error, or the planner panics.\<close>

datatype plan_failure = PlanPanic | PlanError go_error

record endpoint_request =
  er_goal :: gostr
  er_model :: gostr
  er_allowed :: "gostr list"
  er_state :: state_packet

record chat_request =
  ch_model :: gostr
  ch_messages :: "(gostr \<times> gostr) list"

text \<open>\<open>pl_post\<close> is the request with its bearer token and its body; it answers an error of
  \<open>NewRequest\<close>, of \<open>Do\<close> or of reading the body, or the status and the body. A decoded plan holds
  the actions of both places.\<close>

datatype post_answer = BuildFailed go_error | CallFailed go_error | ReadFailed go_error | Answered int gostr

record planner_libs =
  pl_lower :: "gostr \<Rightarrow> gostr"
  pl_hostname :: "gostr \<Rightarrow> gostr option"
  pl_encode_endpoint :: "endpoint_request \<Rightarrow> go_error + gostr"
  pl_encode_packet :: "state_packet \<Rightarrow> go_error + gostr"
  pl_encode_chat :: "chat_request \<Rightarrow> go_error + gostr"
  pl_decode_plan :: "gostr \<Rightarrow> go_error + exec_action list \<times> exec_action list"
  pl_decode_chat :: "gostr \<Rightarrow> go_error + gostr list"
  pl_post :: "gostr \<Rightarrow> gostr \<Rightarrow> duration \<Rightarrow> gostr \<Rightarrow> post_answer"
  pl_system_prompt :: gostr

definition act :: "gostr \<Rightarrow> gostr \<Rightarrow> gostr \<Rightarrow> int \<Rightarrow> int \<Rightarrow> exec_action" where
  "act typ selector text timeout_ms delay_ms = \<lparr>ea_type = typ, ea_selector = selector, ea_text = text,
     ea_pixels = 0, ea_timeout_ms = timeout_ms, ea_delay_ms = delay_ms\<rparr>"

definition heuristic_plan ::
  "planner_libs \<Rightarrow> gostr \<Rightarrow> page_snapshot \<Rightarrow> plan_failure + exec_action list" where
  "heuristic_plan lib goal s =
     (case parse_search_query (pl_lower lib) goal of
        None \<Rightarrow> Inl PlanPanic
      | Some query \<Rightarrow>
          if query = [] then Inr []
          else let sel = select_search_input (pl_lower lib) (ps_elements s) in
               if sel = [] then Inr []
               else Inr [act ''wait_for'' sel [] 8000 0, act ''type'' sel query 0 0, act ''press_enter'' sel [] 0 0,
                         act ''wait_for_url_contains'' [] query 10000 0, act ''wait'' [] [] 0 800])"

definition snapshot_host :: "planner_libs \<Rightarrow> gostr \<Rightarrow> gostr" where
  "snapshot_host lib raw =
     (case pl_hostname lib (trim_space raw) of None \<Rightarrow> [] | Some h \<Rightarrow> pl_lower lib (trim_space h))"

text \<open>The template's own actions; \<open>None\<close> is the panic of \<open>parseSearchQuery\<close>.\<close>

definition template_actions ::
  "planner_libs \<Rightarrow> gostr \<Rightarrow> page_snapshot \<Rightarrow> exec_action list option" where
  "template_actions lib goal s =
     (let lower = pl_lower lib in
      case parse_search_query lower goal of
        None \<Rightarrow> None
      | Some query \<Rightarrow>
          let host = snapshot_host lib (ps_url s);
              sel = (if query = [] then [] else select_search_input lower (ps_elements s));
              search = (if sel = [] then []
                        else [act ''wait_for'' sel [] 8000 0, act ''type'' sel query 0 0,
                              act ''press_enter'' sel [] 0 0, act ''wait'' [] [] 0 1200]);
              extract =
                (if is_price_goal lower goal
                 then [act ''extract_text'' (price_selector host) ''price'' 10000 0]
                 else if is_text_goal lower goal
                 then (let gs = generic_selector lower host goal in
                       if gs = [] then [] else [act ''extract_text'' gs (extraction_hint lower goal) 10000 0])
                 else [])
          in Some (search @ extract))"

definition decoded_actions :: "planner_libs \<Rightarrow> gostr \<Rightarrow> gostr \<Rightarrow> gostr \<Rightarrow> go_error + exec_action list" where
  "decoded_actions lib who decoding body =
     (case pl_decode_plan lib body of
        Inl e \<Rightarrow> Inl (wrap_error decoding e)
      | Inr (direct, nested) \<Rightarrow>
          let as = sanitize_planned_actions (if direct = [] \<and> nested \<noteq> [] then nested else direct)
          in if as = [] then Inl (new_error (who @ '' returned no valid actions'')) else Inr as)"

definition status_failed :: "gostr \<Rightarrow> int \<Rightarrow> gostr \<Rightarrow> go_error" where
  "status_failed who code body = new_error (who @ '' status='' @ fmt_d code @ '' body='' @ trim_space body)"

definition plan_timeout :: "duration \<Rightarrow> duration" where
  "plan_timeout t = (if t \<le> 0 then 8 * second else t)"

definition ask_endpoint ::
  "planner_libs \<Rightarrow> remote_config \<Rightarrow> gostr \<Rightarrow> page_snapshot \<Rightarrow> go_error + exec_action list" where
  "ask_endpoint lib cfg goal s =
     (let endpoint = trim_space (rm_url cfg) in
      if endpoint = [] then Inl (new_error ''planner endpoint url is empty'')
      else case pl_encode_endpoint lib \<lparr>er_goal = trim_space goal, er_model = trim_space (rm_model cfg),
               er_allowed = allowed_planner_actions,
               er_state = build_state_packet (pl_lower lib) goal s (rm_max_elements cfg)\<rparr> of
          Inl e \<Rightarrow> Inl (wrap_error ''marshal planner request: '' e)
        | Inr raw \<Rightarrow>
            (case pl_post lib endpoint (trim_space (rm_token cfg)) (plan_timeout (rm_timeout cfg)) raw of
               BuildFailed e \<Rightarrow> Inl (wrap_error ''build planner request: '' e)
             | CallFailed e \<Rightarrow> Inl (wrap_error ''call planner endpoint: '' e)
             | ReadFailed e \<Rightarrow> Inl (wrap_error ''read planner endpoint response: '' e)
             | Answered code body \<Rightarrow>
                 if code < 200 \<or> 300 \<le> code then Inl (status_failed ''planner endpoint'' code body)
                 else decoded_actions lib ''planner endpoint'' ''decode planner endpoint response: '' body))"

definition last_index :: "gostr \<Rightarrow> char \<Rightarrow> nat option" where
  "last_index s c = (case index_of (rev s) [c] of None \<Rightarrow> None | Some i \<Rightarrow> Some (length s - 1 - i))"

definition extract_json_object :: "gostr \<Rightarrow> gostr" where
  "extract_json_object v =
     (let t = trim_space v in
      if t = [] then t
      else let fence = replicate 3 (CHR 0x60);
               t = trim_space (trim_suffix (trim_prefix (trim_prefix t (fence @ ''json'')) fence) fence)
           in case (index_of t ''{'', last_index t (CHR 0x7D)) of
                (Some start, Some stop) \<Rightarrow>
                  if stop > start then trim_space (take (stop + 1 - start) (drop start t)) else t
              | _ \<Rightarrow> t)"

definition openai_url :: gostr where
  "openai_url = ''https://api.openai.com/v1/chat/completions''"

definition openai_model :: gostr where
  "openai_model = ''gpt-4o-mini''"

definition openai_messages :: "planner_libs \<Rightarrow> gostr \<Rightarrow> gostr \<Rightarrow> (gostr \<times> gostr) list" where
  "openai_messages lib goal packet =
     [(''system'', pl_system_prompt lib),
      (''user'', ''Goal:'' @ [CHR 0x0A] @ trim_space goal @ [CHR 0x0A, CHR 0x0A] @ ''State packet JSON:'' @ [CHR 0x0A] @ packet)]"

definition openai_content :: "planner_libs \<Rightarrow> gostr \<Rightarrow> go_error + exec_action list" where
  "openai_content lib body =
     (case pl_decode_chat lib body of
        Inl e \<Rightarrow> Inl (wrap_error ''decode openai response: '' e)
      | Inr [] \<Rightarrow> Inl (new_error ''openai planner returned no choices'')
      | Inr (c # _) \<Rightarrow>
          if blank c then Inl (new_error ''openai planner returned empty content'')
          else decoded_actions lib ''openai planner'' ''decode openai actions payload: ''
                 (extract_json_object (trim_space c)))"

definition ask_openai ::
  "planner_libs \<Rightarrow> remote_config \<Rightarrow> gostr \<Rightarrow> page_snapshot \<Rightarrow> go_error + exec_action list" where
  "ask_openai lib cfg goal s =
     (let url = (if blank (rm_url cfg) then openai_url else trim_space (rm_url cfg));
          key = trim_space (rm_token cfg);
          model = (if blank (rm_model cfg) then openai_model else trim_space (rm_model cfg))
      in if key = [] then Inl (new_error ''openai api key is empty'')
         else case pl_encode_packet lib (build_state_packet (pl_lower lib) goal s (rm_max_elements cfg)) of
           Inl e \<Rightarrow> Inl (wrap_error ''encode planner state: '' e)
         | Inr packet \<Rightarrow>
             (case pl_encode_chat lib \<lparr>ch_model = model, ch_messages = openai_messages lib goal packet\<rparr> of
                Inl e \<Rightarrow> Inl (wrap_error ''encode openai request: '' e)
              | Inr raw \<Rightarrow>
                  (case pl_post lib url key (plan_timeout (rm_timeout cfg)) raw of
                     BuildFailed e \<Rightarrow> Inl (wrap_error ''build openai request: '' e)
                   | CallFailed e \<Rightarrow> Inl (wrap_error ''call openai planner: '' e)
                   | ReadFailed e \<Rightarrow> Inl (wrap_error ''read openai response: '' e)
                   | Answered code body \<Rightarrow>
                       if code < 200 \<or> 300 \<le> code then Inl (status_failed ''openai planner'' code body)
                       else openai_content lib body)))"

text \<open>\<open>Plan\<close>: a remote planner falls back on an error, and reports its own error when the fallback
  fails too. A planner without fallback answers no actions, or its error.\<close>

definition fall_back :: "go_error \<Rightarrow> plan_failure + exec_action list \<Rightarrow> plan_failure + exec_action list" where
  "fall_back cause r = (case r of Inl (PlanError _) \<Rightarrow> Inl (PlanError cause) | _ \<Rightarrow> r)"

fun plan :: "planner_libs \<Rightarrow> planner \<Rightarrow> gostr \<Rightarrow> page_snapshot \<Rightarrow> plan_failure + exec_action list"
and plan_or :: "planner_libs \<Rightarrow> plan_failure + exec_action list \<Rightarrow> planner option \<Rightarrow> gostr \<Rightarrow> page_snapshot \<Rightarrow>
       plan_failure + exec_action list" where
  "plan lib HeuristicPlanner goal s = heuristic_plan lib goal s"
| "plan lib (TemplatePlanner f) goal s =
     (if blank goal then plan_or lib (Inr []) f goal s
      else case template_actions lib (trim_space goal) s of
             None \<Rightarrow> Inl PlanPanic
           | Some [] \<Rightarrow> plan_or lib (Inr []) f goal s
           | Some as \<Rightarrow> Inr as)"
| "plan lib (EndpointPlanner cfg f) goal s =
     (case ask_endpoint lib cfg goal s of
        Inl cause \<Rightarrow> fall_back cause (plan_or lib (Inl (PlanError cause)) f goal s)
      | Inr as \<Rightarrow> Inr as)"
| "plan lib (OpenAIPlanner cfg f) goal s =
     (case ask_openai lib cfg goal s of
        Inl cause \<Rightarrow> fall_back cause (plan_or lib (Inl (PlanError cause)) f goal s)
      | Inr as \<Rightarrow> Inr as)"
| "plan_or lib none None goal s = none"
| "plan_or lib none (Some p) goal s = plan lib p goal s"

record planner_config =
  pc_mode :: gostr
  pc_url :: gostr
  pc_token :: gostr
  pc_model :: gostr
  pc_timeout :: duration
  pc_max_elements :: int

definition remote_of :: "planner_config \<Rightarrow> gostr \<Rightarrow> gostr \<Rightarrow> remote_config" where
  "remote_of cfg url model = \<lparr>rm_url = url, rm_token = trim_space (pc_token cfg), rm_model = model,
     rm_timeout = plan_timeout (pc_timeout cfg),
     rm_max_elements = (if pc_max_elements cfg \<le> 0 then 48 else pc_max_elements cfg)\<rparr>"

definition new_action_planner :: "planner_config \<Rightarrow> planner option" where
  "new_action_planner cfg =
     (let mode = to_lower (trim_space (pc_mode cfg));
          template = TemplatePlanner (Some HeuristicPlanner);
          url = trim_space (pc_url cfg); model = trim_space (pc_model cfg)
      in if mode \<in> {[], ''template''} then Some template
         else if mode = ''heuristic'' then Some HeuristicPlanner
         else if mode \<in> {''goal'', ''goal_template'', ''template_plus''} then Some template
         else if mode \<in> {''endpoint'', ''llm'', ''hybrid''}
         then (if url = [] then Some template else Some (EndpointPlanner (remote_of cfg url model) (Some template)))
         else if mode \<in> {''openai'', ''model''}
         then (if blank (pc_token cfg) then Some template
               else Some (OpenAIPlanner (remote_of cfg (if url = [] then openai_url else url)
                            (if model = [] then openai_model else model)) (Some template)))
         else if mode = ''off'' then None
         else Some template)"

end
