(* ===== verification/StepPlanner.thy ===== *)
theory StepPlanner
  imports Planner
begin

text \<open>
  The step planner of \<open>cmd/node-agent/planner.go\<close>, which asks a planner for a whole plan in each
  round and hands out the action of the round, and what the planners guarantee: which search box is
  chosen, that an attribute selector names the attribute's value, that the packet is bounded, that
  the configured planner always has a plan.
\<close>

section \<open>Rounds\<close>

record step_result =
  rs_clicked :: gostr
  rs_focus :: bool
  rs_typed_selector :: gostr
  rs_typed_text :: gostr
  rs_value :: bool
  rs_url_before :: gostr
  rs_url_after :: gostr
  rs_url_changed :: bool
  rs_extracted :: gostr
  rs_extracted_valid :: bool
  rs_blocker_type :: gostr
  rs_blocker_message :: gostr

record step_trace =
  st_index :: int
  st_action :: exec_action
  st_status :: gostr
  st_error :: gostr
  st_output :: gostr
  st_result :: "step_result option"

record step_request =
  sr_goal :: gostr
  sr_url :: gostr
  sr_snapshot :: page_snapshot
  sr_prior :: "step_trace list"
  sr_last :: "step_trace option"
  sr_allowed :: "gostr list"

record step_response =
  sa_next :: "exec_action option"
  sa_stop :: bool
  sa_reason :: gostr

definition next_step :: "exec_action \<Rightarrow> step_response" where
  "next_step a = \<lparr>sa_next = Some a, sa_stop = False, sa_reason = []\<rparr>"

definition stop_step :: "gostr \<Rightarrow> step_response" where
  "stop_step why = \<lparr>sa_next = None, sa_stop = True, sa_reason = why\<rparr>"

primrec used_signatures :: "gostr set \<Rightarrow> step_trace list \<Rightarrow> gostr set" where
  "used_signatures used [] = used"
| "used_signatures used (p # prior) =
     (case sanitize_planned_actions [st_action p] of
        [] \<Rightarrow> used_signatures used prior
      | c # _ \<Rightarrow> used_signatures (insert (action_signature c) used) prior)"

primrec first_unused :: "gostr set \<Rightarrow> exec_action list \<Rightarrow> step_response" where
  "first_unused used [] = stop_step ''plan_exhausted''"
| "first_unused used (c # cs) = (if action_signature c \<in> used then first_unused used cs else next_step c)"

definition pick_step :: "exec_action list \<Rightarrow> step_trace list \<Rightarrow> step_response" where
  "pick_step as prior =
     (if as = [] then stop_step ''no_actions''
      else if length prior < length as then next_step (as ! length prior)
      else first_unused (used_signatures {} prior) as)"

definition plan_step ::
  "planner_libs \<Rightarrow> planner option \<Rightarrow> step_request \<Rightarrow> plan_failure + step_response" where
  "plan_step lib p req =
     (case p of
        None \<Rightarrow> Inl (PlanError (new_error ''planner is not configured''))
      | Some pl \<Rightarrow>
          (case plan lib pl (sr_goal req) (sr_snapshot req) of
             Inl f \<Rightarrow> Inl f
           | Inr as \<Rightarrow> Inr (pick_step (sanitize_planned_actions as) (sr_prior req))))"

lemma first_unused_cases:
  "first_unused used cs = stop_step ''plan_exhausted'' \<and> (\<forall>c\<in>set cs. action_signature c \<in> used)
   \<or> (\<exists>c\<in>set cs. action_signature c \<notin> used \<and> first_unused used cs = next_step c)"
  by (induction cs) auto

lemma used_mono: "used \<subseteq> used_signatures used prior"
proof (induction prior arbitrary: used)
  case (Cons p prior)
  then show ?case by (cases "sanitize_planned_actions [st_action p]") force+
qed simp

lemma used_signatures_mem:
  "p \<in> set prior \<Longrightarrow> sanitize_planned_actions [st_action p] = [c] \<Longrightarrow>
   action_signature c \<in> used_signatures used prior"
proof (induction prior arbitrary: used)
  case (Cons q prior)
  show ?case
  proof (cases "q = p")
    case True
    with Cons.prems used_mono show ?thesis by (force simp del: used_signatures.simps(1))
  next
    case False
    with Cons show ?thesis by (auto split: list.splits)
  qed
qed simp

lemma pick_step_cases:
  assumes "sa_next (pick_step as prior) = Some a"
  shows "a \<in> set as" "length as \<le> length prior \<Longrightarrow> action_signature a \<notin> used_signatures {} prior"
    "sa_stop (pick_step as prior) = False"
  using assms first_unused_cases [of "used_signatures {} prior" as]
  by (auto simp: pick_step_def stop_step_def next_step_def split: if_splits)

text \<open>A single action that was sanitized passes the sanitizer unchanged.\<close>

lemma sanitize_single:
  "sanitize_planned_actions [a] = (case sanitize_action a of None \<Rightarrow> [] | Some b \<Rightarrow> [b])"
  by (simp add: sanitize_spec map_filter_simps split: option.split)

lemma sanitized_single: "a \<in> set (sanitize_planned_actions as) \<Longrightarrow> sanitize_planned_actions [a] = [a]"
  by (simp add: sanitize_single sanitized_fixed)

lemma plan_step_sanitized:
  assumes "plan_step lib p req = Inr r" "sa_next r = Some a"
  shows "safe_action a" "sanitize_planned_actions [a] = [a]" "\<not> sa_stop r"
proof -
  from assms(1) obtain as where r: "r = pick_step (sanitize_planned_actions as) (sr_prior req)"
    by (auto simp: plan_step_def split: option.splits sum.splits)
  note c = pick_step_cases [OF assms(2) [unfolded r]]
  show "safe_action a" "sanitize_planned_actions [a] = [a]" "\<not> sa_stop r"
    using c sanitized_fixed(2) sanitized_single by (auto simp: r)
qed

lemma pick_step_stop: "sa_next (pick_step as prior) = None \<Longrightarrow> sa_stop (pick_step as prior)"
  using first_unused_cases [of "used_signatures {} prior" as]
  by (auto simp: pick_step_def next_step_def stop_step_def split: if_splits)

lemma plan_step_stop: "plan_step lib p req = Inr r \<Longrightarrow> sa_next r = None \<Longrightarrow> sa_stop r"
  by (auto simp: plan_step_def pick_step_stop split: option.splits sum.splits)

lemma first_unused_all: "list_all (\<lambda>c. action_signature c \<in> used) cs \<Longrightarrow> first_unused used cs = stop_step ''plan_exhausted''"
  by (induction cs) auto

text \<open>The step planner walks through a plan: while the page keeps yielding the same plan and the
  recorded actions are its first ones, the round gets the next action of the sanitized plan, and
  after the last one the planner stops.\<close>

lemma plan_step_in_order:
  assumes "plan lib pl (sr_goal req) (sr_snapshot req) = Inr ps"
    and "map st_action (sr_prior req) = take (length (sr_prior req)) (sanitize_planned_actions ps)"
  shows "plan_step lib (Some pl) req = Inr
     (case drop (length (sr_prior req)) (sanitize_planned_actions ps) of
        a # _ \<Rightarrow> next_step a
      | [] \<Rightarrow> stop_step (if sanitize_planned_actions ps = [] then ''no_actions'' else ''plan_exhausted''))"
proof -
  let ?as = "sanitize_planned_actions ps" and ?k = "length (sr_prior req)"
  show ?thesis
  proof (cases "?k < length ?as")
    case True
    then have "drop ?k ?as = ?as ! ?k # drop (Suc ?k) ?as" by (simp add: Cons_nth_drop_Suc)
    with True assms(1) show ?thesis by (auto simp: plan_step_def pick_step_def)
  next
    case False
    with assms(2) have eq: "map st_action (sr_prior req) = ?as" by simp
    have "list_all (\<lambda>c. action_signature c \<in> used_signatures {} (sr_prior req)) ?as"
    proof (unfold list_all_iff, rule)
      fix c assume c: "c \<in> set ?as"
      with eq obtain q where "q \<in> set (sr_prior req)" "st_action q = c" by (metis imageE list.set_map)
      with sanitized_single [OF c] used_signatures_mem
      show "action_signature c \<in> used_signatures {} (sr_prior req)" by blast
    qed
    with False assms(1) show ?thesis by (simp add: plan_step_def pick_step_def first_unused_all)
  qed
qed

section \<open>The search box\<close>

interpretation candidates: strict_weak "better_candidate lower" for lower
  by unfold_locales (auto simp: better_candidate_def split: if_splits)

text \<open>The selector of a search box is that of the best candidate: of the highest score, and of
  the largest area among those; there is none only if the page has no candidate.\<close>

lemma select_search_input_best:
  "(select_search_input lower es = [] \<and> \<not> list_ex (is_search_candidate lower) es)
   \<or> (\<exists>e. e \<in> set es \<and> is_search_candidate lower e \<and> select_search_input lower es = best_selector lower e
        \<and> list_all (\<lambda>e'. \<not> better_candidate lower e' e) (filter (is_search_candidate lower) es))"
proof (cases "sort_by (better_candidate lower) (filter (is_search_candidate lower) es)")
  case Nil
  then have "filter (is_search_candidate lower) es = []" by (metis length_0_conv length_sort_by)
  then show ?thesis by (auto simp: select_search_input_def list_ex_iff filter_empty_conv)
next
  case (Cons e rest)
  let ?cs = "filter (is_search_candidate lower) es"
  have set: "set (e # rest) = set ?cs" by (metis Cons set_sort_by)
  have "sorted_wrt (\<lambda>x y. \<not> better_candidate lower y x) (e # rest)"
    using candidates.sorted_sort_by Cons by metis
  then have "list_all (\<lambda>e'. \<not> better_candidate lower e' e) ?cs"
    using candidates.less_asym [of lower e e] by (auto simp: list_all_iff set [symmetric] simp del: set_filter)
  with Cons set show ?thesis by (auto simp: select_search_input_def)
qed

section \<open>Attribute selectors\<close>

text \<open>A CSS string token behind its opening quote: the value and what follows. A line break ends the
  token as a bad string, and so does, here, an escape by hexadecimal digits.\<close>

definition css_newline :: "char \<Rightarrow> bool" where
  "css_newline c \<longleftrightarrow> c \<in> {CHR 0x0A, CHR 0x0C, CHR 0x0D}"

definition css_hex :: "char \<Rightarrow> bool" where
  "css_hex c \<longleftrightarrow> is_digit c \<or> lower_char c \<in> set ''abcdef''"

fun css_string :: "gostr \<Rightarrow> (gostr \<times> gostr) option" where
  "css_string [] = None"
| "css_string [c] = (if c = CHR 0x22 then Some ([], []) else None)"
| "css_string (c # d # s) =
     (if c = CHR 0x22 then Some ([], d # s)
      else if css_newline c then None
      else if c = CHR 0x5C
      then (if css_newline d \<or> css_hex d then None
            else map_option (\<lambda>(v, r). (d # v, r)) (css_string s))
      else map_option (\<lambda>(v, r). (c # v, r)) (css_string (d # s)))"

lemma split_at_char:
  "split_at (x # s) c [] = (if x = c then [] # split_at s c [] else (x # hd (split_at s c [])) # tl (split_at s c []))"
  by (subst (1 2 3 4) split_at.simps) (auto simp: has_prefix_def split: option.splits)

lemma replace_char_simps [simp]:
  "replace_all [] c [] new = []"
  "replace_all (x # s) c [] new = (if x = c then new @ replace_all s c [] new else x # replace_all s c [] new)"
proof -
  show "replace_all [] c [] new = []" by (simp add: replace_all_def split_at.simps)
  obtain p ps where s: "split_at s c [] = p # ps" using split_at_nonempty by (metis list.exhaust)
  show "replace_all (x # s) c [] new = (if x = c then new @ replace_all s c [] new else x # replace_all s c [] new)"
    by (cases ps) (simp_all add: replace_all_def split_at_char s)
qed

lemma css_escaped_simps [simp]:
  "css_escaped [] = []"
  "css_escaped (c # v) = (if c \<in> {CHR 0x5C, CHR 0x22} then CHR 0x5C # c # css_escaped v else c # css_escaped v)"
  by (auto simp: css_escaped_def)

lemma css_string_end: "css_string (CHR 0x22 # rest) = Some ([], rest)"
  by (cases rest) simp_all

lemma css_string_plain:
  "c \<notin> {CHR 0x22, CHR 0x5C} \<Longrightarrow> \<not> css_newline c \<Longrightarrow> s \<noteq> [] \<Longrightarrow>
   css_string (c # s) = map_option (\<lambda>(v, r). (c # v, r)) (css_string s)"
  by (cases s) simp_all

lemma css_escapes: "\<not> css_newline c \<Longrightarrow> c \<in> {CHR 0x5C, CHR 0x22} \<Longrightarrow>
   css_string (CHR 0x5C # c # s) = map_option (\<lambda>(v, r). (c # v, r)) (css_string s)"
  by (elim insertE; simp add: css_hex_def is_digit_def lower_char_def css_newline_def)

text \<open>Whatever an element's name or label contains, read back by the rules of CSS the attribute
  selector names exactly that value and ends where it should: no value breaks out of its quotes.\<close>

lemma css_string_round_trip:
  assumes "list_all (\<lambda>c. \<not> css_newline c) v"
  shows "css_string (css_escaped v @ [CHR 0x22] @ rest) = Some (v, rest)"
  using assms
proof (induction v)
  case Nil
  show ?case by (simp add: css_string_end)
next
  case (Cons c v)
  then have IH: "css_string (css_escaped v @ CHR 0x22 # rest) = Some (v, rest)" by simp
  show ?case
  proof (cases "c \<in> {CHR 0x5C, CHR 0x22}")
    case True
    with Cons.prems css_escapes [of c "css_escaped v @ CHR 0x22 # rest"] IH show ?thesis
      by (simp del: css_string.simps)
  next
    case False
    with Cons.prems css_string_plain [of c "css_escaped v @ CHR 0x22 # rest"] IH show ?thesis
      by (simp del: css_string.simps)
  qed
qed

lemma css_string_round_trip_at_work:
  "css_string (css_escaped [CHR ''a'', CHR 0x22, CHR 0x5D, CHR 0x5C] @ [CHR 0x22] @ '']'')
     = Some ([CHR ''a'', CHR 0x22, CHR 0x5D, CHR 0x5C], '']'')"
  by (rule css_string_round_trip) (simp add: css_newline_def)

section \<open>The packet\<close>

lemma packet_loop_bounds:
  "int (length acc) \<le> max limit 0 \<Longrightarrow> int (length (packet_loop lower limit acc es)) \<le> max limit 0"
  by (induction es arbitrary: acc) auto

lemma first_non_empty_spec:
  "first_non_empty_string vs = [] \<and> list_all (\<lambda>v. blank v) vs
   \<or> (\<exists>v\<in>set vs. \<not> blank v \<and> first_non_empty_string vs = trim_space v)"
  by (induction vs) auto

lemma packet_loop_elements:
  assumes "p \<in> set (packet_loop lower limit acc es)"
  shows "p \<in> set acc \<or> (\<exists>e\<in>set es. \<not> blank (pe_selector e) \<and> p = packet_element lower e)"
  using assms
proof (induction es arbitrary: acc)
  case (Cons e es)
  show ?case
  proof (cases "int (length acc) \<ge> limit \<or> blank (pe_selector e)")
    case True
    with Cons show ?thesis by (cases "int (length acc) \<ge> limit") auto
  next
    case False
    with Cons.prems Cons.IH [of "acc @ [packet_element lower e]"] show ?thesis by auto
  qed
qed simp

lemma snippet_le: "0 < n \<Longrightarrow> length (trim_snippet v (int n)) \<le> n"
    "0 < (numeral m :: nat) \<Longrightarrow> length (trim_snippet v (numeral m)) \<le> numeral m"
  using trim_snippet_length [of "int n" v] trim_snippet_length [of "numeral m" v] by simp_all

lemma packet_element_bounds:
  "length (se_role (packet_element lower e)) \<le> 32" "length (se_name (packet_element lower e)) \<le> 120"
  "length (se_text (packet_element lower e)) \<le> 160" "length (se_selector (packet_element lower e)) \<le> 220"
  by (simp_all add: packet_element_def Let_def snippet_le del: trim_snippet_trimmed)

lemma packet_loop_all: "list_all (\<lambda>e. length (se_role e) \<le> 32 \<and> length (se_name e) \<le> 120 \<and> length (se_text e) \<le> 160
    \<and> length (se_selector e) \<le> 220) (packet_loop lower limit [] es)"
proof (unfold list_all_iff, rule)
  fix p assume "p \<in> set (packet_loop lower limit [] es)"
  then obtain e where "p = packet_element lower e" using packet_loop_elements by fastforce
  then show "length (se_role p) \<le> 32 \<and> length (se_name p) \<le> 120 \<and> length (se_text p) \<le> 160
    \<and> length (se_selector p) \<le> 220" using packet_element_bounds by simp
qed

text \<open>A remote planner never gets more than 120 elements nor more than the configured number, and
  every text in the packet but the address is cut to its bound, however large the page is.\<close>

lemma packet_bounded:
  "let p = build_state_packet lower goal s m in
     length (sp_elements p) \<le> 120 \<and> int (length (sp_elements p)) \<le> packet_limit m
     \<and> length (sp_title p) \<le> 160 \<and> length (sp_goal p) \<le> 220
     \<and> list_all (\<lambda>e. length (se_role e) \<le> 32 \<and> length (se_name e) \<le> 120 \<and> length (se_text e) \<le> 160
          \<and> length (se_selector e) \<le> 220) (sp_elements p)"
proof -
  have "1 \<le> packet_limit m" "packet_limit m \<le> 120" by (auto simp: packet_limit_def Let_def)
  moreover from this have "int (length (packet_loop lower (packet_limit m) [] (ps_elements s))) \<le> packet_limit m"
    using packet_loop_bounds [of "[]" "packet_limit m" lower "ps_elements s"] by simp
  moreover from calculation have "length (packet_loop lower (packet_limit m) [] (ps_elements s)) \<le> 120" by linarith
  moreover have "list_all (\<lambda>e. length (se_role e) \<le> 32 \<and> length (se_name e) \<le> 120 \<and> length (se_text e) \<le> 160
          \<and> length (se_selector e) \<le> 220) (packet_loop lower (packet_limit m) [] (ps_elements s))"
    by (rule packet_loop_all)
  ultimately show ?thesis
    by (simp add: build_state_packet_def Let_def snippet_le)
qed

section \<open>Planning always answers\<close>

lemma query_by_total: "length l = length g \<Longrightarrow> \<exists>q. query_by g l pats = Some q"
  using index_of_Some [of l] by (induction pats) (fastforce split: option.splits)+

lemma parse_search_query_total:
  "\<forall>x. length (lower x) = length x \<Longrightarrow> \<exists>q. parse_search_query lower goal = Some q"
  by (simp add: parse_search_query_def Let_def query_by_total)

text \<open>The configured planners fall back on the template and the heuristic, which never report an
  error: only a panic keeps them from answering.\<close>

lemma heuristic_no_error: "heuristic_plan lib goal s \<noteq> Inl (PlanError e)"
  by (simp add: heuristic_plan_def Let_def split: option.split)

lemma template_no_error: "plan lib (TemplatePlanner (Some HeuristicPlanner)) goal s \<noteq> Inl (PlanError e)"
  using heuristic_no_error by (simp split: option.split list.split)

lemma fall_back_no_error: "(\<And>e. r \<noteq> Inl (PlanError e)) \<Longrightarrow> fall_back cause r \<noteq> Inl (PlanError e)"
  by (auto simp: fall_back_def split: sum.split plan_failure.split)

lemma template_total:
  assumes "\<forall>x. length (pl_lower lib x) = length x"
  shows "\<exists>as. plan lib (TemplatePlanner (Some HeuristicPlanner)) goal s = Inr as"
    "\<exists>as. plan lib HeuristicPlanner goal s = Inr as"
proof -
  obtain q where q: "parse_search_query (pl_lower lib) (trim_space goal) = Some q"
    using parse_search_query_total [OF assms] by blast
  obtain q' where q': "parse_search_query (pl_lower lib) goal = Some q'"
    using parse_search_query_total [OF assms] by blast
  show h: "\<exists>as. plan lib HeuristicPlanner goal s = Inr as" by (auto simp: heuristic_plan_def Let_def q')
  from h have h': "\<exists>as. heuristic_plan lib goal s = Inr as" by simp
  obtain as where as: "template_actions lib (trim_space goal) s = Some as"
    by (simp add: template_actions_def Let_def q)
  have "plan lib (TemplatePlanner (Some HeuristicPlanner)) goal s
      = (if blank goal \<or> as = [] then heuristic_plan lib goal s else Inr as)"
    by (simp only: plan.simps plan_or.simps as option.case split: list.split) simp
  with h' show "\<exists>as. plan lib (TemplatePlanner (Some HeuristicPlanner)) goal s = Inr as" by metis
qed

definition full_template :: planner where
  "full_template = TemplatePlanner (Some HeuristicPlanner)"

lemma if_in: "a \<in> S \<Longrightarrow> b \<in> S \<Longrightarrow> (if c then a else b) \<in> S"
  by simp

lemma new_planner_range:
  "new_action_planner cfg \<in> {None, Some HeuristicPlanner, Some full_template}
     \<union> range (\<lambda>c. Some (EndpointPlanner c (Some full_template)))
     \<union> range (\<lambda>c. Some (OpenAIPlanner c (Some full_template)))"
  unfolding new_action_planner_def Let_def full_template_def [symmetric]
  by (intro if_in) blast+

lemma new_planner_cases:
  assumes "new_action_planner cfg = Some p"
  obtains "p = HeuristicPlanner" | "p = TemplatePlanner (Some HeuristicPlanner)"
  | c where "p = EndpointPlanner c (Some (TemplatePlanner (Some HeuristicPlanner)))"
  | c where "p = OpenAIPlanner c (Some (TemplatePlanner (Some HeuristicPlanner)))"
  using assms new_planner_range [of cfg] unfolding full_template_def by auto


text \<open>The panic: \<open>strings.ToLower\<close> turns the two bytes of U+023A into three, the position found in
  the longer text is beyond the end of the goal.\<close>

lemma search_query_panics:
  "parse_search_query (\<lambda>s. replace_all s (CHR 0xC8) [CHR 0xBA] [CHR 0xE2, CHR 0xB1, CHR 0xA5])
     ([CHR 0xC8, CHR 0xBA, CHR 0xC8, CHR 0xBA] @ '' search a'') = None"
  by code_simp

section \<open>An example\<close>

definition box :: page_element where
  "box = \<lparr>pe_stable_id = ''el_1'', pe_tag = ''input'', pe_type = ''search'', pe_name = ''q'', pe_id = [],
     pe_placeholder = [], pe_aria = [], pe_role = [], pe_text = [], pe_selector = ''input'',
     pe_x = 0, pe_y = 0, pe_width = 200, pe_height = 40\<rparr>"

definition box_page :: page_snapshot where
  "box_page = \<lparr>ps_url = ''https://shop.example/'', ps_title = ''shop'', ps_viewport_width = 800,
     ps_viewport_height = 600, ps_scroll_x = 0, ps_scroll_y = 0, ps_elements = [box]\<rparr>"

definition no_network :: planner_libs where
  "no_network = \<lparr>pl_lower = to_lower, pl_hostname = (\<lambda>_. Some ''shop.example''),
     pl_encode_endpoint = (\<lambda>_. Inr []), pl_encode_packet = (\<lambda>_. Inr []), pl_encode_chat = (\<lambda>_. Inr []),
     pl_decode_plan = (\<lambda>_. Inr ([], [])), pl_decode_chat = (\<lambda>_. Inr []),
     pl_post = (\<lambda>_ _ _ _. CallFailed (new_error ''refused'')), pl_system_prompt = []\<rparr>"

definition openai_config :: planner_config where
  "openai_config = \<lparr>pc_mode = ''openai'', pc_url = [], pc_token = ''key'', pc_model = [], pc_timeout = 0,
     pc_max_elements = 0\<rparr>"

lemma openai_planner:
  "new_action_planner openai_config = Some (OpenAIPlanner (remote_of openai_config openai_url openai_model)
     (Some (TemplatePlanner (Some HeuristicPlanner))))"
  by code_simp


definition price_action :: exec_action where
  "price_action = act ''extract_text'' (price_selector ''shop.example'') ''price'' 10000 0"

definition first_request :: step_request where
  "first_request = \<lparr>sr_goal = ''price'', sr_url = ps_url box_page, sr_snapshot = box_page, sr_prior = [],
     sr_last = None, sr_allowed = allowed_planner_actions\<rparr>"

lemma price_plan:
  "plan no_network (TemplatePlanner None) (sr_goal first_request) (sr_snapshot first_request) = Inr [price_action]"
  by code_simp

lemma price_words:
  "to_lower ''extract_text'' = ''extract_text''" "trim_space ''extract_text'' = ''extract_text''"
  "trim_space (price_selector ''shop.example'') = price_selector ''shop.example''"
  "trim_snippet (trim_space ''price'') 320 = ''price''" "price_selector ''shop.example'' \<noteq> []"
  by (code_simp | simp add: plain_ends_def plain_char_def trim_snippet_def collapse_spaces_def re_space_def
    Let_def price_selector_def)+

lemma price_sanitized: "sanitize_planned_actions [price_action] = [price_action]"
  by (simp add: sanitize_single sanitize_action_def price_action_def act_def price_words Let_def
    allowed_planner_actions_def needs_selector_def clamp_def)

lemma plan_step_in_order_at_work:
  "plan_step no_network (Some (TemplatePlanner None)) first_request = Inr (next_step price_action)"
  using plan_step_in_order [OF price_plan] by (simp add: first_request_def price_sanitized)

end
