(* ===== verification/Cdp.thy ===== *)
theory Cdp
  imports Prelude "HOL-Library.State_Monad"
begin

text \<open>
  The Chrome DevTools client, \<open>internal/cdp/client.go\<close>. The websocket, the clock and the HTTP
  target list are an environment \<open>'w\<close> with the operations of a \<open>conn\<close>; the client is its request
  counter and that environment, and every operation is a computation of the state monad over it.
  A context is its deadline, if it has one; a cancellation shows in the answers of the connection.
  A script is a constructor with the Go values that its text quotes: what it does on the page is up
  to the browser.
\<close>

section \<open>The connection\<close>

type_synonym ctx = "go_time option"

datatype script =
    AnyVisible gostr
  | HrefContains gostr
  | HrefChanged gostr
  | ClickFirst gostr
  | FirstFocused gostr
  | FirstValueContains gostr gostr
  | ClearFirst gostr
  | TextOfFirst gostr
  | ScrollPage gostr int
  | FocusFirst gostr
  | DocumentTitle
  | LocationHref
  | BodyText
  | PageElements
  | SelectorFocused gostr
  | SelectorHolds gostr gostr
  | GeometryOf gostr
  | FocusAndClear gostr
  | ViewportSize

text \<open>The parameters of a mouse event. Its numbers are the texts that they have in JSON, a click
  count of 0 and deltas of 0 are left out.\<close>

record mouse_event =
  me_type :: gostr
  me_x :: gostr
  me_y :: gostr
  me_button :: gostr
  me_clicks :: int
  me_dx :: "gostr option"
  me_dy :: "gostr option"

datatype command =
    PageEnable
  | RuntimeEnable
  | PageNavigate gostr
  | CapturePng
  | Evaluate script
  | InsertText gostr
  | EnterKey gostr
  | MouseEvent mouse_event
  | BackspaceKey gostr

fun cdp_method :: "command \<Rightarrow> gostr" where
  "cdp_method PageEnable = ''Page.enable''"
| "cdp_method RuntimeEnable = ''Runtime.enable''"
| "cdp_method (PageNavigate _) = ''Page.navigate''"
| "cdp_method CapturePng = ''Page.captureScreenshot''"
| "cdp_method (Evaluate _) = ''Runtime.evaluate''"
| "cdp_method (InsertText _) = ''Input.insertText''"
| "cdp_method (EnterKey _) = ''Input.dispatchKeyEvent''"
| "cdp_method (MouseEvent _) = ''Input.dispatchMouseEvent''"
| "cdp_method (BackspaceKey _) = ''Input.dispatchKeyEvent''"

text \<open>An incoming text that is not JSON, or an envelope: its id (0 for an event), its error and its
  raw result, empty when there is none.\<close>

datatype message = Garbled | Envelope int "(int \<times> gostr) option" gostr

text \<open>A decoded value: \<open>nil\<close>, a bool, a string, or anything else with the text of \<open>fmt.Sprint\<close>.\<close>

datatype js_value = JsNil | JsBool bool | JsStr gostr | JsOther gostr

fun sprint :: "js_value \<Rightarrow> gostr" where
  "sprint JsNil = ''<nil>''"
| "sprint (JsBool b) = (if b then ''true'' else ''false'')"
| "sprint (JsStr s) = s"
| "sprint (JsOther t) = t"

record extracted =
  et_ok :: bool
  et_error :: gostr
  et_text :: gostr

text \<open>\<open>cn_arriving dl w\<close> are the messages that arrive on the socket before the deadline, and the
  error of the read after the last of them; \<open>cn_taken k\<close> is the socket after \<open>k\<close> reads.
  \<open>cn_wait\<close> is the \<open>select\<close> between the end of the context and a timer: it answers whether the
  context ended first.\<close>

record 'w conn =
  cn_write :: "ctx \<Rightarrow> int \<Rightarrow> command \<Rightarrow> 'w \<Rightarrow> go_error option \<times> 'w"
  cn_arriving :: "ctx \<Rightarrow> 'w \<Rightarrow> message list \<times> go_error"
  cn_taken :: "nat \<Rightarrow> 'w \<Rightarrow> 'w"
  cn_now :: "'w \<Rightarrow> go_time"
  cn_wait :: "ctx \<Rightarrow> duration \<Rightarrow> 'w \<Rightarrow> bool \<times> 'w"
  cn_ctx_error :: "ctx \<Rightarrow> 'w \<Rightarrow> go_error"
  cn_decode_value :: "gostr \<Rightarrow> go_error + js_value"
  cn_decode_data :: "gostr \<Rightarrow> go_error + gostr"
  cn_encode_value :: "js_value \<Rightarrow> go_error + gostr"
  cn_decode_text :: "gostr \<Rightarrow> go_error + extracted"
  cn_quote :: "gostr \<Rightarrow> gostr"
  cn_lower :: "gostr \<Rightarrow> gostr"

record 'w client =
  cl_id :: int
  cl_conn :: 'w

type_synonym ('w, 'a) cdp = "('w client, 'a) state"

definition on_conn :: "('w \<Rightarrow> 'a \<times> 'w) \<Rightarrow> ('w, 'a) cdp" where
  "on_conn f = State (\<lambda>s. case f (cl_conn s) of (a, w) \<Rightarrow> (a, s\<lparr>cl_conn := w\<rparr>))"

definition get_now :: "'w conn \<Rightarrow> ('w, go_time) cdp" where
  "get_now c = State (\<lambda>s. (cn_now c (cl_conn s), s))"

definition wait :: "'w conn \<Rightarrow> ctx \<Rightarrow> duration \<Rightarrow> ('w, bool) cdp" where
  "wait c ctx d = on_conn (cn_wait c ctx d)"

text \<open>\<open>ctx.Err()\<close> of a context that is done.\<close>

definition ctx_error :: "'w conn \<Rightarrow> ctx \<Rightarrow> ('w, go_error) cdp" where
  "ctx_error c ctx = State (\<lambda>s. (cn_ctx_error c ctx (cl_conn s), s))"

text \<open>\<open>context.WithTimeout\<close>: the earlier of both deadlines.\<close>

definition timeout_at :: "'w conn \<Rightarrow> ctx \<Rightarrow> duration \<Rightarrow> 'w \<Rightarrow> ctx" where
  "timeout_at c ctx t w = Some (case ctx of None \<Rightarrow> cn_now c w + t | Some d \<Rightarrow> min d (cn_now c w + t))"

definition with_timeout :: "'w conn \<Rightarrow> ctx \<Rightarrow> duration \<Rightarrow> ('w, ctx) cdp" where
  "with_timeout c ctx t = State (\<lambda>s. (timeout_at c ctx t (cl_conn s), s))"

text \<open>Calls in sequence, until the first error.\<close>

definition and_then :: "('s, 'e + 'a) state \<Rightarrow> ('a \<Rightarrow> ('s, 'e + 'b) state) \<Rightarrow> ('s, 'e + 'b) state" where
  "and_then m f = do { r \<leftarrow> m; case r of Inl e \<Rightarrow> State_Monad.return (Inl e) | Inr a \<Rightarrow> f a }"

abbreviation answer :: "'e + 'a \<Rightarrow> ('s, 'e + 'a) state" where
  "answer r \<equiv> State_Monad.return r"

section \<open>Call\<close>

text \<open>The reads of a call: how many there are and what the call answers. Texts that are not JSON,
  events and answers to other requests are skipped.\<close>

primrec scan :: "int \<Rightarrow> gostr \<Rightarrow> go_error \<Rightarrow> message list \<Rightarrow> nat \<times> (go_error + gostr)" where
  "scan n meth stop [] = (1, Inl (wrap_error ''read cdp response: '' stop))"
| "scan n meth stop (m # ms) =
     (case m of
        Garbled \<Rightarrow> map_prod Suc (\<lambda>r. r) (scan n meth stop ms)
      | Envelope i err raw \<Rightarrow>
          if i \<noteq> n then map_prod Suc (\<lambda>r. r) (scan n meth stop ms)
          else (1, case err of
                     Some (code, msg) \<Rightarrow>
                       Inl (new_error (''cdp '' @ meth @ '' failed ('' @ fmt_d code @ ''): '' @ msg))
                   | None \<Rightarrow> Inr raw))"

definition call_deadline :: "'w conn \<Rightarrow> ctx \<Rightarrow> 'w \<Rightarrow> ctx" where
  "call_deadline c ctx w = Some (case ctx of Some d \<Rightarrow> d | None \<Rightarrow> cn_now c w + 20 * second)"

definition call :: "'w conn \<Rightarrow> ctx \<Rightarrow> command \<Rightarrow> ('w, go_error + gostr) cdp" where
  "call c ctx cmd = State (\<lambda>s.
     let n = cl_id s + 1; dl = call_deadline c ctx (cl_conn s) in
     case cn_write c dl n cmd (cl_conn s) of
       (Some e, w) \<Rightarrow> (Inl (wrap_error ''write cdp request: '' e), \<lparr>cl_id = n, cl_conn = w\<rparr>)
     | (None, w) \<Rightarrow>
         (case cn_arriving c dl w of (ms, stop) \<Rightarrow>
           (case scan n (cdp_method cmd) stop ms of (k, r) \<Rightarrow> (r, \<lparr>cl_id = n, cl_conn = cn_taken c k w\<rparr>))))"

text \<open>With \<open>out == nil\<close> the result is dropped, otherwise a result that is there is decoded.\<close>

definition perform :: "'w conn \<Rightarrow> ctx \<Rightarrow> command \<Rightarrow> ('w, go_error + unit) cdp" where
  "perform c ctx cmd = and_then (call c ctx cmd) (\<lambda>_. answer (Inr ()))"

definition call_for ::
  "'w conn \<Rightarrow> (gostr \<Rightarrow> go_error + 'a) \<Rightarrow> 'a \<Rightarrow> ctx \<Rightarrow> command \<Rightarrow> ('w, go_error + 'a) cdp" where
  "call_for c decode zero ctx cmd = and_then (call c ctx cmd) (\<lambda>raw.
     if raw = [] then answer (Inr zero)
     else case decode raw of
            Inl e \<Rightarrow> answer (Inl (wrap_error (''decode '' @ cdp_method cmd @ '' response: '') e))
          | Inr a \<Rightarrow> answer (Inr a))"

section \<open>The operations\<close>

definition navigate :: "'w conn \<Rightarrow> ctx \<Rightarrow> gostr \<Rightarrow> ('w, go_error + unit) cdp" where
  "navigate c ctx url = and_then (perform c ctx PageEnable) (\<lambda>_. perform c ctx (PageNavigate url))"

definition capture_screenshot :: "'w conn \<Rightarrow> ctx \<Rightarrow> ('w, go_error + gostr) cdp" where
  "capture_screenshot c ctx = and_then (perform c ctx PageEnable) (\<lambda>_. call_for c (cn_decode_data c) [] ctx CapturePng)"

definition evaluate_any :: "'w conn \<Rightarrow> ctx \<Rightarrow> script \<Rightarrow> ('w, go_error + js_value) cdp" where
  "evaluate_any c ctx e = and_then (perform c ctx RuntimeEnable) (\<lambda>_. call_for c (cn_decode_value c) JsNil ctx (Evaluate e))"

definition evaluate_string :: "'w conn \<Rightarrow> ctx \<Rightarrow> script \<Rightarrow> ('w, go_error + gostr) cdp" where
  "evaluate_string c ctx e = and_then (evaluate_any c ctx e) (\<lambda>v. answer (Inr (if v = JsNil then [] else sprint v)))"

abbreviation poll_interval :: duration where "poll_interval \<equiv> 150 * millisecond"

text \<open>The polling loop of the four waits: evaluate, stop if the value is what is waited for, else
  pause until the context ends. \<open>poll_rounds\<close> bounds the rounds (\<open>poll_enough\<close> below).\<close>

primrec poll :: "'w conn \<Rightarrow> ctx \<Rightarrow> script \<Rightarrow> (js_value \<Rightarrow> 'a option) \<Rightarrow> go_error \<Rightarrow> nat \<Rightarrow>
    ('w, go_error + 'a) cdp" where
  "poll c ctx e found late 0 = answer (Inl late)"
| "poll c ctx e found late (Suc k) = and_then (evaluate_any c ctx e) (\<lambda>v.
     case found v of
       Some a \<Rightarrow> answer (Inr a)
     | None \<Rightarrow> do { over \<leftarrow> wait c ctx poll_interval;
                    if over then answer (Inl late) else poll c ctx e found late k })"

definition poll_rounds :: "duration \<Rightarrow> nat" where
  "poll_rounds t = nat (t div poll_interval) + 2"

definition selector_timeout :: "duration \<Rightarrow> duration" where
  "selector_timeout t = (if t \<le> 0 then 12 * second else t)"

definition poll_for :: "'w conn \<Rightarrow> ctx \<Rightarrow> duration \<Rightarrow> script \<Rightarrow> (js_value \<Rightarrow> 'a option) \<Rightarrow> go_error \<Rightarrow>
    ('w, go_error + 'a) cdp" where
  "poll_for c ctx t e found late = do {
     wctx \<leftarrow> with_timeout c ctx (selector_timeout t);
     poll c wctx e found late (poll_rounds (selector_timeout t)) }"

definition is_true :: "js_value \<Rightarrow> unit option" where
  "is_true v = (if v = JsBool True then Some () else None)"

abbreviation selector_required :: "('w, go_error + 'a) cdp" where
  "selector_required \<equiv> answer (Inl (new_error ''selector is required''))"

definition wait_for_selector :: "'w conn \<Rightarrow> ctx \<Rightarrow> gostr \<Rightarrow> duration \<Rightarrow> ('w, go_error + unit) cdp" where
  "wait_for_selector c ctx sel t =
     (let sel = trim_space sel in
      if sel = [] then selector_required
      else poll_for c ctx t (AnyVisible sel) is_true (new_error (''timeout waiting for selector '' @ cn_quote c sel)))"

definition wait_for_url_contains :: "'w conn \<Rightarrow> ctx \<Rightarrow> gostr \<Rightarrow> duration \<Rightarrow> ('w, go_error + unit) cdp" where
  "wait_for_url_contains c ctx fragment t =
     (let fragment = trim_space fragment in
      if fragment = [] then answer (Inl (new_error ''url fragment is required''))
      else poll_for c ctx t (HrefContains (cn_lower c fragment)) is_true
             (new_error (''timeout waiting for URL to contain '' @ cn_quote c fragment)))"

definition new_url :: "js_value \<Rightarrow> gostr option" where
  "new_url v = (let u = trim_space (sprint v) in if u = [] then None else Some u)"

definition wait_for_url_change :: "'w conn \<Rightarrow> ctx \<Rightarrow> gostr \<Rightarrow> duration \<Rightarrow> ('w, go_error + gostr) cdp" where
  "wait_for_url_change c ctx previous t =
     (let previous = trim_space previous in
      if previous = [] then answer (Inl (new_error ''previous url is required''))
      else poll_for c ctx t (HrefChanged previous) new_url
             (new_error (''timeout waiting for URL to change from '' @ cn_quote c previous)))"

definition wait_for_value :: "'w conn \<Rightarrow> ctx \<Rightarrow> gostr \<Rightarrow> gostr \<Rightarrow> duration \<Rightarrow> ('w, go_error + unit) cdp" where
  "wait_for_value c ctx sel want t =
     (let sel = trim_space sel in
      if sel = [] then selector_required
      else poll_for c ctx t (FirstValueContains sel (cn_lower c want)) is_true
             (new_error (''timeout waiting for selector '' @ cn_quote c sel @ '' value to include '' @ cn_quote c want)))"

text \<open>A script that answers \<open>ok\<close>, or says what went wrong.\<close>

definition run_script :: "'w conn \<Rightarrow> ctx \<Rightarrow> gostr \<Rightarrow> script \<Rightarrow> ('w, go_error + unit) cdp" where
  "run_script c ctx what e = and_then (evaluate_string c ctx e) (\<lambda>r.
     answer (if r \<noteq> ''ok'' then Inl (new_error (what @ '' failed: '' @ r)) else Inr ()))"

definition click_selector :: "'w conn \<Rightarrow> ctx \<Rightarrow> gostr \<Rightarrow> ('w, go_error + unit) cdp" where
  "click_selector c ctx sel =
     (let sel = trim_space sel in
      if sel = [] then selector_required else run_script c ctx ''click'' (ClickFirst sel))"

definition is_selector_focused :: "'w conn \<Rightarrow> ctx \<Rightarrow> gostr \<Rightarrow> ('w, go_error + bool) cdp" where
  "is_selector_focused c ctx sel =
     (let sel = trim_space sel in
      if sel = [] then selector_required
      else and_then (evaluate_any c ctx (FirstFocused sel)) (\<lambda>v. answer (Inr (v = JsBool True))))"

definition type_into_selector :: "'w conn \<Rightarrow> ctx \<Rightarrow> gostr \<Rightarrow> gostr \<Rightarrow> ('w, go_error + unit) cdp" where
  "type_into_selector c ctx sel text =
     (let sel = trim_space sel in
      if sel = [] then selector_required
      else and_then (run_script c ctx ''type'' (ClearFirst sel)) (\<lambda>_. do {
             r \<leftarrow> perform c ctx (InsertText text);
             answer (case r of Inl e \<Rightarrow> Inl (wrap_error ''type failed: insert text: '' e) | Inr u \<Rightarrow> Inr u) }))"

definition extract_text :: "'w conn \<Rightarrow> ctx \<Rightarrow> gostr \<Rightarrow> ('w, go_error + gostr) cdp" where
  "extract_text c ctx sel =
     (let sel = trim_space sel in
      if sel = [] then selector_required
      else and_then (evaluate_any c ctx (TextOfFirst sel)) (\<lambda>v.
        and_then (answer (cn_encode_value c v)) (\<lambda>payload.
        and_then (answer (cn_decode_text c payload)) (\<lambda>d.
        answer (if \<not> et_ok d then Inl (new_error (''extract_text failed: '' @ trim_space (et_error d)))
                else Inr (trim_space (et_text d)))))))"

definition scroll :: "'w conn \<Rightarrow> ctx \<Rightarrow> gostr \<Rightarrow> int \<Rightarrow> ('w, go_error + unit) cdp" where
  "scroll c ctx direction pixels =
     (let dir = cn_lower c (trim_space direction); dir = (if dir = [] then ''down'' else dir);
          px = (if pixels \<le> 0 then 600 else pixels); px = (if px > 3000 then 3000 else px)
      in run_script c ctx ''scroll'' (ScrollPage dir px))"

primrec enter_keys :: "'w conn \<Rightarrow> ctx \<Rightarrow> gostr list \<Rightarrow> ('w, go_error + unit) cdp" where
  "enter_keys c ctx [] = answer (Inr ())"
| "enter_keys c ctx (k # ks) = do {
     r \<leftarrow> perform c ctx (EnterKey k);
     case r of Inl e \<Rightarrow> answer (Inl (wrap_error (''dispatch enter '' @ k @ '': '') e))
     | Inr _ \<Rightarrow> enter_keys c ctx ks }"

definition press_enter :: "'w conn \<Rightarrow> ctx \<Rightarrow> gostr \<Rightarrow> ('w, go_error + unit) cdp" where
  "press_enter c ctx sel =
     (let sel = trim_space sel in
      if sel = [] then selector_required
      else and_then (run_script c ctx ''press_enter'' (FocusFirst sel))
             (\<lambda>_. enter_keys c ctx [''keyDown'', ''char'', ''keyUp'']))"

section \<open>Dial\<close>

record target =
  tg_type :: gostr
  tg_url :: gostr

text \<open>\<open>get\<close> is the request for the target list: an error of building it, of sending it, or the
  status and the body; \<open>open_socket\<close> is \<open>websocket.Dial\<close>.\<close>

datatype list_answer = BadRequest go_error | NoAnswer go_error | Targets int gostr

primrec first_page :: "target list \<Rightarrow> gostr" where
  "first_page [] = []"
| "first_page (t # ts) = (if tg_type t = ''page'' \<and> \<not> blank (tg_url t) then tg_url t else first_page ts)"

definition target_list_url :: "gostr \<Rightarrow> gostr" where
  "target_list_url base =
     (let t = trim_space base in
      trim_suffix (if t = [] then ''http://127.0.0.1:9222'' else t) ''/'' @ ''/json/list'')"

definition dial ::
  "(gostr \<Rightarrow> 'w \<Rightarrow> list_answer \<times> 'w) \<Rightarrow> (gostr \<Rightarrow> go_error + target list) \<Rightarrow>
   (gostr \<Rightarrow> 'w \<Rightarrow> go_error option \<times> 'w) \<Rightarrow> gostr \<Rightarrow> 'w \<Rightarrow> (go_error + 'w client) \<times> 'w" where
  "dial get decode open_socket base w =
     (case get (target_list_url base) w of
        (BadRequest e, w) \<Rightarrow> (Inl (wrap_error ''build target request: '' e), w)
      | (NoAnswer e, w) \<Rightarrow> (Inl (wrap_error ''query cdp target endpoint: '' e), w)
      | (Targets code body, w) \<Rightarrow>
          if code \<noteq> 200 then (Inl (new_error (''cdp target endpoint returned status '' @ fmt_d code)), w)
          else (case decode body of
                  Inl e \<Rightarrow> (Inl (wrap_error ''decode cdp target response: '' e), w)
                | Inr ts \<Rightarrow>
                    if first_page ts = [] then (Inl (new_error ''no page target websocket found''), w)
                    else (case open_socket (first_page ts) w of
                            (Some e, w) \<Rightarrow> (Inl (wrap_error ''dial cdp websocket: '' e), w)
                          | (None, w) \<Rightarrow> (Inr \<lparr>cl_id = 0, cl_conn = w\<rparr>, w))))"

section \<open>Running the operations\<close>

lemma run_and_then:
  "run_state (and_then m f) s = (case run_state m s of (Inl e, t) \<Rightarrow> (Inl e, t) | (Inr a, t) \<Rightarrow> run_state (f a) t)"
  by (simp add: and_then_def split: prod.split sum.split)

lemma run_wait: "run_state (wait c ctx d) s =
  (fst (cn_wait c ctx d (cl_conn s)), s\<lparr>cl_conn := snd (cn_wait c ctx d (cl_conn s))\<rparr>)"
  by (simp add: wait_def on_conn_def split: prod.split)

lemma scan_own:
  "scan n meth stop ms = (k, Inr raw) \<Longrightarrow>
   \<exists>pre post. ms = pre @ Envelope n None raw # post \<and> k = length pre + 1
     \<and> list_all (\<lambda>m. \<forall>err r. m \<noteq> Envelope n err r) pre"
proof (induction ms arbitrary: k)
  case (Cons m ms)
  show ?case
  proof (cases "\<exists>err r. m = Envelope n err r")
    case True
    with Cons.prems show ?thesis by (auto split: option.splits)
  next
    case False
    then have "scan n meth stop (m # ms) = map_prod Suc (\<lambda>r. r) (scan n meth stop ms)" by (cases m) auto
    with Cons.prems obtain j where "scan n meth stop ms = (j, Inr raw)" "k = Suc j"
      by (cases "scan n meth stop ms") auto
    with Cons.IH obtain pre post where "ms = pre @ Envelope n None raw # post" "k = Suc (length pre + 1)"
      "list_all (\<lambda>m. \<forall>err r. m \<noteq> Envelope n err r) pre" by blast
    with False have "m # ms = (m # pre) @ Envelope n None raw # post \<and> k = length (m # pre) + 1
        \<and> list_all (\<lambda>m. \<forall>err r. m \<noteq> Envelope n err r) (m # pre)" by simp
    then show ?thesis by blast
  qed
qed simp

lemma run_call:
  "run_state (call c ctx cmd) s =
     (let n = cl_id s + 1; dl = call_deadline c ctx (cl_conn s); (e, w) = cn_write c dl n cmd (cl_conn s) in
      case e of
        Some err \<Rightarrow> (Inl (wrap_error ''write cdp request: '' err), \<lparr>cl_id = n, cl_conn = w\<rparr>)
      | None \<Rightarrow> let (ms, stop) = cn_arriving c dl w; (k, r) = scan n (cdp_method cmd) stop ms in
                (r, \<lparr>cl_id = n, cl_conn = cn_taken c k w\<rparr>))"
  by (simp add: call_def Let_def split: prod.split option.split)

text \<open>C26: a call answers its own request. A result that a call returns came in an envelope with the
  call's own number, everything read before it carried another number or none, exactly these
  messages are read, and the number is used up, so no later call accepts the same reply.\<close>

theorem call_own_reply:
  assumes "run_state (call c ctx cmd) s = (Inr raw, s')"
  shows "cl_id s' = cl_id s + 1
    \<and> (\<exists>w pre post. cn_write c (call_deadline c ctx (cl_conn s)) (cl_id s + 1) cmd (cl_conn s) = (None, w)
        \<and> fst (cn_arriving c (call_deadline c ctx (cl_conn s)) w) = pre @ Envelope (cl_id s + 1) None raw # post
        \<and> list_all (\<lambda>m. case m of Garbled \<Rightarrow> True | Envelope i err r \<Rightarrow> i \<noteq> cl_id s + 1) pre
        \<and> cl_conn s' = cn_taken c (length pre + 1) w)"
proof -
  let ?n = "cl_id s + 1" and ?dl = "call_deadline c ctx (cl_conn s)"
  obtain w where w: "cn_write c ?dl ?n cmd (cl_conn s) = (None, w)"
    using assms by (cases "cn_write c ?dl ?n cmd (cl_conn s)")
      (auto simp: run_call Let_def split: option.splits prod.splits)
  obtain ms stop where ms: "cn_arriving c ?dl w = (ms, stop)" by fastforce
  obtain k r where k: "scan ?n (cdp_method cmd) stop ms = (k, r)" by fastforce
  from assms have r: "r = Inr raw" and s': "s' = \<lparr>cl_id = ?n, cl_conn = cn_taken c k w\<rparr>"
    by (simp_all add: run_call w ms k)
  from scan_own [OF k [unfolded r]] obtain pre post where p: "ms = pre @ Envelope ?n None raw # post"
    "k = length pre + 1" "list_all (\<lambda>m. \<forall>err r. m \<noteq> Envelope ?n err r) pre" by blast
  from p(3) have "list_all (\<lambda>m. case m of Garbled \<Rightarrow> True | Envelope i err r \<Rightarrow> i \<noteq> ?n) pre"
    by (rule list.pred_mono_strong) (auto split: message.split)
  with w ms p(1,2) s' show ?thesis by auto
qed

section \<open>The waits end\<close>

text \<open>The documented behaviour of the clock and the contexts: reading and writing take no negative
  time, a write after the deadline fails, and a timer fires only after its duration.\<close>

definition clock_runs :: "'w conn \<Rightarrow> bool" where
  "clock_runs c \<longleftrightarrow>
     (\<forall>ctx n cmd w. cn_now c w \<le> cn_now c (snd (cn_write c ctx n cmd w))) \<and>
     (\<forall>d n cmd w. d < cn_now c w \<longrightarrow> fst (cn_write c (Some d) n cmd w) \<noteq> None) \<and>
     (\<forall>k w. cn_now c w \<le> cn_now c (cn_taken c k w)) \<and>
     (\<forall>ctx t w. \<not> fst (cn_wait c ctx t w) \<longrightarrow> cn_now c w + t \<le> cn_now c (snd (cn_wait c ctx t w)))"

lemma clock_call:
  assumes "clock_runs c" "run_state (call c (Some d) cmd) s = (r, s')"
  shows "cn_now c (cl_conn s) \<le> cn_now c (cl_conn s')" "d < cn_now c (cl_conn s) \<Longrightarrow> \<exists>e. r = Inl e"
proof -
  let ?w = "cn_write c (Some d) (cl_id s + 1) cmd (cl_conn s)"
  have dl: "call_deadline c (Some d) (cl_conn s) = Some d" by (simp add: call_deadline_def)
  have "cn_now c (cl_conn s) \<le> cn_now c (snd ?w)" "\<And>k w. cn_now c w \<le> cn_now c (cn_taken c k w)"
    using assms(1) by (simp_all add: clock_runs_def)
  with assms(2) show "cn_now c (cl_conn s) \<le> cn_now c (cl_conn s')"
    by (auto simp: run_call dl Let_def split: prod.splits option.splits intro: order_trans)
  show "\<exists>e. r = Inl e" if "d < cn_now c (cl_conn s)"
  proof -
    from assms(1) that have "fst ?w \<noteq> None" by (simp add: clock_runs_def)
    with assms(2) show ?thesis by (auto simp: run_call dl Let_def split: prod.splits option.splits)
  qed
qed

lemma clock_evaluate:
  assumes "clock_runs c" "run_state (evaluate_any c (Some d) e) s = (r, s')"
  shows "cn_now c (cl_conn s) \<le> cn_now c (cl_conn s')" "d < cn_now c (cl_conn s) \<Longrightarrow> \<exists>e. r = Inl e"
proof -
  obtain r1 s1 where 1: "run_state (call c (Some d) RuntimeEnable) s = (r1, s1)" by fastforce
  obtain r2 s2 where 2: "run_state (call c (Some d) (Evaluate e)) s1 = (r2, s2)" by fastforce
  have s': "s' = (if isl r1 then s1 else s2)"
    using assms(2) by (auto simp: evaluate_any_def perform_def call_for_def run_and_then 1 2 split: sum.splits if_splits)
  show "cn_now c (cl_conn s) \<le> cn_now c (cl_conn s')"
    using clock_call(1) [OF assms(1) 1] clock_call(1) [OF assms(1) 2] s' by auto
  show "\<exists>e. r = Inl e" if "d < cn_now c (cl_conn s)"
    using clock_call(2) [OF assms(1) 1 that] assms(2)
    by (auto simp: evaluate_any_def perform_def run_and_then 1)
qed

text \<open>The loop as the code has it, which nothing bounds.\<close>

partial_function (option) poll_loop ::
  "'w conn \<Rightarrow> ctx \<Rightarrow> script \<Rightarrow> (js_value \<Rightarrow> 'a option) \<Rightarrow> go_error \<Rightarrow> 'w client \<Rightarrow>
   ((go_error + 'a) \<times> 'w client) option" where
  "poll_loop c ctx e found late s =
     (case run_state (evaluate_any c ctx e) s of
        (Inl err, t) \<Rightarrow> Some (Inl err, t)
      | (Inr v, t) \<Rightarrow>
          (case found v of
             Some a \<Rightarrow> Some (Inr a, t)
           | None \<Rightarrow>
               (case run_state (wait c ctx poll_interval) t of
                  (over, u) \<Rightarrow> if over then Some (Inl late, u) else poll_loop c ctx e found late u)))"

lemma poll_loop_bounded:
  assumes "clock_runs c" "d < cn_now c (cl_conn s) + int k * poll_interval"
  shows "poll_loop c (Some d) e found late s = Some (run_state (poll c (Some d) e found late (Suc k)) s)"
  using assms(2)
proof (induction k arbitrary: s)
  case 0
  obtain r t where r: "run_state (evaluate_any c (Some d) e) s = (r, t)" by fastforce
  from clock_evaluate(2) [OF assms(1) r] 0 obtain err where "r = Inl err" by auto
  with r show ?case by (subst poll_loop.simps) (simp add: run_and_then)
next
  case (Suc k)
  obtain r t where r: "run_state (evaluate_any c (Some d) e) s = (r, t)" by fastforce
  have le: "cn_now c (cl_conn s) \<le> cn_now c (cl_conn t)" by (rule clock_evaluate(1) [OF assms(1) r])
  show ?case
  proof (cases r)
    case (Inl err)
    with r show ?thesis by (subst poll_loop.simps) (simp add: run_and_then)
  next
    case (Inr v)
    show ?thesis
    proof (cases "found v = None \<and> \<not> fst (cn_wait c (Some d) poll_interval (cl_conn t))")
      case False
      with r Inr show ?thesis
        by (subst poll_loop.simps) (auto simp: run_and_then run_wait split: option.split)
    next
      case True
      let ?u = "t\<lparr>cl_conn := snd (cn_wait c (Some d) poll_interval (cl_conn t))\<rparr>"
      from True assms(1) have "cn_now c (cl_conn t) + poll_interval \<le> cn_now c (cl_conn ?u)"
        by (simp add: clock_runs_def)
      with Suc.prems le have "d < cn_now c (cl_conn ?u) + int k * poll_interval" by (simp add: algebra_simps)
      from Suc.IH [OF this] True r Inr show ?thesis
        by (subst poll_loop.simps) (simp add: run_and_then run_wait)
    qed
  qed
qed

text \<open>C27: the waits end. The polling loop, which the code does not bound, returns under every
  behaviour of the browser once its context has a deadline, at most one round per 150 ms and two
  more; the bounded loop of the model is that loop.\<close>

theorem poll_terminates:
  assumes "clock_runs c" "0 \<le> t" "d \<le> cn_now c (cl_conn s) + t"
  shows "poll_loop c (Some d) e found late s = Some (run_state (poll c (Some d) e found late (poll_rounds t)) s)"
proof -
  have rounds: "poll_rounds t = Suc (nat (t div poll_interval) + 1)" by (simp add: poll_rounds_def)
  have "t < int (nat (t div poll_interval) + 1) * poll_interval"
    using assms(2) by (simp add: pos_imp_zdiv_nonneg_iff)
  with assms(3) have "d < cn_now c (cl_conn s) + int (nat (t div poll_interval) + 1) * poll_interval" by linarith
  from poll_loop_bounded [OF assms(1) this] show ?thesis by (simp only: rounds)
qed

text \<open>A wait for a selector succeeds only if the browser has just answered \<open>true\<close>.\<close>

lemma poll_found:
  "run_state (poll c ctx e found late k) s = (Inr a, s') \<Longrightarrow>
   \<exists>v t. run_state (evaluate_any c ctx e) t = (Inr v, s') \<and> found v = Some a"
proof (induction k arbitrary: s)
  case (Suc k)
  then show ?case
    by (force simp: run_and_then run_wait split: prod.splits sum.splits option.splits if_splits)
qed simp

section \<open>An example\<close>

text \<open>A browser with a clock and the number of the last request. It answers after an event, and its
  page shows the element from the third tenth of a second on.\<close>

definition demo_conn :: "(int \<times> int) conn" where
  "demo_conn = \<lparr>
     cn_write = (\<lambda>ctx n cmd (t, _). (case ctx of Some d \<Rightarrow> if d < t then Some ctx_deadline_exceeded else None | None \<Rightarrow> None, (t, n))),
     cn_arriving = (\<lambda>ctx (t, n). ([Garbled, Envelope 0 None [], Envelope n None (if t \<ge> 300 * millisecond then ''true'' else ''false'')],
       ctx_deadline_exceeded)),
     cn_taken = (\<lambda>_ w. w), cn_now = fst,
     cn_wait = (\<lambda>ctx d (t, n). (case ctx of Some dl \<Rightarrow> dl \<le> t + d | None \<Rightarrow> False, (t + d, n))),
     cn_ctx_error = (\<lambda>_ _. ctx_deadline_exceeded),
     cn_decode_value = (\<lambda>s. Inr (JsBool (s = ''true''))), cn_decode_data = (\<lambda>s. Inr s),
     cn_encode_value = (\<lambda>v. Inr (sprint v)), cn_decode_text = (\<lambda>s. Inr \<lparr>et_ok = True, et_error = [], et_text = s\<rparr>),
     cn_quote = (\<lambda>s. s), cn_lower = (\<lambda>s. s)\<rparr>"

definition demo_client :: "(int \<times> int) client" where
  "demo_client = \<lparr>cl_id = 0, cl_conn = (0, 0)\<rparr>"

lemma demo_clock: "clock_runs demo_conn"
  by (auto simp: clock_runs_def demo_conn_def split: option.splits)

lemma demo_poll: "run_state (poll demo_conn (Some (1 * second)) (AnyVisible ''h1'') is_true ctx_canceled (poll_rounds second)) demo_client
  = (Inr (), \<lparr>cl_id = 6, cl_conn = (300 * millisecond, 6)\<rparr>)"
  by code_simp

theorem poll_terminates_witness:
  "poll_loop demo_conn (Some (1 * second)) (AnyVisible ''h1'') is_true ctx_canceled demo_client
   = Some (Inr (), \<lparr>cl_id = 6, cl_conn = (300 * millisecond, 6)\<rparr>)"
  using poll_terminates [OF demo_clock, of second "1 * second" demo_client "AnyVisible ''h1''" is_true ctx_canceled]
  unfolding demo_poll by (simp add: demo_client_def demo_conn_def)

lemma demo_call: "run_state (call demo_conn (Some second) RuntimeEnable) demo_client
  = (Inr ''false'', \<lparr>cl_id = 1, cl_conn = (0, 1)\<rparr>)"
  by code_simp

theorem call_own_reply_witness: "cl_id \<lparr>cl_id = 1, cl_conn = (0 :: int, 1 :: int)\<rparr> = cl_id demo_client + 1"
  using call_own_reply [OF demo_call] by blast

end
