(* ===== verification/ActionValues.thy ===== *)
theory ActionValues
  imports PlannedActions "HOL-Library.Word"
begin

text \<open>
  The parts of the executor that do not touch the browser: the recognition of blocked pages,
  \<open>cmd/node-agent/blocker.go\<close>, and the bounds, selectors and values of an action,
  \<open>cmd/node-agent/main.go\<close>. \<open>lower\<close> is \<open>strings.ToLower\<close>.
\<close>

section \<open>Blocked pages\<close>

definition blocker_haystack :: "(gostr \<Rightarrow> gostr) \<Rightarrow> gostr \<Rightarrow> gostr \<Rightarrow> gostr \<Rightarrow> gostr" where
  "blocker_haystack lower url title body = lower (join [trim_space url, trim_space title, trim_space body] '' '')"

definition human_signals :: "gostr list" where
  "human_signals = [''captcha'', ''hcaptcha'', ''recaptcha'', ''verify you are human'', ''prove you are human'',
     ''are you a robot'', ''confirm this search was made by a human'', ''complete the following challenge'',
     ''security check'', ''please stand by while we check your browser'', ''attention required'']"

definition bot_signals :: "gostr list" where
  "bot_signals = [''access denied'', ''bot detected'', ''automated access'', ''suspicious traffic'',
     ''unusual traffic'', ''request blocked'', ''forbidden'', ''error 1020'']"

definition transient_signals :: "gostr list" where
  "transient_signals = [''checking if the site connection is secure'', ''checking your browser before accessing'',
     ''just a moment'', ''enable javascript and cookies to continue'', ''ddos protection by cloudflare'']"

definition human_required :: gostr where
  "human_required = ''human_verification_required''"

definition classify_blocker :: "(gostr \<Rightarrow> gostr) \<Rightarrow> gostr \<Rightarrow> gostr \<Rightarrow> gostr \<Rightarrow> gostr \<times> gostr" where
  "classify_blocker lower url title body =
     (let h = blocker_haystack lower url title body in
      if h = [] then ([], [])
      else if list_ex (contains h) bot_signals then (''bot_blocked'', ''target denied automated access'')
      else if list_ex (contains h) human_signals then (human_required, ''human verification challenge detected'')
      else if contains h ''please fill out this field''
      then (''form_validation_error'', ''submission blocked by required-field validation'')
      else ([], []))"

definition transient_challenge :: "(gostr \<Rightarrow> gostr) \<Rightarrow> gostr \<Rightarrow> gostr \<Rightarrow> gostr \<Rightarrow> bool" where
  "transient_challenge lower url title body =
     (let h = blocker_haystack lower url title body in h \<noteq> [] \<and> list_ex (contains h) transient_signals)"

section \<open>Bounds\<close>

definition action_timeout :: "int \<Rightarrow> duration" where
  "action_timeout ms =
     (if ms \<le> 0 then 12 * second
      else let ms = (if ms < 250 then 250 else ms); ms = (if ms > 60000 then 60000 else ms) in ms * millisecond)"

text \<open>The product of the delay wraps in 64 bits.\<close>

definition bounded_delay :: "int \<Rightarrow> duration \<Rightarrow> duration" where
  "bounded_delay ms fallback =
     (if ms \<le> 0 then fallback
      else let delay = sint (word_of_int ms * word_of_int millisecond :: 64 word) in
           if delay < 0 then fallback else if delay > 15 * second then 15 * second else delay)"

definition min_positive :: "duration \<Rightarrow> duration \<Rightarrow> duration" where
  "min_positive a b = (if a \<le> 0 then b else if b \<le> 0 then a else if a < b then a else b)"

section \<open>Extraction\<close>

definition split_candidates :: "gostr \<Rightarrow> gostr list" where
  "split_candidates selector =
     (let t = trim_space selector in
      if t = [] then []
      else let items = filter (\<lambda>p. p \<noteq> []) (map trim_space (split_at t (CHR ''|'') ''|'')) in
           if items = [] then [t] else items)"

definition looks_like_price :: "(gostr \<Rightarrow> gostr) \<Rightarrow> gostr \<Rightarrow> bool" where
  "looks_like_price lower value =
     (let l = lower (trim_space value) in
      l \<noteq> [] \<and> list_ex is_digit l
      \<and> (list_ex (contains l) [''$'', [CHR 0xE2, CHR 0x82, CHR 0xAC], [CHR 0xC2, CHR 0xA3],
             [CHR 0xE2, CHR 0x82, CHR 0xB9], [CHR 0xC2, CHR 0xA5]]
         \<or> list_ex (contains l) [''usd'', ''eur'', ''gbp'', ''inr'', ''cad'', ''aud'']
         \<or> contains l ''.'' \<or> contains l '',''))"

definition looks_like_rating :: "(gostr \<Rightarrow> gostr) \<Rightarrow> gostr \<Rightarrow> bool" where
  "looks_like_rating lower value =
     (let l = lower (trim_space value) in
      l \<noteq> [] \<and> list_ex is_digit l \<and> (contains l ''star'' \<or> contains l ''/5'' \<or> contains l ''out of''))"

definition extracted_value_valid :: "(gostr \<Rightarrow> gostr) \<Rightarrow> gostr \<Rightarrow> gostr \<Rightarrow> bool" where
  "extracted_value_valid lower expected value =
     (let e = lower (trim_space expected); v = trim_space value in
      if v = [] then False
      else if e = [] \<or> e = ''text'' \<or> e = ''title'' then True
      else if e = ''price'' then looks_like_price lower v
      else if e = ''rating'' then looks_like_rating lower v
      else True)"

text \<open>The share of each candidate in the timeout of the action.\<close>

definition candidate_timeout :: "duration \<Rightarrow> nat \<Rightarrow> duration" where
  "candidate_timeout timeout n =
     (let t = timeout div int n in
      if t < 1500 * millisecond then min_positive timeout (1500 * millisecond) else t)"

section \<open>What holds of them\<close>

lemma action_timeout_bounds: "250 * millisecond \<le> action_timeout ms \<and> action_timeout ms \<le> 60 * second"
  by (simp add: action_timeout_def Let_def)

lemma bounded_delay_bounds: "0 \<le> bounded_delay ms fallback \<or> bounded_delay ms fallback = fallback"
  by (simp add: bounded_delay_def Let_def)

lemma bounded_delay_max: "fallback \<le> 15 * second \<Longrightarrow> bounded_delay ms fallback \<le> 15 * second"
  by (simp add: bounded_delay_def Let_def)

text \<open>Within the range the planners are held to, nothing wraps: the delay is the number of
  milliseconds.\<close>

lemma bounded_delay_small:
  assumes "0 < ms" "ms \<le> 15000"
  shows "bounded_delay ms fallback = ms * millisecond"
proof -
  have "sint (word_of_int (ms * millisecond) :: 64 word) = ms * millisecond"
    using assms by (simp only: sint_sbintrunc') (rule signed_take_bit_int_eq_self; simp)
  then show ?thesis using assms by (simp add: bounded_delay_def Let_def)
qed

text \<open>A large delay wraps: 18446744073710 ms, some 584 years, are a wait of less than a
  millisecond.\<close>

lemma bounded_delay_wraps: "bounded_delay 18446744073710 0 = 448384"
  by code_simp

lemma split_candidates_nonempty: "\<not> blank selector \<Longrightarrow> split_candidates selector \<noteq> []"
  by (simp add: split_candidates_def Let_def)

lemma split_candidates_trimmed: "p \<in> set (split_candidates selector) \<Longrightarrow> p \<noteq> [] \<and> trim_space p = p"
  by (auto simp: split_candidates_def Let_def trim_space_trimmed split: if_splits)

lemma price_has_digit: "extracted_value_valid lower ''price'' v \<Longrightarrow> lower ''price'' = ''price'' \<Longrightarrow>
    list_ex is_digit (lower (trim_space v))"
  by (simp add: extracted_value_valid_def looks_like_price_def Let_def plain_ends_def plain_char_def split: if_splits)

lemma classified_has_message:
  "fst (classify_blocker lower url title body) = [] \<longleftrightarrow> snd (classify_blocker lower url title body) = []"
  by (simp add: classify_blocker_def Let_def human_required_def)

end
