(* ===== verification/Executor.thy ===== *)
theory Executor
  imports Cdp Egress StepPlanner ActionValues
begin

text \<open>
  The executor of the node agent, \<open>cmd/node-agent/main.go\<close> and \<open>executor_ops.go\<close>: one action, one
  step with its trace, the detection of blockers, the rounds of the planner and the whole
  execution, over the DevTools client. The humanizer is a parameter with its three operations; the
  executor's mutex makes an execution one computation on the environment.
\<close>

section \<open>Data\<close>

record planner_mark =
  pm_mode :: gostr
  pm_round :: int
  pm_failures :: int
  pm_stop :: gostr

record exec_step =
  xs_index :: int
  xs_action :: exec_action
  xs_status :: gostr
  xs_error :: gostr
  xs_output :: gostr
  xs_started :: go_time
  xs_completed :: go_time
  xs_duration :: int
  xs_screenshot :: gostr
  xs_artifact :: gostr
  xs_planner :: "planner_mark option"

record exec_response =
  xr_title :: gostr
  xr_url :: gostr
  xr_screenshot :: gostr
  xr_blocker :: gostr
  xr_blocker_message :: gostr
  xr_trace :: "exec_step list"

text \<open>The error of an execution: a plain one, an \<open>executeFlowError\<close>, or the panic of the planner.\<close>

datatype flow_error = PlainError go_error | FlowError gostr exec_response | FlowPanic

record 'w humanizer =
  hm_click :: "ctx \<Rightarrow> gostr \<Rightarrow> ('w, go_error + unit) cdp"
  hm_type :: "ctx \<Rightarrow> gostr \<Rightarrow> gostr \<Rightarrow> ('w, go_error + unit) cdp"
  hm_scroll :: "ctx \<Rightarrow> gostr \<Rightarrow> int \<Rightarrow> ('w, go_error + unit) cdp"

record executor =
  ex_cdp_url :: gostr
  ex_render_delay :: duration
  ex_timeout :: duration
  ex_planner :: "planner option"
  ex_max_steps :: int
  ex_max_failures :: int
  ex_max_repeat_actions :: int
  ex_max_repeat_snapshots :: int
  ex_screenshots :: bool
  ex_egress_mode :: gostr
  ex_allow_hosts :: "gostr list"

text \<open>Everything outside: the connection, the planners' and the resolver's libraries, the humanizer
  if one is configured, the JSON decoder of a page, and \<open>cdp.Dial\<close> at an address.\<close>

record 'w agent_env =
  ae_conn :: "'w conn"
  ae_libs :: planner_libs
  ae_net :: net_libs
  ae_humanizer :: "'w humanizer option"
  ae_decode_page :: "gostr \<Rightarrow> go_error + page_snapshot"
  ae_dial :: "ctx \<Rightarrow> gostr \<Rightarrow> 'w \<Rightarrow> (go_error + 'w client) \<times> 'w"

definition env_lower :: "'w agent_env \<Rightarrow> gostr \<Rightarrow> gostr" where
  "env_lower env = pl_lower (ae_libs env)"

section \<open>One action\<close>

text \<open>A humanized operation that fails is repeated without the humanizer, unless its context is
  over.\<close>

definition humanized :: "'h option \<Rightarrow> ('h \<Rightarrow> ('w, go_error + unit) cdp) \<Rightarrow> ('w, go_error + unit) cdp \<Rightarrow>
    ('w, go_error + unit) cdp" where
  "humanized h human plain =
     (case h of
        None \<Rightarrow> plain
      | Some hum \<Rightarrow> do {
          r \<leftarrow> human hum;
          case r of
            Inr u \<Rightarrow> answer (Inr ())
          | Inl e \<Rightarrow> if err_canceled e \<or> err_deadline e then answer (Inl e) else plain })"

definition pause :: "'w conn \<Rightarrow> ctx \<Rightarrow> duration \<Rightarrow> ('w, go_error + unit) cdp" where
  "pause c ctx delay = do {
     over \<leftarrow> wait c ctx delay;
     if over then do { e \<leftarrow> ctx_error c ctx; answer (Inl e) } else answer (Inr ()) }"

definition pause_if :: "'w conn \<Rightarrow> ctx \<Rightarrow> duration \<Rightarrow> ('w, go_error + unit) cdp" where
  "pause_if c ctx delay = (if delay > 0 then pause c ctx delay else answer (Inr ()))"

primrec extract_first ::
  "'w agent_env \<Rightarrow> ctx \<Rightarrow> gostr \<Rightarrow> duration \<Rightarrow> gostr list \<Rightarrow> gostr list \<Rightarrow> ('w, go_error + gostr) cdp" where
  "extract_first env ctx expected t errs [] =
     answer (Inl (new_error (if errs = [] then ''extract_text failed: no selectors were attempted''
                             else ''extract_text failed: '' @ join errs '' | '')))"
| "extract_first env ctx expected t errs (cand # cands) = do {
     r \<leftarrow> wait_for_selector (ae_conn env) ctx cand t;
     case r of
       Inl e \<Rightarrow> extract_first env ctx expected t (errs @ [cand @ '': wait failed: '' @ err_text e]) cands
     | Inr _ \<Rightarrow> do {
         r \<leftarrow> extract_text (ae_conn env) ctx cand;
         case r of
           Inl e \<Rightarrow> extract_first env ctx expected t (errs @ [cand @ '': extract failed: '' @ err_text e]) cands
         | Inr text \<Rightarrow>
             if blank text then extract_first env ctx expected t (errs @ [cand @ '': empty text'']) cands
             else if \<not> extracted_value_valid (env_lower env) expected (trim_space text)
             then extract_first env ctx expected t
                    (errs @ [cand @ '': extracted text failed '' @ expected @ '' validation'']) cands
             else answer (Inr (trim_space text)) } }"

abbreviation no_text :: "('w, go_error + 'a) cdp \<Rightarrow> ('w, go_error + gostr) cdp" where
  "no_text m \<equiv> and_then m (\<lambda>_. answer (Inr []))"

definition enter_on :: "'w conn \<Rightarrow> ctx \<Rightarrow> gostr \<Rightarrow> duration \<Rightarrow> ('w, go_error + gostr) cdp" where
  "enter_on c ctx sel t = and_then (wait_for_selector c ctx sel t) (\<lambda>_. do {
     r \<leftarrow> evaluate_string c ctx LocationHref;
     let previous = (case r of Inl _ \<Rightarrow> [] | Inr u \<Rightarrow> u);
     and_then (press_enter c ctx sel) (\<lambda>_.
       if blank previous then answer (Inr [])
       else do { _ \<leftarrow> wait_for_url_change c ctx previous (min_positive t (1500 * millisecond));
                 answer (Inr []) }) })"

definition needs :: "gostr \<Rightarrow> gostr \<Rightarrow> gostr \<Rightarrow> ('w, go_error + gostr) cdp \<Rightarrow> ('w, go_error + gostr) cdp" where
  "needs what typ v m = (if v = [] then answer (Inl (new_error (what @ '' is required for '' @ typ))) else m)"

definition run_action_type ::
  "'w agent_env \<Rightarrow> ctx \<Rightarrow> duration \<Rightarrow> gostr \<Rightarrow> exec_action \<Rightarrow> ('w, go_error + gostr) cdp" where
  "run_action_type env ctx t typ a =
     (let c = ae_conn env; sel = trim_space (ea_selector a); hum = ae_humanizer env in
      if typ = ''wait_for'' then needs ''selector'' typ sel (no_text (wait_for_selector c ctx sel t))
      else if typ = ''click'' then needs ''selector'' typ sel
        (and_then (wait_for_selector c ctx sel t) (\<lambda>_.
         no_text (humanized hum (\<lambda>h. hm_click h ctx sel) (click_selector c ctx sel))))
      else if typ = ''type'' then needs ''selector'' typ sel
        (and_then (wait_for_selector c ctx sel t) (\<lambda>_.
         and_then (humanized hum (\<lambda>h. hm_type h ctx sel (ea_text a)) (type_into_selector c ctx sel (ea_text a))) (\<lambda>_.
         and_then (if blank (ea_text a) then answer (Inr ()) else wait_for_value c ctx sel (ea_text a) t) (\<lambda>_.
         no_text (pause_if c ctx (bounded_delay (ea_delay_ms a) 0))))))
      else if typ = ''scroll'' then
        (let dir = trim_space (ea_text a); dir = (if dir = [] then ''down'' else dir) in
         and_then (humanized hum (\<lambda>h. hm_scroll h ctx dir (ea_pixels a)) (scroll c ctx dir (ea_pixels a))) (\<lambda>_.
         no_text (pause_if c ctx (bounded_delay (ea_delay_ms a) 0))))
      else if typ = ''extract_text'' then needs ''selector'' typ sel
        (let cands = split_candidates sel in
         extract_first env ctx (env_lower env (trim_space (ea_text a))) (candidate_timeout t (length cands)) [] cands)
      else if typ = ''wait'' then no_text (pause c ctx (bounded_delay (ea_delay_ms a) (500 * millisecond)))
      else if typ = ''press_enter'' \<or> typ = ''submit_search'' then needs ''selector'' typ sel (enter_on c ctx sel t)
      else if typ = ''wait_for_url_contains'' then
        needs ''text'' typ (trim_space (ea_text a)) (no_text (wait_for_url_contains c ctx (trim_space (ea_text a)) t))
      else answer (Inl (new_error (''unsupported action type '' @ cn_quote c typ))))"

definition apply_action :: "'w agent_env \<Rightarrow> ctx \<Rightarrow> exec_action \<Rightarrow> ('w, go_error + gostr) cdp" where
  "apply_action env ctx a =
     (let typ = env_lower env (trim_space (ea_type a)); t = action_timeout (ea_timeout_ms a) in
      if typ = [] then answer (Inl (new_error ''action type is required''))
      else do { actx \<leftarrow> with_timeout (ae_conn env) ctx t; run_action_type env actx t typ a })"

section \<open>One step\<close>

definition current_url :: "'w conn \<Rightarrow> ctx \<Rightarrow> ('w, gostr) cdp" where
  "current_url c ctx = do {
     r \<leftarrow> evaluate_string c ctx LocationHref;
     State_Monad.return (case r of Inl _ \<Rightarrow> [] | Inr u \<Rightarrow> trim_space u) }"

definition truthy :: "js_value \<Rightarrow> bool" where
  "truthy v = (case v of JsBool b \<Rightarrow> b | JsStr s \<Rightarrow> to_lower (trim_space s) = ''true'' | _ \<Rightarrow> False)"

definition asks :: "'w agent_env \<Rightarrow> ctx \<Rightarrow> script \<Rightarrow> ('w, bool) cdp" where
  "asks env ctx e = do {
     r \<leftarrow> evaluate_any (ae_conn env) ctx e;
     State_Monad.return (case r of Inl _ \<Rightarrow> False | Inr v \<Rightarrow> truthy v) }"

definition selector_has_focus :: "'w agent_env \<Rightarrow> ctx \<Rightarrow> gostr \<Rightarrow> ('w, bool) cdp" where
  "selector_has_focus env ctx sel =
     (if blank sel then State_Monad.return False else asks env ctx (SelectorFocused (trim_space sel)))"

definition selector_value_contains :: "'w agent_env \<Rightarrow> ctx \<Rightarrow> gostr \<Rightarrow> gostr \<Rightarrow> ('w, bool) cdp" where
  "selector_value_contains env ctx sel expected =
     (if blank sel then State_Monad.return False
      else if blank expected then State_Monad.return True
      else asks env ctx (SelectorHolds (trim_space sel) (trim_space expected)))"

definition annotate ::
  "'w agent_env \<Rightarrow> ctx \<Rightarrow> exec_action \<Rightarrow> gostr \<Rightarrow> bool \<Rightarrow> step_result \<Rightarrow> ('w, step_result) cdp" where
  "annotate env ctx action output ok res =
     (let a = normalize_trace_action action in
      if ea_type a = ''click'' then do {
        f \<leftarrow> if ok then selector_has_focus env ctx (ea_selector a) else State_Monad.return False;
        State_Monad.return (res\<lparr>rs_clicked := ea_selector a, rs_focus := f\<rparr>) }
      else if ea_type a = ''type'' then do {
        v \<leftarrow> if ok then selector_value_contains env ctx (ea_selector a) (ea_text a) else State_Monad.return False;
        State_Monad.return (res\<lparr>rs_typed_selector := ea_selector a, rs_typed_text := trim_snippet (ea_text a) 120,
          rs_value := v\<rparr>) }
      else if ea_type a = ''extract_text'' then
        State_Monad.return (res\<lparr>rs_extracted := trim_snippet (trim_space output) 240,
          rs_extracted_valid := ok \<and> extracted_value_valid (env_lower env) (ea_text a) output\<rparr>)
      else State_Monad.return res)"

definition empty_result :: step_result where
  "empty_result = \<lparr>rs_clicked = [], rs_focus = False, rs_typed_selector = [], rs_typed_text = [], rs_value = False,
     rs_url_before = [], rs_url_after = [], rs_url_changed = False, rs_extracted = [], rs_extracted_valid = False,
     rs_blocker_type = [], rs_blocker_message = []\<rparr>"

text \<open>The result with the address after the step; only the planner's steps have a result.\<close>

definition settle_result ::
  "'w agent_env \<Rightarrow> ctx \<Rightarrow> exec_step \<Rightarrow> bool \<Rightarrow> gostr \<Rightarrow> step_result \<Rightarrow> ('w, step_result) cdp" where
  "settle_result env ctx step ok after res =
     annotate env ctx (xs_action step) (xs_output step) ok
       (res\<lparr>rs_url_after := after, rs_url_changed := after \<noteq> [] \<and> after \<noteq> rs_url_before res\<rparr>)"

definition set_last_screenshot :: "gostr \<Rightarrow> exec_step list \<Rightarrow> exec_step list" where
  "set_last_screenshot shot trace =
     (if trace = [] \<or> \<not> blank (xs_screenshot (last trace)) then trace
      else butlast trace @ [(last trace)\<lparr>xs_screenshot := shot\<rparr>])"

definition or_empty :: "go_error + gostr \<Rightarrow> gostr" where
  "or_empty r = (case r of Inl _ \<Rightarrow> [] | Inr v \<Rightarrow> v)"

definition partial_response :: "'w agent_env \<Rightarrow> ctx \<Rightarrow> exec_step list \<Rightarrow> ('w, exec_response) cdp" where
  "partial_response env ctx trace = do {
     title \<leftarrow> evaluate_string (ae_conn env) ctx DocumentTitle;
     url \<leftarrow> evaluate_string (ae_conn env) ctx LocationHref;
     shot \<leftarrow> capture_screenshot (ae_conn env) ctx;
     State_Monad.return \<lparr>xr_title = or_empty title, xr_url = or_empty url, xr_screenshot = or_empty shot,
       xr_blocker = [], xr_blocker_message = [],
       xr_trace = (case shot of Inl _ \<Rightarrow> trace | Inr s \<Rightarrow> set_last_screenshot s trace)\<rparr> }"

definition failed_text :: "int \<Rightarrow> exec_action \<Rightarrow> go_error \<Rightarrow> gostr" where
  "failed_text index a e = ''action '' @ fmt_d index @ '' ('' @ ea_type a @ '') failed: '' @ err_text e"

type_synonym step_outcome = "exec_step \<times> step_result option \<times> (gostr \<times> exec_response) option"

definition on_result :: "step_result option \<Rightarrow> (step_result \<Rightarrow> ('w, step_result) cdp) \<Rightarrow> ('w, step_result option) cdp" where
  "on_result r f = (case r of None \<Rightarrow> State_Monad.return None | Some res \<Rightarrow> do { x \<leftarrow> f res; State_Monad.return (Some x) })"

definition start_step :: "int \<Rightarrow> exec_action \<Rightarrow> planner_mark option \<Rightarrow> go_time \<Rightarrow> exec_step" where
  "start_step index a mark now = \<lparr>xs_index = index, xs_action = normalize_trace_action a, xs_status = ''succeeded'',
     xs_error = [], xs_output = [], xs_started = now, xs_completed = zero_time, xs_duration = 0,
     xs_screenshot = [], xs_artifact = [], xs_planner = mark\<rparr>"

definition finish_step :: "exec_step \<Rightarrow> go_time \<Rightarrow> exec_step" where
  "finish_step step now = step\<lparr>xs_completed := now, xs_duration := time_sub now (xs_started step) div millisecond\<rparr>"

text \<open>A step that the action or the policy fails.\<close>

definition fail_step ::
  "'w agent_env \<Rightarrow> ctx \<Rightarrow> int \<Rightarrow> exec_action \<Rightarrow> exec_step list \<Rightarrow> exec_step \<Rightarrow> step_result option \<Rightarrow> go_error \<Rightarrow>
   gostr option \<Rightarrow> ('w, step_outcome) cdp" where
  "fail_step env ctx index a trace step res e url = do {
     partial \<leftarrow> partial_response env ctx (trace @ [step]);
     res \<leftarrow> on_result res (\<lambda>r. do {
       after \<leftarrow> (case url of Some u \<Rightarrow> State_Monad.return (trim_space u) | None \<Rightarrow> current_url (ae_conn env) ctx);
       settle_result env ctx step False after r });
     State_Monad.return (step, res, Some (failed_text index a e, partial)) }"

text \<open>What follows the action of a step: the failure, or the check of the policy and the result.\<close>

definition settle_step ::
  "'w agent_env \<Rightarrow> executor \<Rightarrow> ctx \<Rightarrow> int \<Rightarrow> exec_action \<Rightarrow> exec_step list \<Rightarrow> step_result option \<Rightarrow> exec_step \<Rightarrow>
   go_error + gostr \<Rightarrow> ('w, step_outcome) cdp" where
  "settle_step env ex ctx index a trace res step r =
     (case r of
        Inl e \<Rightarrow> do {
          shot \<leftarrow> capture_screenshot (ae_conn env) ctx;
          fail_step env ctx index a trace
            (step\<lparr>xs_status := ''failed'', xs_error := err_text e, xs_screenshot := or_empty shot\<rparr>) res e None }
      | Inr output \<Rightarrow> do {
          let step = step\<lparr>xs_output := trim_space output\<rparr>;
          url \<leftarrow> evaluate_string (ae_conn env) ctx LocationHref;
          case (case url of Inl _ \<Rightarrow> None
                | Inr u \<Rightarrow> map_option (\<lambda>e. (e, u)) (validate_egress (ae_net env) (ex_egress_mode ex) (ex_allow_hosts ex) u)) of
            Some (e, u) \<Rightarrow>
              fail_step env ctx index a trace (step\<lparr>xs_status := ''failed'', xs_error := err_text e\<rparr>) res e (Some u)
          | None \<Rightarrow> do {
              res \<leftarrow> on_result res (\<lambda>r. do {
                after \<leftarrow> current_url (ae_conn env) ctx;
                settle_result env ctx step True after r });
              shot \<leftarrow> (if ex_screenshots ex then capture_screenshot (ae_conn env) ctx else answer (Inr []));
              State_Monad.return (step\<lparr>xs_screenshot := or_empty shot\<rparr>, res, None) } })"

definition execute_step ::
  "'w agent_env \<Rightarrow> executor \<Rightarrow> ctx \<Rightarrow> int \<Rightarrow> exec_action \<Rightarrow> exec_step list \<Rightarrow> planner_mark option \<Rightarrow>
   ('w, step_outcome) cdp" where
  "execute_step env ex ctx index a trace mark = do {
     started \<leftarrow> get_now (ae_conn env);
     let step = start_step index a mark started;
     res \<leftarrow> (case mark of
        None \<Rightarrow> State_Monad.return None
      | Some _ \<Rightarrow> do { before \<leftarrow> current_url (ae_conn env) ctx;
                       State_Monad.return (Some (empty_result\<lparr>rs_url_before := before\<rparr>)) });
     r \<leftarrow> apply_action env ctx a;
     finished \<leftarrow> get_now (ae_conn env);
     settle_step env ex ctx index a trace res (finish_step step finished) r }"

section \<open>Blockers\<close>

definition blocker_signals :: "'w agent_env \<Rightarrow> ctx \<Rightarrow> ('w, go_error + gostr \<times> gostr \<times> gostr) cdp" where
  "blocker_signals env ctx =
     and_then (evaluate_string (ae_conn env) ctx DocumentTitle) (\<lambda>title.
     and_then (evaluate_string (ae_conn env) ctx LocationHref) (\<lambda>url.
     and_then (evaluate_string (ae_conn env) ctx BodyText) (\<lambda>body.
     answer (Inr (title, url, body)))))"

definition blocked_response :: "'w agent_env \<Rightarrow> ctx \<Rightarrow> gostr \<Rightarrow> gostr \<Rightarrow> gostr \<times> gostr \<Rightarrow> ('w, exec_response option) cdp" where
  "blocked_response env ctx title url b = do {
     shot \<leftarrow> capture_screenshot (ae_conn env) ctx;
     State_Monad.return (Some \<lparr>xr_title = title, xr_url = url, xr_screenshot = or_empty shot, xr_blocker = fst b,
       xr_blocker_message = (if snd b = [] then ''blocking challenge detected'' else snd b), xr_trace = []\<rparr>) }"

definition detect_blocker :: "'w agent_env \<Rightarrow> executor \<Rightarrow> ctx \<Rightarrow> ('w, exec_response option) cdp" where
  "detect_blocker env ex ctx = do {
     signals \<leftarrow> blocker_signals env ctx;
     case signals of
       Inl _ \<Rightarrow> State_Monad.return None
     | Inr (title, url, body) \<Rightarrow>
         let b = classify_blocker (env_lower env) url title body in
         if fst b = [] then State_Monad.return None
         else if fst b = human_required \<and> transient_challenge (env_lower env) url title body then do {
           let delay = min_positive (3 * second) (ex_render_delay ex);
           over \<leftarrow> wait (ae_conn env) ctx (if delay \<le> 0 then 2 * second else delay);
           if over then State_Monad.return None
           else do {
             again \<leftarrow> blocker_signals env ctx;
             case again of
               Inl _ \<Rightarrow> blocked_response env ctx title url b
             | Inr (title, url, body) \<Rightarrow>
                 let b = classify_blocker (env_lower env) url title body in
                 if fst b = [] then State_Monad.return None else blocked_response env ctx title url b } }
         else blocked_response env ctx title url b }"

section \<open>The rounds of the planner\<close>

definition capture_page :: "'w agent_env \<Rightarrow> ctx \<Rightarrow> ('w, go_error + page_snapshot) cdp" where
  "capture_page env ctx = do {
     r \<leftarrow> evaluate_any (ae_conn env) ctx PageElements;
     State_Monad.return (case r of
       Inl e \<Rightarrow> Inl (wrap_error ''collect page snapshot: '' e)
     | Inr v \<Rightarrow> (case cn_encode_value (ae_conn env) v of
           Inl e \<Rightarrow> Inl (wrap_error ''encode page snapshot: '' e)
         | Inr payload \<Rightarrow> (case ae_decode_page env payload of
               Inl e \<Rightarrow> Inl (wrap_error ''decode page snapshot: '' e)
             | Inr s \<Rightarrow> Inr (assign_stable_ids (env_lower env) s)))) }"

definition snapshot_signature :: "(gostr \<Rightarrow> gostr) \<Rightarrow> page_snapshot \<Rightarrow> gostr" where
  "snapshot_signature lower s =
     join ([trim_snippet (lower (trim_space (ps_url s))) 180, trim_snippet (lower (trim_space (ps_title s))) 140,
            fmt_d (ps_viewport_width s) @ ''x'' @ fmt_d (ps_viewport_height s) @ ''@''
              @ fmt_d (ps_scroll_x s) @ '','' @ fmt_d (ps_scroll_y s)]
           @ map (\<lambda>e. first_non_empty_string [trim_space (pe_stable_id e), trim_space (pe_selector e)])
               (take 10 (ps_elements s))) ''|''"

fun planner_name :: "planner \<Rightarrow> gostr" where
  "planner_name HeuristicPlanner = ''heuristic''"
| "planner_name (TemplatePlanner _) = ''template''"
| "planner_name (EndpointPlanner _ _) = ''endpoint''"
| "planner_name (OpenAIPlanner _ _) = ''openai''"

text \<open>The variables of the loop.\<close>

record rounds =
  ro_snapshot :: page_snapshot
  ro_prior :: "step_trace list"
  ro_last_page :: gostr
  ro_page_repeats :: int
  ro_last_action :: gostr
  ro_action_repeats :: int
  ro_trace :: "exec_step list"
  ro_failures :: int

text \<open>A round goes on to the next one, stops the loop (the reason may be empty when the rounds are
  used up), or ends the execution.\<close>

datatype round_end = Go rounds | Halt gostr rounds | Leave "flow_error + exec_response"

definition mark_stop :: "gostr \<Rightarrow> exec_step list \<Rightarrow> exec_step list" where
  "mark_stop why trace =
     (if trace = [] then []
      else butlast trace @ [(last trace)\<lparr>xs_planner := map_option (\<lambda>m. m\<lparr>pm_stop := why\<rparr>) (xs_planner (last trace))\<rparr>])"

text \<open>A failure of the planner or of the page snapshot: one more, and the end of the execution when
  there are too many.\<close>

definition count_failure :: "executor \<Rightarrow> (int \<Rightarrow> go_error) \<Rightarrow> rounds \<Rightarrow> round_end" where
  "count_failure ex e st =
     (let n = ro_failures st + 1 in
      if n > ex_max_failures ex then Leave (Inl (PlainError (e n))) else Go (st\<lparr>ro_failures := n\<rparr>))"

definition after_failures :: "gostr \<Rightarrow> go_error \<Rightarrow> int \<Rightarrow> go_error" where
  "after_failures what e n = wrap_error (what @ '' failed after '' @ fmt_d n @ '' failures: '') e"

definition invalid_actions :: "int \<Rightarrow> go_error" where
  "invalid_actions n = new_error (''goal planning returned invalid actions after '' @ fmt_d n @ '' failures'')"

definition round_request :: "gostr \<Rightarrow> rounds \<Rightarrow> step_request" where
  "round_request goal st = \<lparr>sr_goal = trim_space goal, sr_url = trim_space (ps_url (ro_snapshot st)),
     sr_snapshot = ro_snapshot st, sr_prior = ro_prior st,
     sr_last = (if ro_prior st = [] then None else Some (last (ro_prior st))),
     sr_allowed = allowed_planner_actions\<rparr>"

definition prior_of :: "int \<Rightarrow> exec_step \<Rightarrow> step_result option \<Rightarrow> step_trace" where
  "prior_of round step res = \<lparr>st_index = round, st_action = xs_action step, st_status = xs_status step,
     st_error = xs_error step, st_output = xs_output step, st_result = res\<rparr>"

text \<open>After an action: the next page, and whether the pages repeat.\<close>

definition next_page :: "'w agent_env \<Rightarrow> executor \<Rightarrow> ctx \<Rightarrow> rounds \<Rightarrow> ('w, round_end) cdp" where
  "next_page env ex ctx st = do {
     r \<leftarrow> capture_page env ctx;
     State_Monad.return (case r of
       Inl e \<Rightarrow> count_failure ex (after_failures ''goal planning snapshot refresh'' e) st
     | Inr page \<Rightarrow>
         let sig = snapshot_signature (env_lower env) page;
             st = (if sig = ro_last_page st then st\<lparr>ro_page_repeats := ro_page_repeats st + 1\<rparr>
                   else st\<lparr>ro_page_repeats := 0, ro_last_page := sig\<rparr>)
         in if ro_page_repeats st \<ge> ex_max_repeat_snapshots ex
            then Halt ''loop_detected_repeated_snapshot''
                   (st\<lparr>ro_trace := mark_stop ''loop_detected_repeated_snapshot'' (ro_trace st)\<rparr>)
            else Go (st\<lparr>ro_snapshot := page\<rparr>)) }"

definition note_action :: "gostr \<Rightarrow> rounds \<Rightarrow> rounds" where
  "note_action sig st =
     (if sig = ro_last_action st then st\<lparr>ro_action_repeats := ro_action_repeats st + 1\<rparr>
      else st\<lparr>ro_action_repeats := 1, ro_last_action := sig\<rparr>)"

text \<open>What follows the step of a round.\<close>

definition end_round ::
  "'w agent_env \<Rightarrow> executor \<Rightarrow> ctx \<Rightarrow> int \<Rightarrow> rounds \<Rightarrow> step_outcome \<Rightarrow> ('w, round_end) cdp" where
  "end_round env ex ctx round st r =
     (case r of
        (step, res, Some (msg, partial)) \<Rightarrow>
          State_Monad.return (Leave (Inl (FlowError msg
            (partial\<lparr>xr_trace := mark_stop ''action_failed'' (ro_trace st @ [step])\<rparr>))))
      | (step, res, None) \<Rightarrow> do {
          let st = st\<lparr>ro_trace := ro_trace st @ [step], ro_prior := ro_prior st @ [prior_of round step res]\<rparr>;
          blocked \<leftarrow> detect_blocker env ex ctx;
          case blocked of
            Some response \<Rightarrow>
              State_Monad.return (Leave (Inr (response\<lparr>xr_trace := mark_stop ''blocker_detected'' (ro_trace st)\<rparr>)))
          | None \<Rightarrow>
              if ro_action_repeats st \<ge> ex_max_repeat_actions ex
              then State_Monad.return (Halt ''loop_detected_repeated_action''
                     (st\<lparr>ro_trace := mark_stop ''loop_detected_repeated_action'' (ro_trace st)\<rparr>))
              else next_page env ex ctx st })"

definition perform_round ::
  "'w agent_env \<Rightarrow> executor \<Rightarrow> ctx \<Rightarrow> gostr \<Rightarrow> int \<Rightarrow> exec_action \<Rightarrow> rounds \<Rightarrow> ('w, round_end) cdp" where
  "perform_round env ex ctx mode round a st = do {
     let st = note_action (action_signature a) st;
     r \<leftarrow> execute_step env ex ctx (int (length (ro_trace st)) + 1) a (ro_trace st)
       (Some \<lparr>pm_mode = mode, pm_round = round, pm_failures = ro_failures st, pm_stop = []\<rparr>);
     end_round env ex ctx round st r }"

definition plan_round ::
  "'w agent_env \<Rightarrow> executor \<Rightarrow> ctx \<Rightarrow> gostr \<Rightarrow> int \<Rightarrow> rounds \<Rightarrow> ('w, round_end) cdp" where
  "plan_round env ex ctx goal round st =
     (case plan_step (ae_libs env) (ex_planner ex) (round_request goal st) of
        Inl PlanPanic \<Rightarrow> State_Monad.return (Leave (Inl FlowPanic))
      | Inl (PlanError e) \<Rightarrow> State_Monad.return (count_failure ex (after_failures ''goal planning'' e) st)
      | Inr d \<Rightarrow>
          if sa_stop d
          then State_Monad.return (Halt (if blank (sa_reason d) then ''planner_stop'' else trim_space (sa_reason d)) st)
          else (case sa_next d of
             None \<Rightarrow> State_Monad.return (Halt ''planner_no_action'' st)
           | Some a \<Rightarrow>
               (case sanitize_planned_actions [a] of
                  [] \<Rightarrow> State_Monad.return (count_failure ex invalid_actions st)
                | b # _ \<Rightarrow> perform_round env ex ctx (case ex_planner ex of Some p \<Rightarrow> planner_name p | None \<Rightarrow> []) round b st)))"

primrec plan_rounds ::
  "'w agent_env \<Rightarrow> executor \<Rightarrow> ctx \<Rightarrow> gostr \<Rightarrow> nat \<Rightarrow> int \<Rightarrow> rounds \<Rightarrow> ('w, round_end) cdp" where
  "plan_rounds env ex ctx goal 0 round st = State_Monad.return (Halt [] st)"
| "plan_rounds env ex ctx goal (Suc n) round st = do {
     r \<leftarrow> plan_round env ex ctx goal round st;
     case r of Go st \<Rightarrow> plan_rounds env ex ctx goal n (round + 1) st | _ \<Rightarrow> State_Monad.return r }"

definition stop_reason :: "executor \<Rightarrow> gostr \<Rightarrow> exec_step list \<Rightarrow> gostr" where
  "stop_reason ex why trace =
     (let why = (if int (length trace) \<ge> ex_max_steps ex \<and> why = [] then ''max_planner_steps_reached'' else why) in
      if trace = [] \<and> why = [] then ''no_actions'' else why)"

definition run_planner ::
  "'w agent_env \<Rightarrow> executor \<Rightarrow> ctx \<Rightarrow> gostr \<Rightarrow> ('w, (flow_error + exec_response) + exec_step list) cdp" where
  "run_planner env ex ctx goal = do {
     page \<leftarrow> capture_page env ctx;
     case page of
       Inl e \<Rightarrow> State_Monad.return (Inl (Inl (PlainError (wrap_error ''goal planning snapshot failed: '' e))))
     | Inr page \<Rightarrow> do {
         r \<leftarrow> plan_rounds env ex ctx goal (nat (ex_max_steps ex)) 1
           \<lparr>ro_snapshot = page, ro_prior = [], ro_last_page = snapshot_signature (env_lower env) page,
            ro_page_repeats = 0, ro_last_action = [], ro_action_repeats = 0, ro_trace = [], ro_failures = 0\<rparr>;
         State_Monad.return (case r of
           Leave out \<Rightarrow> Inl out
         | Go st \<Rightarrow> Inr (ro_trace st)
         | Halt why st \<Rightarrow>
             let why = stop_reason ex why (ro_trace st) in
             Inr (if why = [] then ro_trace st else mark_stop why (ro_trace st))) } }"

section \<open>The execution\<close>

text \<open>The given actions, in order, up to the first that fails.\<close>

primrec run_actions ::
  "'w agent_env \<Rightarrow> executor \<Rightarrow> ctx \<Rightarrow> exec_step list \<Rightarrow> exec_action list \<Rightarrow>
   ('w, (flow_error + exec_response) + exec_step list) cdp" where
  "run_actions env ex ctx trace [] = State_Monad.return (Inr trace)"
| "run_actions env ex ctx trace (a # as) = do {
     r \<leftarrow> execute_step env ex ctx (int (length trace) + 1) a trace None;
     case r of
       (step, res, Some (msg, partial)) \<Rightarrow> State_Monad.return (Inl (Inl (FlowError msg partial)))
     | (step, res, None) \<Rightarrow> run_actions env ex ctx (trace @ [step]) as }"

definition final_response ::
  "'w agent_env \<Rightarrow> executor \<Rightarrow> ctx \<Rightarrow> exec_step list \<Rightarrow> ('w, flow_error + exec_response) cdp" where
  "final_response env ex ctx trace = do {
     blocked \<leftarrow> detect_blocker env ex ctx;
     case blocked of
       Some response \<Rightarrow> State_Monad.return (Inr (response\<lparr>xr_trace := trace\<rparr>))
     | None \<Rightarrow> do {
         r \<leftarrow> and_then (evaluate_string (ae_conn env) ctx DocumentTitle) (\<lambda>title.
              and_then (evaluate_string (ae_conn env) ctx LocationHref) (\<lambda>url.
              and_then (capture_screenshot (ae_conn env) ctx) (\<lambda>shot.
              answer (Inr \<lparr>xr_title = title, xr_url = url, xr_screenshot = shot, xr_blocker = [],
                xr_blocker_message = [], xr_trace = trace\<rparr>))));
         State_Monad.return (case r of Inl e \<Rightarrow> Inl (PlainError e) | Inr resp \<Rightarrow> Inr resp) } }"

definition run_flow ::
  "'w agent_env \<Rightarrow> executor \<Rightarrow> ctx \<Rightarrow> gostr \<Rightarrow> gostr \<Rightarrow> exec_action list \<Rightarrow> ('w, flow_error + exec_response) cdp" where
  "run_flow env ex ctx url goal actions = do {
     r \<leftarrow> and_then (navigate (ae_conn env) ctx url) (\<lambda>_. pause_if (ae_conn env) ctx (ex_render_delay ex));
     case r of
       Inl e \<Rightarrow> State_Monad.return (Inl (PlainError e))
     | Inr _ \<Rightarrow> do {
         blocked \<leftarrow> detect_blocker env ex ctx;
         case blocked of
           Some response \<Rightarrow> State_Monad.return (Inr response)
         | None \<Rightarrow> do {
             r \<leftarrow> (if actions = [] \<and> \<not> blank goal \<and> ex_planner ex \<noteq> None then run_planner env ex ctx goal
                  else run_actions env ex ctx [] actions);
             case r of
               Inl out \<Rightarrow> State_Monad.return out
             | Inr trace \<Rightarrow> final_response env ex ctx trace } } }"

text \<open>\<open>dialWithRetry\<close>: twenty attempts with a quarter of a second between them.\<close>

primrec dial_tries :: "'w agent_env \<Rightarrow> executor \<Rightarrow> ctx \<Rightarrow> nat \<Rightarrow> go_error \<Rightarrow> 'w \<Rightarrow> (go_error + 'w client) \<times> 'w" where
  "dial_tries env ex ctx 0 err w = (Inl (wrap_error ''dial cdp after retries: '' err), w)"
| "dial_tries env ex ctx (Suc n) err w =
     (case ae_dial env ctx (ex_cdp_url ex) w of
        (Inr cl, w) \<Rightarrow> (Inr cl, w)
      | (Inl e, w) \<Rightarrow>
          (case cn_wait (ae_conn env) ctx (250 * millisecond) w of
             (over, w) \<Rightarrow> if over then (Inl (cn_ctx_error (ae_conn env) ctx w), w)
                          else dial_tries env ex ctx n e w))"

definition dial_with_retry :: "'w agent_env \<Rightarrow> executor \<Rightarrow> ctx \<Rightarrow> 'w \<Rightarrow> (go_error + 'w client) \<times> 'w" where
  "dial_with_retry env ex ctx w = dial_tries env ex ctx 20 (new_error []) w"

text \<open>A computation with a client of its own, which is closed in the end.\<close>

definition with_client :: "'w agent_env \<Rightarrow> executor \<Rightarrow> ctx \<Rightarrow> (go_error \<Rightarrow> 'r) \<Rightarrow> (ctx \<Rightarrow> ('w, 'r) cdp) \<Rightarrow> 'w \<Rightarrow> 'r \<times> 'w" where
  "with_client env ex ctx failed body w =
     (let rctx = timeout_at (ae_conn env) ctx (ex_timeout ex) w in
      case dial_with_retry env ex rctx w of
        (Inl e, w) \<Rightarrow> (failed e, w)
      | (Inr cl, w) \<Rightarrow> (case run_state (body rctx) cl of (r, cl) \<Rightarrow> (r, cl_conn cl)))"

definition execute_with_actions ::
  "'w agent_env \<Rightarrow> executor \<Rightarrow> ctx \<Rightarrow> gostr \<Rightarrow> gostr \<Rightarrow> exec_action list \<Rightarrow> 'w \<Rightarrow> (flow_error + exec_response) \<times> 'w" where
  "execute_with_actions env ex ctx target goal actions w =
     (let url = trim_space target in
      if url = [] then (Inl (PlainError (new_error ''url is required'')), w)
      else case validate_egress (ae_net env) (ex_egress_mode ex) (ex_allow_hosts ex) url of
             Some e \<Rightarrow> (Inl (PlainError e), w)
           | None \<Rightarrow> with_client env ex ctx (\<lambda>e. Inl (PlainError e)) (\<lambda>rctx. run_flow env ex rctx url goal actions) w)"

section \<open>The single operations\<close>

definition open_url :: "'w agent_env \<Rightarrow> executor \<Rightarrow> ctx \<Rightarrow> gostr \<Rightarrow> 'w \<Rightarrow> go_error option \<times> 'w" where
  "open_url env ex ctx target w =
     (let url = trim_space target in
      if url = [] then (Some (new_error ''url is required''), w)
      else with_client env ex ctx Some (\<lambda>rctx. do {
             r \<leftarrow> and_then (navigate (ae_conn env) rctx url) (\<lambda>_. pause_if (ae_conn env) rctx (ex_render_delay ex));
             State_Monad.return (case r of Inl e \<Rightarrow> Some e | Inr _ \<Rightarrow> None) }) w)"

definition run_action :: "'w agent_env \<Rightarrow> executor \<Rightarrow> ctx \<Rightarrow> exec_action \<Rightarrow> 'w \<Rightarrow> go_error option \<times> 'w" where
  "run_action env ex ctx a w = with_client env ex ctx Some (\<lambda>rctx. do {
     r \<leftarrow> apply_action env rctx a;
     State_Monad.return (case r of Inl e \<Rightarrow> Some e | Inr _ \<Rightarrow> None) }) w"

definition snapshot_base64 :: "'w agent_env \<Rightarrow> executor \<Rightarrow> ctx \<Rightarrow> 'w \<Rightarrow> (go_error + gostr) \<times> 'w" where
  "snapshot_base64 env ex ctx w = with_client env ex ctx Inl (\<lambda>rctx. capture_screenshot (ae_conn env) rctx) w"

definition snapshot_png ::
  "'w agent_env \<Rightarrow> (gostr \<Rightarrow> go_error + gostr) \<Rightarrow> executor \<Rightarrow> ctx \<Rightarrow> 'w \<Rightarrow> (go_error + gostr) \<times> 'w" where
  "snapshot_png env decode64 ex ctx w =
     (case snapshot_base64 env ex ctx w of
        (Inl e, w) \<Rightarrow> (Inl e, w)
      | (Inr encoded, w) \<Rightarrow>
          (if blank encoded then Inl (new_error ''empty screenshot data'') else decode64 encoded, w))"

end
