(* ===== verification/Execution.thy ===== *)
theory Execution
  imports Executor
begin

text \<open>
  What holds of every execution of the node agent, whatever the browser, the planner and the network
  answer: the form of its trace, the number of its steps, the actions in it, and the egress policy.
\<close>

section \<open>Computations\<close>

text \<open>\<open>pred_state\<close> of the library: a computation gives only results with the property.\<close>

lemma pred_return [simp]: "pred_state P (State_Monad.return x) \<longleftrightarrow> P x"
  by (auto simp: pred_stateI dest: pred_stateD [where s = undefined])

lemma pred_bind: "pred_state (\<lambda>x. pred_state P (f x)) m \<Longrightarrow> pred_state P (m \<bind> f)"
  by (rule bind_predI)

lemma pred_any: "(\<And>x. P x) \<Longrightarrow> pred_state P m"
  by (rule pred_stateI) simp

lemma pred_mono: "pred_state P m \<Longrightarrow> (\<And>x. P x \<Longrightarrow> Q x) \<Longrightarrow> pred_state Q m"
  by (rule pred_stateI) (auto dest: pred_stateD)

lemma pred_then: "(\<And>x. pred_state P (f x)) \<Longrightarrow> pred_state P (m \<bind> f)"
  by (rule pred_bind, rule pred_any)

section \<open>Steps\<close>

definition step_ok :: "int \<Rightarrow> exec_action \<Rightarrow> exec_step list \<Rightarrow> planner_mark option \<Rightarrow> step_outcome \<Rightarrow> bool" where
  "step_ok index a trace mark out =
     (case out of (step, res, err) \<Rightarrow>
        xs_index step = index \<and> xs_action step = normalize_trace_action a \<and> xs_planner step = mark
        \<and> (case err of None \<Rightarrow> xs_status step = ''succeeded''
           | Some (msg, p) \<Rightarrow> xs_status step = ''failed'' \<and> (\<exists>shot. xr_trace p = trace @ [step\<lparr>xs_screenshot := shot\<rparr>])))"

lemma set_last_screenshot_snoc:
  "\<exists>s. set_last_screenshot shot (trace @ [step]) = trace @ [step\<lparr>xs_screenshot := s\<rparr>]"
proof (cases "blank (xs_screenshot step)")
  case False
  then have "set_last_screenshot shot (trace @ [step]) = trace @ [step\<lparr>xs_screenshot := xs_screenshot step\<rparr>]"
    by (simp add: set_last_screenshot_def)
  then show ?thesis by blast
qed (auto simp: set_last_screenshot_def)

lemma partial_trace:
  "pred_state (\<lambda>p. \<exists>s. xr_trace p = trace @ [step\<lparr>xs_screenshot := s\<rparr>]) (partial_response env ctx (trace @ [step]))"
proof -
  have "\<exists>s. trace @ [step] = trace @ [step\<lparr>xs_screenshot := s\<rparr>]"
    by (rule exI [of _ "xs_screenshot step"]) simp
  then show ?thesis
    unfolding partial_response_def
    by (intro pred_then) (simp add: set_last_screenshot_snoc split: sum.split)
qed

lemma fail_step_ok:
  "xs_index step = index \<Longrightarrow> xs_action step = normalize_trace_action a \<Longrightarrow> xs_planner step = mark \<Longrightarrow>
   xs_status step = ''failed'' \<Longrightarrow> pred_state (step_ok index a trace mark) (fail_step env ctx index a trace step res e url)"
  unfolding fail_step_def
  by (rule pred_bind, rule pred_mono [OF partial_trace], rule pred_then) (simp add: step_ok_def)

lemma execute_step_ok: "pred_state (step_ok index a trace mark) (execute_step env ex ctx index a trace mark)"
  unfolding execute_step_def settle_step_def Let_def
  by (intro pred_then)
     (auto split: sum.split option.split intro!: pred_then fail_step_ok
       simp: start_step_def finish_step_def step_ok_def)

section \<open>Traces\<close>

text \<open>A trace is numbered from 1; every step of a complete one succeeded, a failed one ends with its
  only failed step.\<close>

definition numbered :: "exec_step list \<Rightarrow> bool" where
  "numbered trace \<longleftrightarrow> map xs_index trace = map int [1..<Suc (length trace)]"

definition complete_trace :: "exec_step list \<Rightarrow> bool" where
  "complete_trace trace \<longleftrightarrow> numbered trace \<and> list_all (\<lambda>s. xs_status s = ''succeeded'') trace"

definition failed_trace :: "exec_step list \<Rightarrow> bool" where
  "failed_trace trace \<longleftrightarrow> numbered trace \<and> trace \<noteq> []
     \<and> list_all (\<lambda>s. xs_status s = ''succeeded'') (butlast trace) \<and> xs_status (last trace) = ''failed''"

text \<open>What an execution may answer, given what its traces must satisfy.\<close>

definition flow_ok :: "(exec_step list \<Rightarrow> bool) \<Rightarrow> flow_error + exec_response \<Rightarrow> bool" where
  "flow_ok Q out =
     (case out of
        Inr resp \<Rightarrow> complete_trace (xr_trace resp) \<and> Q (xr_trace resp)
      | Inl (FlowError msg resp) \<Rightarrow> failed_trace (xr_trace resp) \<and> Q (xr_trace resp)
      | Inl _ \<Rightarrow> True)"

lemma numbered_snoc: "numbered (trace @ [s]) \<longleftrightarrow> numbered trace \<and> xs_index s = int (length trace) + 1"
  by (auto simp: numbered_def)

lemma complete_nil [simp]: "complete_trace []"
  by (simp add: complete_trace_def numbered_def)

lemma complete_snoc: "complete_trace trace \<Longrightarrow> xs_index s = int (length trace) + 1 \<Longrightarrow> xs_status s = ''succeeded'' \<Longrightarrow>
    complete_trace (trace @ [s])"
  by (simp add: complete_trace_def numbered_snoc)

lemma failed_snoc: "complete_trace trace \<Longrightarrow> xs_index s = int (length trace) + 1 \<Longrightarrow> xs_status s = ''failed'' \<Longrightarrow>
    failed_trace (trace @ [s])"
  by (simp add: complete_trace_def failed_trace_def numbered_snoc)

lemma mark_stop_snoc: "mark_stop why (trace @ [s]) = trace @ [s\<lparr>xs_planner := map_option (\<lambda>m. m\<lparr>pm_stop := why\<rparr>) (xs_planner s)\<rparr>]"
  by (simp add: mark_stop_def)

lemma mark_stop_maps:
  "map xs_index (mark_stop why trace) = map xs_index trace" "map xs_status (mark_stop why trace) = map xs_status trace"
  "map xs_action (mark_stop why trace) = map xs_action trace" "length (mark_stop why trace) = length trace"
  by (cases trace rule: rev_cases; simp add: mark_stop_def)+

lemma mark_stop_complete [simp]: "complete_trace (mark_stop why trace) \<longleftrightarrow> complete_trace trace"
  by (cases trace rule: rev_cases) (simp_all add: mark_stop_def complete_trace_def numbered_snoc)

section \<open>Given actions\<close>

text \<open>The trace holds the given actions, or the first of them.\<close>

definition first_actions :: "exec_action list \<Rightarrow> exec_step list \<Rightarrow> bool" where
  "first_actions actions trace \<longleftrightarrow>
     map xs_action trace = take (length trace) (map normalize_trace_action actions)"

lemma first_actions_snoc:
  "first_actions (done_as @ a # as) trace \<Longrightarrow> length trace = length done_as \<Longrightarrow> xs_action s = normalize_trace_action a \<Longrightarrow>
   first_actions (done_as @ a # as) (trace @ [s])"
  by (simp add: first_actions_def)

definition actions_ok :: "exec_action list \<Rightarrow> (flow_error + exec_response) + exec_step list \<Rightarrow> bool" where
  "actions_ok actions r =
     (case r of
        Inl out \<Rightarrow> (\<exists>msg resp. out = Inl (FlowError msg resp) \<and> failed_trace (xr_trace resp) \<and> first_actions actions (xr_trace resp))
      | Inr trace \<Rightarrow> complete_trace trace \<and> map xs_action trace = map normalize_trace_action actions)"

lemma run_actions_ok:
  "complete_trace trace \<Longrightarrow> map xs_action trace = map normalize_trace_action done_as \<Longrightarrow>
   pred_state (actions_ok (done_as @ as)) (run_actions env ex ctx trace as)"
proof (induction as arbitrary: trace done_as)
  case Nil
  then show ?case by (simp add: actions_ok_def)
next
  case (Cons a as)
  have len: "length trace = length done_as" using Cons.prems(2) by (metis length_map)
  show ?case
    unfolding run_actions.simps
  proof (rule pred_bind, rule pred_mono [OF execute_step_ok])
    fix x assume x: "step_ok (int (length trace) + 1) a trace None x"
    obtain step res err where xe: "x = (step, res, err)" by (cases x)
    show "pred_state (actions_ok (done_as @ a # as))
      (case x of (step, res, Some (msg, partial)) \<Rightarrow> State_Monad.return (Inl (Inl (FlowError msg partial)))
       | (step, res, None) \<Rightarrow> run_actions env ex ctx (trace @ [step]) as)"
    proof (cases err)
      case None
      with x xe Cons.prems have "complete_trace (trace @ [step])"
        "map xs_action (trace @ [step]) = map normalize_trace_action (done_as @ [a])"
        by (simp_all add: step_ok_def complete_snoc)
      from Cons.IH [OF this] None xe show ?thesis by simp
    next
      case (Some p)
      obtain msg resp where p: "p = (msg, resp)" by (cases p)
      from x xe Some p obtain shot where t: "xr_trace resp = trace @ [step\<lparr>xs_screenshot := shot\<rparr>]"
        and s: "xs_index step = int (length trace) + 1" "xs_action step = normalize_trace_action a" "xs_status step = ''failed''"
        by (auto simp: step_ok_def)
      from Cons.prems s have "failed_trace (xr_trace resp)" by (simp add: t failed_snoc)
      moreover from Cons.prems(2) s len have "first_actions (done_as @ a # as) (xr_trace resp)"
        by (simp add: t first_actions_def)
      ultimately show ?thesis by (simp add: xe Some p actions_ok_def)
    qed
  qed
qed

section \<open>Planned actions\<close>

text \<open>A step of the planner carries a safe action and its mark; there are at most as many as
  rounds.\<close>

definition planned :: "exec_step \<Rightarrow> bool" where
  "planned s \<longleftrightarrow> safe_action (xs_action s) \<and> xs_planner s \<noteq> None"

definition within :: "nat \<Rightarrow> exec_step list \<Rightarrow> bool" where
  "within n trace \<longleftrightarrow> length trace \<le> n \<and> list_all planned trace"

lemma within_nil [simp]: "within n []"
  by (simp add: within_def)

lemma within_snoc: "within n trace \<Longrightarrow> planned s \<Longrightarrow> within (Suc n) (trace @ [s])"
  by (simp add: within_def)

lemma within_mono: "within n trace \<Longrightarrow> n \<le> m \<Longrightarrow> within m trace"
  by (simp add: within_def)

lemma within_mark_stop [simp]: "within n (mark_stop why trace) \<longleftrightarrow> within n trace"
  by (cases trace rule: rev_cases) (auto simp: mark_stop_def within_def planned_def)

lemma normalize_sanitized: "sanitize_action a = Some b \<Longrightarrow> normalize_trace_action b = b"
  by (erule sanitize_action_cases) (simp add: normalize_trace_action_def)

lemma sanitized_head:
  assumes "sanitize_planned_actions [a] = b # bs"
  shows "safe_action (normalize_trace_action b)"
proof -
  from assms have "sanitize_action a = Some b" by (simp add: sanitize_single split: option.splits)
  then show ?thesis by (simp add: normalize_sanitized sanitize_action_safe)
qed

definition rounds_ok :: "nat \<Rightarrow> rounds \<Rightarrow> bool" where
  "rounds_ok n st \<longleftrightarrow> complete_trace (ro_trace st) \<and> within n (ro_trace st)"

definition end_ok :: "nat \<Rightarrow> round_end \<Rightarrow> bool" where
  "end_ok n r = (case r of Go st \<Rightarrow> rounds_ok n st | Halt why st \<Rightarrow> rounds_ok n st | Leave out \<Rightarrow> flow_ok (within n) out)"

lemma end_ok_simps [simp]:
  "end_ok n (Go st) = rounds_ok n st" "end_ok n (Halt why st) = rounds_ok n st" "end_ok n (Leave out) = flow_ok (within n) out"
  by (simp_all add: end_ok_def)

lemma count_failure_ok: "rounds_ok n st \<Longrightarrow> end_ok n (count_failure ex e st)"
  by (simp add: count_failure_def Let_def flow_ok_def rounds_ok_def)

lemma next_page_ok: "rounds_ok n st \<Longrightarrow> pred_state (end_ok n) (next_page env ex ctx st)"
  unfolding next_page_def
  by (rule pred_then) (auto split: sum.split simp: Let_def count_failure_ok rounds_ok_def)

lemma end_round_ok:
  assumes "rounds_ok n st" "safe_action (normalize_trace_action a)"
    and "step_ok (int (length (ro_trace st)) + 1) a (ro_trace st) (Some mark) r"
  shows "pred_state (end_ok (Suc n)) (end_round env ex ctx round st r)"
proof -
  obtain step res err where r: "r = (step, res, err)" by (cases r)
  have st: "complete_trace (ro_trace st)" "within n (ro_trace st)" using assms(1) by (simp_all add: rounds_ok_def)
  have s: "xs_index step = int (length (ro_trace st)) + 1" "planned step"
    using assms(2,3) by (simp_all add: r step_ok_def planned_def)
  have w: "within (Suc n) (ro_trace st @ [step])" by (rule within_snoc [OF st(2) s(2)])
  show ?thesis
  proof (cases err)
    case None
    with assms(3) have "complete_trace (ro_trace st @ [step])" using complete_snoc [OF st(1) s(1)] by (simp add: r step_ok_def)
    with w None show ?thesis
      unfolding end_round_def r Let_def
      by (auto intro!: pred_then next_page_ok split: option.split simp: flow_ok_def rounds_ok_def)
  next
    case (Some p)
    obtain msg resp where p: "p = (msg, resp)" by (cases p)
    from assms(3) Some have "xs_status step = ''failed''" by (simp add: r p step_ok_def)
    with st s have "failed_trace (ro_trace st @ [step\<lparr>xs_planner := x\<rparr>])" for x by (simp add: failed_snoc)
    moreover have "within (Suc n) (mark_stop ''action_failed'' (ro_trace st @ [step]))" using w by simp
    ultimately show ?thesis by (simp add: end_round_def r Some p flow_ok_def mark_stop_snoc)
  qed
qed

lemma note_action_same [simp]: "ro_trace (note_action sig st) = ro_trace st" "ro_failures (note_action sig st) = ro_failures st"
  by (simp_all add: note_action_def)

lemma perform_round_ok:
  assumes "rounds_ok n st" "safe_action (normalize_trace_action a)"
  shows "pred_state (end_ok (Suc n)) (perform_round env ex ctx mode round a st)"
proof -
  let ?st = "note_action (action_signature a) st"
  have "rounds_ok n ?st" using assms(1) by (simp add: rounds_ok_def)
  then show ?thesis
    unfolding perform_round_def Let_def
    using assms(2) by (intro pred_bind pred_mono [OF execute_step_ok] end_round_ok)
qed

lemma rounds_ok_mono: "rounds_ok n st \<Longrightarrow> n \<le> m \<Longrightarrow> rounds_ok m st"
  by (auto simp: rounds_ok_def intro: within_mono)

lemma plan_round_ok:
  assumes "rounds_ok n st"
  shows "pred_state (end_ok (Suc n)) (plan_round env ex ctx goal round st)"
proof -
  have st: "rounds_ok (Suc n) st" using assms by (rule rounds_ok_mono) simp
  show ?thesis
    unfolding plan_round_def
    using st by (auto split: sum.split plan_failure.split option.split list.split
      simp: count_failure_ok flow_ok_def intro!: perform_round_ok [OF assms] dest: sanitized_head)
qed

lemma plan_rounds_ok:
  "rounds_ok n st \<Longrightarrow> pred_state (end_ok (n + k)) (plan_rounds env ex ctx goal k round st)"
proof (induction k arbitrary: n round st)
  case 0
  then show ?case by simp
next
  case (Suc k)
  show ?case
    unfolding plan_rounds.simps
  proof (rule pred_bind, rule pred_mono [OF plan_round_ok [OF Suc.prems]])
    fix r assume r: "end_ok (Suc n) r"
    show "pred_state (end_ok (n + Suc k)) (case r of Go st \<Rightarrow> plan_rounds env ex ctx goal k (round + 1) st | _ \<Rightarrow> State_Monad.return r)"
    proof (cases r)
      case (Go st')
      with r Suc.IH [of "Suc n" st'] show ?thesis by simp
    next
      case (Halt why st')
      with r show ?thesis by (auto intro: rounds_ok_mono)
    next
      case (Leave out)
      with r show ?thesis
        by (auto simp: flow_ok_def intro: within_mono split: sum.splits flow_error.splits)
    qed
  qed
qed

definition planner_ok :: "nat \<Rightarrow> (flow_error + exec_response) + exec_step list \<Rightarrow> bool" where
  "planner_ok n r = (case r of Inl out \<Rightarrow> flow_ok (within n) out | Inr trace \<Rightarrow> complete_trace trace \<and> within n trace)"

lemma run_planner_ok: "pred_state (planner_ok (nat (ex_max_steps ex))) (run_planner env ex ctx goal)"
proof -
  have start: "rounds_ok 0 \<lparr>ro_snapshot = page, ro_prior = [], ro_last_page = sig, ro_page_repeats = 0,
      ro_last_action = [], ro_action_repeats = 0, ro_trace = [], ro_failures = 0\<rparr>" for page sig
    by (simp add: rounds_ok_def)
  have fin: "planner_ok n (case r of Leave out \<Rightarrow> Inl out | Go st \<Rightarrow> Inr (ro_trace st)
      | Halt why st \<Rightarrow> let why = stop_reason ex why (ro_trace st) in
             Inr (if why = [] then ro_trace st else mark_stop why (ro_trace st)))" if "end_ok n r" for n r
    using that by (cases r) (simp_all add: planner_ok_def rounds_ok_def Let_def)
  have "pred_state (planner_ok (0 + nat (ex_max_steps ex))) (run_planner env ex ctx goal)"
    unfolding run_planner_def
    by (rule pred_then)
       (auto split: sum.split simp: planner_ok_def [of _ "Inl _"] flow_ok_def
         intro!: pred_bind pred_mono [OF plan_rounds_ok [OF start]] fin simp del: add_0)
  then show ?thesis by simp
qed

section \<open>The whole execution\<close>

lemma detect_blocker_ok:
  "pred_state (\<lambda>b. case b of None \<Rightarrow> True
     | Some r \<Rightarrow> xr_trace r = [] \<and> xr_blocker r \<noteq> [] \<and> xr_blocker_message r \<noteq> []) (detect_blocker env ex ctx)"
proof -
  have b: "pred_state (\<lambda>b. case b of None \<Rightarrow> True
     | Some r \<Rightarrow> xr_trace r = [] \<and> xr_blocker r \<noteq> [] \<and> xr_blocker_message r \<noteq> [])
     (blocked_response env ctx title url k)" if "fst k \<noteq> []" for title url k
    unfolding blocked_response_def by (rule pred_then) (use that in simp)
  show ?thesis
    unfolding detect_blocker_def Let_def
    by (rule pred_then) (auto split: sum.split intro!: pred_then b)
qed

lemma final_response_ok:
  "pred_state (\<lambda>out. case out of Inr resp \<Rightarrow> xr_trace resp = trace | Inl e \<Rightarrow> \<exists>err. e = PlainError err)
     (final_response env ex ctx trace)"
proof -
  have base: "pred_state (\<lambda>r. case r of Inl _ \<Rightarrow> True | Inr resp \<Rightarrow> xr_trace resp = trace)
     (and_then m1 (\<lambda>title. and_then m2 (\<lambda>url. and_then m3 (\<lambda>shot.
        answer (Inr \<lparr>xr_title = title, xr_url = url, xr_screenshot = shot, xr_blocker = [],
                xr_blocker_message = [], xr_trace = trace\<rparr>)))))" for m1 m2 m3 :: "('a, go_error + gostr) cdp"
    unfolding and_then_def by (auto intro!: pred_then split: sum.split)
  show ?thesis
    unfolding final_response_def
    by (rule pred_then) (auto split: option.split sum.split intro!: pred_bind pred_mono [OF base])
qed

text \<open>An answer of the execution whose trace fits the request.\<close>

definition trace_fits :: "executor \<Rightarrow> exec_action list \<Rightarrow> exec_step list \<Rightarrow> bool" where
  "trace_fits ex actions trace =
     (if actions = [] then within (nat (ex_max_steps ex)) trace else first_actions actions trace)"

definition flow_answer :: "executor \<Rightarrow> exec_action list \<Rightarrow> flow_error + exec_response \<Rightarrow> bool" where
  "flow_answer ex actions out \<longleftrightarrow> flow_ok (trace_fits ex actions) out
     \<and> (case out of Inr resp \<Rightarrow> actions \<noteq> [] \<longrightarrow> xr_blocker resp = [] \<longrightarrow>
          map xs_action (xr_trace resp) = map normalize_trace_action actions | Inl _ \<Rightarrow> True)"

lemma final_answer:
  assumes "complete_trace trace" "trace_fits ex actions trace"
    and "actions \<noteq> [] \<Longrightarrow> map xs_action trace = map normalize_trace_action actions"
  shows "pred_state (flow_answer ex actions) (final_response env ex ctx trace)"
  by (rule pred_mono [OF final_response_ok [of trace]])
     (use assms in \<open>auto simp: flow_answer_def flow_ok_def split: sum.splits\<close>)

lemma trace_fits_nil [simp]: "trace_fits ex actions []"
  by (simp add: trace_fits_def first_actions_def)

lemma run_flow_answer: "pred_state (flow_answer ex actions) (run_flow env ex ctx url goal actions)"
proof -
  have blocked: "flow_answer ex as (Inr r)" if "xr_trace r = []" "xr_blocker r \<noteq> []" for r as
    using that by (simp add: flow_answer_def flow_ok_def)
  have plan: "pred_state (flow_answer ex [])
      (run_planner env ex ctx goal \<bind> (\<lambda>r. case r of Inl out \<Rightarrow> State_Monad.return out | Inr trace \<Rightarrow> final_response env ex ctx trace))"
    by (rule pred_bind, rule pred_mono [OF run_planner_ok [of ex]])
       (auto simp: planner_ok_def flow_answer_def [of _ "[]"] trace_fits_def flow_ok_def
          split: sum.splits flow_error.splits intro!: final_answer [of _ _ "[]"])
  have act: "pred_state (flow_answer ex actions)
      (run_actions env ex ctx [] actions \<bind> (\<lambda>r. case r of Inl out \<Rightarrow> State_Monad.return out | Inr trace \<Rightarrow> final_response env ex ctx trace))"
  proof (rule pred_bind, rule pred_mono [OF run_actions_ok [of "[]" "[]" actions, simplified]])
    fix r assume r: "actions_ok actions r"
    show "pred_state (flow_answer ex actions)
      (case r of Inl out \<Rightarrow> State_Monad.return out | Inr trace \<Rightarrow> final_response env ex ctx trace)"
    proof (cases r)
      case (Inl out)
      with r obtain msg resp where o: "out = Inl (FlowError msg resp)" "failed_trace (xr_trace resp)"
        "first_actions actions (xr_trace resp)" by (auto simp: actions_ok_def)
      moreover from o(2,3) have "actions \<noteq> []" by (auto simp: failed_trace_def first_actions_def)
      ultimately show ?thesis using Inl by (simp add: flow_answer_def flow_ok_def trace_fits_def)
    next
      case (Inr trace)
      with r have t: "complete_trace trace" "map xs_action trace = map normalize_trace_action actions"
        by (simp_all add: actions_ok_def)
      then have "length trace = length actions" by (metis length_map)
      with t Inr show ?thesis
        by (auto simp: trace_fits_def first_actions_def within_def intro!: final_answer)
    qed
  qed
  show ?thesis
    unfolding run_flow_def
    by (rule pred_then, auto split: sum.split simp: flow_answer_def [of _ _ "Inl (PlainError _)"] flow_ok_def [of _ "Inl (PlainError _)"]
      intro!: pred_bind pred_mono [OF detect_blocker_ok])
       (auto split: option.splits simp: blocked intro!: plan act)
qed

lemma with_client_pred:
  assumes "\<And>rctx. pred_state P (body rctx)" "\<And>e. P (failed e)"
  shows "P (fst (with_client env ex ctx failed body w))"
  unfolding with_client_def Let_def
  using assms by (auto split: prod.split sum.split dest: pred_stateD)

lemma execute_answer: "flow_answer ex actions (fst (execute_with_actions env ex ctx target goal actions w))"
proof -
  have e: "flow_answer ex actions (Inl (PlainError err))" for err by (simp add: flow_answer_def flow_ok_def)
  show ?thesis
    unfolding execute_with_actions_def Let_def
    by (auto split: option.split simp: e intro!: with_client_pred [where P = "flow_answer ex actions"] run_flow_answer)
qed

text \<open>C14: every execution leaves a faithful trace. Its steps are numbered from 1 without a gap; when
  the execution answers, all of them succeeded; when it fails at a step, exactly the last one failed.
  With given actions the trace holds the first of them in order, all of them if there is no blocker;
  without, every action is safe and marked by the planner, and there are at most as many as the
  configured number of rounds.\<close>

theorem execution_trace: "flow_answer ex actions (fst (execute_with_actions env ex ctx target goal actions w))"
  by (rule execute_answer)

text \<open>A target outside the egress policy is refused before the browser is contacted.\<close>

lemma blocked_target_untouched:
  assumes "validate_egress (ae_net env) (ex_egress_mode ex) (ex_allow_hosts ex) (trim_space target) = Some e"
  shows "execute_with_actions env ex ctx target goal actions w = (Inl (PlainError e), w)"
  using assms by (auto simp: execute_with_actions_def Let_def validate_egress_def)

lemma fail_step_error: "run_state (fail_step env ctx index a trace step res e url) s = ((st, r, err), s') \<Longrightarrow> err \<noteq> None"
  by (auto simp: fail_step_def split: prod.splits)

lemma settle_step_within:
  assumes "run_state (settle_step env ex ctx index a trace res0 step0 r) s = ((step, res, None), s')"
  shows "\<exists>output. r = Inr output \<and> (case fst (run_state (evaluate_string (ae_conn env) ctx LocationHref) s) of
      Inl _ \<Rightarrow> True
    | Inr u \<Rightarrow> validate_egress (ae_net env) (ex_egress_mode ex) (ex_allow_hosts ex) u = None)"
proof (cases r)
  case (Inl e)
  with assms show ?thesis by (auto simp: settle_step_def split: prod.splits dest: fail_step_error)
next
  case (Inr said)
  obtain url t where u: "run_state (evaluate_string (ae_conn env) ctx LocationHref) s = (url, t)" by fastforce
  show ?thesis
  proof (cases url)
    case (Inl e)
    with Inr u show ?thesis by simp
  next
    case (Inr link)
    have "validate_egress (ae_net env) (ex_egress_mode ex) (ex_allow_hosts ex) link = None"
    proof (rule ccontr)
      assume "validate_egress (ae_net env) (ex_egress_mode ex) (ex_allow_hosts ex) link \<noteq> None"
      with assms u Inr \<open>r = Inr said\<close> show False by (auto simp: settle_step_def Let_def dest: fail_step_error)
    qed
    with u Inr \<open>r = Inr said\<close> show ?thesis by simp
  qed
qed


section \<open>Actions\<close>

lemma run_types:
  assumes "typ \<notin> set allowed_planner_actions"
  shows "run_action_type env ctx t typ a = answer (Inl (new_error (''unsupported action type '' @ cn_quote (ae_conn env) typ)))"
  using assms by (simp add: run_action_type_def allowed_planner_actions_def Let_def)

text \<open>An action of an unknown type is refused without a call to the browser.\<close>

lemma unknown_action_refused:
  assumes "env_lower env (trim_space (ea_type a)) \<notin> set allowed_planner_actions"
  shows "\<exists>e. run_state (apply_action env ctx a) s = (Inl e, s)"
proof (cases "env_lower env (trim_space (ea_type a)) = []")
  case True
  then show ?thesis by (simp add: apply_action_def)
next
  case False
  then show ?thesis by (simp add: apply_action_def Let_def with_timeout_def run_types [OF assms])
qed

lemma extract_first_valid:
  "run_state (extract_first env ctx expected t errs cands) s = (Inr v, s') \<Longrightarrow>
   \<not> blank v \<and> trim_space v = v \<and> extracted_value_valid (env_lower env) expected v"
proof (induction cands arbitrary: errs s)
  case (Cons c cs)
  then show ?case by (auto split: prod.splits sum.splits if_splits)
qed simp

text \<open>The text an extraction answers is not empty, has no blanks around it and is valid for what
  was asked: a price has a digit and a currency or a separator, a rating a digit and its scale.\<close>

lemma extracted_text_valid:
  assumes "run_state (apply_action env ctx a) s = (Inr v, s')"
    and "env_lower env (trim_space (ea_type a)) = ''extract_text''"
  shows "v \<noteq> [] \<and> trim_space v = v
    \<and> extracted_value_valid (env_lower env) (env_lower env (trim_space (ea_text a))) v"
proof -
  obtain t actx s1 cands where "run_state (extract_first env actx (env_lower env (trim_space (ea_text a))) t [] cands) s1 = (Inr v, s')"
    using assms by (auto simp: apply_action_def run_action_type_def needs_def with_timeout_def Let_def split: if_splits)
  from extract_first_valid [OF this] show ?thesis by auto
qed

section \<open>An example\<close>

definition demo_env :: "(int \<times> int) agent_env" where
  "demo_env = \<lparr>ae_conn = demo_conn, ae_libs = no_network, ae_net = demo_net, ae_humanizer = None,
     ae_decode_page = (\<lambda>_. Inr box_page), ae_dial = (\<lambda>_ _ w. (Inr \<lparr>cl_id = 0, cl_conn = w\<rparr>, w))\<rparr>"

definition demo_executor :: executor where
  "demo_executor = \<lparr>ex_cdp_url = [], ex_render_delay = 0, ex_timeout = 45 * second,
     ex_planner = Some (TemplatePlanner (Some HeuristicPlanner)), ex_max_steps = 12, ex_max_failures = 2,
     ex_max_repeat_actions = 3, ex_max_repeat_snapshots = 3, ex_screenshots = False,
     ex_egress_mode = ''deny_all'', ex_allow_hosts = []\<rparr>"

lemma demo_extracts:
  "run_state (apply_action demo_env None (act ''extract_text'' ''h1'' ''text'' 5000 0)) demo_client
   = (Inr ''true'', \<lparr>cl_id = 8, cl_conn = (300 * millisecond, 8)\<rparr>)"
  by code_simp

lemma demo_lower: "env_lower demo_env = to_lower"
  by (simp add: fun_eq_iff env_lower_def demo_env_def no_network_def)

lemma extracted_text_valid_at_work: "''true'' \<noteq> [] \<and> trim_space ''true'' = ''true''
    \<and> extracted_value_valid (env_lower demo_env) (env_lower demo_env (trim_space ''text'')) ''true''"
  using extracted_text_valid [OF demo_extracts] unfolding demo_lower by (simp add: act_def price_words)

lemma unknown_action_refused_at_work:
  "\<exists>e. run_state (apply_action demo_env None (act ''eval'' ''h1'' [] 0 0)) demo_client = (Inl e, demo_client)"
  by (rule unknown_action_refused) code_simp

lemma blocked_target_untouched_at_work:
  "execute_with_actions demo_env demo_executor None ''https://a.example/'' [] [] (0, 0)
   = (Inl (PlainError (new_error ''egress policy blocked navigation: mode=deny_all url=https://a.example/'')), (0, 0))"
  by (rule blocked_target_untouched) code_simp

definition open_executor :: executor where
  "open_executor = demo_executor\<lparr>ex_egress_mode := ''open''\<rparr>"

abbreviation demo_step_run :: "step_outcome \<times> (int \<times> int) client" where
  "demo_step_run \<equiv> run_state (execute_step demo_env open_executor None 1 (act ''wait'' [] [] 0 100) [] None) demo_client"

lemma demo_step: "snd (snd (fst demo_step_run)) = None"
  by code_simp


end
