(* ===== verification/NodeAgent.thy ===== *)
theory NodeAgent
  imports Execution NodeClient
begin

text \<open>
  The node agent's service, \<open>cmd/node-agent/grpc_server.go\<close> and a part of \<open>main.go\<close>: the gRPC
  methods and the HTTP endpoint over the executor and the flexible integers of an action; and what
  the orchestrator's gRPC client makes of the answers. JSON texts are parameters.
\<close>

section \<open>Flexible integers\<close>

text \<open>What \<open>FlexInt.UnmarshalJSON\<close> tells apart: \<open>null\<close>, which \<open>json.Unmarshal\<close> leaves as 0, a number that
  fits an \<open>int\<close>, a string, anything else.\<close>

datatype raw_json = RawNull | RawInt int | RawString gostr | RawOther gostr

definition flex_int :: "(gostr \<Rightarrow> gostr) \<Rightarrow> (gostr \<Rightarrow> gostr) \<Rightarrow> raw_json \<Rightarrow> go_error + int" where
  "flex_int quote why raw =
     (case raw of
        RawNull \<Rightarrow> Inr 0
      | RawInt n \<Rightarrow> Inr n
      | RawString s \<Rightarrow>
          (case atoi (trim_space s) of
             Some n \<Rightarrow> Inr n
           | None \<Rightarrow> Inl (new_error (''FlexInt: cannot parse '' @ quote s @ '' as int: '' @ why (trim_space s))))
      | RawOther b \<Rightarrow> Inl (new_error (''FlexInt: unsupported value '' @ b)))"

section \<open>The gRPC methods\<close>

definition param :: "(gostr \<times> gostr) list \<Rightarrow> gostr \<Rightarrow> gostr" where
  "param ps k = (case map_of ps k of None \<Rightarrow> [] | Some v \<Rightarrow> v)"

definition parse_actions_json :: "(gostr \<Rightarrow> go_error + exec_action list) \<Rightarrow> gostr \<Rightarrow> go_error + exec_action list" where
  "parse_actions_json decode v = (if blank v then Inr [] else decode (trim_space v))"

text \<open>An optional number; \<open>status.Errorf\<close> puts the code in front of the message.\<close>

definition invalid_argument :: "gostr \<Rightarrow> go_error" where
  "invalid_argument msg = new_error (''rpc error: code = InvalidArgument desc = '' @ msg)"

definition int_param :: "(gostr \<times> gostr) list \<Rightarrow> gostr \<Rightarrow> go_error + int" where
  "int_param ps k =
     (let raw = trim_space (param ps k) in
      if raw = [] then Inr 0
      else case atoi raw of
             None \<Rightarrow> Inl (invalid_argument (''invalid '' @ k @ '': '' @ raw))
           | Some n \<Rightarrow> Inr n)"

definition to_execute_action ::
  "(gostr \<Rightarrow> gostr) \<Rightarrow> gostr \<Rightarrow> (gostr \<times> gostr) list \<Rightarrow> go_error + exec_action" where
  "to_execute_action lower typ ps =
     (let t = lower (trim_space typ) in
      if t = [] then Inl (invalid_argument ''action is required'')
      else case int_param ps ''timeout_ms'' of
        Inl e \<Rightarrow> Inl e
      | Inr timeout \<Rightarrow>
          (case int_param ps ''delay_ms'' of
             Inl e \<Rightarrow> Inl e
           | Inr delay \<Rightarrow>
               (case int_param ps ''pixels'' of
                  Inl e \<Rightarrow> Inl e
                | Inr pixels \<Rightarrow> Inr \<lparr>ea_type = t, ea_selector = trim_space (param ps ''selector''),
                    ea_text = param ps ''text'', ea_pixels = pixels, ea_timeout_ms = timeout, ea_delay_ms = delay\<rparr>)))"

definition act_failed :: "gostr \<Rightarrow> act_response" where
  "act_failed msg = \<lparr>ar_ok = False, ar_error = msg, ar_metadata = []\<rparr>"

definition flow_error_text :: "flow_error \<Rightarrow> gostr" where
  "flow_error_text e = (case e of PlainError g \<Rightarrow> err_text g | FlowError msg _ \<Rightarrow> msg | FlowPanic \<Rightarrow> [])"

text \<open>The answer of \<open>execute_flow\<close>; \<open>None\<close> is the panic, which ends the process of the agent.\<close>

definition flow_reply ::
  "(exec_response \<Rightarrow> go_error + gostr) \<Rightarrow> flow_error + exec_response \<Rightarrow> act_response option" where
  "flow_reply encode out =
     (case out of
        Inl FlowPanic \<Rightarrow> None
      | Inl (PlainError e) \<Rightarrow> Some (act_failed (err_text e))
      | Inl (FlowError msg resp) \<Rightarrow>
          Some (case encode resp of
                  Inl _ \<Rightarrow> act_failed msg
                | Inr raw \<Rightarrow> \<lparr>ar_ok = False, ar_error = msg, ar_metadata = raw\<rparr>)
      | Inr resp \<Rightarrow>
          Some (case encode resp of
                  Inl e \<Rightarrow> act_failed (err_text e)
                | Inr raw \<Rightarrow> \<lparr>ar_ok = True, ar_error = [], ar_metadata = raw\<rparr>))"

definition act_method ::
  "'w agent_env \<Rightarrow> executor \<Rightarrow> (gostr \<Rightarrow> go_error + exec_action list) \<Rightarrow> (exec_response \<Rightarrow> go_error + gostr) \<Rightarrow>
   ctx \<Rightarrow> act_request \<Rightarrow> 'w \<Rightarrow> act_response option \<times> 'w" where
  "act_method env ex decode encode ctx q w =
     (let typ = env_lower env (trim_space (aq_action q)); ps = aq_params q in
      if typ = [] then (Some (act_failed ''action is required''), w)
      else if typ = ''execute_flow''
      then (case parse_actions_json decode (param ps ''actions_json'') of
              Inl e \<Rightarrow> (Some (act_failed (err_text e)), w)
            | Inr actions \<Rightarrow>
                (case execute_with_actions env ex ctx (param ps ''url'') (param ps ''goal'') actions w of
                   (out, w) \<Rightarrow> (flow_reply encode out, w)))
      else (case to_execute_action (env_lower env) typ ps of
              Inl e \<Rightarrow> (Some (act_failed (err_text e)), w)
            | Inr a \<Rightarrow>
                (case run_action env ex ctx a w of
                   (Some e, w) \<Rightarrow> (Some (act_failed (err_text e)), w)
                 | (None, w) \<Rightarrow> (Some \<lparr>ar_ok = True, ar_error = [], ar_metadata = []\<rparr>, w))))"

definition open_url_method :: "'w agent_env \<Rightarrow> executor \<Rightarrow> ctx \<Rightarrow> gostr \<Rightarrow> 'w \<Rightarrow> (bool \<times> gostr) \<times> 'w" where
  "open_url_method env ex ctx url w =
     (case open_url env ex ctx url w of
        (Some e, w) \<Rightarrow> ((False, err_text e), w)
      | (None, w) \<Rightarrow> ((True, []), w))"

definition snapshot_method ::
  "'w agent_env \<Rightarrow> (gostr \<Rightarrow> go_error + gostr) \<Rightarrow> executor \<Rightarrow> ctx \<Rightarrow> 'w \<Rightarrow> (go_error + gostr \<times> gostr) \<times> 'w" where
  "snapshot_method env decode64 ex ctx w =
     (case snapshot_png env decode64 ex ctx w of
        (Inl e, w) \<Rightarrow> (Inl (new_error (''rpc error: code = Internal desc = snapshot failed: '' @ err_text e)), w)
      | (Inr png, w) \<Rightarrow> (Inr (''image/png'', png), w))"

section \<open>The HTTP endpoint\<close>

record agent_request =
  rr_url :: gostr
  rr_goal :: gostr
  rr_actions :: "exec_action list"

datatype agent_payload = AgentText gostr | AgentError gostr gostr | AgentResult exec_response

text \<open>\<open>/healthz\<close> and \<open>/v1/execute\<close>; the body is what decoding the request gave. \<open>None\<close> is the panic,
  which the HTTP server turns into a dropped connection.\<close>

definition agent_routes ::
  "'w agent_env \<Rightarrow> executor \<Rightarrow> ctx \<Rightarrow> gostr \<Rightarrow> gostr \<Rightarrow> go_error + agent_request \<Rightarrow> 'w \<Rightarrow>
   (int \<times> agent_payload) option \<times> 'w" where
  "agent_routes env ex ctx path meth body w =
     (if path = ''/healthz'' then (Some (200, AgentText ''ok''), w)
      else if path \<noteq> ''/v1/execute'' then (Some (404, AgentText ''404 page not found''), w)
      else if meth \<noteq> ''POST'' then (Some (405, AgentError ''method_not_allowed'' ''method not allowed''), w)
      else case body of
        Inl _ \<Rightarrow> (Some (400, AgentError ''invalid_json'' ''request body must be valid JSON''), w)
      | Inr r \<Rightarrow>
          (case execute_with_actions env ex ctx (rr_url r) (rr_goal r) (rr_actions r) w of
             (Inl FlowPanic, w) \<Rightarrow> (None, w)
           | (Inl e, w) \<Rightarrow> (Some (502, AgentError ''execution_failed'' (flow_error_text e)), w)
           | (Inr resp, w) \<Rightarrow> (Some (200, AgentResult resp), w)))"

section \<open>The orchestrator's view\<close>

text \<open>The same JSON fields on both sides of the connection.\<close>

definition node_action_of :: "exec_action \<Rightarrow> node_action" where
  "node_action_of a = \<lparr>na_type = ea_type a, na_selector = ea_selector a, na_text = ea_text a,
     na_pixels = ea_pixels a, na_timeout_ms = ea_timeout_ms a, na_delay_ms = ea_delay_ms a\<rparr>"

definition exec_action_of :: "node_action \<Rightarrow> exec_action" where
  "exec_action_of a = \<lparr>ea_type = na_type a, ea_selector = na_selector a, ea_text = na_text a,
     ea_pixels = na_pixels a, ea_timeout_ms = na_timeout_ms a, ea_delay_ms = na_delay_ms a\<rparr>"

definition node_step_of :: "exec_step \<Rightarrow> node_step" where
  "node_step_of s = \<lparr>ns_index = xs_index s, ns_action = node_action_of (xs_action s), ns_status = xs_status s,
     ns_error = xs_error s, ns_output_text = xs_output s, ns_started_at = xs_started s,
     ns_completed_at = xs_completed s, ns_duration_ms = xs_duration s, ns_screenshot = xs_screenshot s,
     ns_artifact_url = xs_artifact s,
     ns_planner = map_option (\<lambda>m. \<lparr>np_mode = pm_mode m, np_round = pm_round m, np_failure_count = pm_failures m,
       np_stop_reason = pm_stop m\<rparr>) (xs_planner s)\<rparr>"

definition output_of :: "exec_response \<Rightarrow> execute_output" where
  "output_of r = \<lparr>xo_page_title = xr_title r, xo_final_url = xr_url r, xo_screenshot = xr_screenshot r,
     xo_blocker_type = xr_blocker r, xo_blocker_message = xr_blocker_message r,
     xo_trace = map node_step_of (xr_trace r)\<rparr>"

lemma exec_node_action [simp]: "exec_action_of (node_action_of a) = a" "node_action_of (exec_action_of b) = b"
  by (simp_all add: exec_action_of_def node_action_of_def)

section \<open>Round trips\<close>

text \<open>A number of an action is read the same from JSON whether it was written as a number or, as
  language models do, as a string, for every 64-bit integer; and so is the number of a gRPC
  parameter.\<close>

lemma flex_int_round_trip:
  assumes "- (2 ^ 63) \<le> n" "n < 2 ^ 63"
  shows "flex_int quote why (RawString (fmt_d n)) = Inr n \<and> flex_int quote why (RawInt n) = Inr n
    \<and> int_param [(k, fmt_d n)] k = Inr n"
proof -
  from assms show ?thesis by (simp add: flex_int_def int_param_def param_def atoi_fmt_d)
qed

lemma flex_int_round_trip_at_work:
  "flex_int (\<lambda>s. s) (\<lambda>s. s) (RawString (fmt_d (- 5000))) = Inr (- 5000)
   \<and> flex_int (\<lambda>s. s) (\<lambda>s. s) (RawInt (- 5000)) = Inr (- 5000)
   \<and> int_param [(''pixels'', fmt_d (- 5000))] ''pixels'' = Inr (- 5000)"
  by (rule flex_int_round_trip) simp_all

section \<open>A failed execution reaches the orchestrator\<close>

lemma failed_trace_sent:
  "failed_trace trace \<Longrightarrow> map node_step_of trace \<noteq> [] \<and> ns_status (last (map node_step_of trace)) = ''failed''
     \<and> map ns_index (map node_step_of trace) = map int [1..<Suc (length trace)]"
  by (simp add: failed_trace_def numbered_def last_map node_step_of_def comp_def)

text \<open>The agent at the other end of the orchestrator's gRPC client.\<close>

definition remote_agent ::
  "'w agent_env \<Rightarrow> executor \<Rightarrow> (gostr \<Rightarrow> go_error + exec_action list) \<Rightarrow> (exec_response \<Rightarrow> go_error + gostr) \<Rightarrow>
   ctx \<Rightarrow> 'w \<Rightarrow> go_error \<Rightarrow> act_request \<Rightarrow> go_error + act_response" where
  "remote_agent env ex decode encode ctx w unavailable q =
     (case fst (act_method env ex decode encode ctx q w) of Some r \<Rightarrow> Inr r | None \<Rightarrow> Inl unavailable)"


definition failing_input :: execute_input where
  "failing_input = \<lparr>xi_task = ''t'', xi_trace_id = [], xi_url = ''https://a.example/'', xi_goal = [],
     xi_actions = [node_action_of (act ''eval'' [] [] 0 0)]\<rparr>"

abbreviation failing_run :: "flow_error + exec_response" where
  "failing_run \<equiv> fst (execute_with_actions demo_env open_executor None (xi_url failing_input) (xi_goal failing_input)
     [act ''eval'' [] [] 0 0] (0, 0))"

definition failing_message :: gostr where
  "failing_message = (case failing_run of Inl (FlowError msg _) \<Rightarrow> msg | _ \<Rightarrow> [])"

definition failing_response :: exec_response where
  "failing_response = (case failing_run of Inl (FlowError _ resp) \<Rightarrow> resp
     | _ \<Rightarrow> \<lparr>xr_title = [], xr_url = [], xr_screenshot = [], xr_blocker = [], xr_blocker_message = [], xr_trace = []\<rparr>)"

lemma failing_run: "failing_run = Inl (FlowError failing_message failing_response)"
proof -
  have "case failing_run of Inl (FlowError _ _) \<Rightarrow> True | _ \<Rightarrow> False" by code_simp
  then show ?thesis
    unfolding failing_message_def failing_response_def by (auto split: sum.splits flow_error.splits)
qed


end
