(* ===== verification/Docker.thy ===== *)
theory Docker
  imports Config PoolManager
begin

text \<open>
  The Docker provider of the pool, \<open>internal/pool/local_docker_provider.go\<close>: its configuration, the
  command lines it runs and what it makes of their results. Running \<open>docker\<close>, the UUIDs and
  \<open>Duration.String\<close> are parameters. The environment it gives a container is read back by the
  agent's \<open>loadConfig\<close>.
\<close>

section \<open>Configuration\<close>

record docker_config =
  dc_image :: gostr
  dc_network :: gostr
  dc_container_prefix :: gostr
  dc_node_id_prefix :: gostr
  dc_node_grpc_port :: int
  dc_node_http_port :: int
  dc_orchestrator_url :: gostr
  dc_node_version :: gostr
  dc_heartbeat_interval :: duration
  dc_request_timeout :: duration
  dc_cdp_base_url :: gostr
  dc_render_delay :: duration
  dc_execute_timeout :: duration
  dc_planner_mode :: gostr
  dc_planner_endpoint_url :: gostr
  dc_planner_auth_token :: gostr
  dc_planner_model :: gostr
  dc_planner_timeout :: duration
  dc_planner_max_elements :: int
  dc_planner_max_steps :: int
  dc_planner_max_failures :: int
  dc_planner_max_repeat_actions :: int
  dc_planner_max_repeat_snapshots :: int
  dc_trace_screenshots :: bool
  dc_humanize_mode :: gostr
  dc_humanize_seed :: int
  dc_egress_mode :: gostr
  dc_egress_allow_hosts :: gostr
  dc_seccomp_profile :: gostr
  dc_xvfb_screen_geometry :: gostr
  dc_chrome_debug_port :: int
  dc_default_memory_limit :: gostr
  dc_default_cpu_limit :: gostr
  dc_default_pids_limit :: int

definition with_docker_defaults :: "docker_config \<Rightarrow> docker_config" where
  "with_docker_defaults c = c\<lparr>
     dc_network := (if blank (dc_network c) then ''bridge'' else dc_network c),
     dc_container_prefix := (if blank (dc_container_prefix c) then ''browseruse-node'' else dc_container_prefix c),
     dc_node_id_prefix := (if blank (dc_node_id_prefix c) then ''poolnode-'' else dc_node_id_prefix c),
     dc_node_grpc_port := (if dc_node_grpc_port c \<le> 0 then 9091 else dc_node_grpc_port c),
     dc_node_http_port := (if dc_node_http_port c \<le> 0 then 8091 else dc_node_http_port c),
     dc_heartbeat_interval := (if dc_heartbeat_interval c \<le> 0 then 5 * second else dc_heartbeat_interval c),
     dc_request_timeout := (if dc_request_timeout c \<le> 0 then 5 * second else dc_request_timeout c),
     dc_cdp_base_url := (if blank (dc_cdp_base_url c) then ''http://127.0.0.1:9222'' else dc_cdp_base_url c),
     dc_render_delay := (if dc_render_delay c \<le> 0 then 2 * second else dc_render_delay c),
     dc_execute_timeout := (if dc_execute_timeout c \<le> 0 then 45 * second else dc_execute_timeout c),
     dc_planner_mode := (if blank (dc_planner_mode c) then ''template'' else dc_planner_mode c),
     dc_planner_timeout := (if dc_planner_timeout c \<le> 0 then 8 * second else dc_planner_timeout c),
     dc_planner_max_elements := (if dc_planner_max_elements c \<le> 0 then 48 else dc_planner_max_elements c),
     dc_planner_max_steps := (if dc_planner_max_steps c \<le> 0 then 12 else dc_planner_max_steps c),
     dc_planner_max_failures := (if dc_planner_max_failures c < 0 then 0 else dc_planner_max_failures c),
     dc_planner_max_repeat_actions := (if dc_planner_max_repeat_actions c \<le> 0 then 3 else dc_planner_max_repeat_actions c),
     dc_planner_max_repeat_snapshots := (if dc_planner_max_repeat_snapshots c \<le> 0 then 3 else dc_planner_max_repeat_snapshots c),
     dc_xvfb_screen_geometry := (if blank (dc_xvfb_screen_geometry c) then ''1280x720x24'' else dc_xvfb_screen_geometry c),
     dc_egress_mode := (if blank (dc_egress_mode c) then ''open'' else dc_egress_mode c),
     dc_humanize_mode := (if blank (dc_humanize_mode c) then ''off'' else dc_humanize_mode c),
     dc_seccomp_profile := (if blank (dc_seccomp_profile c) then ''default'' else dc_seccomp_profile c),
     dc_chrome_debug_port := (if dc_chrome_debug_port c \<le> 0 then 9222 else dc_chrome_debug_port c),
     dc_default_memory_limit := (if blank (dc_default_memory_limit c) then ''2g'' else dc_default_memory_limit c),
     dc_default_cpu_limit := (if blank (dc_default_cpu_limit c) then ''2.0'' else dc_default_cpu_limit c),
     dc_default_pids_limit := (if dc_default_pids_limit c \<le> 0 then 512 else dc_default_pids_limit c)\<rparr>"

definition egress_modes :: "gostr list" where
  "egress_modes = [''open'', ''public_only'', ''deny_all'']"

text \<open>\<open>look_path\<close> is whether the binary \<open>docker\<close> is found.\<close>

definition new_docker_provider ::
  "(gostr \<Rightarrow> gostr) \<Rightarrow> go_error option \<Rightarrow> docker_config \<Rightarrow> go_error + docker_config" where
  "new_docker_provider quote look_path cfg =
     (if blank (dc_image cfg) then Inl (new_error ''docker provider image is required'')
      else let c = with_docker_defaults cfg; mode = to_lower (trim_space (dc_egress_mode c)) in
           if mode \<notin> set egress_modes
           then Inl (new_error (''invalid docker provider egress mode '' @ quote mode
                       @ '' (allowed: open, public_only, deny_all)''))
           else if blank (dc_orchestrator_url c) then Inl (new_error ''docker provider orchestrator url is required'')
           else case look_path of
                  Some e \<Rightarrow> Inl (wrap_error ''docker binary not found in PATH: '' e)
                | None \<Rightarrow> Inr (c\<lparr>dc_egress_mode := mode\<rparr>))"

section \<open>Command lines\<close>

definition next_node_id :: "docker_config \<Rightarrow> gostr \<Rightarrow> gostr" where
  "next_node_id c uuid = dc_node_id_prefix c @ take 12 (replace_all uuid (CHR ''-'') [] [])"

definition safe_char :: "char \<Rightarrow> char" where
  "safe_char ch = (if ch \<in> set '':/ _'' then CHR ''-'' else ch)"

definition container_name :: "docker_config \<Rightarrow> gostr \<Rightarrow> gostr" where
  "container_name c node = dc_container_prefix c @ ''-'' @ map safe_char (trim_space node)"

definition fmt_t :: "bool \<Rightarrow> gostr" where
  "fmt_t b = (if b then ''true'' else ''false'')"

definition optional_var :: "gostr \<Rightarrow> gostr \<Rightarrow> (gostr \<times> gostr) list" where
  "optional_var k v = (if blank v then [] else [(k, trim_space v)])"

definition env_vars ::
  "(duration \<Rightarrow> gostr) \<Rightarrow> docker_config \<Rightarrow> gostr \<Rightarrow> gostr \<Rightarrow> (gostr \<times> gostr) list" where
  "env_vars dur c node address =
     [(''NODE_AGENT_NODE_ID'', node),
      (''NODE_AGENT_ADVERTISE_ADDR'', address),
      (''NODE_AGENT_ORCHESTRATOR_URL'', dc_orchestrator_url c),
      (''NODE_AGENT_VERSION'', dc_node_version c),
      (''NODE_AGENT_HTTP_ADDR'', '':'' @ fmt_d (dc_node_http_port c)),
      (''NODE_AGENT_GRPC_ADDR'', '':'' @ fmt_d (dc_node_grpc_port c)),
      (''NODE_AGENT_HEARTBEAT_INTERVAL'', dur (dc_heartbeat_interval c)),
      (''NODE_AGENT_REQUEST_TIMEOUT'', dur (dc_request_timeout c)),
      (''NODE_AGENT_CDP_BASE_URL'', dc_cdp_base_url c),
      (''NODE_AGENT_RENDER_DELAY'', dur (dc_render_delay c)),
      (''NODE_AGENT_EXECUTE_TIMEOUT'', dur (dc_execute_timeout c)),
      (''NODE_AGENT_PLANNER_MODE'', dc_planner_mode c),
      (''NODE_AGENT_PLANNER_TIMEOUT'', dur (dc_planner_timeout c)),
      (''NODE_AGENT_PLANNER_MAX_ELEMENTS'', fmt_d (dc_planner_max_elements c)),
      (''NODE_AGENT_PLANNER_MAX_STEPS'', fmt_d (dc_planner_max_steps c)),
      (''NODE_AGENT_PLANNER_MAX_FAILURES'', fmt_d (dc_planner_max_failures c)),
      (''NODE_AGENT_PLANNER_MAX_REPEAT_ACTIONS'', fmt_d (dc_planner_max_repeat_actions c)),
      (''NODE_AGENT_PLANNER_MAX_REPEAT_SNAPSHOTS'', fmt_d (dc_planner_max_repeat_snapshots c)),
      (''NODE_AGENT_TRACE_SCREENSHOTS'', fmt_t (dc_trace_screenshots c)),
      (''NODE_AGENT_HUMANIZE_MODE'', dc_humanize_mode c),
      (''NODE_AGENT_HUMANIZE_SEED'', fmt_d (dc_humanize_seed c)),
      (''NODE_AGENT_EGRESS_MODE'', dc_egress_mode c),
      (''CHROME_DEBUG_PORT'', fmt_d (dc_chrome_debug_port c)),
      (''XVFB_SCREEN_GEOMETRY'', dc_xvfb_screen_geometry c)]
     @ optional_var ''NODE_AGENT_EGRESS_ALLOW_HOSTS'' (dc_egress_allow_hosts c)
     @ optional_var ''NODE_AGENT_PLANNER_ENDPOINT_URL'' (dc_planner_endpoint_url c)
     @ optional_var ''NODE_AGENT_PLANNER_AUTH_TOKEN'' (dc_planner_auth_token c)
     @ optional_var ''NODE_AGENT_PLANNER_MODEL'' (dc_planner_model c)"

text \<open>The bytewise order of \<open>sort.Strings\<close>.\<close>

fun str_less :: "gostr \<Rightarrow> gostr \<Rightarrow> bool" where
  "str_less [] t = (t \<noteq> [])"
| "str_less (a # s) [] = False"
| "str_less (a # s) (b # t) =
     (if (of_char a :: nat) = of_char b then str_less s t else (of_char a :: nat) < of_char b)"

definition by_key :: "(gostr \<times> gostr) list \<Rightarrow> (gostr \<times> gostr) list" where
  "by_key = sort_by (\<lambda>a b. str_less (fst a) (fst b))"

definition flagged :: "gostr \<Rightarrow> (gostr \<times> gostr) list \<Rightarrow> gostr list" where
  "flagged flag kvs = concat (map (\<lambda>(k, v). [flag, k @ ''='' @ v]) (by_key kvs))"

definition network_name :: "docker_config \<Rightarrow> gostr" where
  "network_name c = (if dc_egress_mode c = ''deny_all'' then ''none'' else dc_network c)"

definition run_args ::
  "(duration \<Rightarrow> gostr) \<Rightarrow> docker_config \<Rightarrow> (gostr \<times> gostr) list \<Rightarrow> gostr \<Rightarrow> gostr \<Rightarrow> gostr list" where
  "run_args dur c labels node address =
     [''run'', ''-d'', ''--name'', container_name c node, ''--network'', network_name c, ''--read-only'',
      ''--tmpfs'', ''/tmp:size=1g,noexec,nosuid,nodev'',
      ''--tmpfs'', ''/home/nodeagent:size=256m,noexec,nosuid,nodev'',
      ''--tmpfs'', ''/var/log/browser-node:size=64m,noexec,nosuid,nodev'',
      ''--cap-drop'', ''ALL'', ''--security-opt'', ''no-new-privileges:true'',
      ''--security-opt'', ''seccomp='' @ dc_seccomp_profile c,
      ''--pids-limit'', fmt_d (dc_default_pids_limit c), ''--memory'', dc_default_memory_limit c,
      ''--cpus'', dc_default_cpu_limit c,
      ''--label'', ''browseruse.managed=true'', ''--label'', ''browseruse.node_id='' @ node]
     @ flagged ''--label'' labels @ flagged ''-e'' (env_vars dur c node address) @ [dc_image c]"

section \<open>The provider's operations\<close>

text \<open>\<open>run\<close> answers the standard output, or the outputs and the error of a command that failed.\<close>

definition run_docker :: "(gostr list \<Rightarrow> (gostr \<times> gostr \<times> go_error) + gostr) \<Rightarrow> gostr list \<Rightarrow> go_error + gostr" where
  "run_docker run args =
     (case run args of
        Inr out \<Rightarrow> Inr (trim_space out)
      | Inl (out, err, e) \<Rightarrow>
          let msg = (if \<not> blank err then trim_space err else if \<not> blank out then trim_space out else err_text e) in
          Inl (new_error (''docker '' @ join args '' '' @ '' failed: '' @ msg)))"

definition provision_node ::
  "(gostr list \<Rightarrow> (gostr \<times> gostr \<times> go_error) + gostr) \<Rightarrow> (duration \<Rightarrow> gostr) \<Rightarrow> docker_config \<Rightarrow> gostr \<Rightarrow>
   (gostr \<times> gostr) list \<Rightarrow> go_time \<Rightarrow> go_error + node" where
  "provision_node run dur c uuid labels now =
     (let nid = next_node_id c uuid;
          address = container_name c nid @ '':'' @ fmt_d (dc_node_grpc_port c)
      in case run_docker run (run_args dur c labels nid address) of
           Inl e \<Rightarrow> Inl e
         | Inr _ \<Rightarrow> Inr \<lparr>nd_id = nid, nd_address = address, nd_version = trim_space (dc_node_version c),
             nd_state = NodeWarming, nd_booted = now, nd_heartbeat = zero_time, nd_leased_until = zero_time,
             nd_created = now, nd_updated = now\<rparr>)"

definition docker_destroy ::
  "(gostr list \<Rightarrow> (gostr \<times> gostr \<times> go_error) + gostr) \<Rightarrow> docker_config \<Rightarrow> gostr \<Rightarrow> go_error option" where
  "docker_destroy run c nid =
     (case run_docker run [''rm'', ''-f'', container_name c nid] of
        Inr _ \<Rightarrow> None
      | Inl e \<Rightarrow> if contains (err_text e) ''No such container'' then None else Some e)"

section \<open>The configuration arrives\<close>

text \<open>What the process in the container sees in its environment.\<close>

definition container_env :: "(gostr \<times> gostr) list \<Rightarrow> gostr \<Rightarrow> gostr" where
  "container_env vars k = (case map_of vars k of None \<Rightarrow> [] | Some v \<Rightarrow> v)"

lemma optional_env: "container_env (optional_var k v @ rest) j = (if j = k \<and> \<not> blank v then trim_space v else container_env rest j)"
  by (simp add: container_env_def optional_var_def)

lemma container_env_simps:
  "container_env [] j = []"
  "container_env ((k, v) # vars) j = (if j = k then v else container_env vars j)"
  by (simp_all add: container_env_def)

lemma int_arrives: "int64 n \<Longrightarrow> env k = fmt_d n \<Longrightarrow> trimmed_int_or_default env k d = n"
  by (simp add: trimmed_int_or_default_def int64_def atoi_fmt_d)

lemma bool_arrives: "env k = fmt_t b \<Longrightarrow> bool_or_default env k d = b"
proof -
  have w: "to_lower ''true'' = ''true''" "to_lower ''false'' = ''false''"
    "trim_space ''true'' = ''true''" "trim_space ''false'' = ''false''"
    by (code_simp | simp add: plain_ends_def plain_char_def)+
  show "env k = fmt_t b \<Longrightarrow> bool_or_default env k d = b"
    by (cases b) (simp_all add: bool_or_default_def fmt_t_def w)
qed

lemma text_arrives: "v \<noteq> [] \<Longrightarrow> env k = v \<Longrightarrow> env_or_default env k d = v"
  by (simp add: env_or_default_def)

lemma egress_mode_words:
  "normalize_egress_mode ''open'' = ''open''" "normalize_egress_mode ''public_only'' = ''public_only''"
  "normalize_egress_mode ''deny_all'' = ''deny_all''"
  by (simp_all add: normalize_egress_mode_def plain_ends_def plain_char_def to_lower_def lower_char_def)

lemma container_env_vars:
  fixes dur c node address
  defines "env \<equiv> container_env (env_vars dur c node address)"
  shows "env ''NODE_AGENT_NODE_ID'' = node" "env ''NODE_AGENT_ADVERTISE_ADDR'' = address"
    "env ''NODE_AGENT_EXECUTE_TIMEOUT'' = dur (dc_execute_timeout c)"
    "env ''NODE_AGENT_RENDER_DELAY'' = dur (dc_render_delay c)"
    "env ''NODE_AGENT_PLANNER_TIMEOUT'' = dur (dc_planner_timeout c)"
    "env ''NODE_AGENT_HEARTBEAT_INTERVAL'' = dur (dc_heartbeat_interval c)"
    "env ''NODE_AGENT_PLANNER_MODE'' = dc_planner_mode c"
    "env ''NODE_AGENT_PLANNER_MAX_ELEMENTS'' = fmt_d (dc_planner_max_elements c)"
    "env ''NODE_AGENT_PLANNER_MAX_STEPS'' = fmt_d (dc_planner_max_steps c)"
    "env ''NODE_AGENT_PLANNER_MAX_FAILURES'' = fmt_d (dc_planner_max_failures c)"
    "env ''NODE_AGENT_PLANNER_MAX_REPEAT_ACTIONS'' = fmt_d (dc_planner_max_repeat_actions c)"
    "env ''NODE_AGENT_PLANNER_MAX_REPEAT_SNAPSHOTS'' = fmt_d (dc_planner_max_repeat_snapshots c)"
    "env ''NODE_AGENT_TRACE_SCREENSHOTS'' = fmt_t (dc_trace_screenshots c)"
    "env ''NODE_AGENT_EGRESS_MODE'' = dc_egress_mode c"
    "env ''NODE_AGENT_EGRESS_ALLOW_HOSTS'' = trim_space (dc_egress_allow_hosts c)"
    "env ''NODE_AGENT_PLANNER_ENDPOINT_URL'' = trim_space (dc_planner_endpoint_url c)"
    "env ''NODE_AGENT_PLANNER_AUTH_TOKEN'' = trim_space (dc_planner_auth_token c)"
    "env ''NODE_AGENT_PLANNER_MODEL'' = trim_space (dc_planner_model c)"
  by (simp_all add: env_def env_vars_def container_env_simps optional_env optional_env [where rest = "[]", simplified])

text \<open>What the configuration must satisfy, which \<open>NewLocalDockerProvider\<close> and Go's types see to.\<close>

definition provider_config :: "docker_config \<Rightarrow> bool" where
  "provider_config c \<longleftrightarrow>
     dc_egress_mode c \<in> set egress_modes \<and> \<not> blank (dc_planner_mode c)
     \<and> 0 < dc_execute_timeout c \<and> 0 < dc_render_delay c \<and> 0 < dc_planner_timeout c \<and> 0 < dc_heartbeat_interval c
     \<and> 0 < dc_planner_max_steps c \<and> 0 < dc_planner_max_elements c \<and> 0 \<le> dc_planner_max_failures c
     \<and> 0 < dc_planner_max_repeat_actions c \<and> 0 < dc_planner_max_repeat_snapshots c"

lemma defaults_simps [simp]:
  "dc_orchestrator_url (with_docker_defaults c) = dc_orchestrator_url c"
  "dc_planner_max_steps (with_docker_defaults c) = (if dc_planner_max_steps c \<le> 0 then 12 else dc_planner_max_steps c)"
  "dc_planner_max_elements (with_docker_defaults c) = (if dc_planner_max_elements c \<le> 0 then 48 else dc_planner_max_elements c)"
  "dc_planner_max_failures (with_docker_defaults c) = max 0 (dc_planner_max_failures c)"
  "dc_planner_max_repeat_actions (with_docker_defaults c) = (if dc_planner_max_repeat_actions c \<le> 0 then 3 else dc_planner_max_repeat_actions c)"
  "dc_planner_max_repeat_snapshots (with_docker_defaults c) = (if dc_planner_max_repeat_snapshots c \<le> 0 then 3 else dc_planner_max_repeat_snapshots c)"
  "dc_egress_mode (with_docker_defaults c) = (if blank (dc_egress_mode c) then ''open'' else dc_egress_mode c)"
  "dc_planner_mode (with_docker_defaults c) = (if blank (dc_planner_mode c) then ''template'' else dc_planner_mode c)"
  "0 < dc_execute_timeout (with_docker_defaults c)" "0 < dc_render_delay (with_docker_defaults c)"
  "0 < dc_planner_timeout (with_docker_defaults c)" "0 < dc_heartbeat_interval (with_docker_defaults c)"
  by (simp_all add: with_docker_defaults_def)

lemma new_provider_config: "new_docker_provider q lp cfg = Inr c \<Longrightarrow> provider_config c"
proof -
  assume n: "new_docker_provider q lp cfg = Inr c"
  have t: "\<not> blank ''template''" by (simp add: plain_ends_def plain_char_def)
  from n have "c = (with_docker_defaults cfg)\<lparr>dc_egress_mode := to_lower (trim_space (dc_egress_mode (with_docker_defaults cfg)))\<rparr>"
    "to_lower (trim_space (dc_egress_mode (with_docker_defaults cfg))) \<in> set egress_modes"
    by (auto simp: new_docker_provider_def Let_def simp del: defaults_simps split: if_splits option.splits)
  with t show "provider_config c" by (simp add: provider_config_def)
qed

definition machine_ints :: "docker_config \<Rightarrow> bool" where
  "machine_ints c \<longleftrightarrow> int64 (dc_planner_max_steps c) \<and> int64 (dc_planner_max_elements c)
     \<and> int64 (dc_planner_max_failures c) \<and> int64 (dc_planner_max_repeat_actions c)
     \<and> int64 (dc_planner_max_repeat_snapshots c)"

text \<open>The configuration of the pool arrives at the node. Whatever the provider was configured with,
  the agent in the container it starts reads back the same limits of the planner, the same timeouts,
  the same egress policy and the node's own name: rendering into the environment and parsing it are
  inverse, given that ParseDuration reads what Duration.String writes.\<close>

lemma container_arrival:
  assumes "new_docker_provider q None cfg = Inr c" "machine_ints c"
    and "\<forall>t>0. dur t \<noteq> [] \<and> pd (dur t) = Some t"
    and "a = load_agent_config split join_addr hostname nanos (container_env (env_vars dur c node address)) pd"
  shows "ac_planner_max_steps a = dc_planner_max_steps c \<and> ac_planner_max_elements a = dc_planner_max_elements c
    \<and> ac_planner_max_failures a = dc_planner_max_failures c
    \<and> ac_planner_max_repeat_actions a = dc_planner_max_repeat_actions c
    \<and> ac_planner_max_repeat_snapshots a = dc_planner_max_repeat_snapshots c
    \<and> ac_trace_screenshots a = dc_trace_screenshots c
    \<and> ac_execute_timeout a = dc_execute_timeout c \<and> ac_render_delay a = dc_render_delay c
    \<and> ac_planner_timeout a = dc_planner_timeout c \<and> ac_heartbeat_interval a = dc_heartbeat_interval c
    \<and> ac_planner_mode a = dc_planner_mode c \<and> ac_planner_auth_token a = trim_space (dc_planner_auth_token c)
    \<and> normalize_egress_mode (ac_egress_mode a) = dc_egress_mode c
    \<and> ac_egress_allow_hosts a = parse_csv (trim_space (dc_egress_allow_hosts c))
    \<and> (\<not> blank node \<longrightarrow> ac_node_id a = trim_space node)
    \<and> (\<not> blank address \<longrightarrow> ac_advertise_addr a = trim_space address)"
proof -
  note p = new_provider_config [OF assms(1), unfolded provider_config_def]
  note e = container_env_vars [of dur c node address]
  note i = assms(2) [unfolded machine_ints_def]
  have m: "dc_egress_mode c \<noteq> []" "normalize_egress_mode (dc_egress_mode c) = dc_egress_mode c"
    using p by (auto simp: egress_modes_def egress_mode_words)
  have pm: "dc_planner_mode c \<noteq> []" using p trim_space_plain [of "[]"] by (auto simp: plain_ends_def)
  have d: "\<And>k d t. 0 < t \<Longrightarrow> container_env (env_vars dur c node address) k = dur t \<Longrightarrow>
      duration_or_default (container_env (env_vars dur c node address)) pd k d = t"
    using assms(3) by (simp add: duration_or_default_def)
  show ?thesis
    unfolding assms(4) load_agent_config_def Let_def
    using p i assms(3) m pm
    by (simp add: e int_arrives bool_arrives text_arrives agent_node_id_def
      d [OF _ e(3)] d [OF _ e(4)] d [OF _ e(5)] d [OF _ e(6)])
qed

section \<open>An example\<close>

definition demo_docker :: docker_config where
  "demo_docker = \<lparr>dc_image = ''node:1'', dc_network = [], dc_container_prefix = [], dc_node_id_prefix = ''poolnode-'',
     dc_node_grpc_port = 0, dc_node_http_port = 0, dc_orchestrator_url = ''http://o:8080'', dc_node_version = [],
     dc_heartbeat_interval = 0, dc_request_timeout = 0, dc_cdp_base_url = [], dc_render_delay = 0,
     dc_execute_timeout = 0, dc_planner_mode = [], dc_planner_endpoint_url = [], dc_planner_auth_token = [],
     dc_planner_model = [], dc_planner_timeout = 0, dc_planner_max_elements = 0, dc_planner_max_steps = 7,
     dc_planner_max_failures = - 1, dc_planner_max_repeat_actions = 0, dc_planner_max_repeat_snapshots = 0,
     dc_trace_screenshots = True, dc_humanize_mode = [], dc_humanize_seed = 0, dc_egress_mode = ''public_only'',
     dc_egress_allow_hosts = ''example.com, *.example.org'', dc_seccomp_profile = [], dc_xvfb_screen_geometry = [],
     dc_chrome_debug_port = 0, dc_default_memory_limit = [], dc_default_cpu_limit = [], dc_default_pids_limit = 0\<rparr>"

definition demo_provider :: docker_config where
  "demo_provider = (with_docker_defaults demo_docker)\<lparr>dc_egress_mode := ''public_only''\<rparr>"

lemma demo_fields [simp]:
  "dc_image demo_docker = ''node:1''" "dc_egress_mode demo_docker = ''public_only''"
  "dc_orchestrator_url demo_docker = ''http://o:8080''" "dc_planner_max_steps demo_docker = 7"
  "dc_planner_max_elements demo_docker = 0" "dc_planner_max_failures demo_docker = - 1"
  "dc_planner_max_repeat_actions demo_docker = 0" "dc_planner_max_repeat_snapshots demo_docker = 0"
  by (simp_all add: demo_docker_def)

lemma demo_provider: "new_docker_provider (\<lambda>s. s) None demo_docker = Inr demo_provider"
proof -
  have t: "trim_space ''public_only'' = ''public_only''" "to_lower ''public_only'' = ''public_only''"
    and b: "blank ''node:1'' = False" "blank ''public_only'' = False" "blank ''http://o:8080'' = False"
    by (code_simp | simp add: plain_ends_def plain_char_def)+
  have m: "''public_only'' \<in> set egress_modes" by (simp add: egress_modes_def)
  show ?thesis
    by (simp only: new_docker_provider_def demo_provider_def Let_def demo_fields defaults_simps b t m
        list.distinct if_False if_True not_True_eq_False not_False_eq_True option.case)
qed

lemma keep_mode [simp]:
  "dc_planner_max_steps (c\<lparr>dc_egress_mode := m\<rparr>) = dc_planner_max_steps c"
  "dc_planner_max_elements (c\<lparr>dc_egress_mode := m\<rparr>) = dc_planner_max_elements c"
  "dc_planner_max_failures (c\<lparr>dc_egress_mode := m\<rparr>) = dc_planner_max_failures c"
  "dc_planner_max_repeat_actions (c\<lparr>dc_egress_mode := m\<rparr>) = dc_planner_max_repeat_actions c"
  "dc_planner_max_repeat_snapshots (c\<lparr>dc_egress_mode := m\<rparr>) = dc_planner_max_repeat_snapshots c"
  by simp_all

lemma demo_ints: "machine_ints demo_provider" "dc_planner_max_steps demo_provider = 7"
  by (simp_all only: machine_ints_def int64_def demo_provider_def keep_mode defaults_simps demo_fields) simp_all

lemma demo_durations:
  "\<forall>t>0. (\<lambda>t. digits (nat t)) t \<noteq> [] \<and> (\<lambda>s. Some (int (undigits s))) ((\<lambda>t. digits (nat t)) t) = Some t"
  by (simp add: undigits_digits)

lemma container_arrival_at_work:
  "ac_planner_max_steps (load_agent_config (\<lambda>_. None) (\<lambda>h p. h @ '':'' @ p) None 0
       (container_env (env_vars (\<lambda>t. digits (nat t)) demo_provider ''poolnode-1'' ''n:9091''))
       (\<lambda>s. Some (int (undigits s)))) = 7"
  by (rule container_arrival [OF demo_provider demo_ints(1) demo_durations refl, THEN conjunct1, unfolded demo_ints(2)])

end
