(* ===== verification/Metrics.thy ===== *)
theory Metrics
  imports Api
begin

text \<open>
  The metrics of the API, \<open>internal/api/metrics.go\<close>: the counts over the recent tasks and the nodes,
  the 95th percentile of the step latencies, and the text with all of them. What \<open>ListRecent\<close> and
  \<open>List\<close> answer is given, and so are \<open>strconv.Quote\<close>, the text of a rate \<open>100 * a / b\<close> with two
  decimals, and the rank \<open>math.Ceil\<close> of a share of a length, which the code computes in floats.
\<close>

section \<open>Operations\<close>

definition is_sandbox_crash_error :: "gostr \<Rightarrow> bool" where
  "is_sandbox_crash_error message =
     (let msg = to_lower (trim_space message) in
      if msg = [] then False
      else list_ex (contains msg)
        [''connection refused'', ''connection reset'', ''dial tcp'', ''no such host'', ''bad gateway'', ''eof'',
         ''unexpected status 5'', ''sandbox crashed'', ''chromium crashed'', ''browser process''])"

record metrics_scan =
  mx_status :: "gostr \<rightharpoonup> int"
  mx_blockers :: "gostr \<rightharpoonup> int"
  mx_terminal :: int
  mx_completed :: int
  mx_failed :: int
  mx_blocked :: int
  mx_crashes :: int
  mx_latencies :: "int list"

definition metrics_start :: metrics_scan where
  "metrics_start = \<lparr>mx_status = zero_status_counts, mx_blockers = Map.empty, mx_terminal = 0, mx_completed = 0,
     mx_failed = 0, mx_blocked = 0, mx_crashes = 0, mx_latencies = []\<rparr>"

text \<open>One round of the loop over the tasks. The status of a task is never blank.\<close>

definition metrics_step :: "metrics_scan \<Rightarrow> task \<Rightarrow> metrics_scan" where
  "metrics_step m t =
     (let blocker = trim_space (tk_blocker_type t) in
      m\<lparr>mx_status := bump (task_status_text (tk_status t)) (mx_status m),
        mx_terminal := (if is_terminal (tk_status t) then mx_terminal m + 1 else mx_terminal m),
        mx_completed := (if tk_status t = Completed then mx_completed m + 1 else mx_completed m),
        mx_failed := (if tk_status t = Failed then mx_failed m + 1 else mx_failed m),
        mx_crashes := (if tk_status t = Failed \<and> is_sandbox_crash_error (tk_error t) then mx_crashes m + 1 else mx_crashes m),
        mx_blocked := (if blocker \<noteq> [] then mx_blocked m + 1 else mx_blocked m),
        mx_blockers := (if blocker \<noteq> [] then bump blocker (mx_blockers m) else mx_blockers m),
        mx_latencies := mx_latencies m @ filter (\<lambda>d. 0 < d) (map st_duration_ms (tk_trace t))\<rparr>)"

definition metrics_of :: "task list \<Rightarrow> metrics_scan" where
  "metrics_of items = foldl metrics_step metrics_start items"

definition node_state_counts :: "node list \<Rightarrow> gostr \<rightharpoonup> int" where
  "node_state_counts nodes = foldl (\<lambda>m n. bump (node_state_text (nd_state n)) m) Map.empty nodes"

definition percentile :: "(int \<Rightarrow> nat \<Rightarrow> int) \<Rightarrow> int list \<Rightarrow> int \<Rightarrow> int" where
  "percentile rank values p =
     (if values = [] then 0
      else
        let p = (if p \<le> 0 then 1 else p);
            p = (if p > 100 then 100 else p);
            sorted = sort_by (<) values;
            index = rank p (length sorted) - 1;
            index = (if index < 0 then 0 else index);
            index = (if int (length sorted) \<le> index then int (length sorted) - 1 else index)
        in sorted ! nat index)"

definition sorted_int_map_keys :: "gostr list \<Rightarrow> (gostr \<rightharpoonup> int) \<Rightarrow> gostr list" where
  "sorted_int_map_keys ks m = sort_by (<) (filter (\<lambda>k. m k \<noteq> None) ks)"

definition metric_label_escape :: "gostr \<Rightarrow> gostr" where
  "metric_label_escape v = replace_all (replace_all v (CHR 0x5C) [] [CHR 0x5C, CHR 0x5C]) (CHR 0x22) [] [CHR 0x5C, CHR 0x22]"

abbreviation (input) line_end :: gostr where "line_end \<equiv> [CHR 0x0A]"

definition metric_head :: "gostr \<Rightarrow> gostr \<Rightarrow> gostr" where
  "metric_head name help = ''# HELP '' @ name @ '' '' @ help @ line_end @ ''# TYPE '' @ name @ '' gauge'' @ line_end"

definition metric_value :: "gostr \<Rightarrow> gostr \<Rightarrow> gostr" where
  "metric_value name v = name @ '' '' @ v @ line_end"

definition metric_label :: "(gostr \<Rightarrow> gostr) \<Rightarrow> gostr \<Rightarrow> gostr \<Rightarrow> gostr list \<Rightarrow> (gostr \<rightharpoonup> int) \<Rightarrow> gostr" where
  "metric_label quote name label ks m =
     concat (map (\<lambda>k. name @ ''{'' @ label @ ''='' @ quote (metric_label_escape k) @ ''} '' @ fmt_d (the (m k)) @ line_end)
       (sorted_int_map_keys ks m))"

record metrics_env =
  me_quote :: "gostr \<Rightarrow> gostr"
  me_rate :: "int \<Rightarrow> int \<Rightarrow> gostr"
  me_rank :: "int \<Rightarrow> nat \<Rightarrow> int"

text \<open>The orders in which the three maps are visited are \<open>sks\<close>, \<open>bks\<close> and \<open>nks\<close>.\<close>

definition metrics_text :: "metrics_env \<Rightarrow> gostr list \<Rightarrow> gostr list \<Rightarrow> gostr list \<Rightarrow> task list \<Rightarrow> node list \<Rightarrow> gostr" where
  "metrics_text env sks bks nks items nodes =
     (let m = metrics_of items; ns = node_state_counts nodes;
          success = (if 0 < mx_terminal m then me_rate env (mx_completed m) (mx_terminal m) else ''0.00'');
          blocks = (if 0 < mx_failed m then me_rate env (mx_blocked m) (mx_failed m) else ''0.00'');
          crashes = (if 0 < mx_failed m then me_rate env (mx_crashes m) (mx_failed m) else ''0.00'')
      in metric_head ''browseruse_tasks_window_size'' ''Number of recent tasks used for metrics''
         @ metric_value ''browseruse_tasks_window_size'' (fmt_d (int (length items)))
         @ metric_head ''browseruse_tasks_status_total'' ''Task count by status''
         @ metric_label (me_quote env) ''browseruse_tasks_status_total'' ''status'' sks (mx_status m)
         @ metric_head ''browseruse_tasks_terminal_total'' ''Terminal tasks in metrics window''
         @ metric_value ''browseruse_tasks_terminal_total'' (fmt_d (mx_terminal m))
         @ metric_head ''browseruse_tasks_completed_total'' ''Completed tasks in metrics window''
         @ metric_value ''browseruse_tasks_completed_total'' (fmt_d (mx_completed m))
         @ metric_head ''browseruse_tasks_failed_total'' ''Failed tasks in metrics window''
         @ metric_value ''browseruse_tasks_failed_total'' (fmt_d (mx_failed m))
         @ metric_head ''browseruse_tasks_blocked_total'' ''Blocker-tagged tasks in metrics window''
         @ metric_value ''browseruse_tasks_blocked_total'' (fmt_d (mx_blocked m))
         @ metric_head ''browseruse_tasks_success_rate_percent'' ''Success rate percent over terminal tasks''
         @ metric_value ''browseruse_tasks_success_rate_percent'' success
         @ metric_head ''browseruse_tasks_block_rate_percent'' ''Blocked/failed percent''
         @ metric_value ''browseruse_tasks_block_rate_percent'' blocks
         @ metric_head ''browseruse_tasks_sandbox_crash_total'' ''Sandbox-like execution crashes in failed tasks window''
         @ metric_value ''browseruse_tasks_sandbox_crash_total'' (fmt_d (mx_crashes m))
         @ metric_head ''browseruse_tasks_sandbox_crash_rate_percent'' ''Sandbox-like crash rate among failed tasks''
         @ metric_value ''browseruse_tasks_sandbox_crash_rate_percent'' crashes
         @ metric_head ''browseruse_tasks_p95_step_latency_ms'' ''p95 action step latency in milliseconds''
         @ metric_value ''browseruse_tasks_p95_step_latency_ms'' (fmt_d (percentile (me_rank env) (mx_latencies m) 95))
         @ metric_head ''browseruse_tasks_blocker_total'' ''Task blocker count by blocker type''
         @ metric_label (me_quote env) ''browseruse_tasks_blocker_total'' ''blocker_type'' bks (mx_blockers m)
         @ metric_head ''browseruse_nodes_total'' ''Number of registered nodes''
         @ metric_value ''browseruse_nodes_total'' (fmt_d (int (length nodes)))
         @ metric_head ''browseruse_nodes_state_total'' ''Node count by state''
         @ metric_label (me_quote env) ''browseruse_nodes_state_total'' ''state'' nks ns)"

definition plain_error :: "gostr \<Rightarrow> response" where
  "plain_error msg = \<lparr>rs_status = 500,
     rs_headers = [''Content-Type'' \<mapsto> [''text/plain; charset=utf-8''], ''X-Content-Type-Options'' \<mapsto> [''nosniff'']],
     rs_body = PText (msg @ line_end)\<rparr>"

definition handle_metrics ::
  "metrics_env \<Rightarrow> gostr list \<Rightarrow> gostr list \<Rightarrow> gostr list \<Rightarrow> (int \<Rightarrow> go_error + task list) \<Rightarrow> (go_error + node list) \<Rightarrow>
   request \<Rightarrow> response" where
  "handle_metrics env sks bks nks recent nodes r =
     (if rq_method r \<noteq> ''GET'' then method_not_allowed
      else case bounded_param 500 2000 (rq_query r ''limit'') of
        None \<Rightarrow> invalid_limit
      | Some limit \<Rightarrow>
          (case recent limit of
             Inl e \<Rightarrow> plain_error (''tasks metrics failed: '' @ err_text e)
           | Inr items \<Rightarrow>
               (case nodes of
                  Inl e \<Rightarrow> plain_error (''nodes metrics failed: '' @ err_text e)
                | Inr ns \<Rightarrow> \<lparr>rs_status = 200,
                    rs_headers = [''Content-Type'' \<mapsto> [''text/plain; version=0.0.4; charset=utf-8'']],
                    rs_body = PText (metrics_text env sks bks nks items ns)\<rparr>)))"

section \<open>Counts\<close>

abbreviation count_if :: "('a \<Rightarrow> bool) \<Rightarrow> 'a list \<Rightarrow> int" where
  "count_if P xs \<equiv> int (length (filter P xs))"

lemma metrics_counts:
  "mx_terminal (metrics_of items) = count_if (\<lambda>t. is_terminal (tk_status t)) items
   \<and> mx_completed (metrics_of items) = count_if (\<lambda>t. tk_status t = Completed) items
   \<and> mx_failed (metrics_of items) = count_if (\<lambda>t. tk_status t = Failed) items
   \<and> mx_crashes (metrics_of items) = count_if (\<lambda>t. tk_status t = Failed \<and> is_sandbox_crash_error (tk_error t)) items
   \<and> mx_blocked (metrics_of items) = count_if (\<lambda>t. \<not> blank (tk_blocker_type t)) items"
  by (induction items rule: rev_induct) (simp_all add: metrics_of_def metrics_start_def metrics_step_def Let_def)

lemma bump_at: "(case bump k m j of None \<Rightarrow> 0 | Some n \<Rightarrow> n) = (case m j of None \<Rightarrow> 0 | Some n \<Rightarrow> n) + (if j = k then 1 else (0::int))"
  by (simp add: bump_def)

lemma metrics_status_count:
  "(case mx_status (metrics_of items) q of None \<Rightarrow> 0 | Some n \<Rightarrow> n) = count_if (\<lambda>t. task_status_text (tk_status t) = q) items"
proof (induction items rule: rev_induct)
  case Nil
  show ?case by (simp add: metrics_of_def metrics_start_def zero_status_counts_def)
next
  case (snoc t items)
  have "mx_status (metrics_of (items @ [t])) = bump (task_status_text (tk_status t)) (mx_status (metrics_of items))"
    by (simp add: metrics_of_def metrics_step_def Let_def)
  with snoc bump_at [of "task_status_text (tk_status t)" "mx_status (metrics_of items)" q]
  show ?case by (auto simp del: option.case)
qed

lemma metrics_blocker_count:
  "k \<noteq> [] \<Longrightarrow> (case mx_blockers (metrics_of items) k of None \<Rightarrow> 0 | Some n \<Rightarrow> n) = count_if (\<lambda>t. trim_space (tk_blocker_type t) = k) items"
proof (induction items rule: rev_induct)
  case Nil
  show ?case by (simp add: metrics_of_def metrics_start_def)
next
  case (snoc t items)
  let ?b = "trim_space (tk_blocker_type t)"
  have "mx_blockers (metrics_of (items @ [t])) = (if ?b \<noteq> [] then bump ?b (mx_blockers (metrics_of items)) else mx_blockers (metrics_of items))"
    by (simp add: metrics_of_def metrics_step_def Let_def)
  with snoc bump_at [of ?b "mx_blockers (metrics_of items)" k] show ?case by (cases "?b = []") (auto simp: eq_commute)
qed

text \<open>On tasks that the service stores no more are blocked than failed, so the block rate is a share.\<close>

lemma count_mono: "(\<And>x. x \<in> set xs \<Longrightarrow> P x \<Longrightarrow> Q x) \<Longrightarrow> count_if P xs \<le> count_if Q xs"
  by (induction xs) auto

section \<open>The percentile\<close>

definition exact_rank :: "int \<Rightarrow> nat \<Rightarrow> int" where
  "exact_rank p n = (p * int n + 99) div 100"

lemma exact_rank_bounds:
  assumes "1 \<le> p" "p \<le> 100" "0 < n"
  shows "1 \<le> exact_rank p n \<and> exact_rank p n \<le> int n \<and> p * int n \<le> 100 * exact_rank p n \<and> 100 * (exact_rank p n - 1) < p * int n"
proof -
  have "1 * 1 \<le> p * int n" "p * int n \<le> 100 * int n"
    using assms by (intro mult_mono; simp)+
  then have "1 \<le> p * int n" "p * int n \<le> 100 * int n" by simp_all
  moreover have "1 \<le> (m + 99) div 100 \<and> (m + 99) div 100 \<le> k \<and> m \<le> 100 * ((m + 99) div 100) \<and> 100 * ((m + 99) div 100 - 1) < m"
    if "1 \<le> m" "m \<le> 100 * k" for m k :: int
  proof -
    obtain q r where q: "(m + 99) div 100 = q" "m + 99 = 100 * q + r" "0 \<le> r" "r < 100"
      using mult_div_mod_eq [of 100 "m + 99"] by (metis pos_mod_bound pos_mod_sign zero_less_numeral)
    with that have "1 \<le> q" "q \<le> k" "m \<le> 100 * q" by linarith+
    moreover have "100 * (q - 1) < m" using q(2,3) by (simp add: algebra_simps)
    ultimately show ?thesis using q(1) by blast
  qed
  ultimately show ?thesis unfolding exact_rank_def by blast
qed

interpretation int_order: strict_weak "(<) :: int \<Rightarrow> int \<Rightarrow> bool"
  by unfold_locales auto

lemma sort_by_int_sorted: "sorted (sort_by (<) xs)" for xs :: "int list"
  using int_order.sorted_sort_by [of xs] by (simp add: not_less)

lemma sorted_counts:
  fixes xs :: "int list"
  assumes "sorted xs" "k < length xs"
  shows "Suc k \<le> length (filter (\<lambda>x. x \<le> xs ! k) xs)" "length (filter (\<lambda>x. x < xs ! k) xs) \<le> k"
proof -
  have "\<forall>x\<in>set (take (Suc k) xs). x \<le> xs ! k"
    using assms by (auto simp: in_set_conv_nth sorted_nth_mono)
  then have "length (filter (\<lambda>x. x \<le> xs ! k) (take (Suc k) xs)) = Suc k" using assms(2) by (simp add: filter_True)
  moreover have "length (filter P (take (Suc k) xs)) \<le> length (filter P xs)" for P
    by (metis append_take_drop_id filter_append le_add1 length_append)
  ultimately show "Suc k \<le> length (filter (\<lambda>x. x \<le> xs ! k) xs)" by metis
  have "\<forall>x\<in>set (drop k xs). \<not> x < xs ! k"
    using assms by (auto simp: in_set_conv_nth not_less sorted_nth_mono)
  then have "filter (\<lambda>x. x < xs ! k) (drop k xs) = []" by (simp add: filter_False)
  then have "filter (\<lambda>x. x < xs ! k) xs = filter (\<lambda>x. x < xs ! k) (take k xs)"
    by (metis append_Nil2 append_take_drop_id filter_append)
  then show "length (filter (\<lambda>x. x < xs ! k) xs) \<le> k" by (metis length_filter_le length_take min.cobounded2 order_trans)
qed

lemma filter_length_sort: "length (filter P (sort_by lt xs)) = length (filter P xs)"
  by (metis mset_filter mset_sort_by size_mset)

section \<open>Properties\<close>

text \<open>The numbers of the metrics are what their names say: every status is counted exactly, the
  finished, completed and failed tasks and the blocker types are counted, and the rates are shares.
  On tasks of which only failed ones have a blocker, as the services store them, no more are blocked
  than failed, no more crashed than failed, and no more completed than finished.\<close>

lemma metrics_counts_spec:
  assumes "\<forall>t\<in>set items. blank (tk_blocker_type t) \<or> tk_status t = Failed" "m = metrics_of items" "k \<noteq> []"
  shows "(case mx_status m (task_status_text q) of None \<Rightarrow> 0 | Some n \<Rightarrow> n) = count_if (\<lambda>t. tk_status t = q) items
    \<and> (case mx_blockers m k of None \<Rightarrow> 0 | Some n \<Rightarrow> n) = count_if (\<lambda>t. trim_space (tk_blocker_type t) = k) items
    \<and> mx_terminal m = count_if (\<lambda>t. tk_status t \<in> {Completed, Failed, Canceled}) items
    \<and> 0 \<le> mx_blocked m \<and> mx_blocked m \<le> mx_failed m \<and> 0 \<le> mx_crashes m \<and> mx_crashes m \<le> mx_failed m
    \<and> 0 \<le> mx_completed m \<and> mx_completed m \<le> mx_terminal m"
proof -
  have inj: "task_status_text a = task_status_text b \<longleftrightarrow> a = b" for a b by (cases a; cases b) simp_all
  have "count_if (\<lambda>t. \<not> blank (tk_blocker_type t)) items \<le> count_if (\<lambda>t. tk_status t = Failed) items"
    by (rule count_mono) (use assms(1) in auto)
  moreover have "count_if (\<lambda>t. tk_status t = Failed \<and> is_sandbox_crash_error (tk_error t)) items \<le> count_if (\<lambda>t. tk_status t = Failed) items"
    "count_if (\<lambda>t. tk_status t = Completed) items \<le> count_if (\<lambda>t. is_terminal (tk_status t)) items"
    by (rule count_mono; simp add: is_terminal_def)+
  ultimately show ?thesis
    using metrics_counts [of items] metrics_status_count [of items "task_status_text q"] metrics_blocker_count [OF assms(3), of items]
    by (simp add: assms(2) inj is_terminal_def)
qed

lemma metrics_counts_spec_at_work:
  "mx_blocked (metrics_of [demo_task, demo_task\<lparr>tk_status := Failed, tk_blocker_type := ''captcha''\<rparr>]) \<le> 1"
proof -
  let ?items = "[demo_task, demo_task\<lparr>tk_status := Failed, tk_blocker_type := ''captcha''\<rparr>]"
  have "mx_blocked (metrics_of ?items) \<le> mx_failed (metrics_of ?items)"
    using metrics_counts_spec [of ?items "metrics_of ?items" "''captcha''" Failed] by (simp add: demo_task_def)
  then show ?thesis using metrics_counts [of ?items] by (simp add: demo_task_def)
qed

text \<open>The percentile is the nearest-rank percentile. With the rank computed exactly it is one of
  the values, at least p percent of the values are not above it, and fewer than p percent are below
  it.\<close>

lemma percentile_nearest_rank:
  assumes "values \<noteq> []" "1 \<le> p" "p \<le> 100" "rank = exact_rank" "v = percentile rank values p"
  shows "v \<in> set values
    \<and> p * int (length values) \<le> 100 * count_if (\<lambda>x. x \<le> v) values
    \<and> 100 * count_if (\<lambda>x. x < v) values < p * int (length values)"
proof -
  let ?s = "sort_by (<) values" and ?r = "exact_rank p (length values)"
  have n: "0 < length values" using assms(1) by simp
  note b = exact_rank_bounds [OF assms(2,3) n]
  let ?k = "nat (?r - 1)"
  have k: "?k < length ?s" and rk: "int ?k = ?r - 1" using b by auto
  have v: "v = ?s ! ?k"
    using assms b by (simp add: percentile_def Let_def)
  have "v \<in> set ?s" unfolding v using k by (rule nth_mem)
  then have "v \<in> set values" by simp
  moreover have "int (Suc ?k) \<le> count_if (\<lambda>x. x \<le> v) values" "count_if (\<lambda>x. x < v) values \<le> int ?k"
    using sorted_counts [OF sort_by_int_sorted k] by (simp_all only: filter_length_sort v of_nat_le_iff)
  moreover from b have "p * int (length values) \<le> 100 * ?r" "100 * (?r - 1) < p * int (length values)" by blast+
  moreover from calculation rk have "count_if (\<lambda>x. x < v) values \<le> ?r - 1" by linarith
  then have "100 * count_if (\<lambda>x. x < v) values \<le> 100 * (?r - 1)" by simp
  ultimately have "p * int (length values) \<le> 100 * count_if (\<lambda>x. x \<le> v) values"
    "100 * count_if (\<lambda>x. x < v) values < p * int (length values)" using rk by linarith+
  with \<open>v \<in> set values\<close> show ?thesis by blast
qed

lemma percentile_nearest_rank_at_work:
  "percentile exact_rank [30, 10, 20] 95 \<in> {30, 10, 20}"
  using percentile_nearest_rank [of "[30, 10, 20]" 95 exact_rank "percentile exact_rank [30, 10, 20] 95"] by auto

text \<open>A label is escaped twice, by \<open>metricLabelEscape\<close> and by \<open>%q\<close>: a reader of the text that undoes
  the quoting gets the escaped label, another text if it has a quote or a backslash.\<close>

lemma label_escaped_twice: "metric_label_escape [CHR 0x22] = [CHR 0x5C, CHR 0x22]"
  by code_simp

end
