(* ===== verification/Artifacts.thy ===== *)
theory Artifacts
  imports Config
begin

text \<open>
  The artifact store, \<open>internal/artifact/local_store.go\<close>, over a file system and \<open>base64\<close> as
  parameters, with the lexical path functions of \<open>path/filepath\<close> that it uses, and the handler that
  \<open>cmd/orchestrator/main.go\<close> serves the files with. What the store needs of a file system is the
  locale \<open>file_system\<close>.
\<close>

section \<open>Paths\<close>

fun path_elements :: "gostr \<Rightarrow> gostr list" where
  "path_elements [] = [[]]"
| "path_elements (c # s) =
     (if c = CHR ''/'' then [] # path_elements s
      else case path_elements s of [] \<Rightarrow> [[c]] | e # es \<Rightarrow> (c # e) # es)"

fun clean_step :: "bool \<Rightarrow> gostr list \<Rightarrow> gostr \<Rightarrow> gostr list" where
  "clean_step rooted done_elems e =
     (if e = [] \<or> e = ''.'' then done_elems
      else if e = ''..'' then
        (if done_elems = [] then (if rooted then [] else [''..''])
         else if last done_elems = ''..'' then done_elems @ [''..'']
         else butlast done_elems)
      else done_elems @ [e])"

definition is_rooted :: "gostr \<Rightarrow> bool" where
  "is_rooted p \<longleftrightarrow> has_prefix p ''/''"

definition clean_elements :: "gostr \<Rightarrow> gostr list" where
  "clean_elements p = foldl (clean_step (is_rooted p)) [] (path_elements p)"

text \<open>\<open>filepath.Clean\<close>, and \<open>filepath.Join\<close> of two elements that are not empty.\<close>

definition path_clean :: "gostr \<Rightarrow> gostr" where
  "path_clean p =
     (let es = clean_elements p in
      if is_rooted p then ''/'' @ join es ''/'' else if es = [] then ''.'' else join es ''/'')"

definition path_join :: "gostr \<Rightarrow> gostr \<Rightarrow> gostr" where
  "path_join a b = path_clean (a @ ''/'' @ b)"

lemma path_elements_nonempty: "path_elements s \<noteq> []"
  by (cases s) (auto split: list.split)

lemma path_elements_no_slash: "CHR ''/'' \<notin> set s \<Longrightarrow> path_elements s = [s]"
  by (induction s) auto

lemma path_elements_slash: "path_elements (a @ CHR ''/'' # b) = path_elements a @ path_elements b"
proof (induction a)
  case (Cons c a)
  then show ?case using path_elements_nonempty [of a] by (auto split: list.split)
qed simp

definition plain_element :: "gostr \<Rightarrow> bool" where
  "plain_element e \<longleftrightarrow> CHR ''/'' \<notin> set e \<and> e \<noteq> [] \<and> e \<noteq> ''.'' \<and> e \<noteq> ''..''"

lemma clean_step_plain: "plain_element e \<Longrightarrow> clean_step rooted es e = es @ [e]"
  by (simp add: plain_element_def)

lemma is_rooted_append: "a \<noteq> [] \<Longrightarrow> is_rooted (a @ b) \<longleftrightarrow> is_rooted a"
  by (cases a) (simp_all add: is_rooted_def has_prefix_def)

text \<open>Plain elements that are appended stay below.\<close>

lemma clean_elements_below:
  assumes "a \<noteq> []" "plain_element e" "plain_element f"
  shows "clean_elements (a @ ''/'' @ e @ ''/'' @ f) = clean_elements a @ [e, f]"
proof -
  have "path_elements (a @ CHR ''/'' # e @ CHR ''/'' # f) = path_elements a @ [e, f]"
    using assms(2,3) by (simp add: path_elements_slash path_elements_no_slash plain_element_def)
  moreover have "is_rooted (a @ ''/'' @ e @ ''/'' @ f) = is_rooted a" using assms(1) by (rule is_rooted_append)
  ultimately show ?thesis
    using assms(2,3) by (simp add: clean_elements_def clean_step_plain del: clean_step.simps)
qed

section \<open>Names\<close>

definition sanitize_task_id :: "gostr \<Rightarrow> gostr" where
  "sanitize_task_id tid =
     (let s = replace_all (trim_space tid) (CHR ''/'') [] ''_'';
          s = replace_all s (CHR ''.'') ''.'' ''_''
      in if s = [] then ''task'' else s)"

definition artifact_name :: "gostr \<Rightarrow> int \<Rightarrow> gostr" where
  "artifact_name tid nano = sanitize_task_id tid @ ''-'' @ fmt_d nano @ ''.png''"

lemma index_of_none: "index_of s sub = None \<Longrightarrow> \<not> contains s sub"
  by (induction s) (auto split: if_splits)

lemma index_of_before: "index_of s [c] = Some i \<Longrightarrow> c \<notin> set (take i s)"
proof (induction s arbitrary: i)
  case (Cons d s)
  then show ?case by (auto simp: has_prefix_def split: if_splits)
qed (simp split: if_splits)

lemma in_join: "x \<in> set (join ss sep) \<Longrightarrow> x \<in> set sep \<or> (\<exists>s\<in>set ss. x \<in> set s)"
  by (induction ss sep rule: join.induct) auto

lemma split_at_parts: "t \<in> set (split_at s c cs) \<Longrightarrow> set t \<subseteq> set s"
proof (induction s c cs rule: split_at.induct)
  case (1 s c cs)
  show ?case
  proof (cases "index_of s (c # cs)")
    case None
    with 1(2) show ?thesis by (subst (asm) split_at.simps) simp
  next
    case (Some i)
    with 1(2) have "t = take i s \<or> t \<in> set (split_at (drop (i + length (c # cs)) s) c cs)"
      by (subst (asm) split_at.simps) simp
    with 1(1) [OF Some] show ?thesis by (meson order_trans set_drop_subset set_take_subset)
  qed
qed

lemma split_at_removes: "t \<in> set (split_at s c []) \<Longrightarrow> c \<notin> set t"
proof (induction s c "[] :: gostr" rule: split_at.induct)
  case (1 s c)
  show ?case
  proof (cases "index_of s [c]")
    case None
    have "c \<notin> set s"
    proof
      assume "c \<in> set s"
      then obtain a b where "s = a @ [c] @ b" by (auto dest: split_list)
      with index_of_none [OF None] show False by (simp add: contains_iff) blast
    qed
    with 1(2) None show ?thesis by (subst (asm) split_at.simps) simp
  next
    case (Some i)
    with 1(2) have "t = take i s \<or> t \<in> set (split_at (drop (i + length [c]) s) c [])"
      by (subst (asm) split_at.simps) simp
    with 1(1) [OF Some] index_of_before [OF Some] show ?thesis by auto
  qed
qed

lemma replace_all_removes: "c \<notin> set new \<Longrightarrow> c \<notin> set (replace_all s c [] new)"
  unfolding replace_all_def using in_join [of c "split_at s c []" new] split_at_removes [of _ s c] by blast

lemma replace_all_keeps_out: "d \<notin> set s \<Longrightarrow> d \<notin> set new \<Longrightarrow> d \<notin> set (replace_all s c cs new)"
  unfolding replace_all_def using in_join [of d "split_at s c cs" new] split_at_parts [of _ s c cs] by blast

lemma sanitize_no_slash: "CHR ''/'' \<notin> set (sanitize_task_id tid)"
proof -
  have "CHR ''/'' \<notin> set (replace_all (trim_space tid) (CHR ''/'') [] ''_'')" by (rule replace_all_removes) simp
  then have "CHR ''/'' \<notin> set (replace_all (replace_all (trim_space tid) (CHR ''/'') [] ''_'') (CHR ''.'') ''.'' ''_'')"
    by (rule replace_all_keeps_out) simp
  then show ?thesis by (simp add: sanitize_task_id_def Let_def)
qed

lemma fmt_d_no_slash: "CHR ''/'' \<notin> set (fmt_d n)"
  using digits_all_digit [of "nat n"] digits_all_digit [of "nat (- n)"]
  by (auto simp: fmt_d_def list_all_iff is_digit_def split: if_splits)

lemma artifact_name_plain: "plain_element (artifact_name tid nano)"
proof -
  have "last (artifact_name tid nano) = CHR ''g''" by (simp add: artifact_name_def)
  moreover have "CHR ''/'' \<notin> set (artifact_name tid nano)"
    by (simp add: artifact_name_def sanitize_no_slash fmt_d_no_slash)
  moreover have "artifact_name tid nano \<noteq> []" by (simp add: artifact_name_def)
  ultimately show ?thesis by (auto simp: plain_element_def)
qed

section \<open>The store\<close>

text \<open>\<open>os.WriteFile\<close>, \<open>os.Rename\<close>, \<open>os.Remove\<close> and \<open>os.MkdirAll\<close>.\<close>

record ('b, 'f) file_ops =
  fo_write :: "gostr \<Rightarrow> 'b \<Rightarrow> 'f \<Rightarrow> go_error option \<times> 'f"
  fo_rename :: "gostr \<Rightarrow> gostr \<Rightarrow> 'f \<Rightarrow> go_error option \<times> 'f"
  fo_remove :: "gostr \<Rightarrow> 'f \<Rightarrow> go_error option \<times> 'f"
  fo_mkdir_all :: "gostr \<Rightarrow> 'f \<Rightarrow> go_error option \<times> 'f"

record local_store =
  lo_root :: gostr
  lo_base :: gostr

definition new_local_store ::
  "('b, 'f) file_ops \<Rightarrow> gostr \<Rightarrow> gostr \<Rightarrow> 'f \<Rightarrow> (go_error + local_store) \<times> 'f" where
  "new_local_store F root_dir base_url fs =
     (let root = trim_space root_dir in
      if root = [] then (Inl (new_error ''artifact root dir is required''), fs)
      else case fo_mkdir_all F (path_join root ''screenshots'') fs of
        (Some e, fs) \<Rightarrow> (Inl (wrap_error ''create artifact directories: '' e), fs)
      | (None, fs) \<Rightarrow>
          let base = trim_space base_url;
              base = (if base = [] then ''/artifacts'' else base);
              base = (if has_prefix base ''/'' then base else ''/'' @ base);
              base = trim_suffix base ''/''
          in (Inr \<lparr>lo_root = root, lo_base = base\<rparr>, fs))"

text \<open>\<open>decodeBase64\<close>: a data URL is cut at its first comma; \<open>b64\<close> is \<open>base64.StdEncoding.DecodeString\<close>.\<close>

definition decode_base64 :: "(gostr \<Rightarrow> go_error + 'c list) \<Rightarrow> gostr \<Rightarrow> go_error + 'c list" where
  "decode_base64 b64 payload =
     (case (if has_prefix payload ''data:''
            then map_option (\<lambda>i. drop (Suc i) payload) (index_of payload '','') else Some payload) of
        None \<Rightarrow> Inl (new_error ''invalid data url payload'')
      | Some p \<Rightarrow>
          (case b64 p of
             Inl e \<Rightarrow> Inl (wrap_error ''decode base64 payload: '' e)
           | Inr bytes \<Rightarrow> if bytes = [] then Inl (new_error ''decoded payload is empty'') else Inr bytes))"

definition artifact_relative :: "gostr \<Rightarrow> int \<Rightarrow> gostr" where
  "artifact_relative tid nano = path_join ''screenshots'' (artifact_name tid nano)"

definition artifact_path :: "gostr \<Rightarrow> gostr \<Rightarrow> int \<Rightarrow> gostr" where
  "artifact_path root tid nano = path_join root (artifact_relative tid nano)"

text \<open>\<open>ended\<close> is \<open>ctx.Err()\<close> and \<open>nano\<close> the clock.\<close>

definition save_screenshot_base64 ::
  "('c list, 'f) file_ops \<Rightarrow> (gostr \<Rightarrow> go_error + 'c list) \<Rightarrow> local_store \<Rightarrow> go_error option \<Rightarrow> int \<Rightarrow> gostr \<Rightarrow> gostr \<Rightarrow> 'f \<Rightarrow>
   (go_error + gostr) \<times> 'f" where
  "save_screenshot_base64 F b64 st ended nano tid payload fs =
     (case ended of
        Some e \<Rightarrow> (Inl e, fs)
      | None \<Rightarrow>
          if blank tid then (Inl (new_error ''task id is required''), fs)
          else if blank payload then (Inl (new_error ''payload is required''), fs)
          else case decode_base64 b64 (trim_space payload) of
            Inl e \<Rightarrow> (Inl e, fs)
          | Inr bytes \<Rightarrow>
              let path = artifact_path (lo_root st) tid nano; tmp = path @ ''.tmp'' in
              (case fo_write F tmp bytes fs of
                 (Some e, fs) \<Rightarrow> (Inl (wrap_error ''write artifact tmp: '' e), fs)
               | (None, fs) \<Rightarrow>
                   (case fo_rename F tmp path fs of
                      (Some e, fs) \<Rightarrow> (Inl (wrap_error ''commit artifact: '' e), snd (fo_remove F tmp fs))
                    | (None, fs) \<Rightarrow> (Inr (lo_base st @ ''/'' @ artifact_relative tid nano), fs))))"

text \<open>The handler: \<open>http.StripPrefix\<close> of the base and a slash, then \<open>http.FileServer(http.Dir(root))\<close>,
  which reads the file of the cleaned path below the root. \<open>None\<close> is \<open>404\<close>.\<close>

definition served_file :: "gostr \<Rightarrow> gostr \<Rightarrow> gostr \<Rightarrow> gostr option" where
  "served_file root base url =
     (if has_prefix url (base @ ''/'')
      then Some (path_join root (path_clean (''/'' @ drop (length base + 1) url)))
      else None)"

lemma relative_eq: "artifact_relative tid nano = ''screenshots/'' @ artifact_name tid nano"
proof -
  have p: "plain_element ''screenshots''" by (simp add: plain_element_def)
  have "path_elements (''screenshots'' @ CHR ''/'' # artifact_name tid nano) = [''screenshots'', artifact_name tid nano]"
    using artifact_name_plain [of tid nano] p
    by (simp only: path_elements_slash) (simp add: path_elements_no_slash plain_element_def)
  then have "clean_elements (''screenshots'' @ ''/'' @ artifact_name tid nano) = [''screenshots'', artifact_name tid nano]"
    using artifact_name_plain [of tid nano] p by (simp add: clean_elements_def clean_step_plain del: clean_step.simps)
  moreover have "\<not> is_rooted (''screenshots'' @ ''/'' @ artifact_name tid nano)" by (simp add: is_rooted_def has_prefix_def)
  ultimately show ?thesis by (simp add: artifact_relative_def path_join_def path_clean_def)
qed

text \<open>Whatever the task identifier is, the file is a file directly in the directory \<open>screenshots\<close>.\<close>

lemma artifact_path_below:
  "root \<noteq> [] \<Longrightarrow> clean_elements (root @ ''/'' @ artifact_relative tid nano) = clean_elements root @ [''screenshots'', artifact_name tid nano]"
  using clean_elements_below [of root "''screenshots''" "artifact_name tid nano"] artifact_name_plain [of tid nano]
  by (simp add: relative_eq plain_element_def)

lemma served_path:
  assumes "root \<noteq> []"
  shows "served_file root base (base @ ''/'' @ artifact_relative tid nano) = Some (artifact_path root tid nano)"
proof -
  have p: "plain_element ''screenshots''" by (simp add: plain_element_def)
  have "path_elements ([] @ CHR ''/'' # ''screenshots'' @ CHR ''/'' # artifact_name tid nano)
      = [[], ''screenshots'', artifact_name tid nano]"
    using artifact_name_plain [of tid nano] p
    by (simp only: path_elements_slash) (simp add: path_elements_no_slash plain_element_def)
  then have "clean_elements (''/'' @ artifact_relative tid nano) = [''screenshots'', artifact_name tid nano]"
    using artifact_name_plain [of tid nano] p
    by (simp add: relative_eq clean_elements_def is_rooted_def has_prefix_def plain_element_def)
  then have "path_clean (''/'' @ artifact_relative tid nano) = ''/'' @ artifact_relative tid nano"
    by (simp add: path_clean_def is_rooted_def has_prefix_def relative_eq)
  moreover have "path_join root (''/'' @ x) = path_join root x" if "x \<noteq> []" "hd x \<noteq> CHR ''/''" for x
  proof -
    have "path_elements (root @ CHR ''/'' # CHR ''/'' # x) = path_elements root @ [] # path_elements x"
      "path_elements (root @ CHR ''/'' # x) = path_elements root @ path_elements x"
      by (simp_all add: path_elements_slash)
    then have "clean_elements (root @ ''/'' @ ''/'' @ x) = clean_elements (root @ ''/'' @ x)"
      using assms by (simp add: clean_elements_def is_rooted_append)
    then show ?thesis using assms by (simp add: path_join_def path_clean_def is_rooted_append)
  qed
  moreover have "has_prefix (base @ ''/'' @ x) (base @ ''/'')" for x by (simp add: has_prefix_def)
  ultimately show ?thesis by (simp add: served_file_def artifact_path_def relative_eq)
qed

section \<open>File systems\<close>

locale file_system =
  fixes F :: "('c list, 'f) file_ops" and content :: "'f \<Rightarrow> gostr \<rightharpoonup> 'c list"
  assumes write_ok: "fo_write F p b fs = (None, fs') \<Longrightarrow> content fs' = (content fs)(p \<mapsto> b)"
    and write_failed: "fo_write F p b fs = (Some e, fs') \<Longrightarrow> q \<noteq> p \<Longrightarrow> content fs' q = content fs q"
    and rename_ok: "fo_rename F p q fs = (None, fs') \<Longrightarrow> p \<noteq> q \<Longrightarrow> content fs' = (content fs)(q := content fs p, p := None)"
    and rename_failed: "fo_rename F p q fs = (Some e, fs') \<Longrightarrow> content fs' = content fs"
    and removed: "fo_remove F p fs = (r, fs') \<Longrightarrow> q \<noteq> p \<Longrightarrow> content fs' q = content fs q"
begin

lemma saved:
  assumes "save_screenshot_base64 F b64 st ended nano tid payload fs = (Inr url, fs')"
  shows "\<exists>bytes. decode_base64 b64 (trim_space payload) = Inr bytes \<and> url = lo_base st @ ''/'' @ artifact_relative tid nano
    \<and> content fs' (artifact_path (lo_root st) tid nano) = Some bytes"
  using assms
  by (auto simp: save_screenshot_base64_def Let_def split: option.splits if_splits sum.splits prod.splits
      dest!: write_ok rename_ok)

lemma other_files_kept:
  assumes "save_screenshot_base64 F b64 st ended nano tid payload fs = (res, fs')"
    and "q \<noteq> artifact_path (lo_root st) tid nano" "q \<noteq> artifact_path (lo_root st) tid nano @ ''.tmp''"
  shows "content fs' q = content fs q"
proof -
  let ?p = "artifact_path (lo_root st) tid nano"
  obtain w fs1 where w: "fo_write F (?p @ ''.tmp'') (projr (decode_base64 b64 (trim_space payload))) fs = (w, fs1)" by fastforce
  obtain r fs2 where r: "fo_rename F (?p @ ''.tmp'') ?p fs1 = (r, fs2)" by fastforce
  obtain d fs3 where d: "fo_remove F (?p @ ''.tmp'') fs2 = (d, fs3)" by fastforce
  have "content fs1 q = content fs q" using write_ok write_failed w assms(3) by (cases w) auto
  moreover have "content fs2 q = content fs1 q" using rename_ok rename_failed r assms(2,3) by (cases r) auto
  moreover have "content fs3 q = content fs2 q" by (rule removed [OF d assms(3)])
  moreover have "fs' \<in> {fs, fs1, fs2, fs3}"
    using assms(1) w r d
    by (cases w; cases r)
       (auto simp: save_screenshot_base64_def Let_def split: option.splits if_splits sum.splits)
  ultimately show ?thesis by auto
qed

end

text \<open>Files in memory; nothing fails.\<close>

definition mem_files :: "('c list, gostr \<rightharpoonup> 'c list) file_ops" where
  "mem_files = \<lparr>fo_write = (\<lambda>p b fs. (None, fs(p \<mapsto> b))), fo_rename = (\<lambda>p q fs. (None, fs(q := fs p, p := None))),
     fo_remove = (\<lambda>p fs. (None, fs(p := None))), fo_mkdir_all = (\<lambda>p fs. (None, fs))\<rparr>"

interpretation mem_files: file_system mem_files "\<lambda>fs. fs"
  by unfold_locales (auto simp: mem_files_def)

section \<open>Properties\<close>


definition demo_store :: local_store where
  "demo_store = \<lparr>lo_root = ''/data'', lo_base = ''/artifacts''\<rparr>"

definition one_byte :: "gostr \<Rightarrow> go_error + nat list" where
  "one_byte s = Inr [length s]"

lemma demo_saved:
  "save_screenshot_base64 mem_files one_byte demo_store None 7 ''../../etc/passwd'' ''AA=='' Map.empty
   = (Inr (''/artifacts/'' @ artifact_relative ''../../etc/passwd'' 7), [artifact_path ''/data'' ''../../etc/passwd'' 7 \<mapsto> [4]])"
proof -
  have "trim_space ''../../etc/passwd'' = ''../../etc/passwd''" "trim_space ''AA=='' = ''AA==''"
    by (simp_all add: plain_ends_def plain_char_def)
  then show ?thesis
    by (simp add: save_screenshot_base64_def Let_def mem_files_def demo_store_def decode_base64_def one_byte_def has_prefix_def fun_eq_iff)
qed


text \<open>A stored screenshot is served. The URL that the store answers leads the handler of the
  orchestrator, if it is set up with the same root and base, to the file that was written, which
  holds the decoded payload.\<close>

lemma stored_file_served:
  assumes "file_system F content" "new_local_store F root_dir base_url fs0 = (Inr st, fs)"
    and "save_screenshot_base64 F b64 st ended nano tid payload fs = (Inr url, fs')"
    and "lo_root st = root_dir" "lo_base st = base_url"
  shows "\<exists>file bytes. served_file root_dir base_url url = Some file \<and> content fs' file = Some bytes
    \<and> decode_base64 b64 (trim_space payload) = Inr bytes"
proof -
  from assms(2) have "lo_root st \<noteq> []"
    by (auto simp: new_local_store_def Let_def split: if_splits prod.splits option.splits)
  with served_path [of root_dir base_url tid nano] file_system.saved [OF assms(1,3)] assms(4,5) show ?thesis by auto
qed

lemma stored_file_served_at_work:
  "\<exists>file. served_file ''/data'' ''/artifacts'' (''/artifacts/'' @ artifact_relative ''../../etc/passwd'' 7) = Some file
    \<and> (\<exists>bytes. ([artifact_path ''/data'' ''../../etc/passwd'' 7 \<mapsto> [4 :: nat]]) file = Some bytes)"
proof -
  have "trim_space ''/data'' = ''/data''" "trim_space ''/artifacts'' = ''/artifacts''"
    by (simp_all add: plain_ends_def plain_char_def)
  then have "new_local_store mem_files ''/data'' ''/artifacts'' (Map.empty :: gostr \<rightharpoonup> nat list) = (Inr demo_store, Map.empty)"
    by (simp add: new_local_store_def Let_def mem_files_def demo_store_def has_prefix_def trim_suffix_def has_suffix_def)
  from stored_file_served [OF mem_files.file_system_axioms this demo_saved] show ?thesis
    unfolding demo_store_def by (simp only: local_store.select_convs) blast
qed

text \<open>The store and the configuration normalize differently: the root with a blank around it, and a
  base with two slashes at its end, are not what the handler is set up with.\<close>

lemma store_trims_root:
  assumes "new_local_store F ('' '' @ root) base fs = (Inr st, fs')" "root \<noteq> []"
  shows "lo_root st \<noteq> '' '' @ root"
proof -
  have "lo_root st = trim_space ('' '' @ root)"
    using assms(1) by (auto simp: new_local_store_def Let_def split: if_splits prod.splits option.splits)
  moreover have "trimmed (trim_space ('' '' @ root))" by simp
  moreover have "\<not> trimmed ('' '' @ root)"
    by (auto simp: trimmed_def no_lead_def has_prefix_def space_encodings_def)
  ultimately show ?thesis by metis
qed

lemma base_normalized_twice:
  "lo_base (projr (fst (new_local_store mem_files ''/data'' (normalize_artifact_base_url ''/x//'') Map.empty))) = ''/x''
   \<and> normalize_artifact_base_url ''/x//'' = ''/x/''"
proof -
  have "trim_space ''/x//'' = ''/x//''" "trim_space ''/x/'' = ''/x/''" "trim_space ''/data'' = ''/data''"
    by (simp_all add: plain_ends_def plain_char_def)
  then show ?thesis
    by (simp add: new_local_store_def normalize_artifact_base_url_def Let_def mem_files_def has_prefix_def trim_suffix_def has_suffix_def)
qed

end
