(* ===== verification/Pages.thy ===== *)
theory Pages
  imports Artifacts Metrics
begin

text \<open>
  What the API serves from files: the dashboard, \<open>internal/api/dashboard.go\<close>, and the handler of the
  artifacts that \<open>cmd/orchestrator/main.go\<close> builds, with the parts of \<open>net/http\<close> that they use: the file
  server of a directory, \<open>StripPrefix\<close> and the redirects. The file system is a function that tells
  files from directories. Conditional and partial requests, the headers of a file and the query of a
  redirected URL are left out; a path is the decoded path of the URL.
\<close>

section \<open>The library\<close>

text \<open>\<open>http.Redirect\<close>, and the redirect of the file server, which writes no body.\<close>

definition redirect :: "request \<Rightarrow> int \<Rightarrow> gostr \<Rightarrow> response" where
  "redirect r code url =
     \<lparr>rs_status = code,
      rs_headers = (if rq_method r \<in> {''GET'', ''HEAD''}
        then [''Location'' \<mapsto> [url], ''Content-Type'' \<mapsto> [''text/html; charset=utf-8'']] else [''Location'' \<mapsto> [url]]),
      rs_body = (if rq_method r = ''GET'' then PMoved url else PEmpty)\<rparr>"

definition local_redirect :: "gostr \<Rightarrow> response" where
  "local_redirect url = \<lparr>rs_status = 301, rs_headers = [''Location'' \<mapsto> [url]], rs_body = PEmpty\<rparr>"

definition file_found :: "gostr \<Rightarrow> response" where
  "file_found q = \<lparr>rs_status = 200, rs_headers = Map.empty, rs_body = PFile q\<rparr>"

definition directory_listed :: "gostr \<Rightarrow> response" where
  "directory_listed q = \<lparr>rs_status = 200, rs_headers = [''Content-Type'' \<mapsto> [''text/html; charset=utf-8'']],
     rs_body = PListing q\<rparr>"

text \<open>\<open>path.Base\<close>.\<close>

definition path_base :: "gostr \<Rightarrow> gostr" where
  "path_base p =
     (let s = rev (dropWhile (\<lambda>c. c = CHR ''/'') (rev p))
      in if p = [] then ''.'' else if s = [] then ''/'' else last (path_elements s))"

text \<open>What is at a path: nothing, a directory, or a file.\<close>

datatype file_kind = PlainFile | Directory

type_synonym file_tree = "gostr \<Rightarrow> file_kind option"

text \<open>The path that \<open>http.Dir\<close> opens for a name, and \<open>http.FileServer\<close> on a directory.\<close>

definition dir_path :: "gostr \<Rightarrow> gostr \<Rightarrow> gostr" where
  "dir_path dir name = path_join (if dir = [] then ''.'' else dir) (path_clean (''/'' @ name))"

definition traverse_error :: response where
  "traverse_error = \<lparr>rs_status = 500,
     rs_headers = [''Content-Type'' \<mapsto> [''text/plain; charset=utf-8''], ''X-Content-Type-Options'' \<mapsto> [''nosniff'']],
     rs_body = PText ''http: attempting to traverse a non-directory''\<rparr>"

definition file_server :: "file_tree \<Rightarrow> gostr \<Rightarrow> gostr \<Rightarrow> response" where
  "file_server tree dir p =
     (let url = (if has_prefix p ''/'' then p else ''/'' @ p); name = path_clean url; q = dir_path dir name
      in if has_suffix url ''/index.html'' then local_redirect ''./''
         else case tree q of
             None \<Rightarrow> http_not_found
           | Some PlainFile \<Rightarrow>
               if last url \<noteq> CHR ''/'' then file_found q
               else if path_base url = ''/'' \<or> path_base url = ''.'' then traverse_error
               else local_redirect (''../'' @ path_base url)
           | Some Directory \<Rightarrow>
               if last url \<noteq> CHR ''/'' then local_redirect (path_base url @ ''/'')
               else let index = dir_path dir (trim_suffix name ''/'' @ ''/index.html'') in
                    (case tree index of
                       None \<Rightarrow> directory_listed q
                     | Some PlainFile \<Rightarrow> file_found index
                     | Some Directory \<Rightarrow> directory_listed index))"

definition strip_prefix :: "gostr \<Rightarrow> (gostr \<Rightarrow> response) \<Rightarrow> gostr \<Rightarrow> response" where
  "strip_prefix pre h p =
     (let p' = trim_prefix p pre in if length p' < length p then h p' else http_not_found)"

section \<open>The artifacts\<close>

definition artifact_handler :: "file_tree \<Rightarrow> gostr \<Rightarrow> gostr \<Rightarrow> request \<Rightarrow> response" where
  "artifact_handler tree base dir r = strip_prefix (base @ ''/'') (file_server tree dir) (rq_path r)"

section \<open>The dashboard\<close>

record web_env =
  we_dist :: gostr
  we_cwd :: "gostr option"
  we_files :: file_tree
  we_html :: gostr

text \<open>\<open>filepath.Abs\<close>, which fails if the working directory is not known.\<close>

definition file_abs :: "gostr option \<Rightarrow> gostr \<Rightarrow> gostr option" where
  "file_abs cwd p = (if is_rooted p then Some (path_clean p) else map_option (\<lambda>d. path_join d p) cwd)"

primrec first_dist :: "web_env \<Rightarrow> gostr list \<Rightarrow> gostr option" where
  "first_dist we [] = None"
| "first_dist we (c # cs) =
     (case file_abs (we_cwd we) c of
        None \<Rightarrow> first_dist we cs
      | Some a \<Rightarrow> if we_files we (path_join a ''index.html'') = Some PlainFile then Some a else first_dist we cs)"

definition resolved_dashboard_dist :: "web_env \<Rightarrow> gostr option" where
  "resolved_dashboard_dist we =
     (let d = trim_space (we_dist we) in first_dist we (if d \<noteq> [] then [d] else [''web/dist'', ''dist'']))"

text \<open>The index was there a moment ago and is served; otherwise the page built into the program.\<close>

definition handle_dashboard :: "web_env \<Rightarrow> request \<Rightarrow> response" where
  "handle_dashboard we r =
     (if rq_path r \<noteq> ''/'' \<and> rq_path r \<noteq> ''/dashboard'' then http_not_found
      else if rq_method r \<noteq> ''GET'' then method_not_allowed
      else case resolved_dashboard_dist we of
          Some d \<Rightarrow> file_found (path_join d ''index.html'')
        | None \<Rightarrow> \<lparr>rs_status = 200, rs_headers = [''Content-Type'' \<mapsto> [''text/html; charset=utf-8'']],
            rs_body = PText (we_html we)\<rparr>)"

definition handle_dashboard_asset :: "web_env \<Rightarrow> request \<Rightarrow> response" where
  "handle_dashboard_asset we r =
     (if rq_method r \<noteq> ''GET'' \<and> rq_method r \<noteq> ''HEAD'' then method_not_allowed
      else if \<not> has_prefix (rq_path r) ''/assets/'' then http_not_found
      else case resolved_dashboard_dist we of
          None \<Rightarrow> http_not_found
        | Some d \<Rightarrow> file_server (we_files we) d (rq_path r))"

section \<open>What lies below a directory\<close>

text \<open>Below a directory, by the elements of the cleaned paths: the elements of the directory and then
  plain ones, no dots.\<close>

definition below :: "gostr \<Rightarrow> gostr \<Rightarrow> bool" where
  "below dir q \<longleftrightarrow> is_rooted q = is_rooted dir \<and> take (length (clean_elements dir)) (clean_elements q) = clean_elements dir
     \<and> list_all plain_element (drop (length (clean_elements dir)) (clean_elements q))"

lemma path_elements_no_slashes: "e \<in> set (path_elements s) \<Longrightarrow> CHR ''/'' \<notin> set e"
  by (induction s arbitrary: e) (auto split: if_splits list.splits)

lemma path_elements_join:
  assumes "es \<noteq> []" "list_all (\<lambda>e. CHR ''/'' \<notin> set e) es" shows "path_elements (join es ''/'') = es"
  using assms
proof (induction es rule: list_nonempty_induct)
  case (single e)
  then show ?case by (simp add: path_elements_no_slash)
next
  case (cons e es)
  then obtain f fs where "es = f # fs" by (cases es) auto
  then have "join (e # es) ''/'' = e @ CHR ''/'' # join es ''/''" by simp
  then show ?case using cons by (simp only: path_elements_slash) (simp add: path_elements_no_slash)
qed

lemma clean_plain: "list_all plain_element es \<Longrightarrow> foldl (clean_step rooted) acc es = acc @ es"
  by (induction es arbitrary: acc) (simp_all add: clean_step_plain del: clean_step.simps)

text \<open>What cleaning leaves: plain elements, and before them the dots of a path that is not rooted.\<close>

definition dotted :: "gostr list \<Rightarrow> bool" where
  "dotted es \<longleftrightarrow> (\<exists>k ps. es = replicate k ''..'' @ ps \<and> list_all plain_element ps)"

lemma dotted_plain [simp]: "list_all plain_element es \<Longrightarrow> dotted es"
  unfolding dotted_def by (rule exI [of _ 0]) simp

lemma dotted_no_slash:
  assumes "dotted es" "e \<in> set es" shows "CHR ''/'' \<notin> set e \<and> e \<noteq> []"
proof -
  from assms obtain k ps where e: "es = replicate k ''..'' @ ps" "list_all plain_element ps" by (auto simp: dotted_def)
  with assms(2) consider "e = ''..''" | "plain_element e" by (auto simp: list_all_iff split: if_splits)
  then show ?thesis by cases (auto simp: plain_element_def)
qed

lemma clean_step_cases:
  assumes "CHR ''/'' \<notin> set e" obtains "e = [] \<or> e = ''.''" | "e = ''..''" | "plain_element e"
  using assms by (auto simp: plain_element_def)

lemma clean_step_rooted:
  assumes "list_all plain_element acc" "CHR ''/'' \<notin> set e"
  shows "list_all plain_element (clean_step True acc e)"
  using assms(2)
proof (cases rule: clean_step_cases)
  case 2
  have "last acc \<noteq> ''..''" if "acc \<noteq> []"
    using that assms(1) by (metis last_in_set list_all_iff plain_element_def)
  moreover have "list_all plain_element (butlast acc)" using assms(1) by (auto simp: list_all_iff dest: in_set_butlastD)
  ultimately show ?thesis using 2 by simp
qed (use assms(1) in \<open>auto simp: clean_step_plain simp del: clean_step.simps\<close>, simp_all)

lemma clean_step_free:
  assumes "dotted acc" "CHR ''/'' \<notin> set e"
  shows "dotted (clean_step False acc e)"
proof -
  from assms(1) obtain k ps where a: "acc = replicate k ''..'' @ ps" "list_all plain_element ps" by (auto simp: dotted_def)
  have dots: "dotted (replicate k ''..'' @ ps')" if "list_all plain_element ps'" for k ps' using that by (auto simp: dotted_def)
  from assms(2) show ?thesis
  proof (cases rule: clean_step_cases)
    case 1
    then show ?thesis using assms(1) by auto
  next
    case 3
    then show ?thesis using dots [of "ps @ [e]" k] a by (simp add: clean_step_plain del: clean_step.simps)
  next
    case 2
    show ?thesis
    proof (cases ps rule: rev_cases)
      case Nil
      have "replicate k ''..'' @ [''..''] = replicate (Suc k) ''..''" by (simp add: replicate_append_same)
      then show ?thesis using 2 a Nil dots [of "[]" "Suc k"] dots [of "[]" 1] by (cases k) (auto simp: replicate_append_same)
    next
      case (snoc qs q)
      then have "list_all plain_element qs" "q \<noteq> ''..''" using a(2) by (auto simp: plain_element_def)
      then show ?thesis using 2 a snoc dots [of qs k] by (simp add: butlast_append)
    qed
  qed
qed

lemma clean_rooted: "is_rooted p \<Longrightarrow> list_all plain_element (clean_elements p)"
proof -
  have "list_all plain_element (foldl (clean_step True) acc es)"
    if "list_all plain_element acc" "\<forall>e\<in>set es. CHR ''/'' \<notin> set e" for acc es
    using that by (induction es arbitrary: acc) (simp_all add: clean_step_rooted del: clean_step.simps)
  then show "is_rooted p \<Longrightarrow> ?thesis" by (simp add: clean_elements_def path_elements_no_slashes)
qed

lemma clean_dotted: "dotted (clean_elements p)"
proof (cases "is_rooted p")
  case False
  have "dotted (foldl (clean_step False) acc es)" if "dotted acc" "\<forall>e\<in>set es. CHR ''/'' \<notin> set e" for acc es
    using that by (induction es arbitrary: acc) (simp_all add: clean_step_free del: clean_step.simps)
  with False show ?thesis by (simp add: clean_elements_def path_elements_no_slashes)
qed (simp add: clean_rooted)

lemma clean_step_dotted: "dotted es \<Longrightarrow> foldl (clean_step False) [] es = es"
proof -
  assume "dotted es"
  then obtain k ps where e: "es = replicate k ''..'' @ ps" "list_all plain_element ps" by (auto simp: dotted_def)
  have "foldl (clean_step False) (replicate j ''..'') (replicate k ''..'') = replicate (j + k) ''..''" for j
  proof (induction k arbitrary: j)
    case (Suc k)
    have "clean_step False (replicate j ''..'') ''..'' = replicate (Suc j) ''..''"
      by (cases j) (auto simp: replicate_append_same)
    with Suc [of "Suc j"] show ?case by (simp del: clean_step.simps)
  qed simp
  from this [of 0] e show ?thesis by (simp add: clean_plain del: clean_step.simps)
qed

lemma clean_step_Nil [simp]: "clean_step rooted acc [] = acc"
  by simp

lemma join_elements:
  assumes "dotted es"
  shows "path_elements (join es ''/'') = (if es = [] then [[]] else es)"
  using path_elements_join [of es] dotted_no_slash [OF assms] by (simp add: list_all_iff)

lemma join_not_rooted: "dotted es \<Longrightarrow> \<not> is_rooted (join es ''/'')"
proof
  assume d: "dotted es" "is_rooted (join es ''/'')"
  then obtain s where "join es ''/'' = CHR ''/'' # s" by (cases "join es ''/''") (auto simp: is_rooted_def has_prefix_def)
  then have "path_elements (join es ''/'') = [] # path_elements s" by simp
  with join_elements [OF d(1)] have "[] \<in> set es" by (auto simp: path_elements_nonempty split: if_splits)
  with dotted_no_slash [OF d(1)] show False by blast
qed

lemma clean_elements_rooted: "list_all plain_element es \<Longrightarrow> clean_elements (''/'' @ join es ''/'') = es"
  using join_elements [of es]
  by (simp add: clean_elements_def is_rooted_def has_prefix_def clean_plain del: clean_step.simps)

text \<open>Cleaning once is enough.\<close>

lemma clean_clean [simp]: "clean_elements (path_clean p) = clean_elements p"
proof (cases "is_rooted p")
  case True
  then show ?thesis using clean_elements_rooted [OF clean_rooted] by (simp add: path_clean_def Let_def)
next
  case False
  let ?es = "clean_elements p"
  show ?thesis
  proof (cases "?es = []")
    case True
    have "clean_elements ''.'' = []" by (simp add: clean_elements_def)
    with True False show ?thesis by (simp add: path_clean_def)
  next
    case n: False
    have "clean_elements (join ?es ''/'') = ?es"
      unfolding clean_elements_def [of "join ?es ''/''"]
      using n join_elements [OF clean_dotted [of p]] join_not_rooted [OF clean_dotted [of p]] clean_step_dotted [OF clean_dotted [of p]]
      by (simp del: clean_step.simps)
    with n False show ?thesis by (simp add: path_clean_def Let_def)
  qed
qed

lemma clean_rooted_iff [simp]: "is_rooted (path_clean p) = is_rooted p"
proof (cases "is_rooted p")
  case False
  then show ?thesis
    using join_not_rooted [OF clean_dotted [of p]] by (simp add: path_clean_def Let_def) (simp add: is_rooted_def has_prefix_def)
qed (simp add: path_clean_def Let_def is_rooted_def has_prefix_def)

lemma path_clean_idem [simp]: "path_clean (path_clean p) = path_clean p"
  unfolding path_clean_def [of "path_clean p"] by (simp add: Let_def) (simp add: path_clean_def Let_def)

lemma clean_join:
  assumes "dir \<noteq> []" "is_rooted n"
  shows "clean_elements (path_join dir (path_clean n)) = clean_elements dir @ clean_elements n"
proof -
  let ?es = "clean_elements n"
  have p: "list_all plain_element ?es" by (rule clean_rooted [OF assms(2)])
  have e: "path_elements (dir @ ''/'' @ path_clean n) = path_elements dir @ [] # (if ?es = [] then [[]] else ?es)"
    using assms(2) join_elements [of ?es] p
    by (simp add: path_clean_def Let_def path_elements_slash)
  have "clean_elements (dir @ ''/'' @ path_clean n) = clean_elements dir @ ?es"
    unfolding clean_elements_def [of "dir @ ''/'' @ path_clean n"] e
    using assms(1) p by (simp add: is_rooted_append clean_elements_def clean_plain del: clean_step.simps)
  then show ?thesis by (simp add: path_join_def)
qed

lemma below_dir_path: "below dir (dir_path dir name)"
proof -
  let ?d = "if dir = [] then ''.'' else dir"
  have r: "is_rooted (''/'' @ name)" by (simp add: is_rooted_def has_prefix_def)
  have "clean_elements ?d = clean_elements dir" by (simp add: clean_elements_def)
  moreover have "is_rooted (dir_path dir name) = is_rooted dir"
    unfolding dir_path_def path_join_def clean_rooted_iff by (cases dir) (simp_all add: is_rooted_def has_prefix_def)
  moreover have "clean_elements (dir_path dir name) = clean_elements ?d @ clean_elements (''/'' @ name)"
    unfolding dir_path_def by (rule clean_join [OF _ r]) simp
  ultimately show ?thesis using clean_rooted [OF r] by (simp add: below_def)
qed

text \<open>The file that a response shows.\<close>

definition file_of :: "response \<Rightarrow> gostr option" where
  "file_of r = (case rs_body r of PFile q \<Rightarrow> Some q | PListing q \<Rightarrow> Some q | _ \<Rightarrow> None)"

lemma file_of_simps [simp]:
  "file_of (write_json h st v) = (case v of PFile q \<Rightarrow> Some q | PListing q \<Rightarrow> Some q | _ \<Rightarrow> None)"
  "file_of (write_error h st c m) = None" "file_of method_not_allowed = None" "file_of http_not_found = None"
  "file_of no_content = None" "file_of (redirect r code url) = None" "file_of (local_redirect url) = None"
  "file_of (file_found q) = Some q" "file_of (directory_listed q) = Some q" "file_of traverse_error = None"
  by (auto simp: file_of_def method_not_allowed_def http_not_found_def no_content_def redirect_def local_redirect_def
      file_found_def directory_listed_def traverse_error_def split: payload.split)

lemma file_server_below: "file_of (file_server tree dir p) = Some q \<Longrightarrow> below dir q"
  using below_dir_path by (auto simp: file_server_def Let_def split: if_splits option.splits file_kind.splits)

lemma artifact_below: "file_of (artifact_handler tree base dir r) = Some q \<Longrightarrow> below dir q"
  using file_server_below by (auto simp: artifact_handler_def strip_prefix_def Let_def split: if_splits)

lemma below_element: "dir \<noteq> [] \<Longrightarrow> plain_element e \<Longrightarrow> below dir (path_join dir e)"
proof -
  assume a: "dir \<noteq> []" "plain_element e"
  then have "path_elements (dir @ ''/'' @ e) = path_elements dir @ [e]"
    by (simp add: path_elements_slash path_elements_no_slash plain_element_def)
  then have "clean_elements (dir @ ''/'' @ e) = clean_elements dir @ [e]"
    using a unfolding clean_elements_def by (simp add: is_rooted_append clean_step_plain del: clean_step.simps)
  with a show ?thesis by (simp add: below_def path_join_def is_rooted_append)
qed

lemma path_clean_nonempty [simp]: "path_clean p \<noteq> []"
proof (cases "is_rooted p")
  case False
  have "join es ''/'' \<noteq> []" if "es \<noteq> []" "dotted es" for es
    using join_elements [OF that(2)] that dotted_no_slash [OF that(2), of "[]"] by (cases "join es ''/'' = []") auto
  with False clean_dotted [of p] show ?thesis by (simp add: path_clean_def Let_def)
qed (simp add: path_clean_def Let_def)

lemma first_dist_found:
  "first_dist we cs = Some d \<Longrightarrow> d \<noteq> [] \<and> we_files we (path_join d ''index.html'') = Some PlainFile"
  by (induction cs) (auto simp: file_abs_def path_join_def split: option.splits if_splits)

lemma dashboard_below:
  assumes "file_of (handle_dashboard we r) = Some q"
  shows "\<exists>d. resolved_dashboard_dist we = Some d \<and> below d q"
proof -
  have e: "plain_element ''index.html''" by (simp add: plain_element_def)
  from assms obtain d where d: "resolved_dashboard_dist we = Some d" "q = path_join d ''index.html''"
    by (auto simp: handle_dashboard_def file_of_def [of "\<lparr>rs_status = _, rs_headers = _, rs_body = _\<rparr>"] split: if_splits option.splits)
  moreover from this have "d \<noteq> []" using first_dist_found by (auto simp: resolved_dashboard_dist_def Let_def)
  ultimately show ?thesis using below_element [OF _ e] by blast
qed

lemma dashboard_asset_below:
  "file_of (handle_dashboard_asset we r) = Some q \<Longrightarrow> \<exists>d. resolved_dashboard_dist we = Some d \<and> below d q"
  using file_server_below by (auto simp: handle_dashboard_asset_def split: if_splits option.splits)

end
