(* ===== verification/Mux.thy ===== *)
theory Mux
  imports ApiRoutes Pages Orchestrator
begin

text \<open>
  The routes of the API, \<open>internal/api/server.go\<close>: the table of patterns that \<open>Routes\<close> registers and the
  choice that Go's \<open>ServeMux\<close> makes with it. A pattern that ends in a slash stands for all paths below,
  the longest one that fits wins, a pattern that is registered twice is a panic, a path that is not
  clean and one that only lacks its last slash are redirected. Patterns with spaces are refused, and
  those with the wildcards of Go 1.22 or with escapes are excluded by \<open>literal_pattern\<close>.
\<close>

section \<open>The table\<close>

datatype endpoint =
    ToDashboard | ToAsset | ToHealth | ToMetrics | ToSessions | ToSession | ToTaskAlias | ToTaskAliasById
  | ToTasks | ToTaskStats | ToTask | ToNodes | ToNodeRegister | ToNode | ToArtifacts

definition fixed_patterns :: "(gostr \<times> endpoint) list" where
  "fixed_patterns =
     [(''/'', ToDashboard), (''/dashboard'', ToDashboard), (''/assets/'', ToAsset), (''/healthz'', ToHealth),
      (''/metrics'', ToMetrics), (''/sessions'', ToSessions), (''/sessions/'', ToSession),
      (''/v1/sessions'', ToSessions), (''/v1/sessions/'', ToSession), (''/task'', ToTaskAlias),
      (''/tasks/'', ToTaskAliasById), (''/v1/tasks'', ToTasks), (''/v1/tasks/stats'', ToTaskStats),
      (''/v1/tasks/'', ToTask), (''/v1/nodes'', ToNodes), (''/v1/nodes/register'', ToNodeRegister),
      (''/v1/nodes/'', ToNode)]"

definition literal_pattern :: "gostr \<Rightarrow> bool" where
  "literal_pattern p \<longleftrightarrow> list_all (\<lambda>c. c \<notin> {CHR ''{'', CHR ''}'', CHR 0x25}) p"

text \<open>The table for an artifact path; \<open>None\<close> is the panic of \<open>Handle\<close>.\<close>

definition mux_table :: "gostr \<Rightarrow> (gostr \<times> endpoint) list option" where
  "mux_table path =
     (let p = artifact_pattern path in
      if CHR '' '' \<in> set p \<or> CHR 0x09 \<in> set p \<or> p \<in> set (map fst fixed_patterns) then None
      else Some (fixed_patterns @ [(p, ToArtifacts)]))"

section \<open>The choice\<close>

definition pattern_fits :: "gostr \<Rightarrow> gostr \<Rightarrow> bool" where
  "pattern_fits pat path \<longleftrightarrow> pat = path \<or> pat \<noteq> [] \<and> last pat = CHR ''/'' \<and> has_prefix path pat"

definition better_fit :: "gostr \<Rightarrow> (gostr \<times> 'e) option \<Rightarrow> gostr \<times> 'e \<Rightarrow> (gostr \<times> 'e) option" where
  "better_fit path best x =
     (if pattern_fits (fst x) path \<and> (case best of None \<Rightarrow> True | Some b \<Rightarrow> length (fst b) < length (fst x))
      then Some x else best)"

definition longest_fit :: "(gostr \<times> 'e) list \<Rightarrow> gostr \<Rightarrow> 'e option" where
  "longest_fit t path = map_option snd (foldl (better_fit path) None t)"

text \<open>\<open>cleanPath\<close>: a slash at the end stays.\<close>

definition mux_clean :: "gostr \<Rightarrow> gostr" where
  "mux_clean p =
     (if p = [] then ''/''
      else let p = (if has_prefix p ''/'' then p else ''/'' @ p); np = path_clean p
           in if last p = CHR ''/'' \<and> np \<noteq> ''/'' then np @ ''/'' else np)"

definition mux_route ::
  "(gostr \<times> endpoint) list \<Rightarrow> (endpoint \<Rightarrow> request \<Rightarrow> 'l routed) \<Rightarrow> request \<Rightarrow> 'l routed" where
  "mux_route t h r =
     (let clean = mux_clean (rq_path r);
          path = (if rq_method r = ''CONNECT'' then rq_path r else clean);
          known = set (map fst t)
      in if path \<notin> known \<and> \<not> has_suffix path ''/'' \<and> path @ ''/'' \<in> known then answer (redirect r 301 (clean @ ''/''))
         else if path \<noteq> rq_path r then answer (redirect r 301 path)
         else case longest_fit t path of
             Some e \<Rightarrow> h e r
           | None \<Rightarrow> answer http_not_found)"

section \<open>The handlers\<close>

text \<open>What the pages read: the files, the functions and the map orders of the metrics, and where the
  artifacts are.\<close>

record site =
  si_web :: web_env
  si_metrics :: metrics_env
  si_orders :: "gostr list \<times> gostr list \<times> gostr list"
  si_base :: gostr
  si_dir :: gostr

definition metrics_page :: "node_api \<Rightarrow> site \<Rightarrow> 'l api_env \<Rightarrow> request \<Rightarrow> 'l server \<Rightarrow> response" where
  "metrics_page na si env r w =
     (case si_orders si of (sks, bks, nks) \<Rightarrow>
        handle_metrics (si_metrics si) sks bks nks (\<lambda>limit. Inr (task_list_recent (ae_order env) limit (sv_tasks w)))
          (Inr (registry_list (na_order na) (sv_nodes w))) r)"

primrec handle :: "server_config \<Rightarrow> node_api \<Rightarrow> site \<Rightarrow> 'l api_env \<Rightarrow> endpoint \<Rightarrow> request \<Rightarrow> 'l routed" where
  "handle cfg na si env ToDashboard = (\<lambda>r. answer (handle_dashboard (si_web si) r))"
| "handle cfg na si env ToAsset = (\<lambda>r. answer (handle_dashboard_asset (si_web si) r))"
| "handle cfg na si env ToHealth = (\<lambda>r. answer (write_json Map.empty 200 (PStatus ''ok'')))"
| "handle cfg na si env ToMetrics = (\<lambda>r. look_up (metrics_page na si env r))"
| "handle cfg na si env ToSessions = handle_sessions cfg env"
| "handle cfg na si env ToSession = (\<lambda>r. Plain (handle_session_by_id r))"
| "handle cfg na si env ToTaskAlias = handle_task_alias cfg env"
| "handle cfg na si env ToTaskAliasById = handle_task_alias_by_id"
| "handle cfg na si env ToTasks = handle_tasks cfg env"
| "handle cfg na si env ToTaskStats = (\<lambda>r. look_up (handle_task_stats (ae_order env) r))"
| "handle cfg na si env ToTask = handle_task_by_id cfg env"
| "handle cfg na si env ToNodes = handle_nodes na"
| "handle cfg na si env ToNodeRegister = handle_node_register na"
| "handle cfg na si env ToNode = handle_node_by_id na"
| "handle cfg na si env ToArtifacts =
     (\<lambda>r. answer (artifact_handler (we_files (si_web si)) (si_base si) (si_dir si) r))"

text \<open>The pages that only read, as one handler by a chain of tests.\<close>

definition read_page :: "node_api \<Rightarrow> site \<Rightarrow> 'l api_env \<Rightarrow> request \<Rightarrow> 'l server \<Rightarrow> response" where
  "read_page na si env r w =
     (let p = rq_path r in
      if p = ''/metrics'' then metrics_page na si env r w
      else if has_prefix p ''/assets/'' then handle_dashboard_asset (si_web si) r
      else if p \<noteq> ''/dashboard'' \<and> has_prefix p (artifact_pattern (si_base si))
      then artifact_handler (we_files (si_web si)) (si_base si) (si_dir si) r
      else handle_dashboard (si_web si) r)"

definition demo_site :: site where
  "demo_site = \<lparr>si_web = \<lparr>we_dist = [], we_cwd = Some ''/srv'',
       we_files = [''/srv/web/dist/index.html'' \<mapsto> PlainFile, ''/srv/web/dist/assets/a.js'' \<mapsto> PlainFile,
         ''/data/screenshots'' \<mapsto> Directory, artifact_path ''/data'' ''../../etc/passwd'' 7 \<mapsto> PlainFile], we_html = ''<html>''\<rparr>,
     si_metrics = \<lparr>me_quote = (\<lambda>s. s), me_rate = (\<lambda>a b. ''0.00''), me_rank = exact_rank\<rparr>, si_orders = ([], [], []),
     si_base = ''/artifacts'', si_dir = ''/data''\<rparr>"

section \<open>The longest pattern\<close>

lemma better_fit_keeps:
  assumes "pattern_fits (fst x) path"
    and "\<forall>y\<in>set t. pattern_fits (fst y) path \<longrightarrow> y = x \<or> length (fst y) < length (fst x)"
  shows "best = Some x \<Longrightarrow> foldl (better_fit path) best t = Some x"
    and "x \<in> set t \<Longrightarrow> (\<forall>b. best = Some b \<longrightarrow> length (fst b) < length (fst x) \<or> b = x) \<Longrightarrow> foldl (better_fit path) best t = Some x"
  using assms(2)
proof (induction t arbitrary: best)
  case (Cons y t)
  { case 1
    then have "better_fit path best y = Some x" by (auto simp: better_fit_def)
    with Cons.IH(1) 1 show ?case by simp
  next
    case 2
    show ?case
    proof (cases "y = x \<or> best = Some x")
      case True
      then have "better_fit path best y = Some x"
        using 2 assms(1) by (auto simp: better_fit_def split: option.splits)
      with Cons.IH(1) 2 show ?thesis by simp
    next
      case False
      then have "x \<in> set t" "\<forall>b. better_fit path best y = Some b \<longrightarrow> length (fst b) < length (fst x) \<or> b = x"
        using 2 by (auto simp: better_fit_def split: if_splits)
      with Cons.IH(2) 2 show ?thesis by simp
    qed }
qed simp_all

text \<open>The longest pattern that fits is the one chosen, in whatever order the table is.\<close>

lemma longest_fit_is:
  assumes "(q, e) \<in> set t" "pattern_fits q path"
    and "\<forall>y\<in>set t. pattern_fits (fst y) path \<longrightarrow> y = (q, e) \<or> length (fst y) < length q"
  shows "longest_fit t path = Some e"
  using better_fit_keeps(2) [of "(q, e)" path t None] assms by (simp add: longest_fit_def)

lemma longest_fit_some:
  assumes "longest_fit t path = Some e" shows "\<exists>q. (q, e) \<in> set t \<and> pattern_fits q path"
proof -
  have "foldl (better_fit path) b t = Some x \<Longrightarrow> b = Some x \<or> x \<in> set t \<and> pattern_fits (fst x) path" for b x
  proof (induction t arbitrary: b)
    case (Cons y t)
    from Cons.IH [of "better_fit path b y"] Cons.prems show ?case by (auto simp: better_fit_def split: if_splits)
  qed simp
  from this [of None] assms show ?thesis by (auto simp: longest_fit_def)
qed

lemma prefix_comparable: "has_prefix s a \<Longrightarrow> has_prefix s b \<Longrightarrow> length a \<le> length b \<Longrightarrow> has_prefix b a"
  by (metis has_prefix_def min.absorb1 take_take)

lemma fits_length: "pattern_fits q path \<Longrightarrow> q = path \<or> length q < length path"
  by (auto simp: pattern_fits_def has_prefix_iff)

lemma exact_fit:
  assumes "(path, e) \<in> set t" "distinct (map fst t)"
  shows "longest_fit t path = Some e"
proof (rule longest_fit_is [OF assms(1)])
  show "pattern_fits path path" by (simp add: pattern_fits_def)
  show "\<forall>y\<in>set t. pattern_fits (fst y) path \<longrightarrow> y = (path, e) \<or> length (fst y) < length path"
    using assms fits_length by (fastforce dest: eq_key_imp_eq_value)
qed

section \<open>The table of the server\<close>

definition subtrees :: "(gostr \<times> endpoint) list" where
  "subtrees = [(''/assets/'', ToAsset), (''/sessions/'', ToSession), (''/v1/sessions/'', ToSession),
     (''/tasks/'', ToTaskAliasById), (''/v1/tasks/'', ToTask), (''/v1/nodes/'', ToNode)]"

text \<open>The artifacts do not lie below the path of another handler.\<close>

definition apart :: "gostr \<Rightarrow> bool" where
  "apart path \<longleftrightarrow> list_all (\<lambda>(q, e). \<not> has_prefix (artifact_pattern path) q) subtrees"

lemma artifact_pattern_ends [simp]: "artifact_pattern path \<noteq> []" "last (artifact_pattern path) = CHR ''/''"
  by (auto simp: artifact_pattern_def Let_def)

lemma fixed_facts:
  "list_all (\<lambda>y. y = (''/'', ToDashboard) \<or> y \<in> set subtrees \<or> last (fst y) \<noteq> CHR ''/'') fixed_patterns"
  "list_all (\<lambda>x. x \<in> set fixed_patterns \<and> fst x \<noteq> [] \<and> last (fst x) = CHR ''/'' \<and> 1 < length (fst x)) subtrees"
  "list_all (\<lambda>x. list_all (\<lambda>y. has_prefix (fst x) (fst y) \<longrightarrow> x = y) subtrees) subtrees"
  "distinct (map fst fixed_patterns)"
  by code_simp+

lemma root_fixed: "(''/'', ToDashboard) \<in> set fixed_patterns" "''/'' \<in> set (map fst fixed_patterns)"
  by (simp_all add: fixed_patterns_def)

lemma table_cases:
  assumes "mux_table path = Some t"
  shows "t = fixed_patterns @ [(artifact_pattern path, ToArtifacts)]" "artifact_pattern path \<notin> set (map fst fixed_patterns)"
    "distinct (map fst t)"
proof -
  show t: "t = fixed_patterns @ [(artifact_pattern path, ToArtifacts)]" "artifact_pattern path \<notin> set (map fst fixed_patterns)"
    using assms by (auto simp: mux_table_def Let_def split: if_splits)
  with fixed_facts(4) show "distinct (map fst t)" by auto
qed

lemma fixed_fit:
  assumes "y \<in> set fixed_patterns" "pattern_fits (fst y) p" "p \<notin> set (map fst fixed_patterns)"
  shows "has_prefix p (fst y) \<and> (y = (''/'', ToDashboard) \<or> y \<in> set subtrees)"
proof -
  from assms have "fst y \<noteq> p" by auto
  with assms(2) have "last (fst y) = CHR ''/'' \<and> has_prefix p (fst y)" by (simp add: pattern_fits_def)
  with fixed_facts(1) assms(1) show ?thesis by (auto simp: list_all_iff)
qed

lemma subtree_apart:
  assumes "x \<in> set subtrees" "y \<in> set subtrees" "has_prefix p (fst x)" "has_prefix p (fst y)"
  shows "x = y"
proof -
  have "has_prefix (fst x) (fst y) \<or> has_prefix (fst y) (fst x)" using prefix_comparable assms(3,4) by (metis linear)
  with fixed_facts(3) assms(1,2) show ?thesis unfolding list_all_iff by blast
qed

lemma artifact_shorter:
  assumes "apart path" "y \<in> set subtrees" "has_prefix p (fst y)" "has_prefix p (artifact_pattern path)"
  shows "length (artifact_pattern path) < length (fst y)"
proof (rule ccontr)
  assume "\<not> ?thesis"
  then have "has_prefix (artifact_pattern path) (fst y)" using prefix_comparable assms(3,4) by (metis not_less)
  with assms(1,2) show False by (auto simp: apart_def list_all_iff)
qed

lemma subtree_fit:
  assumes "mux_table path = Some t" "apart path" "x \<in> set subtrees" "has_prefix p (fst x)" "p \<notin> set (map fst t)"
  shows "longest_fit t p = Some (snd x)"
proof -
  note t = table_cases [OF assms(1)]
  have x: "x \<in> set fixed_patterns" "last (fst x) = CHR ''/''" "fst x \<noteq> []" "1 < length (fst x)"
    using fixed_facts(2) assms(3) unfolding list_all_iff by blast+
  have "y = x \<or> length (fst y) < length (fst x)" if y: "y \<in> set t" "pattern_fits (fst y) p" for y
  proof (cases "y \<in> set fixed_patterns")
    case True
    with fixed_fit [OF _ y(2)] assms(5) t(1) have "has_prefix p (fst y)" "y = (''/'', ToDashboard) \<or> y \<in> set subtrees" by auto
    then consider "y = (''/'', ToDashboard)" | "y = x" using subtree_apart [OF assms(3) _ assms(4)] by metis
    then show ?thesis using x(4) by cases auto
  next
    case False
    with y t(1) have y': "y = (artifact_pattern path, ToArtifacts)" by simp
    have "p \<noteq> artifact_pattern path" using assms(5) t(1) by simp
    with y(2) y' have "has_prefix p (artifact_pattern path)" by (auto simp: pattern_fits_def)
    with artifact_shorter [OF assms(2-4)] y' show ?thesis by simp
  qed
  moreover have "pattern_fits (fst x) p" using x assms(4) by (simp add: pattern_fits_def)
  ultimately show ?thesis using x(1) t(1) longest_fit_is [of "fst x" "snd x" t p] by auto
qed

lemma root_fit:
  assumes "mux_table path = Some t" "has_prefix p ''/''" "p \<notin> set (map fst t)" "\<forall>x\<in>set subtrees. \<not> has_prefix p (fst x)"
  shows "longest_fit t p = Some (if has_prefix p (artifact_pattern path) then ToArtifacts else ToDashboard)"
proof -
  note t = table_cases [OF assms(1)]
  have a: "y = (''/'', ToDashboard) \<or> y = (artifact_pattern path, ToArtifacts) \<and> has_prefix p (artifact_pattern path)"
    if "y \<in> set t" "pattern_fits (fst y) p" for y
  proof (cases "y \<in> set fixed_patterns")
    case True
    with fixed_fit [OF _ that(2)] assms(3,4) t(1) show ?thesis by auto
  next
    case False
    with that assms(3) t(1) show ?thesis by (auto simp: pattern_fits_def)
  qed
  have l: "1 < length (artifact_pattern path)" if "has_prefix p (artifact_pattern path)"
  proof (rule ccontr)
    assume "\<not> ?thesis"
    then have "artifact_pattern path = ''/''"
      using artifact_pattern_ends [of path] by (cases "artifact_pattern path") auto
    with t(2) root_fixed(2) show False by metis
  qed
  have r: "(''/'', ToDashboard) \<in> set t" "pattern_fits ''/'' p"
    using t(1) assms(2) root_fixed(1) by (simp_all add: pattern_fits_def)
  show ?thesis
  proof (cases "has_prefix p (artifact_pattern path)")
    case True
    then have "pattern_fits (artifact_pattern path) p" by (simp add: pattern_fits_def)
    moreover have "y = (artifact_pattern path, ToArtifacts) \<or> length (fst y) < length (artifact_pattern path)"
      if "y \<in> set t" "pattern_fits (fst y) p" for y using a [OF that] l True by auto
    ultimately show ?thesis
      using True longest_fit_is [of "artifact_pattern path" ToArtifacts t p] t(1) by simp
  next
    case False
    have "y = (''/'', ToDashboard) \<or> length (fst y) < length ''/''"
      if "y \<in> set t" "pattern_fits (fst y) p" for y using a [OF that] False by auto
    with False show ?thesis using longest_fit_is [OF r] by simp
  qed
qed

text \<open>A path that is chosen exactly, and one below a subtree.\<close>

lemma route_exact: "mux_table path = Some t \<Longrightarrow> (p, e) \<in> set fixed_patterns \<Longrightarrow> longest_fit t p = Some e"
  using exact_fit [of p e t] table_cases [of path t] by auto

definition chain :: "gostr \<Rightarrow> gostr \<Rightarrow> endpoint" where
  "chain pat p =
     (if p = ''/healthz'' then ToHealth
      else if p = ''/sessions'' \<or> p = ''/v1/sessions'' then ToSessions
      else if has_prefix p ''/sessions/'' \<or> has_prefix p ''/v1/sessions/'' then ToSession
      else if p = ''/task'' then ToTaskAlias
      else if has_prefix p ''/tasks/'' then ToTaskAliasById
      else if p = ''/v1/tasks'' then ToTasks
      else if p = ''/v1/tasks/stats'' then ToTaskStats
      else if has_prefix p ''/v1/tasks/'' then ToTask
      else if p = ''/v1/nodes'' then ToNodes
      else if p = ''/v1/nodes/register'' then ToNodeRegister
      else if has_prefix p ''/v1/nodes/'' then ToNode
      else if p = ''/metrics'' then ToMetrics
      else if has_prefix p ''/assets/'' then ToAsset
      else if p \<noteq> ''/dashboard'' \<and> has_prefix p pat then ToArtifacts
      else ToDashboard)"

lemma look_up_page:
  "look_up (read_page na si env r) =
     (if rq_path r = ''/metrics'' then look_up (metrics_page na si env r)
      else if has_prefix (rq_path r) ''/assets/'' then answer (handle_dashboard_asset (si_web si) r)
      else if rq_path r \<noteq> ''/dashboard'' \<and> has_prefix (rq_path r) (artifact_pattern (si_base si))
      then answer (artifact_handler (we_files (si_web si)) (si_base si) (si_dir si) r)
      else answer (handle_dashboard (si_web si) r))"
  by (simp only: look_up_def answer_def read_page_def Let_def split: if_split) simp

lemma chain_routes:
  "handle cfg na si env (chain (artifact_pattern (si_base si)) (rq_path r)) r = routes cfg na (read_page na si env) env r"
  unfolding chain_def routes_def Let_def look_up_page
  by (simp only: if_distrib [of "\<lambda>e. handle cfg na si env e r"] handle.simps)

lemma chain_fixed: "(p, e) \<in> set fixed_patterns \<Longrightarrow> p \<noteq> ''/'' \<Longrightarrow> chain pat p = e"
  unfolding fixed_patterns_def list.set insert_iff
  by (elim disjE emptyE) (simp_all add: chain_def has_prefix_def)

lemma chain_subtree:
  assumes "p \<notin> set (map fst fixed_patterns)" "x \<in> set subtrees" "has_prefix p (fst x)"
  shows "chain pat p = snd x"
proof -
  have "list_all (\<lambda>y. y = x \<or> \<not> has_prefix p (fst y)) subtrees"
    using subtree_apart [OF assms(2) _ assms(3)] unfolding list_all_iff by metis
  moreover have "list_all (\<lambda>y. p \<noteq> fst y) fixed_patterns" using assms(1) by (auto simp: list_all_iff)
  ultimately show ?thesis
    using assms(2,3) unfolding subtrees_def fixed_patterns_def list.set insert_iff list.pred_inject
    by (elim disjE emptyE) (simp_all add: chain_def)
qed

lemma chain_else:
  assumes "p \<notin> set (map fst fixed_patterns)" "\<forall>x\<in>set subtrees. \<not> has_prefix p (fst x)"
  shows "chain pat p = (if has_prefix p pat then ToArtifacts else ToDashboard)"
proof -
  have "list_all (\<lambda>y. \<not> has_prefix p (fst y)) subtrees" using assms(2) by (simp add: list_all_iff)
  moreover have "list_all (\<lambda>y. p \<noteq> fst y) fixed_patterns" using assms(1) by (auto simp: list_all_iff)
  ultimately show ?thesis
    unfolding subtrees_def fixed_patterns_def list.pred_inject by (simp add: chain_def)
qed

text \<open>The longest pattern is what the chain of tests finds.\<close>

lemma longest_is_chain:
  assumes "mux_table path = Some t" "apart path" "has_prefix p ''/''"
  shows "longest_fit t p = Some (chain (artifact_pattern path) p)"
proof -
  note t = table_cases [OF assms(1)]
  consider (fixed) e where "(p, e) \<in> set fixed_patterns" | (artifact) "p = artifact_pattern path"
    | (other) "p \<notin> set (map fst t)" using t(1) by fastforce
  then show ?thesis
  proof cases
    case fixed
    have "chain (artifact_pattern path) p = e"
    proof (cases "p = ''/''")
      case True
      have "\<not> has_prefix ''/'' (artifact_pattern path)"
      proof
        assume "has_prefix ''/'' (artifact_pattern path)"
        then have "artifact_pattern path = ''/''"
          using artifact_pattern_ends(1) [of path] by (cases "artifact_pattern path") (auto simp: has_prefix_def)
        with t(2) root_fixed(2) show False by metis
      qed
      then have "chain (artifact_pattern path) p = ToDashboard" unfolding True by (simp add: chain_def has_prefix_def)
      then show ?thesis using fixed root_fixed(1) fixed_facts(4) True by (metis eq_key_imp_eq_value)
    qed (rule chain_fixed [OF fixed])
    then show ?thesis using route_exact [OF assms(1) fixed] by simp
  next
    case artifact
    have "longest_fit t p = Some ToArtifacts" using exact_fit [of p ToArtifacts t] t artifact by simp
    moreover have "\<forall>x\<in>set subtrees. \<not> has_prefix p (fst x)"
      using assms(2) artifact by (auto simp: apart_def list_all_iff)
    moreover have "p \<notin> set (map fst fixed_patterns)" using t(2) artifact by simp
    moreover have "has_prefix p p" by (simp add: has_prefix_def)
    ultimately show ?thesis using artifact by (simp add: chain_else)
  next
    case other
    then have o: "p \<notin> set (map fst fixed_patterns)" using t(1) by simp
    show ?thesis
    proof (cases "\<exists>x\<in>set subtrees. has_prefix p (fst x)")
      case True
      then obtain x where x: "x \<in> set subtrees" "has_prefix p (fst x)" by blast
      show ?thesis using subtree_fit [OF assms(1,2) x other] chain_subtree [OF o x] by simp
    next
      case False
      then show ?thesis using root_fit [OF assms(1,3) other] chain_else [OF o] by simp
    qed
  qed
qed

lemma mux_clean_rooted: "has_prefix (mux_clean p) ''/''"
proof -
  have c: "has_prefix (path_clean q) ''/''" if "has_prefix q ''/''" for q
    using clean_rooted_iff [of q] that by (simp add: is_rooted_def)
  have l: "has_prefix (q @ x) ''/''" if "has_prefix q ''/''" for q x using that by (auto simp: has_prefix_iff)
  have "has_prefix (''/'' @ p) ''/''" by (rule has_prefix_append)
  moreover have "has_prefix ''/'' ''/''" by (simp add: has_prefix_def)
  ultimately show ?thesis using c l unfolding mux_clean_def Let_def by (simp split: if_split)
qed

section \<open>Which responses show files\<close>

text \<open>Whatever is done with its idempotency key, this is what the handler does.\<close>

definition handler_of :: "'l routed \<Rightarrow> 'l plain" where
  "handler_of rt = (case rt of Plain f \<Rightarrow> f | Keyed _ f \<Rightarrow> f)"

lemma handler_of_simps [simp]:
  "handler_of (Plain f) = f" "handler_of (Keyed s f) = f" "fst (handler_of (answer x) w) = x" "fst (handler_of (look_up g) w) = g w"
  by (simp_all add: handler_of_def answer_def look_up_def)

named_theorems no_file

lemma error_no_file [no_file]: "file_of (bad_request c m) = None" "file_of invalid_json = None" "file_of (not_found m) = None"
    "file_of task_id_required = None" "file_of invalid_limit = None" "file_of unsupported_state = None"
  by (simp_all add: bad_request_def invalid_json_def not_found_def task_id_required_def invalid_limit_def unsupported_state_def)

lemma task_no_file [no_file]: "file_of (fst (create_and_queue_task cfg env dw r w)) = None"
  "file_of (fst (cancel_task_handler cfg now i w)) = None" "file_of (get_task i w) = None"
  by (simp_all add: create_and_queue_task_def cancel_task_handler_def get_task_def no_file Let_def
      split: decoded.split sum.split prod.split option.split task_error.split)

lemma replay_session_no_file: "fst (replay_session cfg now req orig w) = Inl resp \<Longrightarrow> file_of resp = None"
  by (auto simp: replay_session_def Let_def no_file split: if_splits prod.splits sum.splits)

lemma replay_no_file [no_file]: "file_of (fst (replay_task_now cfg env i r w)) = None"
proof -
  have "file_of (fst (case p of (Inl resp, w1) \<Rightarrow> (resp, w1) | (Inr sid, w1) \<Rightarrow> f sid w1)) = None"
    if "\<And>resp. fst p = Inl resp \<Longrightarrow> file_of resp = None" "\<And>sid w1. file_of (fst (f sid w1)) = None"
    for p :: "(response + gostr) \<times> 'l server" and f using that by (simp split: prod.split sum.split)
  note session = this [OF replay_session_no_file]
  show ?thesis
    unfolding replay_task_now_def
    by (simp add: no_file session Let_def split: sum.split option.split) (simp add: no_file Let_def session split: prod.split sum.split option.split)
qed

lemma list_no_file [no_file]: "file_of (list_recent_tasks ks r w) = None" "file_of (list_direct_replays ks r i w) = None"
  "file_of (get_replay_chain r i w) = None" "file_of (handle_task_stats ks r w) = None"
  by (simp_all add: list_recent_tasks_def list_direct_replays_def get_replay_chain_def handle_task_stats_def no_file
      split: option.split sum.split prod.split)

lemma session_no_file [no_file]: "file_of (fst (create_session_now cfg env r w)) = None"
  "file_of (fst (handle_session_by_id r w)) = None"
  by (simp_all add: create_session_now_def handle_session_by_id_def no_file Let_def split: decoded.split sum.split prod.split)

lemma node_no_file [no_file]: "file_of (fst (register_node na r w)) = None" "file_of (fst (node_answer c x w)) = None"
  by (simp_all add: register_node_def node_answer_def no_file
      split: decoded.split option.split sum.split prod.split registry_error.split)

lemma node_state_no_file [no_file]: "file_of (fst (node_heartbeat na r nid w)) = None" "file_of (fst (recycle_node na d nid w)) = None"
  by (simp_all add: node_heartbeat_def recycle_node_def no_file Let_def split: decoded.split option.split sum.split prod.split)

lemma metrics_no_file [no_file]: "file_of (metrics_page na si env r w) = None"
proof -
  have "file_of \<lparr>rs_status = s, rs_headers = h, rs_body = PText x\<rparr> = None" for s h x by (simp add: file_of_def)
  then show ?thesis
    by (simp add: metrics_page_def handle_metrics_def no_file split: prod.split option.split)
qed

lemma handler_no_file:
  "e \<notin> {ToDashboard, ToAsset, ToArtifacts} \<Longrightarrow> file_of (fst (handler_of (handle cfg na si env e r) w)) = None"
  by (cases e) (simp_all add: handle_sessions_def handle_task_alias_def handle_task_alias_by_id_def handle_tasks_def
      handle_task_by_id_def handle_nodes_def handle_node_register_def handle_node_by_id_def node_set_state_def node_recycle_def
      no_file Let_def split: option.split)

section \<open>Which requests change tasks\<close>

lemma create_paths:
  "list_all (\<lambda>(q, e). e \<in> {ToSessions, ToTaskAlias, ToTasks} \<longrightarrow>
     q \<in> set [''/sessions'', ''/v1/sessions'', ''/task'', ''/v1/tasks''] \<and> last q \<noteq> CHR ''/'') fixed_patterns"
  "list_all (\<lambda>(q, e). e = ToTask \<longrightarrow> q = ''/v1/tasks/'') fixed_patterns"
  by code_simp+

lemma route_keeps:
  assumes "mux_table path = Some t" "\<not> requires_create_auth r"
  shows "keeps_tasks (mux_route t (handle cfg na si env) r)"
proof -
  have "keeps_tasks (handle cfg na si env e r)" if l: "longest_fit t (rq_path r) = Some e" for e
  proof -
    from longest_fit_some [OF l] obtain q where q: "(q, e) \<in> set t" "pattern_fits q (rq_path r)" by blast
    have post: "rq_method r \<noteq> ''POST''" if e: "e \<in> {ToSessions, ToTaskAlias, ToTasks}"
    proof -
      from e q(1) table_cases(1) [OF assms(1)] have "(q, e) \<in> set fixed_patterns" by auto
      with create_paths(1) e have "q \<in> {''/sessions'', ''/v1/sessions'', ''/task'', ''/v1/tasks''}" "last q \<noteq> CHR ''/''"
        by (auto simp: list_all_iff)
      with q(2) have "rq_path r \<in> {''/sessions'', ''/v1/sessions'', ''/task'', ''/v1/tasks''}" by (auto simp: pattern_fits_def)
      then show ?thesis by (rule exact_path_protected [OF _ assms(2)])
    qed
    have s: "keeps_tasks (Plain (handle_session_by_id r))"
      by (auto simp: keeps_tasks_def handle_session_by_id_def Let_def sv_tasks_def split: prod.split sum.split)
    have a: "keeps_tasks (handle_task_alias_by_id r)" by (simp add: handle_task_alias_by_id_def Let_def)
    have p: "has_prefix (rq_path r) ''/v1/tasks/''" if "e = ToTask"
    proof -
      from that q(1) table_cases(1) [OF assms(1)] create_paths(2) have "q = ''/v1/tasks/''" by (auto simp: list_all_iff)
      with q(2) show ?thesis by (metis append_Nil2 has_prefix_append pattern_fits_def)
    qed
    show ?thesis
      using post s a p keeps_node_handlers keeps_task_by_id [OF _ assms(2), of cfg env]
      by (cases e) (simp_all add: handle_sessions_def handle_task_alias_def handle_tasks_def)
  qed
  then show ?thesis by (simp add: mux_route_def Let_def split: option.split)
qed

section \<open>A stored screenshot\<close>

lemma fixed_prefixes:
  "list_all (\<lambda>q. list_all (\<lambda>k. take k q = [] \<or> last (take k q) \<noteq> CHR ''/'' \<or> take k q \<in> set (''/v1/'' # map fst fixed_patterns))
     [0..<length q]) (map fst fixed_patterns)"
  "list_all (\<lambda>q. length q \<le> 4 \<or> \<not> has_prefix ''/v1/screenshots/'' (take 6 q)) (map fst fixed_patterns)"
  "list_all (\<lambda>q. \<not> has_suffix q ''.png'' \<and> \<not> has_suffix q ''.png/'') (map fst fixed_patterns)"
  by code_simp+

lemma screenshot_fit:
  assumes "mux_table base = Some t" "url = artifact_pattern base @ ''screenshots/'' @ n"
  shows "longest_fit t url = Some ToArtifacts"
proof -
  let ?pat = "artifact_pattern base"
  note t = table_cases [OF assms(1)]
  have "y = (?pat, ToArtifacts) \<or> length (fst y) < length ?pat" if y: "y \<in> set t" "pattern_fits (fst y) url" for y
  proof (rule ccontr)
    assume n: "\<not> ?thesis"
    with y t(1) have f: "fst y \<in> set (map fst fixed_patterns)" "\<not> length (fst y) < length ?pat" by auto
    have u: "has_prefix url (fst y)" using y(2) by (auto simp: pattern_fits_def has_prefix_def)
    then have p: "take (length ?pat) (fst y) = ?pat"
      using prefix_comparable [of url ?pat "fst y"] f(2) assms(2) by (simp add: has_prefix_def)
    have "length ?pat \<noteq> length (fst y)" using p f(1) t(2) by (metis order_refl take_all)
    then have l: "length ?pat \<in> set [0..<length (fst y)]" using f(2) by auto
    from fixed_prefixes(1) f(1) l have "?pat \<in> set (''/v1/'' # map fst fixed_patterns)"
      unfolding list_all_iff using p artifact_pattern_ends [of base] by metis
    with t(2) have v: "?pat = ''/v1/''" by auto
    from u have "has_prefix url (take 6 (fst y))" by (metis append_take_drop_id has_prefix_append has_prefix_iff append.assoc)
    moreover have "has_prefix url ''/v1/screenshots/''" unfolding assms(2) v by (simp add: has_prefix_def)
    ultimately have "has_prefix ''/v1/screenshots/'' (take 6 (fst y))" by (rule prefix_comparable) simp
    moreover have "4 < length (fst y)" using l v by simp
    ultimately show False using fixed_prefixes(2) f(1) unfolding list_all_iff by (metis not_less)
  qed
  then show ?thesis
    using longest_fit_is [of ?pat ToArtifacts t url] t(1) assms(2) by (simp add: pattern_fits_def)
qed

lemma join_two: "es \<noteq> [] \<Longrightarrow> join (es @ [a, b]) sep = join es sep @ sep @ a @ sep @ b"
  by (induction es sep rule: join.induct) auto

text \<open>The URL of a screenshot is clean, and the file server opens what \<open>served_file\<close> says.\<close>

lemma screenshot_url_clean:
  assumes "has_prefix base ''/''" "path_clean base = base" "last base \<noteq> CHR ''/''"
  shows "mux_clean (base @ ''/'' @ artifact_relative tid nano) = base @ ''/'' @ artifact_relative tid nano"
proof -
  let ?n = "artifact_name tid nano"
  have r: "is_rooted base" and n: "base \<noteq> []" using assms(1) by (auto simp: is_rooted_def has_prefix_def)
  have b: "base = ''/'' @ join (clean_elements base) ''/''" using assms(2) r by (simp add: path_clean_def)
  with assms(3) have e: "clean_elements base \<noteq> []" by auto
  have "clean_elements (base @ ''/'' @ artifact_relative tid nano) = clean_elements base @ [''screenshots'', ?n]"
    by (rule artifact_path_below [OF n])
  moreover have "is_rooted (base @ x)" for x using r is_rooted_append [OF n] by simp
  ultimately have c: "path_clean (base @ ''/'' @ artifact_relative tid nano) = base @ ''/'' @ artifact_relative tid nano"
    using b join_two [OF e] by (simp add: path_clean_def relative_eq)
  have "last (base @ ''/'' @ artifact_relative tid nano) = CHR ''g''" by (simp add: relative_eq artifact_name_def)
  moreover have "has_prefix (base @ x) ''/''" for x using assms(1) by (auto simp: has_prefix_iff)
  ultimately show ?thesis using c n by (simp add: mux_clean_def Let_def)
qed

lemma dir_path_clean:
  assumes "dir \<noteq> []" "is_rooted u" shows "dir_path dir (path_clean u) = path_join dir (path_clean u)"
proof -
  have r: "is_rooted (''/'' @ x)" for x by (simp add: is_rooted_def has_prefix_def)
  have "path_elements (''/'' @ path_clean u) = [] # path_elements (path_clean u)" by simp
  then have "clean_elements (''/'' @ path_clean u) = clean_elements (path_clean u)"
    using assms(2) r [of "path_clean u"] by (simp add: clean_elements_def)
  then have "path_clean (''/'' @ path_clean u) = path_clean u"
    using r [of "path_clean u"] assms(2) by (simp add: path_clean_def [of "''/'' @ path_clean u"]) (simp add: path_clean_def)
  with assms(1) show ?thesis by (simp add: dir_path_def)
qed

lemma screenshot_served:
  assumes "dir \<noteq> []" "url = base @ ''/'' @ artifact_relative tid nano"
    and "served_file dir base url = Some q" "tree q = Some PlainFile" "rq_path r = url"
  shows "artifact_handler tree base dir r = file_found q"
proof -
  let ?u = "''/'' @ artifact_relative tid nano"
  have p: "trim_prefix url (base @ ''/'') = artifact_relative tid nano"
    using trim_prefix_append [of "base @ ''/''" "artifact_relative tid nano"] assms(2) by simp
  have "drop (length base + 1) url = artifact_relative tid nano" using assms(2) by simp
  then have q: "q = path_join dir (path_clean ?u)" using assms(3) by (simp add: served_file_def split: if_splits)
  have "is_rooted ?u" by (simp add: is_rooted_def has_prefix_def)
  then have d: "dir_path dir (path_clean ?u) = q" using dir_path_clean [OF assms(1)] q by simp
  have g: "last ?u = CHR ''g''" "\<not> has_prefix (artifact_relative tid nano) ''/''"
    by (simp_all add: relative_eq artifact_name_def has_prefix_def)
  have "\<not> has_suffix ?u ''/index.html''"
  proof
    assume "has_suffix ?u ''/index.html''"
    then obtain v where "?u = v @ ''/index.html''" by (auto simp: has_suffix_iff)
    then have "last ?u = CHR ''l''" by simp
    with g(1) show False by simp
  qed
  with d g assms(4) have "file_server tree dir (artifact_relative tid nano) = file_found q"
    by (simp add: file_server_def Let_def)
  then show ?thesis using p assms(2,5) by (simp add: artifact_handler_def strip_prefix_def)
qed

lemma mux_route_chain:
  assumes "mux_table (si_base si) = Some t" "apart (si_base si)" "rq_method r \<noteq> ''CONNECT''"
  shows "mux_route t (handle cfg na si env) r =
    (let p = mux_clean (rq_path r) in
     if p = ''/assets'' \<or> p = ''/tasks''
       \<or> p @ ''/'' = artifact_pattern (si_base si) \<and> \<not> has_suffix p ''/'' \<and> p \<notin> set (map fst fixed_patterns)
     then answer (redirect r 301 (p @ ''/''))
     else if p \<noteq> rq_path r then answer (redirect r 301 p)
     else routes cfg na (read_page na si env) env r)"
proof -
  note t = table_cases [OF assms(1)]
  let ?p = "mux_clean (rq_path r)"
  have slash: "list_all (\<lambda>q. last q = CHR ''/'' \<longrightarrow> butlast q \<in> set ([] # ''/assets'' # ''/tasks'' # map fst fixed_patterns)) (map fst fixed_patterns)"
    "''/assets'' \<notin> set (map fst fixed_patterns) \<and> ''/tasks'' \<notin> set (map fst fixed_patterns)"
    "''/assets/'' \<in> set (map fst fixed_patterns) \<and> ''/tasks/'' \<in> set (map fst fixed_patterns)"
    by (simp_all add: fixed_patterns_def)
  have "?p \<noteq> []" using mux_clean_rooted [of "rq_path r"] by (auto simp: has_prefix_def)
  then have f: "?p @ ''/'' \<in> set (map fst fixed_patterns) \<and> ?p \<notin> set (map fst fixed_patterns) \<longleftrightarrow> ?p = ''/assets'' \<or> ?p = ''/tasks''"
    using slash unfolding list_all_iff by fastforce
  have s: "\<not> has_suffix ''/assets'' ''/''" "\<not> has_suffix ''/tasks'' ''/''" by (simp_all add: has_suffix_def)
  have k: "(?p \<notin> set (map fst t) \<and> \<not> has_suffix ?p ''/'' \<and> ?p @ ''/'' \<in> set (map fst t)) \<longleftrightarrow>
      (?p = ''/assets'' \<or> ?p = ''/tasks''
       \<or> ?p @ ''/'' = artifact_pattern (si_base si) \<and> \<not> has_suffix ?p ''/'' \<and> ?p \<notin> set (map fst fixed_patterns))"
  proof
    assume "?p \<notin> set (map fst t) \<and> \<not> has_suffix ?p ''/'' \<and> ?p @ ''/'' \<in> set (map fst t)"
    then show "?p = ''/assets'' \<or> ?p = ''/tasks''
       \<or> ?p @ ''/'' = artifact_pattern (si_base si) \<and> \<not> has_suffix ?p ''/'' \<and> ?p \<notin> set (map fst fixed_patterns)"
      using f unfolding t(1) by auto
  next
    assume a: "?p = ''/assets'' \<or> ?p = ''/tasks''
       \<or> ?p @ ''/'' = artifact_pattern (si_base si) \<and> \<not> has_suffix ?p ''/'' \<and> ?p \<notin> set (map fst fixed_patterns)"
    then have n: "\<not> has_suffix ?p ''/''" using s by metis
    moreover have "has_suffix (artifact_pattern (si_base si)) ''/''"
      using artifact_pattern_ends [of "si_base si"] by (metis append_butlast_last_id has_suffix_iff)
    ultimately have "?p \<noteq> artifact_pattern (si_base si)" by metis
    with a n f show "?p \<notin> set (map fst t) \<and> \<not> has_suffix ?p ''/'' \<and> ?p @ ''/'' \<in> set (map fst t)"
      unfolding t(1) by auto
  qed
  have "(case longest_fit t ?p of None \<Rightarrow> answer http_not_found | Some e \<Rightarrow> handle cfg na si env e r)
      = routes cfg na (read_page na si env) env r" if "?p = rq_path r"
    using longest_is_chain [OF assms(1,2) mux_clean_rooted, of "rq_path r"] chain_routes [of cfg na si env r] that by simp
  then show ?thesis using assms(3) unfolding mux_route_def Let_def if_not_P [OF assms(3)] k by (auto simp del: option.case)
qed

section \<open>Properties\<close>




text \<open>C34: the server shows no file outside its directories. Whatever a request asks for, with however many
  dots in its path, a file or a listing in the answer lies below the directory of the artifacts or below
  the directory of the dashboard that was found.\<close>

theorem files_contained:
  assumes "file_of (fst (handler_of (mux_route t (handle cfg na si env) r) w)) = Some q"
  shows "below (si_dir si) q \<or> (\<exists>d. resolved_dashboard_dist (si_web si) = Some d \<and> below d q)"
proof -
  from assms obtain e where e: "file_of (fst (handler_of (handle cfg na si env e r) w)) = Some q"
    by (auto simp: mux_route_def Let_def split: if_splits option.splits)
  with handler_no_file [of e cfg na si env r w] have "e \<in> {ToDashboard, ToAsset, ToArtifacts}" by auto
  with e artifact_below dashboard_below dashboard_asset_below show ?thesis by auto
qed

theorem files_contained_witness:
  "below ''/data'' ''/data/screenshots''
   \<or> (\<exists>d. resolved_dashboard_dist (si_web demo_site) = Some d \<and> below d ''/data/screenshots'')"
proof -
  let ?t = "fixed_patterns @ [(''/artifacts/'', ToArtifacts)]"
  let ?r = "demo_request ''GET'' ''/artifacts/screenshots/''"
  have "longest_fit ?t ''/artifacts/screenshots/'' = Some ToArtifacts" "mux_clean ''/artifacts/screenshots/'' = ''/artifacts/screenshots/''"
    "''/artifacts/screenshots/'' @ ''/'' \<notin> set (map fst ?t)"
    by code_simp+
  then have "mux_route ?t h ?r = h ToArtifacts ?r" for h :: "endpoint \<Rightarrow> request \<Rightarrow> lease_state routed" by (simp add: mux_route_def demo_request_def)
  moreover have "file_of (artifact_handler (we_files (si_web demo_site)) (si_base demo_site) (si_dir demo_site) ?r) = Some ''/data/screenshots''"
    by code_simp
  ultimately have "file_of (fst (handler_of (mux_route ?t (handle demo_server_config demo_node_api demo_site demo_api_env) ?r) demo_server))
      = Some ''/data/screenshots''" by simp
  from files_contained [OF this] show ?thesis by (simp add: demo_site_def)
qed




section \<open>Two faults\<close>

text \<open>A base path that is a route of the API is accepted by the configuration and makes \<open>Handle\<close> panic when
  the server starts.\<close>

lemma base_of_a_route_panics:
  assumes "env ''ORCHESTRATOR_ARTIFACT_BASE_URL'' = ''/tasks''"
  shows "mux_table (oc_artifact_base_url (load_config tmp env pd)) = None"
proof -
  have "normalize_artifact_base_url ''/tasks'' = ''/tasks''" by code_simp
  then show ?thesis
    by (simp add: load_config_def assms mux_table_def artifact_pattern_def fixed_patterns_def)
qed

text \<open>The directory of the screenshots is listed to everyone, with or without an API key.\<close>

lemma screenshots_listed:
  "fst (serve ''key'' (mux_route (fixed_patterns @ [(''/artifacts/'', ToArtifacts)])
      (handle demo_server_config demo_node_api demo_site demo_api_env)) (\<lambda>x. x) (demo_call ''1-2'' 5) 5
      (demo_request ''GET'' ''/artifacts/screenshots/'') (None, new_idem_store, demo_server)) = directory_listed ''/data/screenshots''"
proof -
  let ?t = "fixed_patterns @ [(''/artifacts/'', ToArtifacts)]"
  let ?r = "demo_request ''GET'' ''/artifacts/screenshots/''"
  have "longest_fit ?t ''/artifacts/screenshots/'' = Some ToArtifacts" "mux_clean ''/artifacts/screenshots/'' = ''/artifacts/screenshots/''"
    "''/artifacts/screenshots/'' @ ''/'' \<notin> set (map fst ?t)"
    by code_simp+
  then have "mux_route ?t h ?r = h ToArtifacts ?r" for h :: "endpoint \<Rightarrow> request \<Rightarrow> lease_state routed"
    by (simp add: mux_route_def demo_request_def)
  moreover have "artifact_handler (we_files (si_web demo_site)) (si_base demo_site) (si_dir demo_site) ?r = directory_listed ''/data/screenshots''"
  proof -
    have p: "dir_path ''/data'' (path_clean ''/screenshots/'') = ''/data/screenshots''"
      "dir_path ''/data'' (trim_suffix (path_clean ''/screenshots/'') ''/'' @ ''/index.html'') = ''/data/screenshots/index.html''"
      "we_files (si_web demo_site) ''/data/screenshots'' = Some Directory" "we_files (si_web demo_site) ''/data/screenshots/index.html'' = None"
      by code_simp+
    have "artifact_handler (we_files (si_web demo_site)) (si_base demo_site) (si_dir demo_site) ?r
        = file_server (we_files (si_web demo_site)) ''/data'' ''screenshots/''"
      by (simp add: artifact_handler_def strip_prefix_def trim_prefix_def has_prefix_def demo_request_def demo_site_def)
    also have "\<dots> = directory_listed ''/data/screenshots''"
      using p by (simp add: file_server_def has_prefix_def has_suffix_def Let_def)
    finally show ?thesis .
  qed
  moreover have "\<not> requires_create_auth ?r" by (simp add: requires_create_auth_def demo_request_def)
  ultimately show ?thesis by (simp add: serve_def with_api_security_def serve_routed_def answer_def)
qed

end
