(* ===== verification/Humanizer.thy ===== *)
theory Humanizer
  imports Executor
begin

text \<open>
  Humanized input, \<open>cmd/node-agent/humanize.go\<close>: mouse paths, typing with slips, and scrolling in
  bursts. The \<open>float64\<close> numbers are a type \<open>'f\<close> with the operations that the code uses, and
  \<open>math/rand\<close> is a generator \<open>'g\<close>; nothing of their arithmetic is assumed but what a theorem says. The
  humanizer is a part of the world of the DevTools client, so its methods are computations like the
  client's. A method answers the commands that it sent, which Go's methods do not return: the
  theorems speak of them, and the executor drops them.
\<close>

section \<open>Runes\<close>

text \<open>The conversion \<open>[]rune(text)\<close>, each rune again as its text in UTF-8: the length of the encoding that
  a string starts with, 0 if there is none, and U+FFFD for a byte that starts none.\<close>

definition byte_within :: "nat \<Rightarrow> nat \<Rightarrow> gostr \<Rightarrow> nat \<Rightarrow> bool" where
  "byte_within lo hi s i \<longleftrightarrow> i < length s \<and> lo \<le> of_char (s ! i) \<and> (of_char (s ! i) :: nat) \<le> hi"

definition one_byte_rune :: "gostr \<Rightarrow> bool" where
  "one_byte_rune s \<longleftrightarrow> byte_within 0 0x7F s 0"

definition two_byte_rune :: "gostr \<Rightarrow> bool" where
  "two_byte_rune s \<longleftrightarrow> byte_within 0xC2 0xDF s 0 \<and> byte_within 0x80 0xBF s 1"

definition three_byte_rune :: "gostr \<Rightarrow> bool" where
  "three_byte_rune s \<longleftrightarrow> byte_within 0x80 0xBF s 2
     \<and> (byte_within 0xE0 0xE0 s 0 \<and> byte_within 0xA0 0xBF s 1
       \<or> byte_within 0xED 0xED s 0 \<and> byte_within 0x80 0x9F s 1
       \<or> (byte_within 0xE1 0xEC s 0 \<or> byte_within 0xEE 0xEF s 0) \<and> byte_within 0x80 0xBF s 1)"

definition four_byte_rune :: "gostr \<Rightarrow> bool" where
  "four_byte_rune s \<longleftrightarrow> byte_within 0x80 0xBF s 2 \<and> byte_within 0x80 0xBF s 3
     \<and> (byte_within 0xF0 0xF0 s 0 \<and> byte_within 0x90 0xBF s 1
       \<or> byte_within 0xF1 0xF3 s 0 \<and> byte_within 0x80 0xBF s 1
       \<or> byte_within 0xF4 0xF4 s 0 \<and> byte_within 0x80 0x8F s 1)"

definition rune_length :: "gostr \<Rightarrow> nat" where
  "rune_length s =
     (if one_byte_rune s then 1 else if two_byte_rune s then 2 else if three_byte_rune s then 3
      else if four_byte_rune s then 4 else 0)"

definition replacement_rune :: gostr where
  "replacement_rune = [CHR 0xEF, CHR 0xBF, CHR 0xBD]"

function utf8_runes :: "gostr \<Rightarrow> gostr list" where
  "utf8_runes s =
     (if s = [] then []
      else if rune_length s = 0 then replacement_rune # utf8_runes (tl s)
      else take (rune_length s) s # utf8_runes (drop (rune_length s) s))"
  by pat_completeness auto

termination
  by (relation "measure length") auto

declare utf8_runes.simps [simp del]

lemma byte_within_take: "i < n \<Longrightarrow> byte_within lo hi (take n s) i = byte_within lo hi s i"
  by (auto simp: byte_within_def)

lemma byte_within_length: "byte_within lo hi s i \<Longrightarrow> i < length s"
  by (simp add: byte_within_def)

lemma rune_take:
  "0 < n \<Longrightarrow> one_byte_rune (take n s) = one_byte_rune s"
  "1 < n \<Longrightarrow> two_byte_rune (take n s) = two_byte_rune s"
  "2 < n \<Longrightarrow> three_byte_rune (take n s) = three_byte_rune s"
  "3 < n \<Longrightarrow> four_byte_rune (take n s) = four_byte_rune s"
  by (simp_all add: one_byte_rune_def two_byte_rune_def three_byte_rune_def four_byte_rune_def byte_within_take)

lemma rune_fits:
  "one_byte_rune s \<Longrightarrow> 1 \<le> length s" "two_byte_rune s \<Longrightarrow> 2 \<le> length s"
  "three_byte_rune s \<Longrightarrow> 3 \<le> length s" "four_byte_rune s \<Longrightarrow> 4 \<le> length s"
  unfolding one_byte_rune_def two_byte_rune_def three_byte_rune_def four_byte_rune_def
  by (auto simp: Suc_le_eq dest!: byte_within_length)

lemma rune_length_take: "0 < rune_length s \<Longrightarrow> rune_length (take (rune_length s) s) = rune_length s"
  by (auto simp: rune_length_def rune_take split: if_splits)

lemma rune_length_le: "rune_length s \<le> length s"
  using rune_fits [of s] by (simp add: rune_length_def)

lemma one_rune: "r \<in> set (utf8_runes s) \<Longrightarrow> utf8_runes r = [r]"
proof (induction s rule: utf8_runes.induct)
  case (1 s)
  have own: "utf8_runes (take (rune_length s) s) = [take (rune_length s) s]" if n: "rune_length s \<noteq> 0" "s \<noteq> []"
  proof -
    let ?t = "take (rune_length s) s"
    have "rune_length ?t = rune_length s" "?t \<noteq> []" "length ?t = rune_length s"
      using n rune_length_take [of s] rune_length_le [of s] by auto
    then show ?thesis using n by (subst utf8_runes.simps) (simp add: utf8_runes.simps [of "[]"])
  qed
  have rep: "utf8_runes replacement_rune = [replacement_rune]" by code_simp
  have nil: "utf8_runes [] = []" by (simp add: utf8_runes.simps)
  show ?case
  proof (cases "s = []")
    case True
    then show ?thesis using "1.prems" nil by simp
  next
    case ne: False
    show ?thesis
    proof (cases "rune_length s = 0")
      case True
      then have "utf8_runes s = replacement_rune # utf8_runes (tl s)" using ne by (simp add: utf8_runes.simps [of s])
      then show ?thesis using "1.prems" "1.IH"(1) [OF ne True] rep by auto
    next
      case False
      then have "utf8_runes s = take (rune_length s) s # utf8_runes (drop (rune_length s) s)"
        using ne by (simp add: utf8_runes.simps [of s])
      then show ?thesis using "1.prems" "1.IH"(2) [OF ne False] own [OF False ne] by auto
    qed
  qed
qed

lemma concat_runes: "replacement_rune \<notin> set (utf8_runes s) \<Longrightarrow> concat (utf8_runes s) = s"
proof (induction s rule: utf8_runes.induct)
  case (1 s)
  show ?case
  proof (cases "s = [] \<or> rune_length s = 0")
    case True
    then show ?thesis using "1.prems" by (auto simp: utf8_runes.simps [of s])
  next
    case False
    then have "utf8_runes s = take (rune_length s) s # utf8_runes (drop (rune_length s) s)"
      by (simp add: utf8_runes.simps [of s])
    then show ?thesis using "1.prems" "1.IH"(2) False by simp
  qed
qed

section \<open>Numbers, chance and characters\<close>

record 'f point =
  pt_x :: 'f
  pt_y :: 'f

record 'f viewport =
  vp_width :: 'f
  vp_height :: 'f

record 'f geometry =
  ge_ok :: bool
  ge_error :: gostr
  ge_left :: 'f
  ge_top :: 'f
  ge_width :: 'f
  ge_height :: 'f
  ge_viewport_width :: 'f
  ge_viewport_height :: 'f

text \<open>\<open>fl_dec n k\<close> is the literal for n / 10^k. The operations on runes and the
  decoders are of packages \<open>unicode\<close> and \<open>encoding/json\<close>.\<close>

record ('f, 'g) human_libs =
  fl_add :: "'f \<Rightarrow> 'f \<Rightarrow> 'f"
  fl_sub :: "'f \<Rightarrow> 'f \<Rightarrow> 'f"
  fl_mul :: "'f \<Rightarrow> 'f \<Rightarrow> 'f"
  fl_div :: "'f \<Rightarrow> 'f \<Rightarrow> 'f"
  fl_neg :: "'f \<Rightarrow> 'f"
  fl_abs :: "'f \<Rightarrow> 'f"
  fl_less :: "'f \<Rightarrow> 'f \<Rightarrow> bool"
  fl_eq :: "'f \<Rightarrow> 'f \<Rightarrow> bool"
  fl_dec :: "int \<Rightarrow> nat \<Rightarrow> 'f"
  fl_of_int :: "int \<Rightarrow> 'f"
  fl_to_int :: "'f \<Rightarrow> int"
  fl_round :: "'f \<Rightarrow> 'f"
  fl_hypot :: "'f \<Rightarrow> 'f \<Rightarrow> 'f"
  fl_json :: "'f \<Rightarrow> gostr"
  rg_new :: "int \<Rightarrow> 'g"
  rg_intn :: "int \<Rightarrow> 'g \<Rightarrow> int \<times> 'g"
  rg_float :: "'g \<Rightarrow> 'f \<times> 'g"
  hl_is_upper :: "gostr \<Rightarrow> bool"
  hl_is_letter :: "gostr \<Rightarrow> bool"
  hl_is_space :: "gostr \<Rightarrow> bool"
  hl_rune_upper :: "gostr \<Rightarrow> gostr"
  hl_rune_lower :: "gostr \<Rightarrow> gostr"
  hl_decode_geometry :: "gostr \<Rightarrow> go_error + 'f geometry"
  hl_decode_viewport :: "gostr \<Rightarrow> go_error + 'f viewport"

text \<open>\<open>a <= b\<close>, which is false if one of them is no number.\<close>

definition fl_le :: "('f, 'g) human_libs \<Rightarrow> 'f \<Rightarrow> 'f \<Rightarrow> bool" where
  "fl_le L a b \<longleftrightarrow> fl_less L a b \<or> fl_eq L a b"

definition clamp_float :: "('f, 'g) human_libs \<Rightarrow> 'f \<Rightarrow> 'f \<Rightarrow> 'f \<Rightarrow> 'f" where
  "clamp_float L v lo hi =
     (let (lo, hi) = (if fl_less L hi lo then (hi, lo) else (lo, hi)) in
      if fl_less L v lo then lo else if fl_less L hi v then hi else v)"

definition clamp_int :: "int \<Rightarrow> int \<Rightarrow> int \<Rightarrow> int" where
  "clamp_int v lo hi =
     (let (lo, hi) = (if hi < lo then (hi, lo) else (lo, hi)) in if v < lo then lo else if v > hi then hi else v)"

definition round_to_one_decimal :: "('f, 'g) human_libs \<Rightarrow> 'f \<Rightarrow> 'f" where
  "round_to_one_decimal L v = fl_div L (fl_round L (fl_mul L v (fl_of_int L 10))) (fl_of_int L 10)"

section \<open>The profile\<close>

record 'f profile =
  pf_move_step_min :: int
  pf_move_step_max :: int
  pf_min_steps :: int
  pf_max_steps :: int
  pf_jitter :: 'f
  pf_overshoot_chance :: 'f
  pf_overshoot_min :: 'f
  pf_overshoot_max :: 'f
  pf_dwell_min :: int
  pf_dwell_max :: int
  pf_hold_min :: int
  pf_hold_max :: int
  pf_key_min :: int
  pf_key_max :: int
  pf_pause_min :: int
  pf_pause_max :: int
  pf_typo_chance :: 'f
  pf_fix_min :: int
  pf_fix_max :: int
  pf_burst_events_min :: int
  pf_burst_events_max :: int
  pf_delta_min :: int
  pf_delta_max :: int
  pf_event_delay_min :: int
  pf_event_delay_max :: int
  pf_burst_pause_min :: int
  pf_burst_pause_max :: int
  pf_correction_chance :: 'f
  pf_correction_min :: int
  pf_correction_max :: int

definition balanced_profile :: "('f, 'g) human_libs \<Rightarrow> 'f profile" where
  "balanced_profile L = \<lparr>
     pf_move_step_min = 6, pf_move_step_max = 16, pf_min_steps = 12, pf_max_steps = 58,
     pf_jitter = fl_dec L 14 1, pf_overshoot_chance = fl_dec L 14 2, pf_overshoot_min = fl_of_int L 6, pf_overshoot_max = fl_of_int L 20,
     pf_dwell_min = 45, pf_dwell_max = 140, pf_hold_min = 20, pf_hold_max = 82,
     pf_key_min = 24, pf_key_max = 130, pf_pause_min = 70, pf_pause_max = 220,
     pf_typo_chance = fl_dec L 15 3, pf_fix_min = 35, pf_fix_max = 110,
     pf_burst_events_min = 2, pf_burst_events_max = 6, pf_delta_min = 32, pf_delta_max = 180,
     pf_event_delay_min = 11, pf_event_delay_max = 34, pf_burst_pause_min = 120, pf_burst_pause_max = 460,
     pf_correction_chance = fl_dec L 12 2, pf_correction_min = 10, pf_correction_max = 80\<rparr>"

definition aggressive_profile :: "('f, 'g) human_libs \<Rightarrow> 'f profile" where
  "aggressive_profile L = \<lparr>
     pf_move_step_min = 4, pf_move_step_max = 12, pf_min_steps = 18, pf_max_steps = 76,
     pf_jitter = fl_dec L 21 1, pf_overshoot_chance = fl_dec L 30 2, pf_overshoot_min = fl_of_int L 8, pf_overshoot_max = fl_of_int L 28,
     pf_dwell_min = 58, pf_dwell_max = 220, pf_hold_min = 28, pf_hold_max = 120,
     pf_key_min = 35, pf_key_max = 190, pf_pause_min = 110, pf_pause_max = 360,
     pf_typo_chance = fl_dec L 30 3, pf_fix_min = 50, pf_fix_max = 170,
     pf_burst_events_min = 3, pf_burst_events_max = 8, pf_delta_min = 28, pf_delta_max = 210,
     pf_event_delay_min = 9, pf_event_delay_max = 42, pf_burst_pause_min = 170, pf_burst_pause_max = 650,
     pf_correction_chance = fl_dec L 20 2, pf_correction_min = 14, pf_correction_max = 120\<rparr>"

definition humanize_profile_for_mode :: "('f, 'g) human_libs \<Rightarrow> (gostr \<Rightarrow> gostr) \<Rightarrow> gostr \<Rightarrow> 'f profile option" where
  "humanize_profile_for_mode L lower mode =
     (let m = lower (trim_space mode) in
      if m \<in> {[], ''off'', ''disabled'', ''none'', ''false'', ''0''} then None
      else if m \<in> {''on'', ''true'', ''enabled'', ''balanced''} then Some (balanced_profile L)
      else if m = ''aggressive'' then Some (aggressive_profile L)
      else None)"

record ('f, 'g) human =
  hu_profile :: "'f profile"
  hu_rng :: 'g
  hu_cursor :: "'f point"
  hu_has_cursor :: bool

definition new_humanizer ::
  "('f, 'g) human_libs \<Rightarrow> (gostr \<Rightarrow> gostr) \<Rightarrow> int \<Rightarrow> gostr \<Rightarrow> int \<Rightarrow> ('f, 'g) human option" where
  "new_humanizer L lower nanos mode seed =
     map_option (\<lambda>p. \<lparr>hu_profile = p, hu_rng = rg_new L (if seed = 0 then nanos else seed),
         hu_cursor = \<lparr>pt_x = fl_of_int L 0, pt_y = fl_of_int L 0\<rparr>, hu_has_cursor = False\<rparr>)
       (humanize_profile_for_mode L lower mode)"

section \<open>Chance\<close>

type_synonym ('f, 'g, 'a) draw = "(('f, 'g) human, 'a) state"

definition draw :: "('g \<Rightarrow> 'a \<times> 'g) \<Rightarrow> ('f, 'g, 'a) draw" where
  "draw f = State (\<lambda>h. case f (hu_rng h) of (a, g) \<Rightarrow> (a, h\<lparr>hu_rng := g\<rparr>))"

definition random_int :: "('f, 'g) human_libs \<Rightarrow> int \<Rightarrow> int \<Rightarrow> ('f, 'g, int) draw" where
  "random_int L lo hi =
     (let (lo, hi) = (if hi < lo then (hi, lo) else (lo, hi)) in
      if lo = hi then State_Monad.return lo
      else do { k \<leftarrow> draw (rg_intn L (hi - lo + 1)); State_Monad.return (lo + k) })"

definition random_float :: "('f, 'g) human_libs \<Rightarrow> 'f \<Rightarrow> 'f \<Rightarrow> ('f, 'g, 'f) draw" where
  "random_float L lo hi =
     (let (lo, hi) = (if fl_less L hi lo then (hi, lo) else (lo, hi)) in
      if fl_eq L lo hi then State_Monad.return lo
      else do { u \<leftarrow> draw (rg_float L); State_Monad.return (fl_add L lo (fl_mul L u (fl_sub L hi lo))) })"

definition chance :: "('f, 'g) human_libs \<Rightarrow> 'f \<Rightarrow> ('f, 'g, bool) draw" where
  "chance L p =
     (if fl_le L p (fl_of_int L 0) then State_Monad.return False
      else if fl_le L (fl_of_int L 1) p then State_Monad.return True
      else do { u \<leftarrow> draw (rg_float L); State_Monad.return (fl_less L u p) })"

definition signed_random :: "('f, 'g) human_libs \<Rightarrow> 'f \<Rightarrow> 'f \<Rightarrow> ('f, 'g, 'f) draw" where
  "signed_random L lo hi =
     (let (lo, hi) = (if fl_less L hi lo then (hi, lo) else (lo, hi)) in do {
        u \<leftarrow> draw (rg_float L);
        v \<leftarrow> draw (rg_float L);
        let x = fl_add L lo (fl_mul L u (fl_sub L hi lo));
        State_Monad.return (if fl_less L v (fl_dec L 5 1) then fl_neg L x else x) })"

section \<open>Points\<close>

definition normalize_viewport_size :: "('f, 'g) human_libs \<Rightarrow> 'f viewport \<Rightarrow> 'f viewport" where
  "normalize_viewport_size L v = \<lparr>
     vp_width = (if fl_less L (vp_width v) (fl_of_int L 64) then fl_of_int L 1280 else vp_width v),
     vp_height = (if fl_less L (vp_height v) (fl_of_int L 64) then fl_of_int L 720 else vp_height v)\<rparr>"

definition clamp_point :: "('f, 'g) human_libs \<Rightarrow> 'f viewport \<Rightarrow> 'f point \<Rightarrow> 'f point" where
  "clamp_point L vp p =
     (let v = normalize_viewport_size L vp; one = fl_of_int L 1 in
      \<lparr>pt_x = clamp_float L (pt_x p) one (fl_sub L (vp_width v) one),
       pt_y = clamp_float L (pt_y p) one (fl_sub L (vp_height v) one)\<rparr>)"

definition point_distance :: "('f, 'g) human_libs \<Rightarrow> 'f point \<Rightarrow> 'f point \<Rightarrow> 'f" where
  "point_distance L a b = fl_hypot L (fl_sub L (pt_x a) (pt_x b)) (fl_sub L (pt_y a) (pt_y b))"

definition cubic_bezier_point ::
  "('f, 'g) human_libs \<Rightarrow> 'f point \<Rightarrow> 'f point \<Rightarrow> 'f point \<Rightarrow> 'f point \<Rightarrow> 'f \<Rightarrow> 'f point" where
  "cubic_bezier_point L p0 p1 p2 p3 t =
     (let t = (if fl_less L t (fl_of_int L 0) then fl_of_int L 0 else t);
          t = (if fl_less L (fl_of_int L 1) t then fl_of_int L 1 else t);
          mt = fl_sub L (fl_of_int L 1) t; mt2 = fl_mul L mt mt; t2 = fl_mul L t t;
          three = fl_of_int L 3;
          at = (\<lambda>a b c d. fl_add L (fl_add L (fl_add L (fl_mul L (fl_mul L mt2 mt) a)
                 (fl_mul L (fl_mul L (fl_mul L three mt2) t) b)) (fl_mul L (fl_mul L (fl_mul L three mt) t2) c))
                 (fl_mul L (fl_mul L t2 t) d))
      in \<lparr>pt_x = at (pt_x p0) (pt_x p1) (pt_x p2) (pt_x p3), pt_y = at (pt_y p0) (pt_y p1) (pt_y p2) (pt_y p3)\<rparr>)"

definition pick_target_point ::
  "('f, 'g) human_libs \<Rightarrow> 'f geometry \<Rightarrow> 'f viewport \<Rightarrow> ('f, 'g, 'f point) draw" where
  "pick_target_point L ge vp =
     (let two = fl_of_int L 2; twelve = fl_of_int L 12;
          pad_x = clamp_float L (fl_mul L (ge_width ge) (fl_dec L 18 2)) two twelve;
          pad_y = clamp_float L (fl_mul L (ge_height ge) (fl_dec L 18 2)) two twelve;
          right = fl_add L (ge_left ge) (ge_width ge); bottom = fl_add L (ge_top ge) (ge_height ge);
          x_min = fl_add L (ge_left ge) pad_x; x_max = fl_sub L right pad_x;
          y_min = fl_add L (ge_top ge) pad_y; y_max = fl_sub L bottom pad_y;
          (x_min, x_max) = (if fl_le L x_max x_min then (ge_left ge, right) else (x_min, x_max));
          (y_min, y_max) = (if fl_le L y_max y_min then (ge_top ge, bottom) else (y_min, y_max))
      in do {
        u \<leftarrow> random_float L (fl_of_int L 0) (fl_of_int L 1);
        v \<leftarrow> random_float L (fl_of_int L 0) (fl_of_int L 1);
        State_Monad.return (clamp_point L vp
          \<lparr>pt_x = fl_add L x_min (fl_mul L (fl_sub L x_max x_min) u),
           pt_y = fl_add L y_min (fl_mul L (fl_sub L y_max y_min) v)\<rparr>) })"

definition set_cursor :: "'f point \<Rightarrow> ('f, 'g, unit) draw" where
  "set_cursor p = State (\<lambda>h. ((), h\<lparr>hu_cursor := p, hu_has_cursor := True\<rparr>))"

definition current_or_seed_cursor ::
  "('f, 'g) human_libs \<Rightarrow> 'f point \<Rightarrow> 'f viewport \<Rightarrow> ('f, 'g, 'f point) draw" where
  "current_or_seed_cursor L target vp = do {
     h \<leftarrow> State_Monad.get;
     if hu_has_cursor h then State_Monad.return (clamp_point L vp (hu_cursor h))
     else do {
       dx \<leftarrow> signed_random L (fl_of_int L 34) (fl_of_int L 180);
       dy \<leftarrow> signed_random L (fl_of_int L 28) (fl_of_int L 140);
       let p = clamp_point L vp \<lparr>pt_x = fl_add L (pt_x target) dx, pt_y = fl_add L (pt_y target) dy\<rparr>;
       _ \<leftarrow> set_cursor p;
       State_Monad.return p } }"

section \<open>The path of the mouse\<close>

text \<open>The points of the loop, for the numbers \<open>i\<close> that are left of 0 to \<open>steps\<close>.\<close>

primrec bezier_points ::
  "('f, 'g) human_libs \<Rightarrow> 'f viewport \<Rightarrow> (int \<Rightarrow> 'f point) \<Rightarrow> int \<Rightarrow> int list \<Rightarrow> ('f, 'g, 'f point list) draw" where
  "bezier_points L vp curve steps [] = State_Monad.return []"
| "bezier_points L vp curve steps (i # is) = do {
     h \<leftarrow> State_Monad.get;
     let p = curve i;
     p \<leftarrow> (if 0 < i \<and> i < steps
           then do {
             let jitter = (if steps - 3 \<le> i then pf_jitter (hu_profile h) else fl_mul L (pf_jitter (hu_profile h)) (fl_dec L 20 2));
             jx \<leftarrow> random_float L (fl_neg L jitter) jitter;
             jy \<leftarrow> random_float L (fl_neg L jitter) jitter;
             State_Monad.return \<lparr>pt_x = fl_add L (pt_x p) jx, pt_y = fl_add L (pt_y p) jy\<rparr> }
           else State_Monad.return p);
     ps \<leftarrow> bezier_points L vp curve steps is;
     State_Monad.return (clamp_point L vp p # ps) }"

definition segment_steps :: "('f, 'g) human_libs \<Rightarrow> 'f profile \<Rightarrow> 'f \<Rightarrow> int \<Rightarrow> int" where
  "segment_steps L pf d k =
     (let steps = fl_to_int L (fl_round L (fl_div L d (fl_dec L 95 1))) + k;
          steps = clamp_int steps (pf_min_steps pf) (pf_max_steps pf)
      in if steps < 2 then 2 else steps)"

definition build_bezier_segment ::
  "('f, 'g) human_libs \<Rightarrow> 'f point \<Rightarrow> 'f point \<Rightarrow> 'f viewport \<Rightarrow> ('f, 'g, 'f point list) draw" where
  "build_bezier_segment L start end_pt vp = do {
     h \<leftarrow> State_Monad.get;
     k \<leftarrow> random_int L (- 2) 3;
     let steps = segment_steps L (hu_profile h) (point_distance L start end_pt) k;
     let dx = fl_sub L (pt_x end_pt) (pt_x start);
     let dy = fl_sub L (pt_y end_pt) (pt_y start);
     let len = fl_hypot L dx dy;
     if fl_less L len (fl_dec L 1 3) then State_Monad.return [start, end_pt]
     else do {
       let perp_x = fl_div L (fl_neg L dy) len;
       let perp_y = fl_div L dx len;
       c \<leftarrow> random_float L (fl_dec L 7 2) (fl_dec L 19 2);
       flip \<leftarrow> chance L (fl_dec L 5 1);
       let curve = (if flip then fl_neg L (fl_mul L len c) else fl_mul L len c);
       let c1 = \<lparr>pt_x = fl_add L (fl_add L (pt_x start) (fl_mul L dx (fl_dec L 33 2))) (fl_mul L perp_x curve),
                 pt_y = fl_add L (fl_add L (pt_y start) (fl_mul L dy (fl_dec L 33 2))) (fl_mul L perp_y curve)\<rparr>;
       u \<leftarrow> random_float L (fl_dec L 55 2) (fl_dec L 105 2);
       v \<leftarrow> random_float L (fl_dec L 55 2) (fl_dec L 105 2);
       let c2 = \<lparr>pt_x = fl_sub L (fl_add L (pt_x start) (fl_mul L dx (fl_dec L 66 2))) (fl_mul L (fl_mul L perp_x curve) u),
                 pt_y = fl_sub L (fl_add L (pt_y start) (fl_mul L dy (fl_dec L 66 2))) (fl_mul L (fl_mul L perp_y curve) v)\<rparr>;
       path \<leftarrow> bezier_points L vp
         (\<lambda>i. cubic_bezier_point L start c1 c2 end_pt (fl_div L (fl_of_int L i) (fl_of_int L steps))) steps [0..steps];
       State_Monad.return (path[0 := start, length path - 1 := end_pt]) } }"

definition build_mouse_path ::
  "('f, 'g) human_libs \<Rightarrow> 'f point \<Rightarrow> 'f point \<Rightarrow> 'f viewport \<Rightarrow> bool \<Rightarrow> ('f, 'g, 'f point list) draw" where
  "build_mouse_path L start end_pt vp allow_overshoot =
     (let start = clamp_point L vp start; end_pt = clamp_point L vp end_pt in do {
        h \<leftarrow> State_Monad.get;
        shoot \<leftarrow> (if allow_overshoot then chance L (pf_overshoot_chance (hu_profile h)) else State_Monad.return False);
        let dx = fl_sub L (pt_x end_pt) (pt_x start);
        let dy = fl_sub L (pt_y end_pt) (pt_y start);
        let len = fl_hypot L dx dy;
        if shoot \<and> fl_less L (fl_of_int L 80) (point_distance L start end_pt) \<and> fl_less L (fl_of_int L 0) len
        then do {
          d \<leftarrow> random_float L (pf_overshoot_min (hu_profile h)) (pf_overshoot_max (hu_profile h));
          let over = clamp_point L vp \<lparr>pt_x = fl_add L (pt_x end_pt) (fl_mul L (fl_div L dx len) d),
                                       pt_y = fl_add L (pt_y end_pt) (fl_mul L (fl_div L dy len) d)\<rparr>;
          first \<leftarrow> build_bezier_segment L start over vp;
          snd_part \<leftarrow> build_bezier_segment L over end_pt vp;
          if 1 < length first \<and> snd_part \<noteq> [] then State_Monad.return (butlast first @ snd_part)
          else build_bezier_segment L start end_pt vp }
        else build_bezier_segment L start end_pt vp })"

section \<open>The methods\<close>

text \<open>The world of the client with the humanizer in it. The connection leaves the humanizer as it is.\<close>

definition beside :: "('w \<Rightarrow> 'a \<times> 'w) \<Rightarrow> 'w \<times> 'h \<Rightarrow> 'a \<times> 'w \<times> 'h" where
  "beside f wh = (case f (fst wh) of (a, w) \<Rightarrow> (a, w, snd wh))"

definition human_conn :: "'w conn \<Rightarrow> ('w \<times> 'h) conn" where
  "human_conn c = \<lparr>cn_write = (\<lambda>ctx n cmd. beside (cn_write c ctx n cmd)),
     cn_arriving = (\<lambda>ctx wh. cn_arriving c ctx (fst wh)),
     cn_taken = (\<lambda>k wh. (cn_taken c k (fst wh), snd wh)),
     cn_now = (\<lambda>wh. cn_now c (fst wh)),
     cn_wait = (\<lambda>ctx d. beside (cn_wait c ctx d)),
     cn_ctx_error = (\<lambda>ctx wh. cn_ctx_error c ctx (fst wh)),
     cn_decode_value = cn_decode_value c, cn_decode_data = cn_decode_data c, cn_encode_value = cn_encode_value c,
     cn_decode_text = cn_decode_text c, cn_quote = cn_quote c, cn_lower = cn_lower c\<rparr>"

definition drawn :: "('f, 'g, 'a) draw \<Rightarrow> ('w \<times> ('f, 'g) human, 'a) cdp" where
  "drawn m = on_conn (\<lambda>(w, h). case run_state m h of (a, h') \<Rightarrow> (a, w, h'))"

text \<open>Commands that were sent, one after the other.\<close>

definition sends :: "'w conn \<Rightarrow> ctx \<Rightarrow> command \<Rightarrow> ('w, go_error + command list) cdp" where
  "sends c ctx cmd = and_then (perform c ctx cmd) (\<lambda>_. answer (Inr [cmd]))"

definition silent :: "('w, go_error + unit) cdp \<Rightarrow> ('w, go_error + command list) cdp" where
  "silent m = and_then m (\<lambda>_. answer (Inr []))"

definition followed_by ::
  "('w, go_error + command list) cdp \<Rightarrow> ('w, go_error + command list) cdp \<Rightarrow> ('w, go_error + command list) cdp" where
  "followed_by m k = and_then m (\<lambda>xs. and_then k (\<lambda>ys. answer (Inr (xs @ ys))))"

definition mouse_command ::
  "('f, 'g) human_libs \<Rightarrow> gostr \<Rightarrow> 'f point \<Rightarrow> gostr \<Rightarrow> int \<Rightarrow> 'f \<Rightarrow> 'f \<Rightarrow> command" where
  "mouse_command L typ p button clicks dx dy =
     (let txt = (\<lambda>v. fl_json L (round_to_one_decimal L v)) in
      MouseEvent \<lparr>me_type = typ, me_x = txt (pt_x p), me_y = txt (pt_y p), me_button = button,
        me_clicks = (if clicks > 0 then clicks else 0),
        me_dx = (if fl_eq L dx (fl_of_int L 0) then None else Some (txt dx)),
        me_dy = (if fl_eq L dy (fl_of_int L 0) then None else Some (txt dy))\<rparr>)"

definition dispatch_mouse_event ::
  "('f, 'g) human_libs \<Rightarrow> 'w conn \<Rightarrow> ctx \<Rightarrow> gostr \<Rightarrow> 'f point \<Rightarrow> gostr \<Rightarrow> int \<Rightarrow> 'f \<Rightarrow> 'f \<Rightarrow>
   ('w, go_error + command list) cdp" where
  "dispatch_mouse_event L c ctx typ p button clicks dx dy =
     (if blank typ then answer (Inl (new_error ''mouse event type is required''))
      else sends c ctx (mouse_command L (trim_space typ) p (if blank button then ''none'' else button) clicks dx dy))"

definition insert_text :: "'w conn \<Rightarrow> ctx \<Rightarrow> gostr \<Rightarrow> ('w, go_error + command list) cdp" where
  "insert_text c ctx t = (if t = [] then answer (Inr []) else sends c ctx (InsertText t))"

definition dispatch_backspace :: "'w conn \<Rightarrow> ctx \<Rightarrow> ('w, go_error + command list) cdp" where
  "dispatch_backspace c ctx = followed_by (sends c ctx (BackspaceKey ''keyDown'')) (sends c ctx (BackspaceKey ''keyUp''))"

text \<open>\<open>sleepWithContext\<close> is \<open>pause_if\<close>.\<close>

definition sleep_random ::
  "('f, 'g) human_libs \<Rightarrow> ('w \<times> ('f, 'g) human) conn \<Rightarrow> ctx \<Rightarrow> int \<Rightarrow> int \<Rightarrow> ('w \<times> ('f, 'g) human, go_error + command list) cdp" where
  "sleep_random L c ctx lo hi =
     (if lo \<le> 0 \<and> hi \<le> 0 then answer (Inr [])
      else do {
        delay \<leftarrow> drawn (random_int L lo hi);
        if delay \<le> 0 then answer (Inr []) else silent (pause_if c ctx (delay * millisecond)) })"

definition get_profile :: "('w \<times> ('f, 'g) human, 'f profile) cdp" where
  "get_profile = State (\<lambda>s. (hu_profile (snd (cl_conn s)), s))"

definition resolve_element_geometry ::
  "('f, 'g) human_libs \<Rightarrow> 'w conn \<Rightarrow> ctx \<Rightarrow> gostr \<Rightarrow> ('w, go_error + 'f geometry) cdp" where
  "resolve_element_geometry L c ctx sel =
     and_then (evaluate_any c ctx (GeometryOf sel)) (\<lambda>v.
     and_then (answer (cn_encode_value c v)) (\<lambda>payload.
     and_then (answer (hl_decode_geometry L payload)) (\<lambda>ge.
     answer (if \<not> ge_ok ge
             then (let reason = trim_space (ge_error ge) in
                   Inl (new_error (''element lookup failed: '' @ (if reason = [] then ''not_found'' else reason))))
             else if fl_le L (ge_width ge) (fl_of_int L 1) \<or> fl_le L (ge_height ge) (fl_of_int L 1)
             then Inl (new_error ''element has invalid geometry'')
             else Inr ge))))"

definition focus_and_clear_for_type :: "'w conn \<Rightarrow> ctx \<Rightarrow> gostr \<Rightarrow> ('w, go_error + unit) cdp" where
  "focus_and_clear_for_type c ctx sel =
     and_then (evaluate_string c ctx (FocusAndClear sel)) (\<lambda>r.
     answer (if trim_space r \<noteq> ''ok'' then Inl (new_error (''focus failed: '' @ trim_space r)) else Inr ()))"

definition resolve_viewport :: "('f, 'g) human_libs \<Rightarrow> 'w conn \<Rightarrow> ctx \<Rightarrow> ('w, go_error + 'f viewport) cdp" where
  "resolve_viewport L c ctx =
     and_then (evaluate_any c ctx ViewportSize) (\<lambda>v.
     and_then (answer (cn_encode_value c v)) (\<lambda>payload.
     answer (hl_decode_viewport L payload)))"

subsection \<open>Click\<close>

primrec move_along ::
  "('f, 'g) human_libs \<Rightarrow> ('w \<times> ('f, 'g) human) conn \<Rightarrow> ctx \<Rightarrow> 'f point list \<Rightarrow> ('w \<times> ('f, 'g) human, go_error + command list) cdp" where
  "move_along L c ctx [] = answer (Inr [])"
| "move_along L c ctx (p # ps) =
     followed_by (dispatch_mouse_event L c ctx ''mouseMoved'' p ''none'' 0 (fl_of_int L 0) (fl_of_int L 0))
       (if ps = [] then answer (Inr [])
        else do {
          pf \<leftarrow> get_profile;
          followed_by (sleep_random L c ctx (pf_move_step_min pf) (pf_move_step_max pf)) (move_along L c ctx ps) })"

definition human_click ::
  "('f, 'g) human_libs \<Rightarrow> ('w \<times> ('f, 'g) human) conn \<Rightarrow> ctx \<Rightarrow> gostr \<Rightarrow> ('w \<times> ('f, 'g) human, go_error + command list) cdp" where
  "human_click L c ctx selector =
     (let sel = trim_space selector; none = fl_of_int L 0 in
      if sel = [] then selector_required
      else and_then (resolve_element_geometry L c ctx sel) (\<lambda>ge.
        let vp = normalize_viewport_size L \<lparr>vp_width = ge_viewport_width ge, vp_height = ge_viewport_height ge\<rparr> in do {
          pf \<leftarrow> get_profile;
          target \<leftarrow> drawn (pick_target_point L ge vp);
          start \<leftarrow> drawn (current_or_seed_cursor L target vp);
          path \<leftarrow> drawn (build_mouse_path L start target vp True);
          and_then (followed_by (move_along L c ctx path)
            (followed_by (sleep_random L c ctx (pf_dwell_min pf) (pf_dwell_max pf))
            (followed_by (dispatch_mouse_event L c ctx ''mousePressed'' target ''left'' 1 none none)
            (followed_by (sleep_random L c ctx (pf_hold_min pf) (pf_hold_max pf))
              (dispatch_mouse_event L c ctx ''mouseReleased'' target ''left'' 1 none none)))))
          (\<lambda>cmds. do { _ \<leftarrow> drawn (set_cursor target); answer (Inr cmds) }) }))"

subsection \<open>Type\<close>

definition pausing_marks :: gostr where
  "pausing_marks = ''.,;:!?)]}'' @ [CHR 0x22, CHR 0x27]"

definition key_delay_for_rune :: "('f, 'g) human_libs \<Rightarrow> gostr \<Rightarrow> ('f, 'g, duration) draw" where
  "key_delay_for_rune L r = do {
     h \<leftarrow> State_Monad.get;
     let pf = hu_profile h;
     k \<leftarrow> random_int L (pf_key_min pf) (pf_key_max pf);
     d \<leftarrow> (if hl_is_upper L r then do { x \<leftarrow> random_float L (fl_of_int L 8) (fl_of_int L 26);
                                     State_Monad.return (fl_add L (fl_of_int L k) x) }
          else State_Monad.return (fl_of_int L k));
     d \<leftarrow> (if hl_is_space L r \<or> r \<in> (\<lambda>ch. [ch]) ` set pausing_marks
          then do { p \<leftarrow> random_int L (pf_pause_min pf) (pf_pause_max pf);
                    State_Monad.return (fl_add L d (fl_of_int L p)) }
          else State_Monad.return d);
     State_Monad.return (fl_to_int L (clamp_float L d (fl_of_int L 8) (fl_of_int L 900)) * millisecond) }"

definition should_inject_typo :: "('f, 'g) human_libs \<Rightarrow> gostr \<Rightarrow> ('f, 'g, bool) draw" where
  "should_inject_typo L r = do {
     h \<leftarrow> State_Monad.get;
     if fl_le L (pf_typo_chance (hu_profile h)) (fl_of_int L 0) then State_Monad.return False
     else if \<not> hl_is_letter L r then State_Monad.return False
     else chance L (pf_typo_chance (hu_profile h)) }"

definition qwerty_neighbors :: "(char \<times> gostr) list" where
  "qwerty_neighbors =
     [(CHR ''a'', ''qwsz''), (CHR ''b'', ''vghn''), (CHR ''c'', ''xdfv''), (CHR ''d'', ''serfcx''), (CHR ''e'', ''wsdr''),
      (CHR ''f'', ''drtgvc''), (CHR ''g'', ''ftyhbv''), (CHR ''h'', ''gyujnb''), (CHR ''i'', ''ujko''), (CHR ''j'', ''huikmn''),
      (CHR ''k'', ''jiolm''), (CHR ''l'', ''kop''), (CHR ''m'', ''njk''), (CHR ''n'', ''bhjm''), (CHR ''o'', ''iklp''),
      (CHR ''p'', ''ol''), (CHR ''q'', ''wa''), (CHR ''r'', ''edft''), (CHR ''s'', ''awedxz''), (CHR ''t'', ''rfgy''),
      (CHR ''u'', ''yhji''), (CHR ''v'', ''cfgb''), (CHR ''w'', ''qase''), (CHR ''x'', ''zsdc''), (CHR ''y'', ''tghu''),
      (CHR ''z'', ''asx'')]"

definition nearby_typo_rune :: "('f, 'g) human_libs \<Rightarrow> gostr \<Rightarrow> ('f, 'g, gostr option) draw" where
  "nearby_typo_rune L r =
     (case (case hl_rune_lower L r of [ch] \<Rightarrow> map_of qwerty_neighbors ch | _ \<Rightarrow> None) of
        None \<Rightarrow> State_Monad.return None
      | Some ns \<Rightarrow> do {
          k \<leftarrow> draw (rg_intn L (int (length ns)));
          let choice = [ns ! nat k];
          State_Monad.return (Some (if hl_is_upper L r then hl_rune_upper L choice else choice)) })"

text \<open>A slip of the finger, taken back; the flag says whether one was made.\<close>

definition slip ::
  "('f, 'g) human_libs \<Rightarrow> ('w \<times> ('f, 'g) human) conn \<Rightarrow> ctx \<Rightarrow> gostr \<Rightarrow> ('w \<times> ('f, 'g) human, go_error + command list \<times> bool) cdp" where
  "slip L c ctx r = do {
     inject \<leftarrow> drawn (should_inject_typo L r);
     typo \<leftarrow> (if inject then drawn (nearby_typo_rune L r) else State_Monad.return None);
     case typo of
       None \<Rightarrow> answer (Inr ([], False))
     | Some t \<Rightarrow>
         and_then (followed_by (insert_text c ctx t)
           (followed_by (do { d \<leftarrow> drawn (key_delay_for_rune L t); silent (pause_if c ctx d) })
           (followed_by (dispatch_backspace c ctx)
             (do { pf \<leftarrow> get_profile; sleep_random L c ctx (pf_fix_min pf) (pf_fix_max pf) }))))
         (\<lambda>cmds. answer (Inr (cmds, True))) }"

primrec type_runes ::
  "('f, 'g) human_libs \<Rightarrow> ('w \<times> ('f, 'g) human) conn \<Rightarrow> ctx \<Rightarrow> bool \<Rightarrow> gostr list \<Rightarrow> ('w \<times> ('f, 'g) human, go_error + command list) cdp" where
  "type_runes L c ctx typed_typo [] = answer (Inr [])"
| "type_runes L c ctx typed_typo (r # rs) =
     and_then (if typed_typo then answer (Inr ([], False)) else slip L c ctx r) (\<lambda>(cmds, slipped).
     followed_by (answer (Inr cmds))
     (followed_by (insert_text c ctx r)
     (followed_by (do { d \<leftarrow> drawn (key_delay_for_rune L r); silent (pause_if c ctx d) })
       (type_runes L c ctx (typed_typo \<or> slipped) rs))))"

definition human_type ::
  "('f, 'g) human_libs \<Rightarrow> ('w \<times> ('f, 'g) human) conn \<Rightarrow> ctx \<Rightarrow> gostr \<Rightarrow> gostr \<Rightarrow> ('w \<times> ('f, 'g) human, go_error + command list) cdp" where
  "human_type L c ctx selector text =
     (let sel = trim_space selector in
      if sel = [] then selector_required
      else followed_by (human_click L c ctx sel)
           (followed_by (silent (focus_and_clear_for_type c ctx sel)) (type_runes L c ctx False (utf8_runes text))))"

subsection \<open>Scroll\<close>

definition current_wheel_point ::
  "('f, 'g) human_libs \<Rightarrow> ('w \<times> ('f, 'g) human) conn \<Rightarrow> ctx \<Rightarrow> ('w \<times> ('f, 'g) human, go_error + 'f point \<times> 'f viewport) cdp" where
  "current_wheel_point L c ctx = and_then (resolve_viewport L c ctx) (\<lambda>v.
     let vp = normalize_viewport_size L v in do {
       p \<leftarrow> drawn (do {
         h \<leftarrow> State_Monad.get;
         if hu_has_cursor h then State_Monad.return (clamp_point L vp (hu_cursor h))
         else do {
           dx \<leftarrow> random_float L (fl_mul L (fl_neg L (vp_width vp)) (fl_dec L 8 2)) (fl_mul L (vp_width vp) (fl_dec L 8 2));
           dy \<leftarrow> random_float L (fl_mul L (fl_neg L (vp_height vp)) (fl_dec L 11 2)) (fl_mul L (vp_height vp) (fl_dec L 11 2));
           let p = clamp_point L vp \<lparr>pt_x = fl_add L (fl_mul L (vp_width vp) (fl_dec L 50 2)) dx,
                                     pt_y = fl_add L (fl_mul L (vp_height vp) (fl_dec L 58 2)) dy\<rparr>;
           _ \<leftarrow> set_cursor p;
           State_Monad.return p } });
       answer (Inr (p, vp)) })"

primrec burst_weights :: "('f, 'g) human_libs \<Rightarrow> int \<Rightarrow> int list \<Rightarrow> ('f, 'g, 'f list) draw" where
  "burst_weights L n [] = State_Monad.return []"
| "burst_weights L n (i # is) = do {
     let one = fl_of_int L 1;
     let t = fl_div L (fl_of_int L i) (fl_of_int L (n - 1));
     let triangular = fl_sub L one (fl_abs L (fl_sub L (fl_mul L (fl_of_int L 2) t) one));
     let w = fl_add L (fl_dec L 45 2) (fl_mul L (fl_dec L 95 2) triangular);
     u \<leftarrow> draw (rg_float L);
     let w = fl_mul L w (fl_add L (fl_dec L 85 2) (fl_mul L u (fl_dec L 30 2)));
     let w = (if fl_less L w (fl_dec L 1 1) then fl_dec L 1 1 else w);
     ws \<leftarrow> burst_weights L n is;
     State_Monad.return (w # ws) }"

text \<open>The correction of the rounding: the indices of the loop, taken modulo the length.\<close>

primrec adjust_deltas :: "int \<Rightarrow> nat list \<Rightarrow> int list \<Rightarrow> int list" where
  "adjust_deltas step [] ds = ds"
| "adjust_deltas step (i # is) ds =
     (let k = i mod length ds in
      adjust_deltas step is (if step < 0 \<and> ds ! k \<le> 1 then ds else ds[k := ds ! k + step]))"

definition plan_scroll_burst_deltas ::
  "('f, 'g) human_libs \<Rightarrow> int \<Rightarrow> int \<Rightarrow> ('f, 'g, int list) draw" where
  "plan_scroll_burst_deltas L event_count amount =
     (if amount \<le> 0 then State_Monad.return []
      else if event_count \<le> 1 then State_Monad.return [amount]
      else let n = min event_count 32 in do {
        ws \<leftarrow> burst_weights L n [0..n - 1];
        let weight_sum = fold (\<lambda>w a. fl_add L a w) ws (fl_of_int L 0);
        let deltas = map (\<lambda>w. max 1 (fl_to_int L (fl_round L (fl_mul L (fl_of_int L amount) (fl_div L w weight_sum))))) ws;
        let diff = amount - sum_list deltas;
        State_Monad.return (adjust_deltas (if diff < 0 then - 1 else 1) [0..<nat \<bar>diff\<bar>] deltas) })"

definition wheel_command :: "('f, 'g) human_libs \<Rightarrow> 'f point \<Rightarrow> bool \<Rightarrow> int \<Rightarrow> command" where
  "wheel_command L p axis_y n =
     mouse_command L ''mouseWheel'' p ''none'' 0 (if axis_y then fl_of_int L 0 else fl_of_int L n)
       (if axis_y then fl_of_int L n else fl_of_int L 0)"

text \<open>The events of a burst: the commands, and the distance that remains.\<close>

primrec scroll_events ::
  "('f, 'g) human_libs \<Rightarrow> ('w \<times> ('f, 'g) human) conn \<Rightarrow> ctx \<Rightarrow> 'f point \<Rightarrow> bool \<Rightarrow> int \<Rightarrow> int \<Rightarrow> int list \<Rightarrow>
   ('w \<times> ('f, 'g) human, go_error + command list \<times> int) cdp" where
  "scroll_events L c ctx p axis_y sign remaining [] = answer (Inr ([], remaining))"
| "scroll_events L c ctx p axis_y sign remaining (d # ds) =
     and_then (sends c ctx (wheel_command L p axis_y (sign * max 1 d))) (\<lambda>cmds. do {
       pf \<leftarrow> get_profile;
       and_then (sleep_random L c ctx (pf_event_delay_min pf) (pf_event_delay_max pf)) (\<lambda>_.
         if remaining - max 1 d \<le> 0 then answer (Inr (cmds, remaining - max 1 d))
         else and_then (scroll_events L c ctx p axis_y sign (remaining - max 1 d) ds) (\<lambda>(cs, r).
           answer (Inr (cmds @ cs, r)))) })"

definition burst_of :: "('f, 'g) human_libs \<Rightarrow> int \<Rightarrow> ('f, 'g, int list) draw" where
  "burst_of L remaining = do {
     h \<leftarrow> State_Monad.get;
     let pf = hu_profile h;
     k \<leftarrow> random_int L (pf_burst_events_min pf) (pf_burst_events_max pf);
     let event_count = (if k \<le> 0 then 1 else k);
     let min_burst = event_count * max 16 (pf_delta_min pf div 2);
     let max_burst = event_count * max min_burst (pf_delta_max pf);
     let max_burst = (if max_burst < min_burst then min_burst else max_burst);
     b \<leftarrow> random_int L min_burst max_burst;
     let target = (if b > remaining then remaining else b);
     let target = (if target \<le> 0 then remaining else target);
     plan_scroll_burst_deltas L event_count target }"

text \<open>The loop over the bursts. \<open>n\<close> bounds the bursts; the distance itself is enough
  (\<open>scroll_bursts_enough\<close>).\<close>

primrec scroll_bursts ::
  "('f, 'g) human_libs \<Rightarrow> ('w \<times> ('f, 'g) human) conn \<Rightarrow> ctx \<Rightarrow> 'f point \<Rightarrow> bool \<Rightarrow> int \<Rightarrow> nat \<Rightarrow> int \<Rightarrow>
   ('w \<times> ('f, 'g) human, go_error + command list) cdp" where
  "scroll_bursts L c ctx p axis_y sign 0 remaining = answer (Inr [])"
| "scroll_bursts L c ctx p axis_y sign (Suc n) remaining =
     (if remaining \<le> 0 then answer (Inr [])
      else do {
        deltas \<leftarrow> drawn (burst_of L remaining);
        and_then (scroll_events L c ctx p axis_y sign remaining deltas) (\<lambda>(cmds, r).
          followed_by (answer (Inr cmds))
          (if r > 0
           then do {
             pf \<leftarrow> get_profile;
             followed_by (sleep_random L c ctx (pf_burst_pause_min pf) (pf_burst_pause_max pf))
               (scroll_bursts L c ctx p axis_y sign n r) }
           else answer (Inr []))) })"

definition scroll_correction ::
  "('f, 'g) human_libs \<Rightarrow> ('w \<times> ('f, 'g) human) conn \<Rightarrow> ctx \<Rightarrow> 'f point \<Rightarrow> bool \<Rightarrow> int \<Rightarrow>
   ('w \<times> ('f, 'g) human, go_error + command list) cdp" where
  "scroll_correction L c ctx p axis_y sign = do {
     pf \<leftarrow> get_profile;
     back \<leftarrow> drawn (chance L (pf_correction_chance pf));
     if back then do {
       k \<leftarrow> drawn (random_int L (pf_correction_min pf) (pf_correction_max pf));
       if k > 0 then sends c ctx (wheel_command L p axis_y (- sign * k)) else answer (Inr []) }
     else answer (Inr []) }"

definition scroll_pixels :: "int \<Rightarrow> int" where
  "scroll_pixels px = (let px = (if px \<le> 0 then 600 else px) in if px > 3000 then 3000 else px)"

definition human_scroll ::
  "('f, 'g) human_libs \<Rightarrow> ('w \<times> ('f, 'g) human) conn \<Rightarrow> ctx \<Rightarrow> gostr \<Rightarrow> int \<Rightarrow> ('w \<times> ('f, 'g) human, go_error + command list) cdp" where
  "human_scroll L c ctx direction pixels =
     (let dir = cn_lower c (trim_space direction); dir = (if dir = [] then ''down'' else dir); px = scroll_pixels pixels;
          axis_y = (dir \<noteq> ''left'' \<and> dir \<noteq> ''right''); sign = (if dir = ''up'' \<or> dir = ''left'' then - 1 else 1)
      in if dir = ''top'' \<or> dir = ''bottom'' then silent (scroll c ctx dir px)
         else and_then (current_wheel_point L c ctx) (\<lambda>(p, vp).
           and_then (followed_by (scroll_bursts L c ctx p axis_y sign (nat \<bar>px\<bar>) \<bar>px\<bar>) (scroll_correction L c ctx p axis_y sign))
             (\<lambda>cmds. do { _ \<leftarrow> drawn (set_cursor (clamp_point L vp p)); answer (Inr cmds) })))"

section \<open>In the executor\<close>

text \<open>The three operations that the executor calls.\<close>

definition executor_humanizer :: "('f, 'g) human_libs \<Rightarrow> 'w conn \<Rightarrow> ('w \<times> ('f, 'g) human) humanizer" where
  "executor_humanizer L c =
     (let drop_log = (\<lambda>m. and_then m (\<lambda>_. answer (Inr ()))) in
      \<lparr>hm_click = (\<lambda>ctx sel. drop_log (human_click L (human_conn c) ctx sel)),
       hm_type = (\<lambda>ctx sel txt. drop_log (human_type L (human_conn c) ctx sel txt)),
       hm_scroll = (\<lambda>ctx dir px. drop_log (human_scroll L (human_conn c) ctx dir px))\<rparr>)"

end
