(* ===== verification/HumanProps.thy ===== *)
theory HumanProps
  imports Humanizer
begin

text \<open>
  What the humanizer does, whatever its random numbers and its arithmetic are: the mouse stays in the
  viewport and ends on the target it clicks, typing leaves exactly the text in the field, and
  scrolling goes on until the distance is covered.
\<close>

section \<open>Draws\<close>

text \<open>A draw under a profile keeps the profile and gives a value with a property.\<close>

definition holds :: "'f profile \<Rightarrow> ('f, 'g, 'a) draw \<Rightarrow> ('a \<Rightarrow> bool) \<Rightarrow> bool" where
  "holds pf m P \<longleftrightarrow> (\<forall>h. hu_profile h = pf \<longrightarrow> hu_profile (snd (run_state m h)) = pf \<and> P (fst (run_state m h)))"

named_theorems drawing

lemma holds_return [drawing]: "P a \<Longrightarrow> holds pf (State_Monad.return a) P"
  by (simp add: holds_def)

lemma holds_bind: "holds pf m Q \<Longrightarrow> (\<And>a. Q a \<Longrightarrow> holds pf (f a) P) \<Longrightarrow> holds pf (State_Monad.bind m f) P"
  by (simp add: holds_def split_beta)

lemma holds_bind_any: "holds pf m (\<lambda>_. True) \<Longrightarrow> (\<And>a. holds pf (f a) P) \<Longrightarrow> holds pf (State_Monad.bind m f) P"
  by (simp add: holds_def split_beta)

lemma holds_bind_get:
  "(\<And>h. hu_profile h = pf \<Longrightarrow> holds pf (f h) P) \<Longrightarrow> holds pf (State_Monad.bind State_Monad.get f) P"
  by (simp add: holds_def State_Monad.get_def)

lemma holds_draw [drawing]: "holds pf (draw f) (\<lambda>_. True)"
  by (simp add: holds_def draw_def split: prod.split)

lemma holds_if [drawing]:
  "(b \<Longrightarrow> holds pf m P) \<Longrightarrow> (\<not> b \<Longrightarrow> holds pf k P) \<Longrightarrow> holds pf (if b then m else k) P"
  by simp

lemma holds_weaken: "holds pf m P \<Longrightarrow> (\<And>a. P a \<Longrightarrow> Q a) \<Longrightarrow> holds pf m Q"
  by (simp add: holds_def)

lemma holds_set_cursor [drawing]: "holds pf (set_cursor p) (\<lambda>_. True)"
  by (simp add: holds_def set_cursor_def)

lemma holds_random_int [drawing]: "holds pf (random_int L lo hi) (\<lambda>_. True)"
  unfolding random_int_def Let_def by (auto intro!: drawing holds_bind_any split: prod.split)

lemma holds_random_float [drawing]: "holds pf (random_float L lo hi) (\<lambda>_. True)"
  unfolding random_float_def Let_def by (auto intro!: drawing holds_bind_any split: prod.split)

lemma holds_chance [drawing]: "holds pf (chance L p) (\<lambda>_. True)"
  unfolding chance_def by (auto intro!: drawing holds_bind_any)

lemma holds_signed_random [drawing]: "holds pf (signed_random L lo hi) (\<lambda>_. True)"
  unfolding signed_random_def Let_def by (auto intro!: drawing holds_bind_any split: prod.split)

section \<open>The viewport\<close>

text \<open>A number is not outside of an interval, the bounds given in any order.\<close>

definition in_range :: "('f, 'g) human_libs \<Rightarrow> 'f \<Rightarrow> 'f \<Rightarrow> 'f \<Rightarrow> bool" where
  "in_range L lo hi v \<longleftrightarrow>
     (let (lo, hi) = (if fl_less L hi lo then (hi, lo) else (lo, hi)) in \<not> fl_less L v lo \<and> \<not> fl_less L hi v)"

definition in_viewport :: "('f, 'g) human_libs \<Rightarrow> 'f viewport \<Rightarrow> 'f point \<Rightarrow> bool" where
  "in_viewport L vp p \<longleftrightarrow>
     (let v = normalize_viewport_size L vp; one = fl_of_int L 1 in
      in_range L one (fl_sub L (vp_width v) one) (pt_x p) \<and> in_range L one (fl_sub L (vp_height v) one) (pt_y p))"

locale float_order =
  fixes L :: "('f, 'g) human_libs"
  assumes asym: "fl_less L a b \<Longrightarrow> \<not> fl_less L b a"
begin

lemma clamp_in_range: "in_range L lo hi (clamp_float L v lo hi)"
  using asym [of lo hi] asym [of lo lo] asym [of hi hi] by (auto simp: in_range_def clamp_float_def)

lemma clamp_in_viewport [simp]: "in_viewport L vp (clamp_point L vp p)"
  by (simp add: in_viewport_def clamp_point_def Let_def clamp_in_range)

lemma points_in_viewport:
  "holds pf (bezier_points L vp curve steps is) (\<lambda>ps. length ps = length is \<and> (\<forall>p\<in>set ps. in_viewport L vp p))"
proof (induction "is")
  case (Cons i "is")
  show ?case
    unfolding bezier_points.simps Let_def
    by (intro holds_bind_get holds_bind [OF Cons.IH] drawing holds_bind_any) auto
qed (simp add: holds_return)

text \<open>A path between two points of the viewport.\<close>

definition path_between :: "'f viewport \<Rightarrow> 'f point \<Rightarrow> 'f point \<Rightarrow> int \<Rightarrow> 'f point list \<Rightarrow> bool" where
  "path_between vp a b n ps \<longleftrightarrow> 2 \<le> length ps \<and> int (length ps) \<le> n \<and> hd ps = a \<and> last ps = b
     \<and> (\<forall>p\<in>set ps. in_viewport L vp p)"

end

definition most_steps :: "'f profile \<Rightarrow> int" where
  "most_steps pf = max 2 (max (pf_min_steps pf) (pf_max_steps pf))"

lemma segment_steps_bounds: "2 \<le> segment_steps L pf d k" "segment_steps L pf d k \<le> most_steps pf"
  by (auto simp: segment_steps_def clamp_int_def Let_def most_steps_def split: prod.split)

lemma path_ends:
  assumes "length path = Suc (Suc n)"
  shows "hd (path[0 := a, length path - 1 := b]) = a" "last (path[0 := a, length path - 1 := b]) = b"
    "set (path[0 := a, length path - 1 := b]) \<subseteq> {a, b} \<union> set path"
proof -
  obtain x y zs where p: "path = x # y # zs" using assms by (metis length_Suc_conv)
  show "hd (path[0 := a, length path - 1 := b]) = a" by (simp add: p)
  show "last (path[0 := a, length path - 1 := b]) = b" by (simp add: p last_list_update split: nat.split)
  show "set (path[0 := a, length path - 1 := b]) \<subseteq> {a, b} \<union> set path"
    using set_update_subset_insert [of "path[0 := a]" "length path - 1" b] set_update_subset_insert [of path 0 a] by auto
qed

context float_order begin

lemma segment_in_viewport:
  assumes "in_viewport L vp a" "in_viewport L vp b"
  shows "holds pf (build_bezier_segment L a b vp) (path_between vp a b (most_steps pf + 1))"
proof -
  have short: "path_between vp a b (most_steps pf + 1) [a, b]"
    using assms by (simp add: path_between_def most_steps_def)
  have long: "path_between vp a b (most_steps pf + 1) (ps[0 := a, length ps - 1 := b])"
    if "hu_profile h = pf" "length ps = length [0..segment_steps L (hu_profile h) d k] \<and> (\<forall>p\<in>set ps. in_viewport L vp p)" for h ps d k
  proof -
    have n: "length ps = Suc (Suc (nat (segment_steps L pf d k) - 1))"
      using that segment_steps_bounds(1) [of L pf d k] by simp
    show ?thesis
      using path_ends [OF n, of a b] that assms segment_steps_bounds [of L pf d k]
      unfolding path_between_def by auto
  qed
  show ?thesis
    unfolding build_bezier_segment_def Let_def
    by (intro holds_bind_get holds_bind [OF points_in_viewport] drawing holds_bind_any) (rule short | erule (1) long)+
qed

lemma mouse_path:
  "holds pf (build_mouse_path L a b vp shoot)
     (path_between vp (clamp_point L vp a) (clamp_point L vp b) (2 * most_steps pf + 1))"
proof -
  have widen: "path_between vp p q (most_steps pf + 1) ps \<Longrightarrow> path_between vp p q (2 * most_steps pf + 1) ps" for p q ps
    by (simp add: path_between_def most_steps_def)
  have join: "path_between vp p q (2 * most_steps pf + 1) (butlast xs @ ys)"
    if p1: "path_between vp p o1 (most_steps pf + 1) xs" and p2: "path_between vp o1 q (most_steps pf + 1) ys" for p q o1 xs ys
  proof -
    obtain x y zs where xs: "xs = x # y # zs"
      using p1 by (cases xs; cases "tl xs") (auto simp: path_between_def)
    have "last (butlast xs @ ys) = last ys" "hd (butlast xs @ ys) = hd xs"
      using p2 by (auto simp: path_between_def last_append xs)
    moreover have "int (length (butlast xs @ ys)) = int (length xs) + int (length ys) - 1" by (simp add: xs)
    moreover have "\<forall>p\<in>set (butlast xs @ ys). in_viewport L vp p"
      using p1 p2 by (auto simp: path_between_def dest: in_set_butlastD)
    moreover have "2 \<le> int (length xs)" "2 \<le> int (length ys)" "int (length xs) \<le> most_steps pf + 1" "int (length ys) \<le> most_steps pf + 1"
      "hd xs = p" "last ys = q"
      using p1 p2 by (simp_all add: path_between_def)
    ultimately show ?thesis unfolding path_between_def by (intro conjI) (linarith | blast | simp)+
  qed
  show ?thesis
    unfolding build_mouse_path_def Let_def
    by (intro holds_bind_get holds_bind [OF segment_in_viewport] drawing holds_bind_any holds_weaken [OF segment_in_viewport])
       (rule TrueI clamp_in_viewport | erule (1) join | erule widen)+
qed

end

section \<open>Commands that were sent\<close>

text \<open>What a computation gives when it succeeds.\<close>

definition gives :: "('w, go_error + 'a) cdp \<Rightarrow> ('a \<Rightarrow> bool) \<Rightarrow> bool" where
  "gives m P \<longleftrightarrow> (\<forall>s a s'. run_state m s = (Inr a, s') \<longrightarrow> P a)"

named_theorems giving

lemma gives_error [giving]: "gives (answer (Inl e)) P"
  by (simp add: gives_def)

lemma gives_answer: "P a \<Longrightarrow> gives (answer (Inr a)) P"
  by (simp add: gives_def)

lemma gives_weaken: "gives m P \<Longrightarrow> (\<And>a. P a \<Longrightarrow> Q a) \<Longrightarrow> gives m Q"
  unfolding gives_def by blast

lemma gives_then: "gives m Q \<Longrightarrow> (\<And>a. Q a \<Longrightarrow> gives (f a) P) \<Longrightarrow> gives (and_then m f) P"
  unfolding gives_def by (auto simp: run_and_then split: sum.splits prod.splits) blast

lemma gives_then_any: "(\<And>a. gives (f a) P) \<Longrightarrow> gives (and_then m f) P"
  by (rule gives_then [where Q = "\<lambda>_. True"]) (simp_all add: gives_def)

lemma gives_after [giving]: "(\<And>a. gives (f a) P) \<Longrightarrow> gives (State_Monad.bind m f) P"
  unfolding gives_def by (auto split: prod.splits)

lemma gives_drawn:
  "(\<And>pf. holds pf m Q) \<Longrightarrow> (\<And>a. Q a \<Longrightarrow> gives (f a) P) \<Longrightarrow> gives (State_Monad.bind (drawn m) f) P"
  unfolding gives_def holds_def drawn_def on_conn_def by (auto split: prod.splits) (metis fst_conv)

lemma gives_if [giving]: "(b \<Longrightarrow> gives m P) \<Longrightarrow> (\<not> b \<Longrightarrow> gives k P) \<Longrightarrow> gives (if b then m else k) P"
  by simp

lemma gives_followed:
  "gives m Q \<Longrightarrow> gives k R \<Longrightarrow> (\<And>xs ys. Q xs \<Longrightarrow> R ys \<Longrightarrow> P (xs @ ys)) \<Longrightarrow> gives (followed_by m k) P"
  unfolding followed_by_def by (rule gives_then, assumption, rule gives_then, assumption, rule gives_answer)

lemma gives_silent [giving]: "P [] \<Longrightarrow> gives (silent m) P"
  unfolding silent_def by (rule gives_then_any) (rule gives_answer)

lemma gives_sends: "P [cmd] \<Longrightarrow> gives (sends c ctx cmd) P"
  unfolding sends_def by (rule gives_then_any) (rule gives_answer)

lemma gives_sleep [giving]: "P [] \<Longrightarrow> gives (sleep_random L c ctx lo hi) P"
  unfolding sleep_random_def by (intro giving gives_answer)

lemma gives_sends_eq: "gives (sends c ctx cmd) (\<lambda>xs. xs = [cmd])"
  by (rule gives_sends) (rule refl)

lemma gives_followed_eq:
  "gives m (\<lambda>xs. xs = a) \<Longrightarrow> gives k (\<lambda>ys. ys = b) \<Longrightarrow> gives (followed_by m k) (\<lambda>zs. zs = a @ b)"
  by (rule gives_followed, assumption, assumption) simp

lemma gives_mouse:
  "\<not> blank typ \<Longrightarrow> trim_space typ = typ \<Longrightarrow> \<not> blank button \<Longrightarrow>
   gives (dispatch_mouse_event L c ctx typ p button clicks dx dy) (\<lambda>cmds. cmds = [mouse_command L typ p button clicks dx dy])"
  by (simp add: dispatch_mouse_event_def gives_sends)

section \<open>Clicking\<close>

abbreviation moved :: "('f, 'g) human_libs \<Rightarrow> 'f point \<Rightarrow> command" where
  "moved L p \<equiv> mouse_command L ''mouseMoved'' p ''none'' 0 (fl_of_int L 0) (fl_of_int L 0)"

abbreviation button_event :: "('f, 'g) human_libs \<Rightarrow> gostr \<Rightarrow> 'f point \<Rightarrow> command" where
  "button_event L typ p \<equiv> mouse_command L typ p ''left'' 1 (fl_of_int L 0) (fl_of_int L 0)"

lemma mouse_words [simp]:
  "trim_space ''mouseMoved'' = ''mouseMoved''" "trim_space ''mousePressed'' = ''mousePressed''"
  "trim_space ''mouseReleased'' = ''mouseReleased''" "trim_space ''none'' = ''none''" "trim_space ''left'' = ''left''"
  by (simp_all add: plain_ends_def plain_char_def)

lemma moves_sent: "gives (move_along L c ctx ps) (\<lambda>cmds. cmds = map (moved L) ps)"
proof (induction ps)
  case (Cons p ps)
  have rest: "gives (do { pf \<leftarrow> get_profile; followed_by (sleep_random L c ctx (pf_move_step_min pf) (pf_move_step_max pf)) (move_along L c ctx ps) })
      (\<lambda>cmds. cmds = map (moved L) ps)"
    by (rule gives_after, rule gives_followed [where Q = "\<lambda>xs. xs = []"], rule gives_sleep, rule refl, rule Cons.IH) simp
  show ?case
    unfolding move_along.simps
    by (rule gives_followed [OF gives_mouse gives_if [OF gives_answer [where P = "\<lambda>cmds. cmds = map (moved L) ps"] rest]]) simp_all
qed (simp add: gives_answer)

context float_order begin

lemma in_range_stays: "in_range L lo hi v \<Longrightarrow> clamp_float L v lo hi = v"
  by (cases "fl_less L hi lo") (simp_all add: in_range_def clamp_float_def)

lemma clamp_stays: "in_viewport L vp p \<Longrightarrow> clamp_point L vp p = p"
  by (simp add: in_viewport_def clamp_point_def Let_def in_range_stays)

lemma target_in_viewport: "holds pf (pick_target_point L ge vp) (in_viewport L vp)"
  unfolding pick_target_point_def Let_def
  by (auto intro!: drawing holds_bind_any split: prod.split)

text \<open>The pointer moves in the viewport to the point that is then pressed and released.\<close>

definition click_commands :: "command list \<Rightarrow> bool" where
  "click_commands cmds \<longleftrightarrow> (\<exists>vp path. 2 \<le> length path \<and> (\<forall>p\<in>set path. in_viewport L vp p)
     \<and> cmds = map (moved L) path @ [button_event L ''mousePressed'' (last path), button_event L ''mouseReleased'' (last path)])"

lemma clicks_sent: "gives (human_click L c ctx selector) click_commands"
proof -
  have path: "holds pf (build_mouse_path L a b vp shoot)
      (\<lambda>path. 2 \<le> length path \<and> last path = b \<and> (\<forall>p\<in>set path. in_viewport L vp p))" if "in_viewport L vp b" for pf a b vp shoot
    by (rule holds_weaken [OF mouse_path]) (use clamp_stays [OF that] in \<open>auto simp: path_between_def\<close>)
  have press: "gives (followed_by (sleep_random L c ctx i j) (followed_by (dispatch_mouse_event L c ctx ''mousePressed'' p ''left'' 1 z z)
      (followed_by (sleep_random L c ctx k l) (dispatch_mouse_event L c ctx ''mouseReleased'' p ''left'' 1 z z))))
      (\<lambda>cmds. cmds = [mouse_command L ''mousePressed'' p ''left'' 1 z z, mouse_command L ''mouseReleased'' p ''left'' 1 z z])" for i j k l p z
    by (rule gives_followed [where Q = "\<lambda>xs. xs = []", OF gives_sleep [OF refl] gives_followed [OF gives_mouse
          gives_followed [where Q = "\<lambda>xs. xs = []", OF gives_sleep [OF refl] gives_mouse]]]) simp_all
  show ?thesis
    unfolding human_click_def Let_def
    apply (rule gives_if, rule gives_error, rule gives_then_any, rule gives_after, rule gives_drawn [OF target_in_viewport],
        rule gives_after, rule gives_drawn [OF path], assumption)
    apply (rule gives_then [OF gives_followed [where P = click_commands, OF moves_sent press]])
     apply (auto simp: click_commands_def)[1]
    apply (rule gives_after, rule gives_answer, assumption)
    done
qed

end

section \<open>Typing\<close>

text \<open>What the commands make of a field of runes.\<close>

fun field_after :: "command list \<Rightarrow> gostr list \<Rightarrow> gostr list" where
  "field_after [] f = f"
| "field_after (InsertText t # cs) f = field_after cs (f @ utf8_runes t)"
| "field_after (BackspaceKey k # cs) f = field_after cs (if k = ''keyDown'' then butlast f else f)"
| "field_after (c # cs) f = field_after cs f"

definition is_erasure :: "command \<Rightarrow> bool" where
  "is_erasure c \<longleftrightarrow> c = BackspaceKey ''keyDown''"

lemma erasures [simp]: "\<not> is_erasure (InsertText t)" "is_erasure (BackspaceKey k) \<longleftrightarrow> k = ''keyDown''"
  by (simp_all add: is_erasure_def)

lemma field_after_append: "field_after (xs @ ys) f = field_after ys (field_after xs f)"
  by (induction xs f rule: field_after.induct) auto

definition letters :: gostr where
  "letters = ''abcdefghijklmnopqrstuvwxyz''"

locale typing_laws =
  fixes L :: "('f, 'g) human_libs"
  assumes letter_rune: "ch \<in> set letters \<Longrightarrow> utf8_runes (hl_rune_upper L [ch]) = [hl_rune_upper L [ch]]"
    and intn_range: "0 < n \<Longrightarrow> 0 \<le> fst (rg_intn L n g) \<and> fst (rg_intn L n g) < n"

lemma letter_alone: "ch \<in> set letters \<Longrightarrow> utf8_runes [ch] = [[ch]]"
proof -
  have "list_all (\<lambda>c. utf8_runes [c] = [[c]]) letters" by code_simp
  then show "ch \<in> set letters \<Longrightarrow> utf8_runes [ch] = [[ch]]" by (simp add: list_all_iff)
qed

definition single :: "gostr \<Rightarrow> bool" where
  "single r \<longleftrightarrow> utf8_runes r = [r]"

definition yields :: "('s, 'a) state \<Rightarrow> ('a \<Rightarrow> bool) \<Rightarrow> bool" where
  "yields m Q \<longleftrightarrow> (\<forall>s. Q (fst (run_state m s)))"

lemma yields_return: "Q a \<Longrightarrow> yields (State_Monad.return a) Q"
  by (simp add: yields_def)

lemma yields_drawn: "(\<And>pf. holds pf m Q) \<Longrightarrow> yields (drawn m) Q"
  unfolding yields_def holds_def drawn_def on_conn_def by (auto split: prod.splits) (metis fst_conv)

lemma gives_yields: "yields m Q \<Longrightarrow> (\<And>a. Q a \<Longrightarrow> gives (f a) P) \<Longrightarrow> gives (State_Monad.bind m f) P"
  unfolding gives_def yields_def by (auto split: prod.splits) (metis fst_conv)

lemma neighbors_are_letters: "map_of qwerty_neighbors ch = Some ns \<Longrightarrow> ns \<noteq> [] \<and> set ns \<subseteq> set letters"
proof -
  have "list_all (\<lambda>(c, ns). ns \<noteq> [] \<and> list_all (\<lambda>n. n \<in> set letters) ns) qwerty_neighbors" by code_simp
  then show "map_of qwerty_neighbors ch = Some ns \<Longrightarrow> ns \<noteq> [] \<and> set ns \<subseteq> set letters"
    by (auto simp: list_all_iff dest!: map_of_SomeD)
qed

lemma gives_delay: "gives (do { d \<leftarrow> drawn m; silent (pause_if c ctx d) }) (\<lambda>xs. xs = [])"
  by (intro giving refl)

context typing_laws begin

lemma typo_single: "holds pf (nearby_typo_rune L r) (\<lambda>t. case t of None \<Rightarrow> True | Some t \<Rightarrow> single t)"
proof -
  have "holds pf (do {
      k \<leftarrow> draw (rg_intn L (int (length ns)));
      let choice = [ns ! nat k];
      State_Monad.return (Some (if hl_is_upper L r then hl_rune_upper L choice else choice)) })
      (\<lambda>t. case t of None \<Rightarrow> True | Some t \<Rightarrow> single t)" if n: "map_of qwerty_neighbors ch = Some ns" for ch ns
  proof -
    have "holds pf (draw (rg_intn L (int (length ns)))) (\<lambda>k. 0 \<le> k \<and> k < int (length ns))"
      using intn_range [of "int (length ns)"] neighbors_are_letters [OF n]
      by (auto simp: holds_def draw_def split: prod.split) (metis fst_conv)+
    moreover have q: "ns ! nat k \<in> set letters" if "0 \<le> k \<and> k < int (length ns)" for k
      using that neighbors_are_letters [OF n] nth_mem [of "nat k" ns] by auto
    ultimately show ?thesis
      unfolding Let_def by (elim holds_bind) (intro holds_return, simp add: q letter_rune letter_alone single_def)
  qed
  then show ?thesis
    unfolding nearby_typo_rune_def by (auto intro!: holds_return split: list.split option.split)
qed

lemma insert_single: "single r \<Longrightarrow> gives (insert_text c ctx r) (\<lambda>xs. xs = [InsertText r])"
  by (auto simp: insert_text_def single_def utf8_runes.simps [of "[]"] intro: gives_sends)

lemma backspaces: "gives (dispatch_backspace c ctx) (\<lambda>xs. xs = [BackspaceKey ''keyDown'', BackspaceKey ''keyUp''])"
  unfolding dispatch_backspace_def
  using gives_followed_eq [OF gives_sends_eq gives_sends_eq] by (rule gives_weaken) simp

lemma slips: "gives (slip L c ctx r) (\<lambda>(cmds, slipped). if slipped
    then \<exists>t. single t \<and> cmds = [InsertText t, BackspaceKey ''keyDown'', BackspaceKey ''keyUp''] else cmds = [])"
proof -
  have y: "yields (if inject then drawn (nearby_typo_rune L r) else State_Monad.return None)
      (\<lambda>t. case t of None \<Rightarrow> True | Some t \<Rightarrow> single t)" for inject
    using yields_drawn [OF typo_single, of r] by (auto intro: yields_return)
  have wait: "gives (do { pf \<leftarrow> get_profile; sleep_random L c ctx (pf_fix_min pf) (pf_fix_max pf) }) (\<lambda>xs. xs = [])"
    by (intro giving refl)
  show ?thesis
    unfolding slip_def
  proof (rule gives_after, rule gives_yields [OF y])
    fix t assume t: "case t of None \<Rightarrow> True | Some t \<Rightarrow> single t"
    show "gives (case t of
        None \<Rightarrow> answer (Inr ([], False))
      | Some t \<Rightarrow> and_then (followed_by (insert_text c ctx t)
           (followed_by (do { d \<leftarrow> drawn (key_delay_for_rune L t); silent (pause_if c ctx d) })
           (followed_by (dispatch_backspace c ctx)
             (do { pf \<leftarrow> get_profile; sleep_random L c ctx (pf_fix_min pf) (pf_fix_max pf) }))))
         (\<lambda>cmds. answer (Inr (cmds, True)))) (\<lambda>(cmds, slipped). if slipped
        then \<exists>t. single t \<and> cmds = [InsertText t, BackspaceKey ''keyDown'', BackspaceKey ''keyUp''] else cmds = [])"
      (is "gives _ ?P")
    proof (cases t)
      case (Some a)
      with t have a: "single a" by simp
      show ?thesis
        unfolding Some option.case
        by (rule gives_then [OF gives_followed_eq [OF insert_single [OF a] gives_followed_eq [OF gives_delay
              gives_followed_eq [OF backspaces wait]]]], rule gives_answer) (use a in auto)
    qed (simp add: gives_answer)
  qed
qed

lemma runes_typed:
  "list_all single rs \<Longrightarrow> gives (type_runes L c ctx flag rs)
     (\<lambda>cmds. (\<forall>f. field_after cmds f = f @ rs) \<and> length (filter is_erasure cmds) \<le> (if flag then 0 else 1))"
proof (induction rs arbitrary: flag)
  case (Cons r rs)
  let ?S = "\<lambda>(cmds, slipped). if slipped
    then \<exists>t. single t \<and> cmds = [InsertText t, BackspaceKey ''keyDown'', BackspaceKey ''keyUp''] else cmds = []"
  have s: "gives (if flag then answer (Inr ([], False)) else slip L c ctx r) (\<lambda>x. ?S x \<and> (flag \<longrightarrow> \<not> snd x))"
    by (cases flag) (auto intro: gives_answer gives_weaken [OF slips])
  from Cons.prems have r: "single r" and rs: "list_all single rs" by simp_all
  show ?case
    unfolding type_runes.simps
  proof (rule gives_then [OF s])
    fix x assume x: "?S x \<and> (flag \<longrightarrow> \<not> snd x)"
    obtain cmds slipped where xe: "x = (cmds, slipped)" by fastforce
    have e: "field_after cmds f = f" "length (filter is_erasure cmds) = (if slipped then 1 else 0)" for f
      using x by (auto simp: xe single_def split: if_splits)
    show "gives (case x of (cmds, slipped) \<Rightarrow> followed_by (answer (Inr cmds))
        (followed_by (insert_text c ctx r)
        (followed_by (do { d \<leftarrow> drawn (key_delay_for_rune L r); silent (pause_if c ctx d) })
          (type_runes L c ctx (flag \<or> slipped) rs))))
      (\<lambda>cmds. (\<forall>f. field_after cmds f = f @ r # rs) \<and> length (filter is_erasure cmds) \<le> (if flag then 0 else 1))"
      unfolding xe prod.case
      apply (rule gives_followed [OF gives_answer [where P = "\<lambda>xs. xs = cmds", OF refl]
          gives_followed [where P = "\<lambda>xs. (\<forall>f. field_after xs f = f @ r # rs) \<and> length (filter is_erasure xs) \<le> (if flag \<or> slipped then 0 else 1)",
            OF insert_single [OF r] gives_followed [OF gives_delay Cons.IH [OF rs, of "flag \<or> slipped"]]]])
      using r x by (auto simp: xe e field_after_append single_def split: if_splits)
  qed
qed (simp add: gives_answer)

end

lemma mouse_keeps_field:
  "list_all (\<lambda>c. \<exists>e. c = MouseEvent e) cmds \<Longrightarrow> field_after cmds f = f"
  by (induction cmds) auto

lemma types_sent:
  assumes "typing_laws L" "float_order L"
  shows "gives (human_type L c ctx selector text) (\<lambda>cmds. \<exists>clicks keys. cmds = clicks @ keys
    \<and> float_order.click_commands L clicks \<and> field_after keys [] = utf8_runes text
    \<and> length (filter is_erasure keys) \<le> 1)"
proof -
  have "list_all single (utf8_runes text)"
    using one_rune by (auto simp: list_all_iff single_def)
  note keys = typing_laws.runes_typed [OF assms(1) this, of c ctx False]
  have focus: "gives (silent (focus_and_clear_for_type c ctx sel)) (\<lambda>xs. xs = [])" for sel
    by (intro giving refl)
  show ?thesis
    unfolding human_type_def Let_def
    by (rule gives_if, rule gives_error, rule gives_followed [OF float_order.clicks_sent [OF assms(2)]
          gives_followed [where P = "\<lambda>xs. field_after xs [] = utf8_runes text \<and> length (filter is_erasure xs) \<le> 1", OF focus keys]])
       auto
qed

section \<open>Scrolling\<close>

subsection \<open>The deltas of a burst\<close>

lemma weights_length: "holds pf (burst_weights L n is) (\<lambda>ws. length ws = length is)"
proof (induction "is")
  case (Cons i "is")
  show ?case
    unfolding burst_weights.simps Let_def
    by (rule holds_bind_any [OF holds_draw], rule holds_bind [OF Cons.IH], rule holds_return) simp
qed (simp add: holds_return)

lemma sum_list_raised: "k < length xs \<Longrightarrow> sum_list (xs[k := xs ! k + step]) = sum_list xs + (step :: int)"
  by (induction xs arbitrary: k) (auto split: nat.split)

lemma adjusted:
  assumes "step = 1 \<or> step = - 1" "\<forall>d\<in>set ds. 1 \<le> d" "ds \<noteq> []"
  shows "length (adjust_deltas step is ds) = length ds \<and> (\<forall>d\<in>set (adjust_deltas step is ds). 1 \<le> d)
    \<and> (step = 1 \<longrightarrow> sum_list (adjust_deltas step is ds) = sum_list ds + int (length is))
    \<and> (step = - 1 \<longrightarrow> sum_list ds - int (length is) \<le> sum_list (adjust_deltas step is ds))"
  using assms
proof (induction "is" arbitrary: ds)
  case (Cons i "is")
  let ?k = "i mod length ds" and ?ds = "if step < 0 \<and> ds ! (i mod length ds) \<le> 1 then ds else ds[i mod length ds := ds ! (i mod length ds) + step]"
  have k: "?k < length ds" using Cons.prems(3) by simp
  have "1 \<le> ds ! ?k" using Cons.prems(2) nth_mem [OF k] by blast
  then have "\<not> (step < 0 \<and> ds ! ?k \<le> 1) \<Longrightarrow> 1 \<le> ds ! ?k + step" using Cons.prems(1) by auto
  then have ge: "\<forall>d\<in>set ?ds. 1 \<le> d"
    using Cons.prems(2) set_update_subset_insert [of ds ?k "ds ! ?k + step"] by (auto simp: subset_iff)
  have "sum_list (ds[?k := ds ! ?k + step]) = sum_list ds + step"
    by (rule sum_list_raised [OF k])
  then have sum: "step = 1 \<Longrightarrow> sum_list ?ds = sum_list ds + 1" "step = - 1 \<Longrightarrow> sum_list ds - 1 \<le> sum_list ?ds"
    by auto
  have ne: "?ds \<noteq> []" "length ?ds = length ds" using Cons.prems(3) by auto
  from Cons.IH [OF Cons.prems(1) ge ne(1)] sum ne show ?case
    unfolding adjust_deltas.simps Let_def by auto
qed simp

lemma burst_deltas:
  assumes "0 < amount"
  shows "holds pf (plan_scroll_burst_deltas L k amount) (\<lambda>ds. ds \<noteq> [] \<and> (\<forall>d\<in>set ds. 1 \<le> d) \<and> amount \<le> sum_list ds)"
proof -
  have fixed: "adjust_deltas (if amount - sum_list ds < 0 then - 1 else 1) [0..<nat \<bar>amount - sum_list ds\<bar>] ds \<noteq> []
      \<and> (\<forall>d\<in>set (adjust_deltas (if amount - sum_list ds < 0 then - 1 else 1) [0..<nat \<bar>amount - sum_list ds\<bar>] ds). 1 \<le> d)
      \<and> amount \<le> sum_list (adjust_deltas (if amount - sum_list ds < 0 then - 1 else 1) [0..<nat \<bar>amount - sum_list ds\<bar>] ds)"
    if "ds \<noteq> []" "\<forall>d\<in>set ds. 1 \<le> d" for ds
    using adjusted [OF _ that(2,1), of "if amount - sum_list ds < 0 then - 1 else 1" "[0..<nat \<bar>amount - sum_list ds\<bar>]"] that(1)
    by (cases "amount - sum_list ds < 0") auto
  show ?thesis
    unfolding plan_scroll_burst_deltas_def Let_def
    by (intro holds_if holds_bind [OF weights_length] holds_return fixed) (use assms in \<open>auto simp: min_def split: if_splits\<close>)
qed

lemma burst_starts:
  assumes "0 < remaining"
  shows "holds pf (burst_of L remaining) (\<lambda>ds. ds \<noteq> [] \<and> (\<forall>d\<in>set ds. 1 \<le> d))"
  unfolding burst_of_def Let_def
  by (intro holds_bind_get holds_bind_any holds_random_int holds_weaken [OF burst_deltas]) (use assms in auto)

subsection \<open>The loop\<close>

definition wheeled :: "('f, 'g) human_libs \<Rightarrow> 'f point \<Rightarrow> bool \<Rightarrow> int \<Rightarrow> int list \<Rightarrow> command list" where
  "wheeled L p axis_y sign ns = map (\<lambda>n. wheel_command L p axis_y (sign * n)) ns"

lemma sum_list_pos: "ns \<noteq> [] \<Longrightarrow> \<forall>n\<in>set ns. (1 :: int) \<le> n \<Longrightarrow> 0 < sum_list ns"
proof (induction ns)
  case (Cons n ns)
  then show ?case by (cases "ns = []") auto
qed simp

lemma events_sent:
  "0 < remaining \<Longrightarrow> gives (scroll_events L c ctx p axis_y sign remaining ds) (\<lambda>(cmds, r). \<exists>ns.
     cmds = wheeled L p axis_y sign ns \<and> (\<forall>n\<in>set ns. 1 \<le> n) \<and> r = remaining - sum_list ns
     \<and> sum_list (butlast ns) < remaining \<and> (ds \<noteq> [] \<longrightarrow> ns \<noteq> []))"
proof (induction ds arbitrary: remaining)
  case Nil
  then show ?case by (auto intro!: gives_answer exI [of _ "[]"] simp: wheeled_def)
next
  case (Cons d ds)
  let ?n = "max 1 d"
  have last_one: "\<exists>ns. [wheel_command L p axis_y (sign * ?n)] = wheeled L p axis_y sign ns \<and> (\<forall>n\<in>set ns. 1 \<le> n)
      \<and> remaining - ?n = remaining - sum_list ns \<and> sum_list (butlast ns) < remaining \<and> ns \<noteq> []"
    using Cons.prems by (intro exI [of _ "[?n]"]) (simp add: wheeled_def)
  have more: "\<exists>ns'. [wheel_command L p axis_y (sign * ?n)] @ cs = wheeled L p axis_y sign ns' \<and> (\<forall>n\<in>set ns'. 1 \<le> n)
      \<and> r = remaining - sum_list ns' \<and> sum_list (butlast ns') < remaining \<and> ns' \<noteq> []"
    if "cs = wheeled L p axis_y sign ns" "\<forall>n\<in>set ns. 1 \<le> n" "r = remaining - ?n - sum_list ns"
      "sum_list (butlast ns) < remaining - ?n" for cs r ns
    using that Cons.prems by (intro exI [of _ "?n # ns"]) (auto simp: wheeled_def)
  show ?case
    unfolding scroll_events.simps
    apply (rule gives_then [OF gives_sends_eq], rule gives_after, rule gives_then_any, rule gives_if)
    subgoal for cmds pf u using last_one by (auto intro!: gives_answer)
    subgoal for cmds pf u
    proof (rule gives_then [OF Cons.IH])
      fix x assume c: "cmds = [wheel_command L p axis_y (sign * ?n)]"
        and x: "case x of (cmds, r) \<Rightarrow> \<exists>ns. cmds = wheeled L p axis_y sign ns \<and> (\<forall>n\<in>set ns. 1 \<le> n)
          \<and> r = remaining - ?n - sum_list ns \<and> sum_list (butlast ns) < remaining - ?n \<and> (ds \<noteq> [] \<longrightarrow> ns \<noteq> [])"
      obtain cs r where xe: "x = (cs, r)" by fastforce
      from x obtain ns where ns: "cs = wheeled L p axis_y sign ns" "\<forall>n\<in>set ns. 1 \<le> n"
        "r = remaining - ?n - sum_list ns" "sum_list (butlast ns) < remaining - ?n" unfolding xe by auto
      show "gives (case x of (cs, r) \<Rightarrow> answer (Inr (cmds @ cs, r))) (\<lambda>(cmds, r). \<exists>ns.
          cmds = wheeled L p axis_y sign ns \<and> (\<forall>n\<in>set ns. 1 \<le> n) \<and> r = remaining - sum_list ns
          \<and> sum_list (butlast ns) < remaining \<and> (d # ds \<noteq> [] \<longrightarrow> ns \<noteq> []))"
        using more [OF ns] by (auto simp: xe c intro!: gives_answer)
    qed (simp add: max_def split: if_splits)
    done
qed

partial_function (option) scroll_loop ::
  "('f, 'g) human_libs \<Rightarrow> ('w \<times> ('f, 'g) human) conn \<Rightarrow> ctx \<Rightarrow> 'f point \<Rightarrow> bool \<Rightarrow> int \<Rightarrow> int \<Rightarrow>
   ('w \<times> ('f, 'g) human) client \<Rightarrow> ((go_error + command list) \<times> ('w \<times> ('f, 'g) human) client) option" where
  "scroll_loop L c ctx p axis_y sign remaining s =
     (if remaining \<le> 0 then Some (Inr [], s)
      else case run_state (drawn (burst_of L remaining)) s of (deltas, s1) \<Rightarrow>
        (case run_state (scroll_events L c ctx p axis_y sign remaining deltas) s1 of
           (Inl e, t) \<Rightarrow> Some (Inl e, t)
         | (Inr (cmds, r), t) \<Rightarrow>
             if r \<le> 0 then Some (Inr cmds, t)
             else (case run_state (do { pf \<leftarrow> get_profile; sleep_random L c ctx (pf_burst_pause_min pf) (pf_burst_pause_max pf) }) t of
                 (Inl e, u) \<Rightarrow> Some (Inl e, u)
               | (Inr ws, u) \<Rightarrow>
                   Option.bind (scroll_loop L c ctx p axis_y sign r u) (\<lambda>(x, v).
                     Some (case x of Inl e \<Rightarrow> Inl e | Inr cs \<Rightarrow> Inr (cmds @ ws @ cs), v)))))"

lemma loop_bounded:
  "nat remaining \<le> n \<Longrightarrow>
   scroll_loop L c ctx p axis_y sign remaining s = Some (run_state (scroll_bursts L c ctx p axis_y sign n remaining) s)"
proof (induction n arbitrary: remaining s)
  case 0
  then show ?case by (subst scroll_loop.simps) simp
next
  case (Suc n)
  show ?case
  proof (cases "remaining \<le> 0")
    case True
    then show ?thesis by (subst scroll_loop.simps) simp
  next
    case pos: False
    obtain deltas s1 where d: "run_state (drawn (burst_of L remaining)) s = (deltas, s1)" by fastforce
    have ne: "deltas \<noteq> []"
    proof -
      have "yields (drawn (burst_of L remaining)) (\<lambda>ds. ds \<noteq> [] \<and> (\<forall>d\<in>set ds. 1 \<le> d))"
        by (rule yields_drawn, rule burst_starts) (use pos in simp)
      then have "fst (run_state (drawn (burst_of L remaining)) s) \<noteq> []" unfolding yields_def by blast
      then show ?thesis by (simp add: d)
    qed
    obtain res t where e: "run_state (scroll_events L c ctx p axis_y sign remaining deltas) s1 = (res, t)" by fastforce
    show ?thesis
    proof (cases res)
      case (Inl err)
      then show ?thesis using pos d e by (subst scroll_loop.simps) (simp add: run_and_then)
    next
      case (Inr x)
      obtain cmds r where x: "x = (cmds, r)" by fastforce
      obtain ns where "\<forall>n\<in>set ns. 1 \<le> n" "ns \<noteq> []" "r = remaining - sum_list ns"
        using events_sent [of remaining L c ctx p axis_y sign deltas] pos ne e unfolding gives_def Inr x by fastforce
      then have "r < remaining" using sum_list_pos [of ns] by simp
      then have ih: "scroll_loop L c ctx p axis_y sign r u = Some (run_state (scroll_bursts L c ctx p axis_y sign n r) u)" for u
        using Suc pos by (intro Suc.IH) simp
      show ?thesis
        using pos d e Inr x ih
        by (subst scroll_loop.simps)
           (auto simp: run_and_then followed_by_def split: prod.split sum.split)
    qed
  qed
qed

lemma bursts_sent:
  assumes "0 < remaining" "nat remaining \<le> n"
  shows "gives (scroll_bursts L c ctx p axis_y sign n remaining) (\<lambda>cmds. \<exists>ns. cmds = wheeled L p axis_y sign ns
     \<and> (\<forall>n\<in>set ns. 1 \<le> n) \<and> remaining \<le> sum_list ns \<and> sum_list (butlast ns) < remaining)"
  using assms
proof (induction n arbitrary: remaining)
  case (Suc n)
  let ?P = "\<lambda>remaining cmds. \<exists>ns. cmds = wheeled L p axis_y sign ns \<and> (\<forall>n\<in>set ns. 1 \<le> n) \<and> remaining \<le> sum_list ns
      \<and> sum_list (butlast ns) < remaining"
  have step: "gives (case x of (cmds, r) \<Rightarrow> followed_by (answer (Inr cmds))
      (if r > 0 then do { pf \<leftarrow> get_profile;
         followed_by (sleep_random L c ctx (pf_burst_pause_min pf) (pf_burst_pause_max pf)) (scroll_bursts L c ctx p axis_y sign n r) }
       else answer (Inr []))) (?P remaining)"
    if x: "case x of (cmds, r) \<Rightarrow> \<exists>ns. cmds = wheeled L p axis_y sign ns \<and> (\<forall>n\<in>set ns. 1 \<le> n) \<and> r = remaining - sum_list ns
      \<and> sum_list (butlast ns) < remaining \<and> (deltas \<noteq> [] \<longrightarrow> ns \<noteq> [])" and "deltas \<noteq> []" for x deltas
  proof -
    obtain cmds r where xe: "x = (cmds, r)" by fastforce
    from that obtain ns where ns: "cmds = wheeled L p axis_y sign ns" "\<forall>n\<in>set ns. 1 \<le> n" "r = remaining - sum_list ns"
      "sum_list (butlast ns) < remaining" "ns \<noteq> []" unfolding xe by auto
    show ?thesis
    proof (cases "r > 0")
      case False
      with ns have P: "?P remaining cmds" by (intro exI [of _ ns]) simp
      have "gives (followed_by (answer (Inr cmds)) (answer (Inr []))) (?P remaining)"
        by (rule gives_followed [OF gives_answer [where P = "\<lambda>xs. xs = cmds", OF refl] gives_answer [where P = "\<lambda>xs. xs = []", OF refl]])
           (use P in simp)
      with False show ?thesis unfolding xe by simp
    next
      case True
      have "r < remaining" using ns(3) sum_list_pos [OF ns(5,2)] by simp
      then have "nat r \<le> n" using Suc.prems(2) by simp
      note ih = Suc.IH [OF True this]
      have "gives (followed_by (answer (Inr cmds)) (do { pf \<leftarrow> get_profile;
         followed_by (sleep_random L c ctx (pf_burst_pause_min pf) (pf_burst_pause_max pf)) (scroll_bursts L c ctx p axis_y sign n r) }))
         (?P remaining)"
      proof (rule gives_followed [OF gives_answer [where P = "\<lambda>xs. xs = cmds", OF refl] gives_after [where P = "?P r"]])
        show "gives (followed_by (sleep_random L c ctx (pf_burst_pause_min pf) (pf_burst_pause_max pf))
            (scroll_bursts L c ctx p axis_y sign n r)) (?P r)" for pf
          by (rule gives_followed [OF gives_sleep [where P = "\<lambda>xs. xs = []", OF refl] ih]) simp
        fix xs ys assume xs: "xs = cmds" and "?P r ys"
        then obtain ms where ms: "ys = wheeled L p axis_y sign ms" "\<forall>n\<in>set ms. 1 \<le> n" "r \<le> sum_list ms" "sum_list (butlast ms) < r"
          by blast
        have "ms \<noteq> []" using ms(3) True by auto
        with ns ms xs show "?P remaining (xs @ ys)"
          by (intro exI [of _ "ns @ ms"]) (auto simp: wheeled_def butlast_append)
      qed
      with True show ?thesis unfolding xe by simp
    qed
  qed
  show ?case
    unfolding scroll_bursts.simps
    using Suc.prems(1)
    by (intro gives_if gives_drawn [OF burst_starts [OF Suc.prems(1)]] gives_then [OF events_sent [OF Suc.prems(1)]])
       (simp, rule step, assumption, blast)
qed simp

lemma scroll_sent:
  fixes L c ctx direction pixels
  defines "dir \<equiv> (if cn_lower c (trim_space direction) = [] then ''down'' else cn_lower c (trim_space direction))"
  defines "axis_y \<equiv> dir \<noteq> ''left'' \<and> dir \<noteq> ''right''" and "sign \<equiv> if dir = ''up'' \<or> dir = ''left'' then - 1 else 1 :: int"
  assumes "dir \<noteq> ''top''" "dir \<noteq> ''bottom''"
  shows "gives (human_scroll L c ctx direction pixels) (\<lambda>cmds. \<exists>p ns bk. cmds = wheeled L p axis_y sign ns @ bk
     \<and> (\<forall>n\<in>set ns. 1 \<le> n) \<and> scroll_pixels pixels \<le> sum_list ns \<and> sum_list (butlast ns) < scroll_pixels pixels
     \<and> (bk = [] \<or> (\<exists>k\<ge>1. bk = wheeled L p axis_y (- sign) [k])))"
proof -
  have px: "0 < scroll_pixels pixels" "\<bar>scroll_pixels pixels\<bar> = scroll_pixels pixels" by (simp_all add: scroll_pixels_def)
  have corrected: "gives (scroll_correction L c ctx p axis_y sign) (\<lambda>bk. bk = [] \<or> (\<exists>k\<ge>1. bk = wheeled L p axis_y (- sign) [k]))" for p
    unfolding scroll_correction_def
    by (intro giving gives_sends gives_answer) (auto simp: wheeled_def int_one_le_iff_zero_less)
  note all = gives_followed [OF bursts_sent [OF px(1) order_refl, of L c ctx _ axis_y sign] corrected,
      where P = "\<lambda>cmds. \<exists>p ns bk. cmds = wheeled L p axis_y sign ns @ bk \<and> (\<forall>n\<in>set ns. 1 \<le> n)
       \<and> scroll_pixels pixels \<le> sum_list ns \<and> sum_list (butlast ns) < scroll_pixels pixels
       \<and> (bk = [] \<or> (\<exists>k\<ge>1. bk = wheeled L p axis_y (- sign) [k]))"]
  show ?thesis
    unfolding human_scroll_def Let_def dir_def [symmetric] axis_y_def [symmetric] sign_def [symmetric] px(2)
    apply (rule gives_if, use assms(4,5) in simp, rule gives_then_any)
    subgoal for pv
      by (cases pv, simp only: prod.case, rule gives_then [OF all], blast, rule gives_after, rule gives_answer)
    done
qed

section \<open>An example\<close>

text \<open>Whole numbers, a generator that counts, and a page whose scripts answer \<open>ok\<close>.\<close>

definition upper_letter :: "gostr \<Rightarrow> gostr" where
  "upper_letter r =
     (case r of
        [ch] \<Rightarrow> (case map_of (zip letters ''ABCDEFGHIJKLMNOPQRSTUVWXYZ'') ch of None \<Rightarrow> r | Some u \<Rightarrow> [u])
      | _ \<Rightarrow> r)"

definition demo_human_libs :: "(int, int) human_libs" where
  "demo_human_libs = \<lparr>fl_add = (+), fl_sub = (-), fl_mul = (*), fl_div = (div), fl_neg = uminus, fl_abs = abs,
     fl_less = (<), fl_eq = (=), fl_dec = (\<lambda>n k. n div 10 ^ k), fl_of_int = (\<lambda>n. n), fl_to_int = (\<lambda>n. n),
     fl_round = (\<lambda>n. n), fl_hypot = (\<lambda>a b. \<bar>a\<bar> + \<bar>b\<bar>), fl_json = fmt_d,
     rg_new = (\<lambda>n. n), rg_intn = (\<lambda>n g. (g mod n, g + 1)), rg_float = (\<lambda>g. (0, g + 1)),
     hl_is_upper = (\<lambda>r. r \<noteq> [] \<and> upper_letter r = r), hl_is_letter = (\<lambda>r. True), hl_is_space = (\<lambda>r. r = '' ''),
     hl_rune_upper = upper_letter, hl_rune_lower = (\<lambda>r. r),
     hl_decode_geometry = (\<lambda>_. Inr \<lparr>ge_ok = True, ge_error = [], ge_left = 100, ge_top = 200, ge_width = 50, ge_height = 20,
       ge_viewport_width = 1000, ge_viewport_height = 800\<rparr>),
     hl_decode_viewport = (\<lambda>_. Inr \<lparr>vp_width = 1000, vp_height = 800\<rparr>)\<rparr>"

interpretation whole_numbers: float_order demo_human_libs
  by unfold_locales (simp add: demo_human_libs_def)

interpretation whole_numbers: typing_laws demo_human_libs
proof
  have "list_all (\<lambda>c. utf8_runes (upper_letter [c]) = [upper_letter [c]]) letters" by code_simp
  then show "ch \<in> set letters \<Longrightarrow> utf8_runes (hl_rune_upper demo_human_libs [ch]) = [hl_rune_upper demo_human_libs [ch]]" for ch
    by (simp add: list_all_iff demo_human_libs_def)
qed (simp add: demo_human_libs_def)

definition demo_profile :: "int profile" where
  "demo_profile = (balanced_profile demo_human_libs)\<lparr>pf_max_steps := 3, pf_min_steps := 2, pf_typo_chance := 1\<rparr>"

definition ok_conn :: "(int \<times> int) conn" where
  "ok_conn = demo_conn\<lparr>cn_decode_value := \<lambda>_. Inr (JsStr ''ok'')\<rparr>"

definition demo_human :: "((int \<times> int) \<times> (int, int) human) client" where
  "demo_human = \<lparr>cl_id = 0, cl_conn = ((0, 0), \<lparr>hu_profile = demo_profile, hu_rng = 0,
     hu_cursor = \<lparr>pt_x = 0, pt_y = 0\<rparr>, hu_has_cursor = False\<rparr>)\<rparr>"

lemma demo_clicks:
  "case fst (run_state (human_click demo_human_libs (human_conn ok_conn) None ''button'') demo_human) of
     Inr cmds \<Rightarrow> length cmds = 6 | Inl _ \<Rightarrow> False"
  by code_simp

lemma demo_types:
  "case fst (run_state (human_type demo_human_libs (human_conn ok_conn) None ''input'' ''Go'') demo_human) of
     Inr cmds \<Rightarrow> length (filter is_erasure cmds) = 1 | Inl _ \<Rightarrow> False"
  by code_simp

lemma demo_scrolls:
  "case fst (run_state (human_scroll demo_human_libs (human_conn ok_conn) None ''up'' 40) demo_human) of
     Inr cmds \<Rightarrow> cmds \<noteq> [] | Inl _ \<Rightarrow> False"
  by code_simp

section \<open>Properties\<close>

text \<open>C40: the path of the mouse is bounded. Under every arithmetic in which nothing is smaller than
  what is smaller than it, not-a-numbers included, and every random generator, the path starts and ends
  at the given points moved into the viewport, has no point outside, and has at least two and at most
  2 m + 1 points for the m steps that the profile allows.\<close>

theorem mouse_path_bounded:
  assumes "float_order L" "run_state (build_mouse_path L a b vp shoot) h = (path, h')"
  shows "2 \<le> length path \<and> int (length path) \<le> 2 * most_steps (hu_profile h) + 1
    \<and> hd path = clamp_point L vp a \<and> last path = clamp_point L vp b \<and> list_all (in_viewport L vp) path"
proof -
  have "float_order.path_between L vp (clamp_point L vp a) (clamp_point L vp b) (2 * most_steps (hu_profile h) + 1)
      (fst (run_state (build_mouse_path L a b vp shoot) h))"
    using float_order.mouse_path [OF assms(1), of "hu_profile h" a b vp shoot] unfolding holds_def by blast
  then show ?thesis by (simp add: assms(2) float_order.path_between_def [OF assms(1)] list_all_iff)
qed

definition demo_path where
  "demo_path = run_state (build_mouse_path demo_human_libs \<lparr>pt_x = 10, pt_y = 20\<rparr> \<lparr>pt_x = 2000, pt_y = 300\<rparr>
     \<lparr>vp_width = 1000, vp_height = 800\<rparr> True) (snd (cl_conn demo_human))"

theorem mouse_path_bounded_witness:
  "length (fst demo_path) \<le> 7 \<and> last (fst demo_path) = \<lparr>pt_x = 999, pt_y = 300\<rparr>"
proof -
  have "clamp_point demo_human_libs \<lparr>vp_width = 1000, vp_height = 800\<rparr> \<lparr>pt_x = 2000, pt_y = 300\<rparr> = \<lparr>pt_x = 999, pt_y = 300\<rparr>"
    "most_steps (hu_profile (snd (cl_conn demo_human))) = 3" by code_simp+
  then show ?thesis
    using mouse_path_bounded [OF whole_numbers.float_order_axioms surjective_pairing [of demo_path, unfolded demo_path_def]]
    by (simp add: demo_path_def)
qed





text \<open>C38: humanized scrolling covers the distance and no event more. If it succeeds for a direction other
  than top and bottom, it sent wheel events in that direction of at least one pixel each, as many as
  it takes to cover the distance, and then at most one event back. The loop over the bursts, which the
  code does not bound, always returns.\<close>

theorem human_scroll_covers:
  assumes "dir = (if cn_lower c (trim_space direction) = [] then ''down'' else cn_lower c (trim_space direction))"
    and "dir \<noteq> ''top''" "dir \<noteq> ''bottom''" "sign = (if dir = ''up'' \<or> dir = ''left'' then - 1 else 1)"
    and "run_state (human_scroll L c ctx direction pixels) s = (Inr cmds, s')"
  shows "(\<exists>p axis_y ns bk. cmds = wheeled L p axis_y sign ns @ bk \<and> (axis_y \<longleftrightarrow> dir \<noteq> ''left'' \<and> dir \<noteq> ''right'')
      \<and> list_all (\<lambda>n. 1 \<le> n) ns \<and> scroll_pixels pixels \<le> sum_list ns \<and> sum_list (butlast ns) < scroll_pixels pixels
      \<and> (bk = [] \<or> (\<exists>k. 1 \<le> k \<and> bk = wheeled L p axis_y (- sign) [k])))
    \<and> scroll_loop L c ctx q along k distance t = Some (run_state (scroll_bursts L c ctx q along k (nat distance) distance) t)"
  using scroll_sent [of c direction L ctx pixels] assms(5) loop_bounded [OF order_refl, of L c ctx q along k distance t]
  unfolding assms(1) [symmetric] assms(4) [symmetric] gives_def list_all_iff
  using assms(2,3) by blast

theorem human_scroll_covers_witness:
  "\<exists>cmds s' (ns :: int list). run_state (human_scroll demo_human_libs (human_conn ok_conn) None ''up'' 40) demo_human = (Inr cmds, s')
    \<and> 40 \<le> sum_list ns \<and> sum_list (butlast ns) < 40 \<and> length ns \<le> length cmds"
proof -
  obtain cmds s' where r: "run_state (human_scroll demo_human_libs (human_conn ok_conn) None ''up'' 40) demo_human = (Inr cmds, s')"
    using demo_scrolls by (auto split: sum.splits) (metis prod.collapse)
  have u: "''up'' = (if cn_lower (human_conn ok_conn) (trim_space ''up'') = [] then ''down'' else cn_lower (human_conn ok_conn) (trim_space ''up''))"
    and px: "scroll_pixels 40 = 40" by code_simp+
  have ne: "''up'' \<noteq> ''top''" "''up'' \<noteq> ''bottom''" "- 1 = (if ''up'' = ''up'' \<or> ''up'' = ''left'' then - 1 else 1 :: int)" by simp_all
  from human_scroll_covers [OF u ne r, THEN conjunct1, unfolded px] obtain p axis_y ns bk
    where w: "cmds = wheeled demo_human_libs p axis_y (- 1) ns @ bk" and n: "40 \<le> sum_list ns" "sum_list (butlast ns) < 40"
    by (elim exE conjE)
  have "length ns \<le> length cmds" unfolding w wheeled_def by (simp only: length_append length_map)
  with n r show ?thesis by blast
qed

end
