(* ===== verification/Agent.thy ===== *)
theory Agent
  imports NodeAgent HumanProps Mux
begin

text \<open>
  The process of the node agent, \<open>main\<close> of \<open>cmd/node-agent/main.go\<close>: the executor that it builds from
  its configuration, its registration with the orchestrator and its heartbeats; and, composed with the
  server of the orchestrator, what they do to the registry. The orchestrator at the other end is a state
  \<open>'s\<close> that requests change and that others change in between; JSON and \<open>time.Format\<close> are parameters.
  The listeners, the shutdown and logging are left out.
\<close>

section \<open>The executor\<close>

definition planner_config_of :: "agent_config \<Rightarrow> planner_config" where
  "planner_config_of c = \<lparr>pc_mode = ac_planner_mode c, pc_url = ac_planner_endpoint c, pc_token = ac_planner_auth_token c,
     pc_model = ac_planner_model c, pc_timeout = ac_planner_timeout c, pc_max_elements = ac_planner_max_elements c\<rparr>"

definition new_browser_executor ::
  "('f, 'g) human_libs \<Rightarrow> (gostr \<Rightarrow> gostr) \<Rightarrow> int \<Rightarrow> agent_config \<Rightarrow> executor \<times> ('f, 'g) human option" where
  "new_browser_executor L lower nanos c =
     (\<lparr>ex_cdp_url = ac_cdp_base_url c,
       ex_render_delay = ac_render_delay c,
       ex_timeout = ac_execute_timeout c,
       ex_planner = new_action_planner (planner_config_of c),
       ex_max_steps = max (ac_planner_max_steps c) 1,
       ex_max_failures = max (ac_planner_max_failures c) 0,
       ex_max_repeat_actions = max (ac_planner_max_repeat_actions c) 1,
       ex_max_repeat_snapshots = max (ac_planner_max_repeat_snapshots c) 1,
       ex_screenshots = ac_trace_screenshots c,
       ex_egress_mode = normalize_egress_mode (ac_egress_mode c),
       ex_allow_hosts = ac_egress_allow_hosts c\<rparr>,
      new_humanizer L lower nanos (ac_humanize_mode c) (ac_humanize_seed c))"

section \<open>Requests to the orchestrator\<close>

text \<open>A POST: the request cannot be built or sent, or has a status and a body.\<close>

datatype post_result = NotBuilt go_error | NotSent go_error | Got int gostr

type_synonym 's transport = "gostr \<Rightarrow> gostr \<Rightarrow> 's \<Rightarrow> post_result \<times> 's"

definition post_json ::
  "('p \<Rightarrow> go_error + gostr) \<Rightarrow> 's transport \<Rightarrow> gostr \<Rightarrow> 'p \<Rightarrow> 's \<Rightarrow> go_error option \<times> 's" where
  "post_json encode post url body s =
     (case encode body of
        Inl e \<Rightarrow> (Some (wrap_error ''marshal payload: '' e), s)
      | Inr raw \<Rightarrow>
          (case post url raw s of
             (NotBuilt e, s) \<Rightarrow> (Some (wrap_error ''build request: '' e), s)
           | (NotSent e, s) \<Rightarrow> (Some (wrap_error ''request failed: '' e), s)
           | (Got code body, s) \<Rightarrow>
               (if 200 \<le> code \<and> code < 300 then None
                else Some (new_error (''unexpected status '' @ fmt_d code @ '': '' @ trim_space (take 2048 body))), s)))"

record agent_libs =
  al_encode_register :: "register_request \<Rightarrow> go_error + gostr"
  al_encode_heartbeat :: "heartbeat_request \<Rightarrow> go_error + gostr"
  al_rfc3339 :: "go_time \<Rightarrow> gostr"

definition registration :: "agent_libs \<Rightarrow> agent_config \<Rightarrow> go_time \<Rightarrow> register_request" where
  "registration al c booted = \<lparr>nq_node = ac_node_id c, nq_address = ac_advertise_addr c, nq_version = ac_version c,
     nq_booted = al_rfc3339 al booted\<rparr>"

definition beat :: "agent_libs \<Rightarrow> go_time \<Rightarrow> heartbeat_request" where
  "beat al now = \<lparr>hq_state = ''ready'', hq_at = al_rfc3339 al now\<rparr>"

definition send_register :: "agent_libs \<Rightarrow> 's transport \<Rightarrow> agent_config \<Rightarrow> go_time \<Rightarrow> 's \<Rightarrow> go_error option \<times> 's" where
  "send_register al post c booted =
     post_json (al_encode_register al) post (ac_orchestrator_url c @ ''/v1/nodes/register'')
       (registration al c booted)"

definition send_heartbeat :: "agent_libs \<Rightarrow> 's transport \<Rightarrow> agent_config \<Rightarrow> go_time \<Rightarrow> 's \<Rightarrow> go_error option \<times> 's" where
  "send_heartbeat al post c now =
     post_json (al_encode_heartbeat al) post (ac_orchestrator_url c @ ''/v1/nodes/'' @ ac_node_id c @ ''/heartbeat'')
       (beat al now)"

section \<open>The loops\<close>

text \<open>The pause after a failed registration: whether the process is told to stop in it, what others do to
  the orchestrator until the next attempt, and the transport of that attempt. Running out of pauses is
  a loop that is still going.\<close>

fun register_loop ::
  "agent_libs \<Rightarrow> agent_config \<Rightarrow> go_time \<Rightarrow> 's transport \<Rightarrow> (go_error option \<times> ('s \<Rightarrow> 's) \<times> 's transport) list \<Rightarrow> 's \<Rightarrow>
   go_error option option \<times> 's" where
  "register_loop al c booted post pauses s =
     (case send_register al post c booted s of
        (None, s) \<Rightarrow> (Some None, s)
      | (Some _, s) \<Rightarrow>
          (case pauses of
             [] \<Rightarrow> (None, s)
           | (stopped, others, post') # rest \<Rightarrow>
               (case stopped of
                  Some e \<Rightarrow> (Some (Some e), s)
                | None \<Rightarrow> register_loop al c booted post' rest (others s))))"

declare register_loop.simps [simp del]

text \<open>One tick: what others did since the last, the time and the transport. An error is only logged.\<close>

definition heartbeat_tick :: "agent_libs \<Rightarrow> agent_config \<Rightarrow> ('s \<Rightarrow> 's) \<times> go_time \<times> 's transport \<Rightarrow> 's \<Rightarrow> 's" where
  "heartbeat_tick al c tick s = (case tick of (others, now, post) \<Rightarrow> snd (send_heartbeat al post c now (others s)))"

datatype agent_end = AgentFatal go_error | AgentStopped | AgentRegistering

text \<open>The process from its start to the signal that stops it: \<open>listen\<close> is the error of \<open>net.Listen\<close>.\<close>

definition agent_main ::
  "go_error option \<Rightarrow> agent_libs \<Rightarrow> agent_config \<Rightarrow> go_time \<Rightarrow> 's transport \<Rightarrow>
   (go_error option \<times> ('s \<Rightarrow> 's) \<times> 's transport) list \<Rightarrow> (('s \<Rightarrow> 's) \<times> go_time \<times> 's transport) list \<Rightarrow> 's \<Rightarrow> agent_end \<times> 's" where
  "agent_main listen al c booted post pauses ticks s =
     (case listen of
        Some e \<Rightarrow> (AgentFatal (wrap_error ''node-agent grpc listen failed: '' e), s)
      | None \<Rightarrow>
          if ac_orchestrator_url c = [] then (AgentStopped, s)
          else case register_loop al c booted post pauses s of
              (None, s) \<Rightarrow> (AgentRegistering, s)
            | (Some (Some e), s) \<Rightarrow> (AgentFatal (wrap_error ''node registration failed: '' e), s)
            | (Some None, s) \<Rightarrow> (AgentStopped, fold (heartbeat_tick al c) ticks s))"

section \<open>The orchestrator at the other end\<close>

text \<open>A request to a URL below the base reaches the server with the rest of the URL as its path; \<open>body_text\<close>
  is the JSON text of a response.\<close>

definition deliver ::
  "gostr \<Rightarrow> (response \<Rightarrow> gostr) \<Rightarrow> (request \<Rightarrow> 's \<Rightarrow> response \<times> 's) \<Rightarrow> 's transport" where
  "deliver base body_text srv url raw s =
     (if has_prefix url base
      then (let (resp, s) = srv \<lparr>rq_method = ''POST'', rq_path = drop (length base) url,
              rq_header = (\<lambda>k. if k = ''Content-Type'' then ''application/json'' else []), rq_query = (\<lambda>_. []),
              rq_remote = [], rq_body = raw\<rparr> s
            in (Got (rs_status resp) (body_text resp), s))
      else (NotSent (new_error ''no such host''), s))"

text \<open>The server of the orchestrator as it is when one request arrives.\<close>

definition orchestrator_at ::
  "gostr \<Rightarrow> (response \<Rightarrow> gostr) \<Rightarrow> gostr \<Rightarrow> (gostr \<times> endpoint) list \<Rightarrow> server_config \<Rightarrow> node_api \<Rightarrow> site \<Rightarrow> 'l api_env \<Rightarrow>
   (gostr \<Rightarrow> gostr) \<Rightarrow> payload idem_state idem_call \<Rightarrow> go_time \<Rightarrow> (limiter option \<times> payload idem_state \<times> 'l server) transport" where
  "orchestrator_at base body_text api_key t cfg na si env digest ic now =
     deliver base body_text (\<lambda>r. serve api_key (mux_route t (handle cfg na si env)) digest ic now r)"

text \<open>What the agent and the orchestrator must agree on, and a node identifier that can stand in a path.\<close>

locale agent_protocol =
  fixes al :: agent_libs and na :: node_api and c :: agent_config
  assumes registration_read: "\<exists>raw. al_encode_register al (registration al c b) = Inr raw
      \<and> na_decode_register na raw = Decoded (registration al c b)"
    and beat_read: "\<exists>raw. al_encode_heartbeat al (beat al b) = Inr raw \<and> na_decode_heartbeat na raw = Decoded (beat al b)"
    and time_read: "na_parse_time na (al_rfc3339 al b) = Some (time_truncate b second)"
    and time_text: "trim_space (al_rfc3339 al b) = al_rfc3339 al b" "al_rfc3339 al b \<noteq> []"
    and node: "plain_element (ac_node_id c)" "trim_space (ac_node_id c) = ac_node_id c"
    and address: "\<not> blank (ac_advertise_addr c)"

lemma split_at_first: "x \<notin> set a \<Longrightarrow> split_at (a @ x # b) x [] = a # split_at b x []"
  by (induction a) (auto simp: split_at_char)

lemma split_at_whole: "x \<notin> set a \<Longrightarrow> split_at a x [] = [a]"
proof (induction a)
  case Nil
  then show ?case by (simp add: split_at.simps)
qed (auto simp: split_at_char)

lemma trim_prefix_appended: "trim_prefix (p @ x) p = x"
  by (simp add: trim_prefix_def)

context agent_protocol
begin

abbreviation beat_path :: gostr where
  "beat_path \<equiv> ''/v1/nodes/'' @ ac_node_id c @ ''/heartbeat''"

lemma beat_path_clean: "mux_clean beat_path = beat_path"
proof -
  let ?i = "ac_node_id c"
  have h: "plain_element ''heartbeat''" by (simp add: plain_element_def)
  have "clean_elements (''/v1/nodes'' @ ''/'' @ ?i @ ''/'' @ ''heartbeat'') = clean_elements ''/v1/nodes'' @ [?i, ''heartbeat'']"
    by (rule clean_elements_below [OF _ node(1) h]) simp
  moreover have "clean_elements ''/v1/nodes'' = [''v1'', ''nodes'']" by code_simp
  ultimately have "clean_elements beat_path = [''v1'', ''nodes'', ?i, ''heartbeat'']" by simp
  moreover have "is_rooted beat_path" by (simp add: is_rooted_def has_prefix_def)
  ultimately have "path_clean beat_path = beat_path" by (simp add: path_clean_def)
  moreover have "has_prefix beat_path ''/''" by (simp add: has_prefix_def)
  ultimately show ?thesis by (simp add: mux_clean_def Let_def)
qed

lemma beat_parts: "split_at (trim_prefix beat_path ''/v1/nodes/'') (CHR ''/'') [] = [ac_node_id c, ''heartbeat'']"
proof -
  have s: "CHR ''/'' \<notin> set (ac_node_id c)" using node(1) by (simp add: plain_element_def)
  have "split_at (ac_node_id c @ CHR ''/'' # ''heartbeat'') (CHR ''/'') [] = [ac_node_id c, ''heartbeat'']"
    using split_at_first [OF s] split_at_whole [of "CHR ''/''" "''heartbeat''"] by simp
  then show ?thesis unfolding trim_prefix_appended by simp
qed

lemma beat_not_register: "beat_path \<noteq> ''/v1/nodes/register''"
proof
  assume "beat_path = ''/v1/nodes/register''"
  then have "ac_node_id c @ ''/heartbeat'' = ''register''" by simp
  then have "CHR ''/'' \<in> set ''register''" by (metis in_set_conv_decomp append_Cons)
  then show False by simp
qed

end

lemma node_route:
  assumes "mux_table (si_base si) = Some t" "apart (si_base si)" "rq_method r = ''POST''"
    and "mux_clean (rq_path r) = rq_path r" "has_prefix (rq_path r) ''/v1/nodes/''"
  shows "mux_route t (handle cfg na si env) r = routes cfg na (read_page na si env) env r"
proof -
  have "rq_path r @ ''/'' \<noteq> artifact_pattern (si_base si)"
  proof
    assume a: "rq_path r @ ''/'' = artifact_pattern (si_base si)"
    have "has_prefix (rq_path r @ ''/'') ''/v1/nodes/''" using assms(5) by (auto simp: has_prefix_iff)
    with a assms(2) show False by (simp add: apart_def subtrees_def)
  qed
  moreover have "rq_path r \<noteq> ''/assets''" "rq_path r \<noteq> ''/tasks''" using assms(5) by (auto simp: has_prefix_def)
  moreover have "rq_method r \<noteq> ''CONNECT''" using assms(3) by simp
  ultimately show ?thesis using mux_route_chain [OF assms(1,2), of r cfg na env] assms(4) by (simp add: Let_def)
qed

text \<open>A request for a node is not protected, and its handler works on the nodes.\<close>

lemma node_served:
  assumes "plain_ends (rq_path r)" "has_prefix (rq_path r) ''/v1/nodes/''" "route r = Plain f"
  shows "serve api_key route digest ic now r (l, i, w) = (fst (f w), l, i, snd (f w))"
proof -
  have "\<not> requires_create_auth r"
    using assms(1,2) by (auto simp: requires_create_auth_def has_prefix_def Let_def)
  then show ?thesis using assms(3) by (simp add: serve_def with_api_security_def serve_routed_def split: prod.split)
qed

lemma node_answer_state: "snd (node_answer code res w) = set_nodes (snd res) w"
  by (cases res) (auto simp: node_answer_def split: sum.split registry_error.split)

definition registered :: "agent_config \<Rightarrow> go_time \<Rightarrow> go_time \<Rightarrow> registry_state \<Rightarrow> node" where
  "registered c booted now ns = \<lparr>nd_id = ac_node_id c, nd_address = trim_space (ac_advertise_addr c),
     nd_version = trim_space (ac_version c), nd_state = NodeReady, nd_booted = or_now now (time_truncate booted second),
     nd_heartbeat = now, nd_leased_until = zero_time,
     nd_created = (case ns (ac_node_id c) of None \<Rightarrow> now | Some n \<Rightarrow> nd_created n), nd_updated = now\<rparr>"

context agent_protocol
begin

lemma node_id_kept: "ac_node_id c \<noteq> []"
  using node(1) by (simp add: plain_element_def)

lemma register_done:
  assumes "mux_table (si_base si) = Some t" "apart (si_base si)"
  shows "send_register al (orchestrator_at (ac_orchestrator_url c) body_text api_key t cfg (na\<lparr>na_clock := clk\<rparr>) si env digest ic now) c booted (l, i, w)
    = (None, l, i, set_nodes ((sv_nodes w)(ac_node_id c \<mapsto> registered c booted (clk 0) (sv_nodes w))) w)"
proof -
  let ?na = "na\<lparr>na_clock := clk\<rparr>"
  obtain raw where raw: "al_encode_register al (registration al c booted) = Inr raw"
    "na_decode_register na raw = Decoded (registration al c booted)" using registration_read by blast
  define r where "r = \<lparr>rq_method = ''POST'', rq_path = ''/v1/nodes/register'',
      rq_header = (\<lambda>k. if k = ''Content-Type'' then ''application/json'' else []), rq_query = (\<lambda>_. []), rq_remote = [], rq_body = raw\<rparr>"
  have clean: "mux_clean ''/v1/nodes/register'' = ''/v1/nodes/register''" by code_simp
  have f: "rq_method r = ''POST''" "rq_path r = ''/v1/nodes/register''" "rq_body r = raw"
    "plain_ends (rq_path r)" "has_prefix (rq_path r) ''/v1/nodes/''"
    by (simp_all add: r_def plain_ends_def plain_char_def has_prefix_def)
  have "mux_route t (handle cfg ?na si env) r = routes cfg ?na (read_page ?na si env) env r"
    by (rule node_route [OF assms f(1)]) (simp_all add: f clean has_prefix_def)
  also have "\<dots> = Plain (register_node ?na r)"
    by (simp add: routes_def f has_prefix_def handle_node_register_def)
  finally have route: "mux_route t (handle cfg ?na si env) r = Plain (register_node ?na r)" .
  have "parse_rfc3339 ?na (nq_booted (registration al c booted)) = Some (time_truncate booted second)"
    using time_read time_text by (simp add: parse_rfc3339_def registration_def)
  then have "register_node ?na r w =
      (write_json Map.empty 201 (PNode (registered c booted (clk 0) (sv_nodes w))),
       set_nodes ((sv_nodes w)(ac_node_id c \<mapsto> registered c booted (clk 0) (sv_nodes w))) w)"
    using raw(2) f(3) node(2) address node_id_kept
    by (simp add: register_node_def registry_register_def Let_def registered_def registration_def split: option.split)
  then have "serve api_key (mux_route t (handle cfg ?na si env)) digest ic now r (l, i, w)
      = (write_json Map.empty 201 (PNode (registered c booted (clk 0) (sv_nodes w))), l, i,
         set_nodes ((sv_nodes w)(ac_node_id c \<mapsto> registered c booted (clk 0) (sv_nodes w))) w)"
    using node_served [OF f(4,5), of "mux_route t (handle cfg ?na si env)"] route by simp
  then show ?thesis
    using raw(1) by (simp add: send_register_def post_json_def orchestrator_at_def deliver_def r_def)
qed

text \<open>What a heartbeat does to the nodes: to the agent's node alone, and nothing if it is not known.\<close>

definition beaten :: "go_time \<Rightarrow> go_time \<Rightarrow> registry_state \<Rightarrow> registry_state" where
  "beaten now arrival ns = snd (registry_heartbeat arrival
     \<lparr>hb_node = ac_node_id c, hb_state = Some NodeReady, hb_at = time_truncate now second, hb_leased_until = zero_time\<rparr> ns)"

lemma beat_done:
  assumes "mux_table (si_base si) = Some t" "apart (si_base si)"
  shows "\<exists>e. send_heartbeat al (orchestrator_at (ac_orchestrator_url c) body_text api_key t cfg (na\<lparr>na_clock := clk\<rparr>) si env digest ic lnow) c now (l, i, w)
      = (e, l, i, set_nodes (beaten now (clk 0) (sv_nodes w)) w) \<and> (e = None \<longleftrightarrow> sv_nodes w (ac_node_id c) \<noteq> None)"
proof -
  let ?na = "na\<lparr>na_clock := clk\<rparr>"
  obtain raw where raw: "al_encode_heartbeat al (beat al now) = Inr raw"
    "na_decode_heartbeat na raw = Decoded (beat al now)" using beat_read by blast
  define r where "r = \<lparr>rq_method = ''POST'', rq_path = beat_path,
      rq_header = (\<lambda>k. if k = ''Content-Type'' then ''application/json'' else []), rq_query = (\<lambda>_. []), rq_remote = [], rq_body = raw\<rparr>"
  have f: "rq_method r = ''POST''" "rq_path r = beat_path" "rq_body r = raw" by (simp_all add: r_def)
  have g: "plain_ends (rq_path r)" "has_prefix (rq_path r) ''/v1/nodes/''"
    by (simp_all add: f plain_ends_def plain_char_def has_prefix_def)
  have "mux_route t (handle cfg ?na si env) r = routes cfg ?na (read_page ?na si env) env r"
    by (rule node_route [OF assms f(1) _ g(2)], unfold f, rule beat_path_clean)
  also have "\<dots> = handle_node_by_id ?na r"
    using beat_not_register by (simp add: routes_def f has_prefix_def)
  also have "\<dots> = Plain (node_heartbeat ?na r (ac_node_id c))"
    using beat_parts node(2) node_id_kept trim_space_plain [of "''heartbeat''"]
    by (simp add: handle_node_by_id_def f Let_def plain_ends_def plain_char_def)
  finally have route: "mux_route t (handle cfg ?na si env) r = Plain (node_heartbeat ?na r (ac_node_id c))" .
  have p: "parse_rfc3339 ?na (hq_at (beat al now)) = Some (time_truncate now second)"
    "parse_node_state (hq_state (beat al now)) = Inr NodeReady"
    using time_read time_text parse_node_state_text [of NodeReady] by (simp_all add: parse_rfc3339_def beat_def)
  let ?res = "registry_heartbeat (clk 0)
     \<lparr>hb_node = ac_node_id c, hb_state = Some NodeReady, hb_at = time_truncate now second, hb_leased_until = zero_time\<rparr> (sv_nodes w)"
  have h: "node_heartbeat ?na r (ac_node_id c) w = node_answer ''heartbeat_failed'' ?res w"
    using raw(2) f(3) p by (simp add: node_heartbeat_def)
  obtain resp where resp: "node_heartbeat ?na r (ac_node_id c) w = (resp, set_nodes (beaten now (clk 0) (sv_nodes w)) w)"
    "rs_status resp = (if sv_nodes w (ac_node_id c) = None then 404 else 200)"
  proof
    show "node_heartbeat ?na r (ac_node_id c) w
        = (fst (node_answer ''heartbeat_failed'' ?res w), set_nodes (beaten now (clk 0) (sv_nodes w)) w)"
      unfolding h beaten_def node_answer_state [symmetric, of ?res w "''heartbeat_failed''"] by simp
    have "fst ?res = (case sv_nodes w (ac_node_id c) of None \<Rightarrow> Inl NodeNotFound | Some n \<Rightarrow> Inr (the (snd ?res (ac_node_id c))))"
      using node(2) node_id_kept by (simp add: registry_heartbeat_def Let_def split: option.split)
    then show "rs_status (fst (node_answer ''heartbeat_failed'' ?res w)) = (if sv_nodes w (ac_node_id c) = None then 404 else 200)"
      by (cases ?res; cases "sv_nodes w (ac_node_id c)") (simp_all add: node_answer_def not_found_def)
  qed
  then have "serve api_key (mux_route t (handle cfg ?na si env)) digest ic lnow r (l, i, w)
      = (resp, l, i, set_nodes (beaten now (clk 0) (sv_nodes w)) w)"
    using node_served [OF g, of "mux_route t (handle cfg ?na si env)"] route by simp
  then show ?thesis
    using raw(1) resp(2) by (simp add: send_heartbeat_def post_json_def orchestrator_at_def deliver_def r_def)
qed

end

section \<open>The agent in the registry\<close>

text \<open>A tick at the orchestrator of this configuration, with whatever clock, and others that forget no node.\<close>

definition ticks_at ::
  "agent_config \<Rightarrow> (response \<Rightarrow> gostr) \<Rightarrow> gostr \<Rightarrow> (gostr \<times> endpoint) list \<Rightarrow> server_config \<Rightarrow> node_api \<Rightarrow> site \<Rightarrow> 'l api_env \<Rightarrow>
   (gostr \<Rightarrow> gostr) \<Rightarrow> payload idem_state idem_call \<Rightarrow>
   ((limiter option \<times> payload idem_state \<times> 'l server \<Rightarrow> limiter option \<times> payload idem_state \<times> 'l server) \<times> go_time \<times>
     (limiter option \<times> payload idem_state \<times> 'l server) transport) list \<Rightarrow> bool" where
  "ticks_at c body_text api_key t cfg na si env digest ic ticks \<longleftrightarrow>
     (\<forall>(others, now, post)\<in>set ticks. second \<le> now
        \<and> (\<exists>clk lnow. post = orchestrator_at (ac_orchestrator_url c) body_text api_key t cfg (na\<lparr>na_clock := clk\<rparr>) si env digest ic lnow)
        \<and> (\<forall>st nid. sv_nodes (snd (snd st)) nid \<noteq> None \<longrightarrow> sv_nodes (snd (snd (others st))) nid \<noteq> None))"

lemma sv_nodes_set [simp]: "sv_nodes (set_nodes ns w) = ns"
  by (simp add: sv_nodes_def set_nodes_def)

context agent_protocol
begin

lemma beaten_known:
  assumes "ns (ac_node_id c) = Some n" "second \<le> now"
  shows "\<exists>n'. beaten now arrival ns = ns(ac_node_id c \<mapsto> n') \<and> nd_heartbeat n' = time_truncate now second
    \<and> nd_state n' = heartbeat_state (nd_state n) NodeReady \<and> nd_address n' = nd_address n"
proof -
  have "time_truncate now second \<noteq> zero_time"
  proof
    assume "time_truncate now second = zero_time"
    then have "now < second" using time_truncate_bounds [of second now] by simp
    with assms(2) show False by simp
  qed
  moreover have "heartbeat_state (nd_state n) NodeReady \<noteq> NodeLeased" by (simp add: heartbeat_state_def)
  ultimately show ?thesis
    using assms(1) node(2) node_id_kept
    by (intro exI [of _ "n\<lparr>nd_state := heartbeat_state (nd_state n) NodeReady, nd_heartbeat := time_truncate now second,
          nd_leased_until := zero_time, nd_updated := time_truncate now second\<rparr>"])
       (simp add: beaten_def registry_heartbeat_def Let_def or_ready_def or_now_def)
qed

lemma beaten_unknown: "ns (ac_node_id c) = None \<Longrightarrow> beaten now arrival ns = ns"
  using node(2) node_id_kept by (simp add: beaten_def registry_heartbeat_def Let_def)

lemma tick_done:
  assumes "mux_table (si_base si) = Some t" "apart (si_base si)"
    and "ticks_at c body_text api_key t cfg na si env digest ic [(others, now, post)]" "sv_nodes (snd (snd st)) (ac_node_id c) \<noteq> None"
  shows "\<exists>n. sv_nodes (snd (snd (heartbeat_tick al c (others, now, post) st))) (ac_node_id c) = Some n
    \<and> nd_heartbeat n = time_truncate now second"
proof -
  obtain l i w where o: "others st = (l, i, w)" by (cases "others st") auto
  from assms(3) obtain clk lnow where
    p: "post = orchestrator_at (ac_orchestrator_url c) body_text api_key t cfg (na\<lparr>na_clock := clk\<rparr>) si env digest ic lnow"
    and k: "second \<le> now" "\<forall>st nid. sv_nodes (snd (snd st)) nid \<noteq> None \<longrightarrow> sv_nodes (snd (snd (others st))) nid \<noteq> None"
    unfolding ticks_at_def list.set by blast
  from k(2) assms(4) have "sv_nodes (snd (snd (others st))) (ac_node_id c) \<noteq> None" by blast
  then obtain n where n: "sv_nodes w (ac_node_id c) = Some n" using o by auto
  obtain e where "send_heartbeat al post c now (l, i, w) = (e, l, i, set_nodes (beaten now (clk 0) (sv_nodes w)) w)"
    unfolding p using beat_done [OF assms(1,2)] by blast
  then show ?thesis using beaten_known [of "sv_nodes w" n now "clk 0"] n k(1) by (auto simp: heartbeat_tick_def o)
qed

lemma ticks_done:
  assumes "mux_table (si_base si) = Some t" "apart (si_base si)"
    and "ticks_at c body_text api_key t cfg na si env digest ic ticks" "sv_nodes (snd (snd st)) (ac_node_id c) \<noteq> None" "ticks \<noteq> []"
  shows "\<exists>n. sv_nodes (snd (snd (fold (heartbeat_tick al c) ticks st))) (ac_node_id c) = Some n
    \<and> nd_heartbeat n = time_truncate (fst (snd (last ticks))) second"
  using assms(3-5)
proof (induction ticks arbitrary: st)
  case (Cons x ticks)
  obtain others now post where x: "x = (others, now, post)" by (cases x)
  have one: "ticks_at c body_text api_key t cfg na si env digest ic [(others, now, post)]"
    and rest: "ticks_at c body_text api_key t cfg na si env digest ic ticks"
    using Cons.prems(1) by (simp_all add: ticks_at_def x)
  from tick_done [OF assms(1,2) one Cons.prems(2)] obtain n where
    n: "sv_nodes (snd (snd (heartbeat_tick al c x st))) (ac_node_id c) = Some n" "nd_heartbeat n = time_truncate now second"
    unfolding x by blast
  show ?case
  proof (cases "ticks = []")
    case False
    with Cons.IH [OF rest _ False, of "heartbeat_tick al c x st"] n(1) show ?thesis by simp
  qed (use n x in simp)
qed simp

end


text \<open>After a restart the orchestrator, whose registry is in memory, does not know the node any more, and no
  heartbeat makes it known: every one is refused, and the agent registers only when it starts.\<close>

lemma unknown_agent_stays_unknown:
  assumes "agent_protocol al na c" "mux_table (si_base si) = Some t" "apart (si_base si)" "sv_nodes w (ac_node_id c) = None"
    and "\<forall>(others, now, post)\<in>set ticks. others = (\<lambda>st. st)
      \<and> (\<exists>clk lnow. post = orchestrator_at (ac_orchestrator_url c) body_text api_key t cfg (na\<lparr>na_clock := clk\<rparr>) si env digest ic lnow)"
  shows "sv_nodes (snd (snd (fold (heartbeat_tick al c) ticks (l, i, w)))) = sv_nodes w"
  using assms(4,5)
proof (induction ticks arbitrary: w)
  case (Cons x ticks)
  obtain others now post where x: "x = (others, now, post)" by (cases x)
  with Cons.prems(2) obtain clk lnow where "others = (\<lambda>st. st)"
    "post = orchestrator_at (ac_orchestrator_url c) body_text api_key t cfg (na\<lparr>na_clock := clk\<rparr>) si env digest ic lnow" by auto
  then obtain e where "heartbeat_tick al c x (l, i, w) = (l, i, set_nodes (sv_nodes w) w)"
    using agent_protocol.beat_done [OF assms(1-3), of body_text api_key cfg clk env digest ic lnow now l i w]
      agent_protocol.beaten_unknown [OF assms(1), of "sv_nodes w" now "clk 0", OF Cons.prems(1)] x by (auto simp: heartbeat_tick_def)
  with Cons.IH [of "set_nodes (sv_nodes w) w"] Cons.prems show ?case by simp
qed simp

section \<open>An example\<close>

definition demo_agent :: agent_config where
  "demo_agent = load_agent_config (\<lambda>_. None) (\<lambda>h p. h @ '':'' @ p) None 0
     (\<lambda>k. if k = ''NODE_AGENT_NODE_ID'' then ''node-1'' else if k = ''NODE_AGENT_ADVERTISE_ADDR'' then ''10.0.0.7:9091''
       else if k = ''NODE_AGENT_VERSION'' then ''v1'' else if k = ''NODE_AGENT_ORCHESTRATOR_URL'' then ''http://o:8080/'' else []) (\<lambda>_. None)"

definition read_fmt_d :: "gostr \<Rightarrow> int" where
  "read_fmt_d s = (if has_prefix s ''-'' then - int (undigits (tl s)) else int (undigits s))"

definition demo_agent_libs :: agent_libs where
  "demo_agent_libs = \<lparr>al_encode_register = (\<lambda>q. Inr (nq_booted q)), al_encode_heartbeat = (\<lambda>h. Inr (hq_at h)),
     al_rfc3339 = (\<lambda>t. fmt_d (time_truncate t second))\<rparr>"

definition demo_agent_api :: node_api where
  "demo_agent_api = demo_node_api\<lparr>
     na_decode_register := (\<lambda>raw. Decoded \<lparr>nq_node = ''node-1'', nq_address = ''10.0.0.7:9091'', nq_version = ''v1'', nq_booted = raw\<rparr>),
     na_decode_heartbeat := (\<lambda>raw. Decoded \<lparr>hq_state = ''ready'', hq_at = raw\<rparr>), na_parse_time := (\<lambda>s. Some (read_fmt_d s))\<rparr>"

lemma demo_agent_fields: "ac_node_id demo_agent = ''node-1''" "ac_advertise_addr demo_agent = ''10.0.0.7:9091''"
    "ac_version demo_agent = ''v1''" "ac_orchestrator_url demo_agent = ''http://o:8080''"
  by code_simp+

lemma read_fmt_d [simp]: "read_fmt_d (fmt_d n) = n"
  using digits_no_sign [of "nat n"] by (simp add: read_fmt_d_def fmt_d_def) (simp add: has_prefix_def)

interpretation demo_agent: agent_protocol demo_agent_libs demo_agent_api demo_agent
proof unfold_locales
  show "plain_element (ac_node_id demo_agent)" by (simp add: demo_agent_fields plain_element_def)
  show "trim_space (ac_node_id demo_agent) = ac_node_id demo_agent" "\<not> blank (ac_advertise_addr demo_agent)"
    by (simp_all add: demo_agent_fields plain_ends_def plain_char_def)
qed (simp_all add: demo_agent_libs_def demo_agent_api_def registration_def beat_def demo_agent_fields)


section \<open>From the environment of the orchestrator to the executor\<close>

text \<open>C31: the environment of the orchestrator configures the executors of the pool. What the operator sets for
  the nodes is what the executor in every container of the pool enforces: the limits of steps, failures and
  repetitions, the time limit, screenshots, the egress policy with its hosts, and the planner's mode, token,
  time and number of elements. It is read by the orchestrator, completed by the provider, written into the
  container's environment, read back by the agent and given to the executor; a number that is not positive,
  or no number, becomes the default, and so do the modes that are blank.\<close>

theorem environment_reaches_executors:
  assumes "start_up W (load_config tmp env pd) fs = (Serving r, fs')" "or_pool r = Some p"
    and "\<forall>t>0. dur t \<noteq> [] \<and> pd (dur t) = Some t"
    and "a = load_agent_config split join_addr hostname nanos (container_env (env_vars dur (pp_provider p) node address)) pd"
    and "new_browser_executor L lower nanos a = (ex, hum)"
  shows "ex_max_steps ex = or_default 12 (int_or_default env ''ORCHESTRATOR_POOL_NODE_PLANNER_MAX_STEPS'' 12)
    \<and> ex_max_failures ex = max 0 (int_or_default env ''ORCHESTRATOR_POOL_NODE_PLANNER_MAX_FAILURES'' 2)
    \<and> ex_max_repeat_actions ex = or_default 3 (int_or_default env ''ORCHESTRATOR_POOL_NODE_PLANNER_MAX_REPEAT_ACTIONS'' 3)
    \<and> ex_max_repeat_snapshots ex = or_default 3 (int_or_default env ''ORCHESTRATOR_POOL_NODE_PLANNER_MAX_REPEAT_SNAPSHOTS'' 3)
    \<and> ex_timeout ex = or_default (45 * second) (duration_or_default env pd ''ORCHESTRATOR_POOL_NODE_EXECUTE_TIMEOUT'' (45 * second))
    \<and> ex_screenshots ex = bool_or_default env ''ORCHESTRATOR_POOL_NODE_TRACE_SCREENSHOTS'' False
    \<and> ex_egress_mode ex = (let mode = env_or_default env ''ORCHESTRATOR_POOL_NODE_EGRESS_MODE'' ''open''
         in to_lower (trim_space (if blank mode then ''open'' else mode)))
    \<and> ex_allow_hosts ex = parse_csv (trim_space (env ''ORCHESTRATOR_POOL_NODE_EGRESS_ALLOW_HOSTS''))
    \<and> (\<exists>url model. ex_planner ex = new_action_planner \<lparr>pc_mode = (let mode = env_or_default env ''ORCHESTRATOR_POOL_NODE_PLANNER_MODE'' ''template''
           in if blank mode then ''template'' else mode), pc_url = url,
         pc_token = trim_space (env ''ORCHESTRATOR_POOL_NODE_PLANNER_AUTH_TOKEN''), pc_model = model,
         pc_timeout = or_default (8 * second) (duration_or_default env pd ''ORCHESTRATOR_POOL_NODE_PLANNER_TIMEOUT'' (8 * second)),
         pc_max_elements = or_default 48 (int_or_default env ''ORCHESTRATOR_POOL_NODE_PLANNER_MAX_ELEMENTS'' 48)\<rparr>)"
proof -
  have pos: "max (or_default d x) 1 = or_default d x" if "0 < d" for d x :: int using that by (simp add: or_default_def)
  note n = environment_reaches_nodes [OF assms(1-4), unfolded Let_def]
  have e: "ex = fst (new_browser_executor L lower nanos a)" by (simp add: assms(5))
  have p: "ex_planner ex = new_action_planner (planner_config_of a)" unfolding e by (simp add: new_browser_executor_def)
  have "ex_max_steps ex = max (ac_planner_max_steps a) 1" "ex_max_failures ex = max (ac_planner_max_failures a) 0"
    "ex_max_repeat_actions ex = max (ac_planner_max_repeat_actions a) 1" "ex_max_repeat_snapshots ex = max (ac_planner_max_repeat_snapshots a) 1"
    "ex_timeout ex = ac_execute_timeout a" "ex_screenshots ex = ac_trace_screenshots a"
    "ex_egress_mode ex = normalize_egress_mode (ac_egress_mode a)" "ex_allow_hosts ex = ac_egress_allow_hosts a"
    unfolding e by (simp_all add: new_browser_executor_def)
  then show ?thesis
    using n pos p unfolding planner_config_of_def Let_def by auto
qed

theorem environment_reaches_executors_witness:
  "\<exists>r p. or_pool r = Some p \<and> fst (start_up demo_world demo_loaded Map.empty) = Serving r
    \<and> ex_max_steps (fst (new_browser_executor demo_human_libs (\<lambda>s. s) 0 (load_agent_config (\<lambda>_. None) (\<lambda>h p. h @ '':'' @ p) None 0
       (container_env (env_vars (\<lambda>t. digits (nat t)) (pp_provider p) ''poolnode-1'' ''n:9091''))
       (\<lambda>s. Some (int (undigits s)))))) = 7"
proof -
  obtain r p where s: "start_up demo_world demo_loaded Map.empty = (Serving r, Map.empty)" "or_pool r = Some p"
    using demo_starts by blast
  have "or_default 12 (int_or_default demo_environment ''ORCHESTRATOR_POOL_NODE_PLANNER_MAX_STEPS'' 12) = 7" by code_simp
  then show ?thesis
    using environment_reaches_executors [OF s(1) [unfolded demo_loaded_def] s(2) demo_durations refl prod.collapse [symmetric],
      where L = demo_human_libs and lower = "\<lambda>s. s", THEN conjunct1] s by force
qed

end
