(* ===== verification/Spec2Isabelle.thy ===== *)
theory Spec2Isabelle
  imports Lease Redis RedisLease RedisIdem PgSessions PgProps Sessions Tasks Idempotency Registry PoolManager NodeClient TaskRunner Worker Attempts RunnerQueue
    Http ApiIdempotency Security Api ApiTasks ApiRoutes
    Egress PlannedActions Planner StepPlanner Cdp ActionValues Executor Execution NodeAgent Config Docker
    Metrics Artifacts Pages Orchestrator Mux Humanizer HumanProps Agent
begin

text \<open>
  A verification library for the browser automation service of this repository: an orchestrator
  (\<open>cmd/orchestrator\<close>, \<open>internal\<close>) that takes tasks over HTTP, queues them and runs each on a
  node of a managed pool, and the node agent (\<open>cmd/node-agent\<close>) that executes a task in a browser.

  \<^bold>\<open>How the parts interact.\<close> A request reaches the handlers of \<open>internal/api\<close> through the security
  wrapper; a create request stores a task (\<open>internal/task\<close>), possibly under an idempotency key
  (\<open>internal/idempotency\<close>), and enqueues it in the task runner (\<open>internal/taskrunner\<close>). A worker of
  the runner takes it, leases a ready node of the registry (\<open>internal/pool\<close>, \<open>internal/lease\<close>),
  sends the work to the node's agent (\<open>internal/nodeclient\<close>) and records the outcome, a retry, or a
  failure with its evidence. The pool manager keeps a target number of ready nodes.

  \<^bold>\<open>Theories.\<close>
  \<^item> Prelude: Go's strings, numbers, times and errors; sorting; enumerations of maps.
  \<^item> Lease: \<open>internal/lease/inmemory.go\<close>, and the contract of a lease manager as a locale.
  \<^item> Sessions, Tasks, Idempotency: the in-memory services of \<open>internal/session\<close>, \<open>internal/task\<close>,
    \<open>internal/idempotency\<close>; the contracts \<open>task_service\<close> and \<open>idempotency_store\<close> as locales.
  \<^item> Registry, PoolManager: \<open>internal/pool/registry.go\<close> and \<open>internal/pool/manager.go\<close>; the contract
    \<open>node_registry\<close>.
  \<^item> NodeClient: the HTTP and the gRPC client of \<open>internal/nodeclient\<close>.
  \<^item> TaskRunner, Worker, Attempts, RunnerQueue: \<open>internal/taskrunner/runner.go\<close>, in this order the
    parts without a queue, one attempt of a worker, what holds of every attempt, and the queue
    with its goroutines.
  \<^item> Http, ApiIdempotency, Security, Api, ApiTasks, ApiRoutes: \<open>pkg/httpx\<close> and \<open>internal/api\<close>.
  \<^item> Redis, RedisLease, RedisIdem: the commands, scripts and connections of a Redis server as the
    locale \<open>redis_server\<close>, and over any such server the lease manager of \<open>internal/lease/redis.go\<close>
    and the store of \<open>internal/idempotency/redis.go\<close>, which keep the contracts of the in-memory ones.
  \<^item> Connection, Postgres, PgTasks, PgService, PgRefines, PgProps, PgSessions: connections that lose
    requests or answers; the statements, schema and errors of \<open>internal/task/postgres_service.go\<close> and
    \<open>internal/session/postgres_service.go\<close>, their operations, the contracts they keep, and the
    refinement of the in-memory task service.
  \<^item> Egress, PlannedActions, Planner, StepPlanner, Cdp, ActionValues, Executor, Execution, NodeAgent: the
    node agent. The egress policy of \<open>main.go\<close>; the actions a plan may hold; the four planners of
    \<open>planner.go\<close> and the planner that gives one action per round; the DevTools client of
    \<open>internal/cdp\<close> as computations of the state monad; the values of actions and \<open>blocker.go\<close>; the
    executor of \<open>main.go\<close> and \<open>executor_ops.go\<close>, what holds of every execution, and the service
    over HTTP and gRPC together with the client of the orchestrator that calls it.
  \<^item> Config, Docker: \<open>internal/config/config.go\<close> with \<open>loadConfig\<close> of the agent, and the Docker
    provider of \<open>internal/pool/local_docker_provider.go\<close>, whose containers read it.
  \<^item> Metrics, Artifacts, Orchestrator: \<open>internal/api/metrics.go\<close>, \<open>internal/artifact/local_store.go\<close> over
    Clean and Join of a path, and \<open>cmd/orchestrator/main.go\<close> with the setters of
    \<open>internal/api/server.go\<close>, which builds all components from the configuration.
  \<^item> Pages, Mux: \<open>internal/api/dashboard.go\<close> and the files of the artifacts over the file server of
    \<open>net/http\<close>; the table of patterns that \<open>Routes\<close> of \<open>internal/api/server.go\<close> registers, the choice that
    ServeMux makes with it, and what holds of the whole server.
  \<^item> Humanizer, HumanProps: \<open>cmd/node-agent/humanize.go\<close> over any arithmetic and any generator of random
    numbers, and what its clicks, its typing and its scrolling do.
  \<^item> Agent: \<open>main\<close> of \<open>cmd/node-agent/main.go\<close> with the executor it builds, its registration and its
    heartbeats, composed with the server of the orchestrator.

  \<^bold>\<open>Conventions.\<close> A struct is a record, an error a value of a sum or an option, a map a partial
  function, an operation under a mutex one function from the state to the result and the new
  state. Readings of the clock and the order in which a map is visited are arguments. What other
  goroutines do while one waits is a state transformer at that place, or the goroutines are the
  steps of a relation. Loops that wait have a list of the rounds that take place; the polling
  loops of the DevTools client count the rounds that fit into their timeout, which the theory Cdp proves
  to be enough for the unbounded loop; every other loop is structural recursion over the list
  or the number the code counts, so all of them end and there is no fuel that could run out.

  \<^bold>\<open>What the lemmas show.\<close> Each theory proves the behaviour of its operations, then the
  invariants that all operations keep, then the properties of the component over them; where
  several providers share a contract, the client's facts are proved once in the locale of the
  contract and taken from its interpretation.

  \<^bold>\<open>Not modelled.\<close> Generated code; the listeners, signals and the shutdown of the processes; of \<open>net/http\<close>
  the wildcards of patterns, conditional and partial requests; the script text that runs in a page. The orchestrator runs the
  services on Postgres; the theories of the runner and the API work on the in-memory service, which
  the services on Postgres refine. Logging is left out everywhere.
\<close>

end
